(* ===== verification/Prelude.thy ===== *)
theory Prelude
  imports Main "HOL-Library.Sublist"
begin

text \<open>
  Shared vocabulary of the development: the Go values every component uses (times, durations,
  maps and the order in which a \<^verbatim>\<open>range\<close> loop visits them, bounded channels) and
  the generic lemmas the component theories rest on.

  \<^item> A \<^verbatim>\<open>time.Time\<close> is an integer number of nanoseconds, the zero time is 0, and
    every reading of the clock (\<^verbatim>\<open>time.Now()\<close>) is an argument of the operation that takes
    it. A \<^verbatim>\<open>time.Duration\<close> is an integer number of nanoseconds too.
  \<^item> A Go map is a map \<open>'k \<rightharpoonup> 'v\<close>. A \<^verbatim>\<open>range\<close> loop visits the entries in
    an order the language leaves open, so an operation that ranges over a map takes the order as an
    argument, and its lemmas hold for every list that enumerates the keys.
  \<^item> A method that holds the component's mutex from its first to its last access of the state is
    one atomic step, a function from the state to the new state and the result.
  \<^item> Output to the logger, which reads the state and changes nothing, is left out except where the
    log itself is the subject.
\<close>

section \<open>Collections of simplification rules\<close>

named_theorems go_map \<open>what a loop over a map does, entry by entry\<close>
named_theorems go_chan \<open>bounded channels\<close>
named_theorems durations \<open>the values of the duration constants\<close>

section \<open>Times and durations\<close>

type_synonym gotime = int
type_synonym duration = int

abbreviation (input) zero_time :: gotime where
  "zero_time \<equiv> 0"

abbreviation (input) IsZero :: "gotime \<Rightarrow> bool" where
  "IsZero t \<equiv> t = zero_time"

definition Millisecond :: duration where
  [durations]: "Millisecond = 1000000"

definition Second :: duration where
  [durations]: "Second = 1000 * Millisecond"

definition Minute :: duration where
  [durations]: "Minute = 60 * Second"

lemma Millisecond_pos [simp]: "0 < Millisecond"
  by (simp add: durations)

lemma Second_pos [simp]: "0 < Second"
  by (simp add: durations)

lemma Minute_pos [simp]: "0 < Minute"
  by (simp add: durations)

section \<open>Node identifiers\<close>

text \<open>\<^verbatim>\<open>types.NodeID\<close>, a string.\<close>

type_synonym NodeID = string

section \<open>Maps and the order of a range loop\<close>

definition enumerates :: "'k list \<Rightarrow> ('k \<rightharpoonup> 'v) \<Rightarrow> bool" where
  "enumerates ks m \<longleftrightarrow> distinct ks \<and> set ks = dom m"

lemma enumeratesD [dest]:
  "enumerates ks m \<Longrightarrow> distinct ks"
  "enumerates ks m \<Longrightarrow> set ks = dom m"
  by (simp_all add: enumerates_def)

lemma enumerates_finite: "enumerates ks m \<Longrightarrow> finite (dom m)"
  by (metis List.finite_set enumeratesD(2))

lemma enumerates_exists: "finite (dom m) \<Longrightarrow> \<exists>ks. enumerates ks m"
  unfolding enumerates_def by (metis finite_distinct_list)

lemma enumerates_length: "enumerates ks m \<Longrightarrow> length ks = card (dom m)"
  by (metis distinct_card enumeratesD(1) enumeratesD(2))

lemma enumerates_empty [simp]: "enumerates [] m \<longleftrightarrow> m = Map.empty"
  by (auto simp: enumerates_def)

text \<open>\<^verbatim>\<open>for k, v := range m { if P(k, v) { delete(m, k) } }\<close>\<close>

fun range_delete :: "('k \<Rightarrow> 'v \<Rightarrow> bool) \<Rightarrow> 'k list \<Rightarrow> ('k \<rightharpoonup> 'v) \<Rightarrow> ('k \<rightharpoonup> 'v)" where
  "range_delete P [] m = m"
| "range_delete P (k # ks) m =
     range_delete P ks
       (case m k of None \<Rightarrow> m | Some v \<Rightarrow> if P k v then m(k := None) else m)"

lemma range_delete_notin: "k \<notin> set ks \<Longrightarrow> range_delete P ks m k = m k"
  by (induction ks arbitrary: m) (auto split: option.splits)

lemma range_delete_in:
  "distinct ks \<Longrightarrow> k \<in> set ks \<Longrightarrow>
   range_delete P ks m k =
     (case m k of None \<Rightarrow> None | Some v \<Rightarrow> if P k v then None else Some v)"
proof (induction ks arbitrary: m)
  case Nil
  then show ?case by simp
next
  case (Cons a ks)
  show ?case
  proof (cases "k = a")
    case True
    with Cons.prems show ?thesis
      by (auto simp: range_delete_notin split: option.splits)
  next
    case False
    with Cons show ?thesis by (auto split: option.splits)
  qed
qed

text \<open>Whatever the order, the loop removes exactly the entries that satisfy the condition.\<close>

lemma range_delete_eq [go_map]:
  assumes "enumerates ks m"
  shows "range_delete P ks m =
    (\<lambda>k. case m k of None \<Rightarrow> None | Some v \<Rightarrow> if P k v then None else Some v)"
proof
  fix k
  show "range_delete P ks m k =
    (case m k of None \<Rightarrow> None | Some v \<Rightarrow> if P k v then None else Some v)"
  proof (cases "k \<in> set ks")
    case True
    with assms show ?thesis by (simp add: range_delete_in enumeratesD)
  next
    case False
    with assms have "m k = None" by (auto dest!: enumeratesD(2))
    with False show ?thesis by (simp add: range_delete_notin)
  qed
qed

text \<open>\<^verbatim>\<open>for k, v := range m { m[k] = f(k, v) }\<close>, in place on the values.\<close>

definition map_entries :: "('k \<Rightarrow> 'v \<Rightarrow> 'w) \<Rightarrow> ('k \<rightharpoonup> 'v) \<Rightarrow> ('k \<rightharpoonup> 'w)" where
  "map_entries f m = (\<lambda>k. map_option (f k) (m k))"

lemma map_entries_apply [simp]: "map_entries f m k = map_option (f k) (m k)"
  by (simp add: map_entries_def)

lemma dom_map_entries [simp]: "dom (map_entries f m) = dom m"
  by (auto simp: dom_def)

section \<open>Panics\<close>

text \<open>A call that may panic: the reason of the panic, or what the call returns.\<close>

datatype 'a outcome = Panic string | Return 'a

section \<open>Bounded channels\<close>

text \<open>
  A buffered channel is the list of the values in it, oldest first. A send inside a
  \<^verbatim>\<open>select\<close> with a \<^verbatim>\<open>default\<close> case drops the value when the buffer is full; a
  plain send waits, and is None while it has to.
\<close>

definition try_send :: "nat \<Rightarrow> 'a \<Rightarrow> 'a list \<Rightarrow> 'a list \<times> bool" where
  "try_send cap x ch = (if length ch < cap then (ch @ [x], True) else (ch, False))"

definition block_send :: "nat \<Rightarrow> 'a \<Rightarrow> 'a list \<Rightarrow> 'a list option" where
  "block_send cap x ch = (if length ch < cap then Some (ch @ [x]) else None)"

lemma try_send_bound [go_chan]:
  "length ch \<le> cap \<Longrightarrow> length (fst (try_send cap x ch)) \<le> cap"
  by (simp add: try_send_def)

lemma try_send_fst: "fst (try_send cap x ch) = (if length ch < cap then ch @ [x] else ch)"
  by (simp add: try_send_def)

lemma try_send_snd [simp]: "snd (try_send cap x ch) \<longleftrightarrow> length ch < cap"
  by (simp add: try_send_def)

lemma block_send_Some [go_chan]:
  "block_send cap x ch = Some ch' \<longleftrightarrow> length ch < cap \<and> ch' = ch @ [x]"
  by (auto simp: block_send_def)

lemma block_send_None [go_chan]: "block_send cap x ch = None \<longleftrightarrow> cap \<le> length ch"
  by (auto simp: block_send_def)

section \<open>Integer conversions\<close>

text \<open>Go's integer division truncates towards zero.\<close>

definition go_div :: "int \<Rightarrow> int \<Rightarrow> int" where
  "go_div a b = sgn a * sgn b * (\<bar>a\<bar> div \<bar>b\<bar>)"

lemma go_div_nonneg: "0 \<le> a \<Longrightarrow> 0 < b \<Longrightarrow> go_div a b = a div b"
  by (cases "a = 0") (simp_all add: go_div_def)

section \<open>Lists\<close>

lemma length_filter_le_card:
  "distinct xs \<Longrightarrow> length (filter P xs) = card {x \<in> set xs. P x}"
  by (metis distinct_card distinct_filter set_filter)

section \<open>Decimal numbers\<close>

text \<open>The decimal text of a number, as \<^verbatim>\<open>%d\<close> prints it, and reading it back.\<close>

definition digit :: "nat \<Rightarrow> char" where
  "digit d = char_of (48 + d)"

fun dec :: "nat \<Rightarrow> string" where
  "dec n = (if n < 10 then [digit n] else dec (n div 10) @ [digit (n mod 10)])"

declare dec.simps [simp del]

definition dec_int :: "int \<Rightarrow> string" where
  "dec_int i = (if i < 0 then CHR ''-'' # dec (nat (- i)) else dec (nat i))"

definition undec :: "string \<Rightarrow> nat" where
  "undec s = foldl (\<lambda>a c. a * 10 + (of_char c - 48)) 0 s"

lemma of_char_digit: "d < 10 \<Longrightarrow> (of_char (digit d) :: nat) = 48 + d"
  by (simp add: digit_def of_char_of take_bit_eq_mod)

lemma undec_dec: "undec (dec n) = n"
proof (induction n rule: dec.induct)
  case (1 n)
  show ?case
  proof (cases "n < 10")
    case True
    then show ?thesis by (simp add: dec.simps [of n] undec_def of_char_digit)
  next
    case False
    with 1 have "undec (dec (n div 10)) = n div 10" by simp
    with False show ?thesis by (simp add: dec.simps [of n] undec_def of_char_digit)
  qed
qed

lemma dec_inject [simp]: "dec m = dec n \<longleftrightarrow> m = n"
  by (metis undec_dec)

lemma minus_not_digit: "CHR ''-'' \<noteq> digit d" if "d < 10"
proof
  assume "CHR ''-'' = digit d"
  then have "(of_char (CHR ''-'') :: nat) = of_char (digit d)" by (rule arg_cong)
  with that show False by (simp add: of_char_digit)
qed

lemma dec_not_minus: "dec n \<noteq> CHR ''-'' # t"
proof (induction n arbitrary: t rule: dec.induct)
  case (1 n)
  show ?case
  proof (cases "n < 10")
    case True
    then show ?thesis using minus_not_digit [OF True] by (auto simp: dec.simps [of n])
  next
    case False
    have "dec (n div 10) \<noteq> []" by (subst dec.simps) simp
    then obtain a as where a: "dec (n div 10) = a # as" by (cases "dec (n div 10)") auto
    with 1 False have "a \<noteq> CHR ''-''" by auto
    with a False show ?thesis by (simp add: dec.simps [of n])
  qed
qed

lemma dec_int_inject [simp]: "dec_int i = dec_int j \<longleftrightarrow> i = j"
proof
  assume eq: "dec_int i = dec_int j"
  show "i = j"
  proof (cases "i < 0 \<longleftrightarrow> j < 0")
    case True
    with eq show ?thesis by (auto simp: dec_int_def split: if_splits)
  next
    case False
    with eq show ?thesis using dec_not_minus dec_not_minus [symmetric]
      by (fastforce simp: dec_int_def split: if_splits)
  qed
qed simp

end
