(* ===== verification/GoPath.thy ===== *)
theory GoPath
  imports Prelude
begin

text \<open>
  What the program uses of Go's \<^verbatim>\<open>strings\<close> and \<^verbatim>\<open>path\<close> packages
  (\<^verbatim>\<open>path/filepath\<close> behaves as \<^verbatim>\<open>path\<close> on Unix). A Go string is its list of
  bytes. \<open>Clean\<close> works on the elements between slashes: it drops empty elements and \<open>.\<close>,
  lets \<open>..\<close> remove the element before it, and drops \<open>..\<close> at the root. The lemmas give the
  normal form of a cleaned rooted path (\<open>abs_path xs\<close>, a slash and the elements joined by
  slashes), that cleaning is idempotent, and what \<open>Dir\<close> and \<open>Base\<close> return on it.
\<close>

section \<open>Strings\<close>

abbreviation slash :: char where
  "slash \<equiv> CHR ''/''"

abbreviation HasPrefix :: "string \<Rightarrow> string \<Rightarrow> bool" where
  "HasPrefix s p \<equiv> prefix p s"

abbreviation HasSuffix :: "string \<Rightarrow> string \<Rightarrow> bool" where
  "HasSuffix s p \<equiv> suffix p s"

definition TrimPrefix :: "string \<Rightarrow> string \<Rightarrow> string" where
  "TrimPrefix s p = (if HasPrefix s p then drop (length p) s else s)"

definition TrimSuffix :: "string \<Rightarrow> string \<Rightarrow> string" where
  "TrimSuffix s p = (if HasSuffix s p then take (length s - length p) s else s)"

text \<open>\<^verbatim>\<open>strings.Split(s, sep)\<close> for a separator of one byte.\<close>

fun split_on :: "char \<Rightarrow> string \<Rightarrow> string list" where
  "split_on c [] = [[]]"
| "split_on c (x # xs) =
     (if x = c then [] # split_on c xs
      else (case split_on c xs of [] \<Rightarrow> [[x]] | y # ys \<Rightarrow> (x # y) # ys))"

text \<open>\<^verbatim>\<open>strings.Join(xs, sep)\<close>.\<close>

fun join_with :: "string \<Rightarrow> string list \<Rightarrow> string" where
  "join_with sep [] = []"
| "join_with sep [x] = x"
| "join_with sep (x # y # ys) = x @ sep @ join_with sep (y # ys)"

section \<open>Package path\<close>

text \<open>
  One element of a path against the stack of the elements kept so far, innermost first.
\<close>

definition clean_push :: "bool \<Rightarrow> string list \<Rightarrow> string \<Rightarrow> string list" where
  "clean_push rooted st e =
     (if e = [] \<or> e = ''.'' then st
      else if e = ''..'' then
        (case st of
           [] \<Rightarrow> if rooted then [] else [''..'']
         | t # ts \<Rightarrow> if t = ''..'' then ''..'' # st else ts)
      else e # st)"

definition clean_elems :: "bool \<Rightarrow> string list \<Rightarrow> string list" where
  "clean_elems rooted es = rev (foldl (clean_push rooted) [] es)"

definition abs_path :: "string list \<Rightarrow> string" where
  "abs_path xs = slash # join_with [slash] xs"

definition is_rooted :: "string \<Rightarrow> bool" where
  "is_rooted p \<longleftrightarrow> (case p of [] \<Rightarrow> False | c # _ \<Rightarrow> c = slash)"

definition Clean :: "string \<Rightarrow> string" where
  "Clean p =
     (if p = [] then ''.''
      else if is_rooted p then abs_path (clean_elems True (split_on slash p))
      else (let body = join_with [slash] (clean_elems False (split_on slash p))
            in if body = [] then ''.'' else body))"

text \<open>The directory part of \<^verbatim>\<open>path.Split\<close>: up to and including the last slash.\<close>

definition dir_part :: "string \<Rightarrow> string" where
  "dir_part p = rev (dropWhile (\<lambda>c. c \<noteq> slash) (rev p))"

definition Dir :: "string \<Rightarrow> string" where
  "Dir p = Clean (dir_part p)"

definition strip_slashes :: "string \<Rightarrow> string" where
  "strip_slashes p = rev (dropWhile (\<lambda>c. c = slash) (rev p))"

definition last_elem :: "string \<Rightarrow> string" where
  "last_elem p = rev (takeWhile (\<lambda>c. c \<noteq> slash) (rev p))"

definition Base :: "string \<Rightarrow> string" where
  "Base p =
     (if p = [] then ''.''
      else (let r = last_elem (strip_slashes p) in if r = [] then [slash] else r))"

text \<open>\<^verbatim>\<open>path.Join\<close>: the non-empty elements joined and cleaned, \<open>[]\<close> when there are none.\<close>

definition Join :: "string list \<Rightarrow> string" where
  "Join xs =
     (let ys = filter (\<lambda>x. x \<noteq> []) xs
      in if ys = [] then [] else Clean (join_with [slash] ys))"

section \<open>Elements and normal forms\<close>

definition is_elem :: "string \<Rightarrow> bool" where
  "is_elem e \<longleftrightarrow> e \<noteq> [] \<and> e \<noteq> ''.'' \<and> slash \<notin> set e"

definition is_name :: "string \<Rightarrow> bool" where
  "is_name e \<longleftrightarrow> is_elem e \<and> e \<noteq> ''..''"

lemma is_nameI_chars: "e \<noteq> [] \<Longrightarrow> CHR ''.'' \<notin> set e \<Longrightarrow> slash \<notin> set e \<Longrightarrow> is_name e"
  by (auto simp: is_name_def is_elem_def)

lemma is_name_elem [simp]: "is_name e \<Longrightarrow> is_elem e"
  by (simp add: is_name_def)

lemma split_on_nonempty [simp]: "split_on c s \<noteq> []"
  by (cases s) (auto split: list.splits)

lemma split_on_no_sep: "c \<notin> set s \<Longrightarrow> split_on c s = [s]"
  by (induction s) auto

lemma split_on_elems: "e \<in> set (split_on c s) \<Longrightarrow> c \<notin> set e"
  by (induction s arbitrary: e) (auto split: if_splits list.splits)

lemma split_on_append_sep: "split_on c (s @ c # t) = split_on c s @ split_on c t"
proof (induction s)
  case Nil
  then show ?case by simp
next
  case (Cons x s)
  obtain y ys where "split_on c s = y # ys"
    by (cases "split_on c s") auto
  with Cons show ?case by simp
qed

lemma split_on_join:
  "xs \<noteq> [] \<Longrightarrow> (\<And>x. x \<in> set xs \<Longrightarrow> c \<notin> set x) \<Longrightarrow> split_on c (join_with [c] xs) = xs"
proof (induction "[c]" xs rule: join_with.induct)
  case 1
  then show ?case by simp
next
  case (2 x)
  then show ?case by (simp add: split_on_no_sep)
next
  case (3 x y ys)
  then show ?case
    using split_on_append_sep [of c x "join_with [c] (y # ys)"]
    by (simp add: split_on_no_sep)
qed

lemma join_with_eq_Nil: "(\<And>x. x \<in> set xs \<Longrightarrow> x \<noteq> []) \<Longrightarrow> join_with sep xs = [] \<longleftrightarrow> xs = []"
  by (induction sep xs rule: join_with.induct) auto

lemma join_with_snoc:
  "join_with sep (xs @ [x]) = (if xs = [] then x else join_with sep xs @ sep @ x)"
  by (induction sep xs rule: join_with.induct) auto

subsection \<open>What cleaning keeps\<close>

lemma clean_push_set: "t \<in> set (clean_push r st e) \<Longrightarrow> t \<in> set st \<or> t = e \<or> t = ''..'' \<and> \<not> (r \<and> ''..'' \<notin> set st)"
  by (auto simp: clean_push_def split: if_splits list.splits)

lemma clean_push_drops: "t \<in> set (clean_push r st e) \<Longrightarrow> t \<notin> set st \<Longrightarrow> t \<noteq> [] \<and> t \<noteq> ''.''"
  by (auto simp: clean_push_def split: if_splits list.splits)

lemma clean_push_True_dots: "''..'' \<notin> set st \<Longrightarrow> ''..'' \<notin> set (clean_push True st e)"
  by (auto simp: clean_push_def split: if_splits list.splits)

lemma foldl_push_elems:
  "(\<And>e. e \<in> set es \<Longrightarrow> slash \<notin> set e) \<Longrightarrow> (\<And>t. t \<in> set st \<Longrightarrow> is_elem t) \<Longrightarrow>
   t \<in> set (foldl (clean_push r) st es) \<Longrightarrow> is_elem t"
proof (induction es arbitrary: st)
  case Nil
  then show ?case by simp
next
  case (Cons e es)
  have "is_elem t'" if "t' \<in> set (clean_push r st e)" for t'
    using clean_push_set [OF that] clean_push_drops [OF that] Cons.prems(1)[of e]
      Cons.prems(2)[of t'] by (auto simp: is_elem_def)
  then show ?case using Cons.IH [of "clean_push r st e"] Cons.prems(1,3) by simp
qed

lemma foldl_push_names:
  "(\<And>e. e \<in> set es \<Longrightarrow> slash \<notin> set e) \<Longrightarrow> (\<And>t. t \<in> set st \<Longrightarrow> is_name t) \<Longrightarrow>
   t \<in> set (foldl (clean_push True) st es) \<Longrightarrow> is_name t"
proof (induction es arbitrary: st)
  case Nil
  then show ?case by simp
next
  case (Cons e es)
  have "is_name t'" if "t' \<in> set (clean_push True st e)" for t'
    using clean_push_set [OF that] clean_push_drops [OF that] Cons.prems(1)[of e]
      Cons.prems(2)[of t'] Cons.prems(2)[of "''..''"] clean_push_True_dots [of st e] that
    by (auto simp: is_elem_def is_name_def)
  then show ?case using Cons.IH [of "clean_push True st e"] Cons.prems(1,3) by simp
qed

lemma clean_elems_names: "e \<in> set (clean_elems True (split_on slash p)) \<Longrightarrow> is_name e"
  unfolding clean_elems_def
  by (metis empty_iff empty_set foldl_push_names set_rev split_on_elems)

lemma clean_elems_elems: "e \<in> set (clean_elems r (split_on slash p)) \<Longrightarrow> is_elem e"
  unfolding clean_elems_def
  by (metis empty_iff empty_set foldl_push_elems set_rev split_on_elems)

lemma foldl_push_id:
  "(\<And>e. e \<in> set es \<Longrightarrow> is_name e) \<Longrightarrow> foldl (clean_push r) st es = rev es @ st"
  by (induction es arbitrary: st) (auto simp: clean_push_def is_name_def is_elem_def)

lemma clean_elems_id: "(\<And>e. e \<in> set es \<Longrightarrow> is_name e) \<Longrightarrow> clean_elems r es = es"
  by (simp add: clean_elems_def foldl_push_id)

lemma clean_elems_snoc_name:
  "is_name e \<Longrightarrow> clean_elems r (es @ [e]) = clean_elems r es @ [e]"
  by (simp add: clean_elems_def clean_push_def is_name_def is_elem_def)

lemma clean_elems_snoc_empty: "clean_elems r (es @ [[]]) = clean_elems r es"
  by (simp add: clean_elems_def clean_push_def)

lemma clean_elems_Cons_empty: "clean_elems r ([] # es) = clean_elems r es"
  by (simp add: clean_elems_def clean_push_def)

subsection \<open>Rooted paths\<close>

definition names :: "string list \<Rightarrow> bool" where
  "names xs \<longleftrightarrow> (\<forall>x\<in>set xs. is_name x)"

lemma names_simps [simp]:
  "names []"
  "names (x # xs) \<longleftrightarrow> is_name x \<and> names xs"
  "names (xs @ ys) \<longleftrightarrow> names xs \<and> names ys"
  by (auto simp: names_def)

lemma is_rooted_simps [simp]:
  "\<not> is_rooted []"
  "is_rooted (c # p) \<longleftrightarrow> c = slash"
  by (auto simp: is_rooted_def)

lemma is_rooted_append: "is_rooted p \<Longrightarrow> is_rooted (p @ q)"
  by (cases p) auto

lemma abs_path_rooted [simp]: "is_rooted (abs_path xs)"
  by (simp add: abs_path_def)

lemma abs_path_not_Nil [simp]: "abs_path xs \<noteq> []"
  by (simp add: abs_path_def)

lemma abs_path_Nil [simp]: "abs_path [] = [slash]"
  by (simp add: abs_path_def)

lemma abs_path_snoc: "xs \<noteq> [] \<Longrightarrow> abs_path (xs @ [x]) = abs_path xs @ [slash] @ x"
  by (simp add: abs_path_def join_with_snoc)

lemma split_abs_path:
  assumes "names xs"
  shows "split_on slash (abs_path xs) = [] # (if xs = [] then [[]] else xs)"
proof (cases "xs = []")
  case True
  then show ?thesis by (simp add: abs_path_def)
next
  case False
  with assms have "split_on slash (join_with [slash] xs) = xs"
    by (intro split_on_join) (auto simp: names_def is_name_def is_elem_def)
  with False show ?thesis by (simp add: abs_path_def)
qed

lemma clean_elems_abs_path:
  assumes "names xs"
  shows "clean_elems True (split_on slash (abs_path xs)) = xs"
proof (cases "xs = []")
  case True
  then show ?thesis
    using clean_elems_snoc_empty [of True "[[]]"] clean_elems_snoc_empty [of True "[]"]
    by (simp add: split_abs_path clean_elems_def)
next
  case False
  with assms show ?thesis
    by (simp add: split_abs_path clean_elems_Cons_empty) (meson clean_elems_id names_def)
qed

lemma Clean_abs_path [simp]: "names xs \<Longrightarrow> Clean (abs_path xs) = abs_path xs"
  by (simp add: Clean_def clean_elems_abs_path)

lemma Clean_rooted:
  assumes "is_rooted p"
  obtains xs where "names xs" and "Clean p = abs_path xs"
proof
  show "names (clean_elems True (split_on slash p))"
    by (auto simp: names_def intro: clean_elems_names)
  from assms have "p \<noteq> []" by auto
  with assms show "Clean p = abs_path (clean_elems True (split_on slash p))"
    by (simp add: Clean_def)
qed

lemma abs_path_inject:
  assumes "names xs" "names ys" "abs_path xs = abs_path ys"
  shows "xs = ys"
  by (metis assms clean_elems_abs_path)

lemma abs_path_eq_root [simp]: "names xs \<Longrightarrow> abs_path xs = [slash] \<longleftrightarrow> xs = []"
  by (metis abs_path_Nil abs_path_inject names_simps(1))

text \<open>A trailing slash changes nothing for \<open>Clean\<close>.\<close>

lemma Clean_snoc_slash: "p \<noteq> [] \<Longrightarrow> Clean (p @ [slash]) = Clean p"
  using split_on_append_sep [of slash p "[]"]
    clean_elems_snoc_empty [of True "split_on slash p"]
    clean_elems_snoc_empty [of False "split_on slash p"]
  by (cases p) (auto simp: Clean_def)

subsection \<open>Cleaning is idempotent\<close>

lemma clean_push_dots:
  "clean_push False (replicate n ''..'') ''..'' = replicate (Suc n) ''..''"
  by (cases n) (auto simp: clean_push_def)

text \<open>The kept elements of a relative path: some \<open>..\<close>, then names.\<close>

definition dots_names :: "string list \<Rightarrow> bool" where
  "dots_names st \<longleftrightarrow> (\<exists>n xs. names xs \<and> st = xs @ replicate n ''..'')"

lemma dots_namesI: "names xs \<Longrightarrow> dots_names (xs @ replicate n ''..'')"
  by (auto simp: dots_names_def)

lemma clean_push_dots_names:
  assumes "dots_names st" "slash \<notin> set e"
  shows "dots_names (clean_push False st e)"
proof -
  from assms obtain n xs where xs: "names xs" and st: "st = xs @ replicate n ''..''"
    by (auto simp: dots_names_def)
  consider "e = [] \<or> e = ''.''" | "e = ''..''" | "is_name e"
    using assms(2) by (auto simp: is_name_def is_elem_def)
  then show ?thesis
  proof cases
    case 1
    with assms(1) show ?thesis by (auto simp: clean_push_def)
  next
    case 2
    show ?thesis
    proof (cases xs)
      case Nil
      with 2 st have "clean_push False st e = [] @ replicate (Suc n) ''..''"
        using clean_push_dots [of n] by simp
      then show ?thesis by (metis dots_namesI names_simps(1))
    next
      case (Cons x xs')
      with 2 st xs have "clean_push False st e = xs' @ replicate n ''..''"
        by (auto simp: clean_push_def is_name_def)
      with xs Cons show ?thesis by (auto intro: dots_namesI)
    qed
  next
    case 3
    with st have "clean_push False st e = (e # xs) @ replicate n ''..''"
      by (auto simp: clean_push_def is_name_def is_elem_def)
    with xs 3 show ?thesis by (metis dots_namesI names_simps(2))
  qed
qed

lemma foldl_dots_names:
  "(\<And>e. e \<in> set es \<Longrightarrow> slash \<notin> set e) \<Longrightarrow> dots_names st \<Longrightarrow>
   dots_names (foldl (clean_push False) st es)"
  by (induction es arbitrary: st) (auto intro: clean_push_dots_names)

lemma foldl_push_replicate:
  "foldl (clean_push False) (replicate k ''..'') (replicate n ''..'') = replicate (k + n) ''..''"
proof (induction n arbitrary: k)
  case 0
  then show ?case by simp
next
  case (Suc n)
  have "foldl (clean_push False) (replicate (Suc k) ''..'') (replicate n ''..'') =
      replicate (Suc k + n) ''..''"
    by (rule Suc.IH)
  then show ?case using clean_push_dots [of k] by simp
qed

lemma foldl_push_rev_dots_names:
  assumes "dots_names st"
  shows "foldl (clean_push False) [] (rev st) = st"
proof -
  from assms obtain n xs where xs: "names xs" and st: "st = xs @ replicate n ''..''"
    by (auto simp: dots_names_def)
  then have "foldl (clean_push False) [] (rev st) =
      foldl (clean_push False) (replicate n ''..'') (rev xs)"
    using foldl_push_replicate [of 0 n] by simp
  also have "\<dots> = st"
    using xs st by (subst foldl_push_id) (auto simp: names_def)
  finally show ?thesis .
qed

lemma clean_elems_idem: "clean_elems False (clean_elems False (split_on slash p)) =
    clean_elems False (split_on slash p)"
proof -
  have "dots_names (foldl (clean_push False) [] (split_on slash p))"
    by (rule foldl_dots_names) (auto simp: dots_names_def dest: split_on_elems)
  then show ?thesis by (simp add: clean_elems_def foldl_push_rev_dots_names)
qed

lemma Clean_dot [simp]: "Clean ''.'' = ''.''"
  by (simp add: Clean_def clean_elems_def clean_push_def)

theorem Clean_idem: "Clean (Clean p) = Clean p"
proof (cases "is_rooted p")
  case True
  then obtain xs where "names xs" "Clean p = abs_path xs" by (rule Clean_rooted)
  then show ?thesis by simp
next
  case False
  define es where "es = clean_elems False (split_on slash p)"
  have el: "is_elem e" if "e \<in> set es" for e
    using that clean_elems_elems es_def by blast
  show ?thesis
  proof (cases "p = [] \<or> es = []")
    case True
    with False have "Clean p = ''.''"
      by (auto simp: Clean_def es_def)
    then show ?thesis by simp
  next
    case ne: False
    then have j: "join_with [slash] es \<noteq> []"
      by (subst join_with_eq_Nil) (auto dest: el simp: is_elem_def)
    have split: "split_on slash (join_with [slash] es) = es"
      using ne el by (intro split_on_join) (auto simp: is_elem_def)
    have "\<not> is_rooted (join_with [slash] es)"
    proof
      assume "is_rooted (join_with [slash] es)"
      then obtain q where "join_with [slash] es = slash # q"
        by (cases "join_with [slash] es") auto
      with split have "[] \<in> set es" by (metis list.set_intros(1) split_on.simps(2))
      with el show False by (auto simp: is_elem_def)
    qed
    moreover have "Clean p = join_with [slash] es"
      using False ne j by (simp add: Clean_def es_def)
    ultimately show ?thesis
      using j split clean_elems_idem [of p] by (simp add: Clean_def es_def)
  qed
qed

subsection \<open>Dir and Base on cleaned paths\<close>

lemma dir_part_snoc_slash: "dir_part (p @ [slash]) = p @ [slash]"
  by (simp add: dir_part_def)

text \<open>\<open>Dir\<close> of a path with a trailing slash is the cleaned path itself, not its parent.\<close>

lemma Dir_snoc_slash: "p \<noteq> [] \<Longrightarrow> Dir (p @ [slash]) = Clean p"
  by (simp add: Dir_def dir_part_snoc_slash Clean_snoc_slash)

lemma dropWhile_rev_name:
  "slash \<notin> set x \<Longrightarrow> dropWhile (\<lambda>c. c \<noteq> slash) (rev x @ slash # p) = slash # p"
  by (subst dropWhile_append2) auto

lemma takeWhile_rev_name:
  "slash \<notin> set x \<Longrightarrow> takeWhile (\<lambda>c. c \<noteq> slash) (rev x @ slash # p) = rev x"
  by (subst takeWhile_append2) auto

lemma dir_part_name: "slash \<notin> set x \<Longrightarrow> dir_part (p @ slash # x) = p @ [slash]"
  by (simp add: dir_part_def dropWhile_rev_name)

lemma abs_path_split:
  "abs_path (xs @ [x]) = (if xs = [] then [] else abs_path xs) @ slash # x"
  by (simp add: abs_path_def join_with_snoc)

lemma Dir_abs_path_snoc [simp]:
  assumes "names xs" "is_name x"
  shows "Dir (abs_path (xs @ [x])) = abs_path xs"
proof -
  from assms have x: "slash \<notin> set x" by (simp add: is_name_def is_elem_def)
  have "dir_part (abs_path (xs @ [x])) = (if xs = [] then [] else abs_path xs) @ [slash]"
    using x by (simp add: abs_path_split dir_part_name)
  with assms show ?thesis
    using Clean_abs_path [of "[]"]
    by (auto simp: Dir_def Clean_snoc_slash)
qed

lemma Dir_root [simp]: "Dir [slash] = [slash]"
  using Clean_abs_path [of "[]"] by (simp add: Dir_def dir_part_def)

lemma Dir_abs_path:
  "names xs \<Longrightarrow> Dir (abs_path xs) = abs_path (butlast xs)"
  by (cases xs rule: rev_cases) auto

lemma Base_abs_path_snoc [simp]:
  assumes "is_name x"
  shows "Base (abs_path (xs @ [x])) = x"
proof -
  from assms have x: "slash \<notin> set x" "x \<noteq> []" by (auto simp: is_name_def is_elem_def)
  then obtain y c where yc: "x = y @ [c]" by (metis append_butlast_last_id)
  with x have "c \<noteq> slash" by auto
  then have "strip_slashes (abs_path (xs @ [x])) = abs_path (xs @ [x])"
    using yc by (simp add: strip_slashes_def abs_path_split)
  with x show ?thesis
    by (simp add: Base_def last_elem_def abs_path_split takeWhile_rev_name)
qed

lemma Base_root [simp]: "Base [slash] = [slash]"
  by (simp add: Base_def strip_slashes_def last_elem_def)

text \<open>The parent of a rooted cleaned path other than the root is shorter.\<close>

lemma length_abs_path_snoc: "is_name x \<Longrightarrow> length (abs_path xs) < length (abs_path (xs @ [x]))"
  by (auto simp: abs_path_def join_with_snoc is_name_def is_elem_def)

lemma abs_path_last_not_slash:
  assumes "names xs" "xs \<noteq> []"
  shows "last (abs_path xs) \<noteq> slash"
proof -
  from assms obtain ys y where y: "xs = ys @ [y]" "is_name y"
    by (metis append_butlast_last_id last_in_set names_def)
  then have "y \<noteq> []" "slash \<notin> set y" by (auto simp: is_name_def is_elem_def)
  then have "last y \<noteq> slash" using last_in_set by metis
  with y \<open>y \<noteq> []\<close> show ?thesis by (simp add: abs_path_split)
qed

text \<open>Only the root ends in a slash once cleaned.\<close>

lemma last_join_with:
  assumes "xs \<noteq> []" "\<And>x. x \<in> set xs \<Longrightarrow> is_elem x"
  shows "join_with [slash] xs \<noteq> [] \<and> last (join_with [slash] xs) \<noteq> slash"
proof -
  obtain ys y where y: "xs = ys @ [y]" using assms(1) by (metis rev_exhaust)
  then have "is_elem y" using assms(2) by simp
  then have "y \<noteq> []" "last y \<noteq> slash" by (auto simp: is_elem_def dest: last_in_set)
  with y show ?thesis by (simp add: join_with_snoc)
qed

lemma Clean_not_Nil [simp]: "Clean p \<noteq> []"
  by (auto simp: Clean_def Let_def)

lemma Clean_last:
  assumes "Clean p \<noteq> [slash]"
  shows "last (Clean p) \<noteq> slash"
proof (cases "is_rooted p")
  case True
  then obtain xs where "names xs" "Clean p = abs_path xs" by (rule Clean_rooted)
  with assms show ?thesis by (metis abs_path_Nil abs_path_last_not_slash)
next
  case False
  define es where "es = clean_elems False (split_on slash p)"
  have "last (join_with [slash] es) \<noteq> slash" if "es \<noteq> []"
    using last_join_with [OF that] clean_elems_elems es_def by blast
  with False show ?thesis by (cases "es = []") (auto simp: Clean_def Let_def es_def)
qed

end
