(* ===== verification/Errors.thy ===== *)
theory Errors
  imports Prelude
begin

text \<open>
  The system error type of \<^verbatim>\<open>common/errors\<close>: the error codes, the \<^verbatim>\<open>Error\<close>
  struct with its cause chain, its constructors and the functions that read a code or a message
  from an arbitrary error. An \<^verbatim>\<open>error\<close> value is one of

  \<^item> \<open>SysErr code message metadata cause\<close>, a \<^verbatim>\<open>*errors.Error\<close>; its metadata map is a
    reference (None is the nil map) into a heap of maps, because \<open>Wrap\<close> copies the reference;
  \<^item> \<open>PlainErr text\<close>, an error of \<^verbatim>\<open>errors.New\<close> or of a library;
  \<^item> \<open>WrapErr text inner\<close>, the result of \<^verbatim>\<open>fmt.Errorf\<close> with a \<^verbatim>\<open>%w\<close> verb,
    where \<open>text\<close> is the whole formatted message.

  The nil error is the None of \<open>go_error option\<close>. The Chinese message texts of the source are
  replaced by English ones, here and in every other theory: theories are ASCII.
\<close>

section \<open>Error codes\<close>

type_synonym ErrorCode = int

abbreviation (input) Unknown :: ErrorCode where "Unknown \<equiv> 1"
abbreviation (input) Internal :: ErrorCode where "Internal \<equiv> 2"
abbreviation (input) InvalidArgument :: ErrorCode where "InvalidArgument \<equiv> 3"
abbreviation (input) NotFound :: ErrorCode where "NotFound \<equiv> 4"
abbreviation (input) AlreadyExists :: ErrorCode where "AlreadyExists \<equiv> 5"
abbreviation (input) PermissionDenied :: ErrorCode where "PermissionDenied \<equiv> 6"
abbreviation (input) Unauthenticated :: ErrorCode where "Unauthenticated \<equiv> 7"
abbreviation (input) ResourceExhausted :: ErrorCode where "ResourceExhausted \<equiv> 8"
abbreviation (input) Unavailable :: ErrorCode where "Unavailable \<equiv> 9"
abbreviation (input) Timeout :: ErrorCode where "Timeout \<equiv> 10"
abbreviation (input) RateLimitExceeded :: ErrorCode where "RateLimitExceeded \<equiv> 11"
abbreviation (input) ConfigParseError :: ErrorCode where "ConfigParseError \<equiv> 1000"
abbreviation (input) ConfigValidationError :: ErrorCode where "ConfigValidationError \<equiv> 1001"
abbreviation (input) NetworkError :: ErrorCode where "NetworkError \<equiv> 1100"
abbreviation (input) ConnectionError :: ErrorCode where "ConnectionError \<equiv> 1101"
abbreviation (input) StorageError :: ErrorCode where "StorageError \<equiv> 1200"
abbreviation (input) DataCorruption :: ErrorCode where "DataCorruption \<equiv> 1201"
abbreviation (input) FileNotFound :: ErrorCode where "FileNotFound \<equiv> 1210"
abbreviation (input) FileAlreadyExists :: ErrorCode where "FileAlreadyExists \<equiv> 1211"
abbreviation (input) QuotaExceeded :: ErrorCode where "QuotaExceeded \<equiv> 1212"
abbreviation (input) ConsensusError :: ErrorCode where "ConsensusError \<equiv> 1300"
abbreviation (input) QuorumNotAchieved :: ErrorCode where "QuorumNotAchieved \<equiv> 1301"
abbreviation (input) SecurityError :: ErrorCode where "SecurityError \<equiv> 1400"
abbreviation (input) CryptoError :: ErrorCode where "CryptoError \<equiv> 1401"
abbreviation (input) AuthenticationError :: ErrorCode where "AuthenticationError \<equiv> 1402"
abbreviation (input) TokenError :: ErrorCode where "TokenError \<equiv> 1403"
abbreviation (input) RPCFailure :: ErrorCode where "RPCFailure \<equiv> 1500"
abbreviation (input) NodeUnavailable :: ErrorCode where "NodeUnavailable \<equiv> 1501"
abbreviation (input) ConsistencyFailed :: ErrorCode where "ConsistencyFailed \<equiv> 1502"
abbreviation (input) ReplicationFailed :: ErrorCode where "ReplicationFailed \<equiv> 1503"
abbreviation (input) PartitionError :: ErrorCode where "PartitionError \<equiv> 1504"

definition codeText :: "(ErrorCode \<times> string) list" where
  "codeText =
    [(Unknown, ''unknown error''), (Internal, ''internal system error''),
     (InvalidArgument, ''invalid argument''), (NotFound, ''resource not found''),
     (AlreadyExists, ''resource already exists''), (PermissionDenied, ''permission denied''),
     (Unauthenticated, ''not authenticated''), (ResourceExhausted, ''resource exhausted''),
     (Unavailable, ''service unavailable''), (Timeout, ''operation timed out''),
     (RateLimitExceeded, ''rate limit exceeded''),
     (ConfigParseError, ''config parse error''),
     (ConfigValidationError, ''config validation error''),
     (NetworkError, ''network error''), (ConnectionError, ''connection error''),
     (StorageError, ''storage error''), (DataCorruption, ''data corrupted''),
     (FileNotFound, ''file not found''), (FileAlreadyExists, ''file already exists''),
     (QuotaExceeded, ''quota exceeded''), (ConsensusError, ''consensus error''),
     (QuorumNotAchieved, ''quorum not achieved''), (SecurityError, ''security error''),
     (CryptoError, ''encryption or decryption error''),
     (AuthenticationError, ''authentication error''), (TokenError, ''token error''),
     (RPCFailure, ''rpc call failed''), (NodeUnavailable, ''node unavailable''),
     (ConsistencyFailed, ''consistency check failed''),
     (ReplicationFailed, ''replication failed''), (PartitionError, ''partition error'')]"

definition Text :: "ErrorCode \<Rightarrow> string" where
  "Text e = (case map_of codeText e of Some text \<Rightarrow> text | None \<Rightarrow> the (map_of codeText Unknown))"

section \<open>Errors and their chains\<close>

type_synonym metadata_ref = nat

datatype go_error =
    SysErr (Code: ErrorCode) (Message: string) (Metadata: "metadata_ref option")
      (Cause: "go_error option")
  | PlainErr string
  | WrapErr string go_error

text \<open>
  The functions \<^verbatim>\<open>New\<close> and \<^verbatim>\<open>Newf\<close>: the message is the formatted one
  (\<^verbatim>\<open>fmt.Sprintf\<close> applied by the caller of the model), the text of the code when it is
  empty.
\<close>

definition New :: "ErrorCode \<Rightarrow> string \<Rightarrow> go_error" where
  "New code message = SysErr code (if message = [] then Text code else message) None None"

text \<open>\<^verbatim>\<open>errors.Unwrap\<close> and \<^verbatim>\<open>errors.As\<close> with a \<^verbatim>\<open>*Error\<close> target: the first
  system error of the chain.\<close>

fun Unwrap :: "go_error \<Rightarrow> go_error option" where
  "Unwrap (SysErr _ _ _ cause) = cause"
| "Unwrap (PlainErr _) = None"
| "Unwrap (WrapErr _ e) = Some e"

fun as_Error :: "go_error \<Rightarrow> go_error option" where
  "as_Error (SysErr c m md cause) = Some (SysErr c m md cause)"
| "as_Error (PlainErr _) = None"
| "as_Error (WrapErr _ e) = as_Error e"

definition Wrap :: "go_error option \<Rightarrow> ErrorCode \<Rightarrow> string \<Rightarrow> go_error" where
  "Wrap err code message =
     (case err of
        None \<Rightarrow> New code message
      | Some er \<Rightarrow>
          (case as_Error er of
             Some e \<Rightarrow>
               if message = [] then SysErr code (Message e) (Metadata e) (Cause e)
               else SysErr code message (Metadata e) (Cause e)
           | None \<Rightarrow> SysErr code (if message = [] then Text code else message) None (Some er)))"

text \<open>The \<^verbatim>\<open>Error()\<close> method of an error value.\<close>

fun Error :: "go_error \<Rightarrow> string" where
  "Error (SysErr _ m _ None) = m"
| "Error (SysErr _ m _ (Some c)) = m @ '': '' @ Error c"
| "Error (PlainErr t) = t"
| "Error (WrapErr t _) = t"

text \<open>\<^verbatim>\<open>fmt.Errorf(text + ": %w", err)\<close>.\<close>

definition Errorf_w :: "string \<Rightarrow> go_error \<Rightarrow> go_error" where
  "Errorf_w text err = WrapErr (text @ '': '' @ Error err) err"

fun Is :: "go_error \<Rightarrow> go_error \<Rightarrow> bool" where
  "Is (SysErr c _ _ _) (SysErr c' _ _ _) = (c = c')"
| "Is _ _ = False"

text \<open>
  \<^verbatim>\<open>errors.Is\<close> of the standard library: some error of the chain is the target itself or
  says so in its \<open>Is\<close> method. A sentinel of \<^verbatim>\<open>errors.New\<close> is identified by its text.
\<close>

fun errors_Is :: "go_error \<Rightarrow> go_error \<Rightarrow> bool" where
  "errors_Is (SysErr c m md cause) target =
     (SysErr c m md cause = target \<or> Is (SysErr c m md cause) target \<or>
      (case cause of None \<Rightarrow> False | Some e \<Rightarrow> errors_Is e target))"
| "errors_Is (PlainErr t) target = (PlainErr t = target)"
| "errors_Is (WrapErr t e) target = (WrapErr t e = target \<or> errors_Is e target)"

section \<open>Metadata\<close>

text \<open>
  The heap of metadata maps. \<open>WithField\<close> and \<open>WithFields\<close> update their receiver, so they
  return it; the map they write to may be shared with other errors.
\<close>

type_synonym 'a metadata_heap = "metadata_ref \<rightharpoonup> (string \<rightharpoonup> 'a)"

fun WithField ::
  "metadata_ref \<Rightarrow> 'a metadata_heap \<Rightarrow> go_error \<Rightarrow> string \<Rightarrow> 'a \<Rightarrow> 'a metadata_heap \<times> go_error"
where
  "WithField fresh h (SysErr c m md cause) key v =
     (case md of
        None \<Rightarrow> (h(fresh \<mapsto> [key \<mapsto> v]), SysErr c m (Some fresh) cause)
      | Some r \<Rightarrow>
          (h(r \<mapsto> (case h r of None \<Rightarrow> Map.empty | Some mm \<Rightarrow> mm)(key \<mapsto> v)), SysErr c m md cause))"
| "WithField fresh h e key v = (h, e)"

fun WithFields ::
  "'a metadata_heap \<Rightarrow> go_error \<Rightarrow> metadata_ref option \<Rightarrow> 'a metadata_heap \<times> go_error"
where
  "WithFields h (SysErr c m md cause) fields =
     (case md of
        None \<Rightarrow> (h, SysErr c m fields cause)
      | Some r \<Rightarrow>
          (case fields of
             None \<Rightarrow> (h, SysErr c m md cause)
           | Some f \<Rightarrow>
               (h(r \<mapsto> (case h r of None \<Rightarrow> Map.empty | Some mm \<Rightarrow> mm) ++
                       (case h f of None \<Rightarrow> Map.empty | Some ff \<Rightarrow> ff)), SysErr c m md cause)))"
| "WithFields h e fields = (h, e)"

fun metadata_of :: "'a metadata_heap \<Rightarrow> go_error \<Rightarrow> (string \<rightharpoonup> 'a)" where
  "metadata_of h (SysErr _ _ (Some r) _) = (case h r of None \<Rightarrow> Map.empty | Some m \<Rightarrow> m)"
| "metadata_of h _ = Map.empty"

section \<open>Reading codes and messages\<close>

definition GetCode :: "go_error option \<Rightarrow> ErrorCode" where
  "GetCode err =
     (case err of
        None \<Rightarrow> 0
      | Some er \<Rightarrow> (case as_Error er of Some e \<Rightarrow> Code e | None \<Rightarrow> Unknown))"

definition GetMessage :: "go_error option \<Rightarrow> string" where
  "GetMessage err =
     (case err of
        None \<Rightarrow> []
      | Some er \<Rightarrow> (case as_Error er of Some e \<Rightarrow> Message e | None \<Rightarrow> Error er))"

definition IsErrorCode :: "go_error option \<Rightarrow> ErrorCode \<Rightarrow> bool" where
  "IsErrorCode err code \<longleftrightarrow> GetCode err = code"

definition IsNotFound :: "go_error option \<Rightarrow> bool" where
  "IsNotFound err \<longleftrightarrow> GetCode err = NotFound \<or> GetCode err = FileNotFound"

definition IsInvalidArgument :: "go_error option \<Rightarrow> bool" where
  "IsInvalidArgument err \<longleftrightarrow> IsErrorCode err InvalidArgument"

definition IsPermissionDenied :: "go_error option \<Rightarrow> bool" where
  "IsPermissionDenied err \<longleftrightarrow> IsErrorCode err PermissionDenied"

definition IsAlreadyExists :: "go_error option \<Rightarrow> bool" where
  "IsAlreadyExists err \<longleftrightarrow> GetCode err = AlreadyExists \<or> GetCode err = FileAlreadyExists"

definition IsUnauthenticated :: "go_error option \<Rightarrow> bool" where
  "IsUnauthenticated err \<longleftrightarrow> IsErrorCode err Unauthenticated"

definition IsResourceExhausted :: "go_error option \<Rightarrow> bool" where
  "IsResourceExhausted err \<longleftrightarrow> IsErrorCode err ResourceExhausted"

definition IsInternal :: "go_error option \<Rightarrow> bool" where
  "IsInternal err \<longleftrightarrow> IsErrorCode err Internal"

text \<open>The struct that \<^verbatim>\<open>MarshalJSON\<close> hands to the encoder; \<open>omitempty\<close> fields that are
  left out are None.\<close>

record 'a jsonError =
  je_Code :: ErrorCode
  je_Message :: string
  je_Metadata :: "(string \<rightharpoonup> 'a) option"
  je_Cause :: "string option"

definition MarshalJSON :: "'a metadata_heap \<Rightarrow> go_error \<Rightarrow> 'a jsonError" where
  "MarshalJSON h e =
     (let md = metadata_of h e; cs = (case Cause e of None \<Rightarrow> [] | Some c \<Rightarrow> Error c)
      in \<lparr>je_Code = Code e, je_Message = Message e,
          je_Metadata = (if dom md = {} then None else Some md),
          je_Cause = (if cs = [] then None else Some cs)\<rparr>)"

section \<open>Lemmas\<close>

lemma Text_nonempty: "Text c \<noteq> []"
proof -
  have ne: "list_all (\<lambda>p. snd p \<noteq> []) codeText" by (simp add: codeText_def)
  have "the (map_of codeText Unknown) \<noteq> []" by (simp add: codeText_def)
  moreover have "t \<noteq> []" if "map_of codeText c = Some t" for t
    using map_of_SomeD [OF that] ne by (auto simp: list_all_iff)
  ultimately show ?thesis by (simp add: Text_def split: option.split)
qed

lemma as_Error_is_SysErr: "as_Error e = Some e' \<Longrightarrow> is_SysErr e'"
  by (induction e rule: as_Error.induct) auto

lemma as_Error_Some_SysErr [simp]: "is_SysErr e \<Longrightarrow> as_Error e = Some e"
  by (cases e) auto

lemma GetCode_simps [simp]:
  "GetCode None = 0"
  "GetCode (Some (SysErr c m md ca)) = c"
  "GetCode (Some (PlainErr t)) = Unknown"
  "GetCode (Some (WrapErr t e)) = GetCode (Some e)"
  by (simp_all add: GetCode_def)

lemma GetCode_New [simp]: "GetCode (Some (New c m)) = c"
  by (simp add: New_def)

lemma Wrap_is_SysErr [simp]: "is_SysErr (Wrap err c m)"
  by (auto simp: Wrap_def New_def split: option.split)

lemma Code_Wrap [simp]: "Code (Wrap err c m) = c"
  by (auto simp: Wrap_def New_def split: option.split)

lemma GetCode_Wrap [simp]: "GetCode (Some (Wrap err c m)) = c"
  by (simp add: GetCode_def)

lemma Message_Wrap_nonempty: "m \<noteq> [] \<Longrightarrow> Message (Wrap err c m) = m"
  by (auto simp: Wrap_def New_def split: option.split)

text \<open>A system error below an \<^verbatim>\<open>Errorf\<close> keeps its code.\<close>

lemma GetCode_Errorf_w [simp]: "GetCode (Some (Errorf_w t e)) = GetCode (Some e)"
  by (simp add: Errorf_w_def)

text \<open>The number of system errors on the cause chain.\<close>

fun sys_count :: "go_error \<Rightarrow> nat" where
  "sys_count (SysErr _ _ _ None) = 1"
| "sys_count (SysErr _ _ _ (Some e)) = Suc (sys_count e)"
| "sys_count (PlainErr _) = 0"
| "sys_count (WrapErr _ e) = sys_count e"

lemma sys_count_as_Error_None: "as_Error e = None \<Longrightarrow> sys_count e = 0"
  by (induction e rule: as_Error.induct) auto

lemma sys_count_as_Error: "as_Error e = Some e' \<Longrightarrow> sys_count e' = sys_count e"
  by (induction e rule: as_Error.induct) auto

lemma sys_count_SysErr_swap: "sys_count (SysErr c m md ca) = sys_count (SysErr c' m' md' ca)"
  by (cases ca) auto

lemma sys_count_Wrap:
  "sys_count (Wrap err c m) = (case err of None \<Rightarrow> 1 | Some e \<Rightarrow> max 1 (sys_count e))"
proof (cases err)
  case None
  then show ?thesis by (simp add: Wrap_def New_def)
next
  case (Some e)
  show ?thesis
  proof (cases "as_Error e")
    case None
    with Some show ?thesis by (simp add: Wrap_def sys_count_as_Error_None)
  next
    case (Some e')
    then obtain c' m' md ca where e': "e' = SysErr c' m' md ca"
      using as_Error_is_SysErr by (cases e') fastforce+
    then have "sys_count e \<ge> 1"
      using sys_count_as_Error [OF Some] by (cases ca) auto
    then show ?thesis
      using Some \<open>err = Some e\<close> e' sys_count_as_Error [OF Some]
        sys_count_SysErr_swap [of c' m' md ca]
      by (auto simp: Wrap_def max_def)
  qed
qed

section \<open>Properties\<close>

text \<open>
  Wrapping an error a second time is wrapping the innermost error once: the outer code and a
  non-empty outer message replace the inner ones, and the cause and the metadata of the inner
  error are kept. An intermediate wrapping leaves no trace.
\<close>

theorem Wrap_Wrap:
  assumes "m2 \<noteq> []"
  shows "Wrap (Some (Wrap err c1 m1)) c2 m2 = Wrap err c2 m2"
proof -
  have "as_Error (Wrap err c1 m1) = Some (Wrap err c1 m1)" by simp
  with assms show ?thesis
    by (auto simp: Wrap_def New_def split: option.split)
qed

theorem Wrap_Wrap_witness:
  "''open'' \<noteq> ([] :: string) \<and>
   Wrap (Some (Wrap (Some (PlainErr ''eof'')) Internal ''read'')) NotFound ''open'' =
     SysErr NotFound ''open'' None (Some (PlainErr ''eof''))"
  using Wrap_Wrap [of "''open''" "Some (PlainErr ''eof'')" Internal "''read''" NotFound]
  by (simp add: Wrap_def)

text \<open>
  A chain built by the constructors of the package holds exactly one system error, whatever is
  wrapped and however often, as long as the wrapped chain held at most one; its code is the code
  given last, and reading the code through any number of \<^verbatim>\<open>fmt.Errorf\<close> layers gives it too.
\<close>

theorem Wrap_single:
  assumes "\<forall>e. err = Some e \<longrightarrow> sys_count e \<le> 1"
  shows "sys_count (Wrap err c m) = 1 \<and> GetCode (Some (Wrap err c m)) = c \<and>
    GetCode (Some (Errorf_w t (Wrap err c m))) = c"
  using assms by (auto simp: sys_count_Wrap split: option.split)

theorem Wrap_single_witness:
  "sys_count (Wrap (Some (Errorf_w ''ctx'' (New NotFound ''gone''))) Internal []) = 1"
  using Wrap_single [of "Some (Errorf_w ''ctx'' (New NotFound ''gone''))" Internal "[]"]
  by (simp add: Errorf_w_def New_def)

text \<open>
  Metadata is shared, not copied, by \<open>Wrap\<close>: when the wrapped error already has metadata, a
  field set on the wrapping error is set on the wrapped one as well.
\<close>

theorem WithField_shared:
  assumes "e = SysErr c0 m0 (Some r) ca"
    and "WithField fresh h (Wrap (Some e) c m) key v = (h', e')"
  shows "metadata_of h' e key = Some v \<and> metadata_of h' e' key = Some v"
  using assms by (auto simp: Wrap_def split: if_splits)

theorem WithField_shared_witness:
  "metadata_of
     (fst (WithField 7 [3 \<mapsto> Map.empty] (Wrap (Some (SysErr NotFound ''x'' (Some 3) None)) Internal ''y'')
        ''path'' (1::nat)))
     (SysErr NotFound ''x'' (Some 3) None) ''path'' = Some 1"
  using WithField_shared [OF refl, of 7 "[3 \<mapsto> Map.empty]" NotFound "''x''" 3 None Internal "''y''"
      "''path''" "1::nat"]
  by (simp add: Wrap_def)

end
