(* ===== verification/MemStore.thy ===== *)
theory MemStore
  imports Complex_Main GoPath Errors
begin

text \<open>
  The metadata store of the metadata server: \<^verbatim>\<open>MemoryStore\<close> of
  \<^verbatim>\<open>internal/metaserver/server/store.go\<close> with the file and directory records of
  \<^verbatim>\<open>metadata/types.go\<close> and \<^verbatim>\<open>common/types\<close>.

  The state is the struct without its mutex (every method holds it from start to end). Files are
  keyed by their cleaned path, directories by their cleaned path with a trailing slash. Records are
  values: the store hands out and keeps clones. A nil slice and an empty one are both the empty
  list; a nil metadata map is None. \<^verbatim>\<open>range\<close> orders and clock readings are arguments.

  The lemmas show what each operation does to the store, the invariant of the reachable states,
  and that creating a directory never succeeds: the parent the code looks up is the new directory
  itself, because the path already carries its trailing slash.
\<close>

section \<open>Records\<close>

text \<open>\<^verbatim>\<open>types.FileType\<close>.\<close>

abbreviation (input) TypeRegular :: string where "TypeRegular \<equiv> ''regular''"
abbreviation (input) TypeDirectory :: string where "TypeDirectory \<equiv> ''directory''"
abbreviation (input) TypeSymlink :: string where "TypeSymlink \<equiv> ''symlink''"

record BasicFileInfo =
  bf_Name :: string
  bf_Path :: string
  bf_Owner :: string
  bf_Permissions :: string
  bf_CreatedAt :: gotime
  bf_ModifiedAt :: gotime
  bf_UpdatedAt :: gotime
  bf_Metadata :: "(string \<rightharpoonup> string) option"

text \<open>\<^verbatim>\<open>metadata.ChunkInfo\<close> with the embedded \<^verbatim>\<open>BasicChunkInfo\<close>.\<close>

record ChunkInfo =
  ci_Index :: int
  ci_Size :: int
  ci_Offset :: int
  ci_Checksum :: string
  ci_Status :: string
  ci_NodeID :: NodeID
  ci_Locations :: "string list"
  ci_Replicas :: "NodeID list"

record FileInfo = BasicFileInfo +
  fi_Type :: string
  fi_Size :: int
  fi_MimeType :: string
  fi_ChunkSize :: int
  fi_Chunks :: "ChunkInfo list"
  fi_Replicas :: int

type_synonym DirectoryInfo = BasicFileInfo

record DirectoryEntry =
  de_Name :: string
  de_Path :: string
  de_Type :: string
  de_IsDir :: bool
  de_Size :: int
  de_MimeType :: string
  de_ChildCount :: int
  de_CreatedAt :: gotime
  de_ModifiedAt :: gotime
  de_UpdatedAt :: gotime

record MemoryStore =
  ms_files :: "string \<rightharpoonup> FileInfo"
  ms_directories :: "string \<rightharpoonup> DirectoryInfo"
  ms_initialized :: bool

text \<open>The dynamic types of the values that an update map can hold.\<close>

datatype any_value =
    AInt64 int
  | AFloat64 real
  | AString string
  | AChunks "ChunkInfo list"
  | AMeta "(string \<rightharpoonup> string) option"
  | AOther

section \<open>Operations\<close>

definition NewMemoryStore :: MemoryStore where
  "NewMemoryStore =
     \<lparr>ms_files = Map.empty, ms_directories = Map.empty, ms_initialized = False\<rparr>"

definition empty_dir_info :: "string \<Rightarrow> string \<Rightarrow> gotime \<Rightarrow> gotime \<Rightarrow> DirectoryInfo" where
  "empty_dir_info p n c u =
     \<lparr>bf_Name = n, bf_Path = p, bf_Owner = [], bf_Permissions = [], bf_CreatedAt = c,
      bf_ModifiedAt = zero_time, bf_UpdatedAt = u, bf_Metadata = None\<rparr>"

definition Initialize :: "gotime \<Rightarrow> gotime \<Rightarrow> MemoryStore \<Rightarrow> MemoryStore \<times> go_error option" where
  "Initialize now1 now2 s =
     (if ms_initialized s then (s, Some (New AlreadyExists ''store already initialized''))
      else (s\<lparr>ms_directories := (ms_directories s)(''/'' \<mapsto> empty_dir_info ''/'' ''/'' now1 now2),
              ms_initialized := True\<rparr>, None))"

definition Close :: "MemoryStore \<Rightarrow> MemoryStore \<times> go_error option" where
  "Close s =
     (if \<not> ms_initialized s then (s, None)
      else (\<lparr>ms_files = Map.empty, ms_directories = Map.empty, ms_initialized = False\<rparr>, None))"

definition cloneFileInfo :: "FileInfo \<Rightarrow> FileInfo" where
  "cloneFileInfo info =
     \<lparr>bf_Name = bf_Name info, bf_Path = bf_Path info, bf_Owner = [], bf_Permissions = [],
      bf_CreatedAt = bf_CreatedAt info, bf_ModifiedAt = zero_time,
      bf_UpdatedAt = bf_UpdatedAt info, bf_Metadata = bf_Metadata info,
      fi_Type = [], fi_Size = fi_Size info, fi_MimeType = fi_MimeType info, fi_ChunkSize = 0,
      fi_Chunks = fi_Chunks info, fi_Replicas = 0\<rparr>"

definition cloneDirectoryInfo :: "DirectoryInfo \<Rightarrow> DirectoryInfo" where
  "cloneDirectoryInfo info =
     \<lparr>bf_Name = bf_Name info, bf_Path = bf_Path info, bf_Owner = [], bf_Permissions = [],
      bf_CreatedAt = bf_CreatedAt info, bf_ModifiedAt = zero_time,
      bf_UpdatedAt = bf_UpdatedAt info, bf_Metadata = bf_Metadata info\<rparr>"

abbreviation err_uninit :: go_error where
  "err_uninit \<equiv> New Internal ''store not initialized''"

abbreviation err_nofile :: go_error where
  "err_nofile \<equiv> New NotFound ''file does not exist''"

abbreviation err_nodir :: go_error where
  "err_nodir \<equiv> New NotFound ''directory does not exist''"

abbreviation err_noparent :: go_error where
  "err_noparent \<equiv> New NotFound ''parent directory does not exist''"

abbreviation err_notempty :: go_error where
  "err_notempty \<equiv> New PermissionDenied ''directory not empty, recursive delete required''"

definition GetFileInfo :: "MemoryStore \<Rightarrow> string \<Rightarrow> go_error + FileInfo" where
  "GetFileInfo s filePath =
     (if \<not> ms_initialized s then Inl err_uninit
      else (case ms_files s (Clean filePath) of
              None \<Rightarrow> Inl err_nofile
            | Some file \<Rightarrow> Inr (cloneFileInfo file)))"

definition CreateFile ::
  "gotime \<Rightarrow> MemoryStore \<Rightarrow> FileInfo \<Rightarrow> MemoryStore \<times> (go_error + FileInfo)" where
  "CreateFile now s fileInfo =
     (if \<not> ms_initialized s then (s, Inl err_uninit)
      else
        let filePath = Clean (bf_Path fileInfo);
            fileInfo = fileInfo\<lparr>bf_Path := filePath\<rparr>
        in if ms_files s filePath \<noteq> None
           then (s, Inl (New AlreadyExists ''file already exists''))
           else
             let parentDir = Dir filePath
             in if parentDir \<noteq> ''/'' \<and> ms_directories s parentDir = None
                then (s, Inl err_noparent)
                else
                  let fileInfo = fileInfo\<lparr>bf_CreatedAt := now, bf_UpdatedAt := now\<rparr>;
                      fileInfo = (if bf_Name fileInfo = []
                                  then fileInfo\<lparr>bf_Name := Base filePath\<rparr> else fileInfo)
                  in (s\<lparr>ms_files := (ms_files s)(filePath \<mapsto> cloneFileInfo fileInfo)\<rparr>,
                      Inr (cloneFileInfo (cloneFileInfo fileInfo))))"

text \<open>One pass of the update loop: a value of the wrong dynamic type is skipped.\<close>

definition apply_update :: "string \<Rightarrow> any_value \<Rightarrow> FileInfo \<Rightarrow> FileInfo" where
  "apply_update key v file =
     (if key = ''size'' then (case v of AInt64 n \<Rightarrow> file\<lparr>fi_Size := n\<rparr> | _ \<Rightarrow> file)
      else if key = ''chunks'' then (case v of AChunks cs \<Rightarrow> file\<lparr>fi_Chunks := cs\<rparr> | _ \<Rightarrow> file)
      else if key = ''mime_type'' then (case v of AString t \<Rightarrow> file\<lparr>fi_MimeType := t\<rparr> | _ \<Rightarrow> file)
      else if key = ''metadata'' then (case v of AMeta m \<Rightarrow> file\<lparr>bf_Metadata := m\<rparr> | _ \<Rightarrow> file)
      else file)"

fun apply_updates :: "string list \<Rightarrow> (string \<rightharpoonup> any_value) \<Rightarrow> FileInfo \<Rightarrow> FileInfo" where
  "apply_updates [] updates file = file"
| "apply_updates (k # ks) updates file =
     apply_updates ks updates
       (case updates k of None \<Rightarrow> file | Some v \<Rightarrow> apply_update k v file)"

definition UpdateFile ::
  "string list \<Rightarrow> gotime \<Rightarrow> MemoryStore \<Rightarrow> string \<Rightarrow> (string \<rightharpoonup> any_value) \<Rightarrow>
   MemoryStore \<times> (go_error + FileInfo)" where
  "UpdateFile ks now s filePath updates =
     (if \<not> ms_initialized s then (s, Inl err_uninit)
      else
        let filePath = Clean filePath
        in case ms_files s filePath of
             None \<Rightarrow> (s, Inl err_nofile)
           | Some file \<Rightarrow>
               let file = (apply_updates ks updates file)\<lparr>bf_UpdatedAt := now\<rparr>
               in (s\<lparr>ms_files := (ms_files s)(filePath \<mapsto> file)\<rparr>, Inr (cloneFileInfo file)))"

definition DeleteFile :: "MemoryStore \<Rightarrow> string \<Rightarrow> MemoryStore \<times> go_error option" where
  "DeleteFile s filePath =
     (if \<not> ms_initialized s then (s, Some err_uninit)
      else
        let filePath = Clean filePath
        in if ms_files s filePath = None then (s, Some err_nofile)
           else (s\<lparr>ms_files := (ms_files s)(filePath := None)\<rparr>, None))"

text \<open>The parent directory of a file, as the key of a directory.\<close>

definition parent_key :: "string \<Rightarrow> string" where
  "parent_key filePath = (if Dir filePath \<noteq> ''/'' then Dir filePath @ ''/'' else Dir filePath)"

definition count_slashes :: "string \<Rightarrow> nat" where
  "count_slashes p = length (filter (\<lambda>c. c = slash) p)"

text \<open>
  \<^verbatim>\<open>countChildren\<close>. Its argument is the \<^verbatim>\<open>Path\<close> field of a stored directory, which is never
  empty.
\<close>

definition countChildren :: "string list \<Rightarrow> string list \<Rightarrow> MemoryStore \<Rightarrow> string \<Rightarrow> int" where
  "countChildren dks fks s dirPath =
     (let dirPath = (if dirPath \<noteq> ''/'' \<and> last dirPath \<noteq> slash then dirPath @ ''/'' else dirPath)
      in int (length (filter
                (\<lambda>p. p \<noteq> dirPath \<and> HasPrefix p dirPath \<and>
                     (let remaining = drop (length dirPath) p
                      in slash \<notin> set remaining \<or> remaining = ''/'')) dks)) +
         int (length (filter (\<lambda>f. parent_key f = dirPath) fks)))"

text \<open>
  The two loops of \<^verbatim>\<open>ListDirectory\<close>, over directories and over files. The count is the number
  of entries collected so far, and \<open>full\<close> is the exit test at the head of each round.
\<close>

definition full :: "int \<Rightarrow> int \<Rightarrow> bool" where
  "full count limit \<longleftrightarrow> count \<ge> limit \<and> limit > 0"

definition lists_dir :: "string \<Rightarrow> bool \<Rightarrow> string \<Rightarrow> bool" where
  "lists_dir dirPath recursive p \<longleftrightarrow>
     p \<noteq> dirPath \<and> \<not> (p = ''/'' \<and> dirPath \<noteq> ''/'') \<and>
     (dirPath = ''/'' \<or> HasPrefix p dirPath) \<and>
     \<not> (\<not> recursive \<and> p \<noteq> dirPath \<and> count_slashes (drop (length dirPath) p) > 1)"

definition lists_file :: "string \<Rightarrow> bool \<Rightarrow> string \<Rightarrow> bool" where
  "lists_file dirPath recursive f \<longleftrightarrow>
     parent_key f = dirPath \<or> (recursive \<and> HasPrefix (parent_key f) dirPath)"

definition dir_entry :: "string list \<Rightarrow> string list \<Rightarrow> MemoryStore \<Rightarrow> DirectoryInfo \<Rightarrow> DirectoryEntry"
where
  "dir_entry dks fks s dir =
     \<lparr>de_Name = bf_Name dir, de_Path = bf_Path dir, de_Type = [], de_IsDir = True, de_Size = 0,
      de_MimeType = [], de_ChildCount = countChildren dks fks s (bf_Path dir),
      de_CreatedAt = bf_CreatedAt dir, de_ModifiedAt = zero_time, de_UpdatedAt = bf_UpdatedAt dir\<rparr>"

definition file_entry :: "FileInfo \<Rightarrow> DirectoryEntry" where
  "file_entry file =
     \<lparr>de_Name = bf_Name file, de_Path = bf_Path file, de_Type = [], de_IsDir = False,
      de_Size = fi_Size file, de_MimeType = fi_MimeType file, de_ChildCount = 0,
      de_CreatedAt = bf_CreatedAt file, de_ModifiedAt = zero_time,
      de_UpdatedAt = bf_UpdatedAt file\<rparr>"

text \<open>Collect the entries of the keys that pass the test, until the limit is reached.\<close>

fun collect ::
  "int \<Rightarrow> (string \<Rightarrow> bool) \<Rightarrow> (string \<Rightarrow> DirectoryEntry option) \<Rightarrow> string list \<Rightarrow>
   DirectoryEntry list \<Rightarrow> DirectoryEntry list"
where
  "collect limit P entry [] acc = acc"
| "collect limit P entry (k # ks) acc =
     (if full (int (length acc)) limit then acc
      else collect limit P entry ks
             (case entry k of
                None \<Rightarrow> acc
              | Some e \<Rightarrow> if P k then acc @ [e] else acc))"

definition dir_key :: "string \<Rightarrow> string" where
  "dir_key p = (if Clean p \<noteq> ''/'' then Clean p @ ''/'' else Clean p)"

definition ListDirectory ::
  "string list \<Rightarrow> string list \<Rightarrow> MemoryStore \<Rightarrow> string \<Rightarrow> bool \<Rightarrow> int \<Rightarrow>
   go_error + DirectoryEntry list" where
  "ListDirectory dks fks s dirPath recursive limit =
     (if \<not> ms_initialized s then Inl err_uninit
      else
        let dirPath = Clean dirPath;
            dirPath = (if dirPath \<noteq> ''/'' \<and> last dirPath \<noteq> slash then dirPath @ ''/'' else dirPath)
        in if ms_directories s dirPath = None \<and> dirPath \<noteq> ''/'' then Inl err_nodir
           else
             let entries = collect limit (lists_dir dirPath recursive)
                   (\<lambda>p. map_option (dir_entry dks fks s) (ms_directories s p)) dks []
             in Inr (collect limit (lists_file dirPath recursive)
                   (\<lambda>f. map_option file_entry (ms_files s f)) fks entries))"

definition CreateDirectory ::
  "gotime \<Rightarrow> MemoryStore \<Rightarrow> DirectoryInfo \<Rightarrow> MemoryStore \<times> (go_error + DirectoryInfo)" where
  "CreateDirectory now s dirInfo =
     (if \<not> ms_initialized s then (s, Inl err_uninit)
      else
        let dirPath = Clean (bf_Path dirInfo);
            dirPath = (if dirPath \<noteq> ''/'' then dirPath @ ''/'' else dirPath);
            dirInfo = dirInfo\<lparr>bf_Path := dirPath\<rparr>
        in if ms_directories s dirPath \<noteq> None
           then (s, Inl (New AlreadyExists ''directory already exists''))
           else
             let parentDir = Dir dirPath;
                 parentDir = (if parentDir \<noteq> ''/'' then parentDir @ ''/'' else parentDir)
             in if ms_directories s parentDir = None \<and> parentDir \<noteq> ''/''
                then (s, Inl err_noparent)
                else
                  let dirInfo = dirInfo\<lparr>bf_CreatedAt := now, bf_UpdatedAt := now\<rparr>;
                      dirInfo = (if bf_Name dirInfo = []
                                 then dirInfo\<lparr>bf_Name := Base dirPath\<rparr> else dirInfo)
                  in (s\<lparr>ms_directories :=
                          (ms_directories s)(dirPath \<mapsto> cloneDirectoryInfo dirInfo)\<rparr>,
                      Inr (cloneDirectoryInfo (cloneDirectoryInfo dirInfo))))"

text \<open>
  The tests of \<^verbatim>\<open>DeleteDirectory\<close>: a strict subdirectory, a file below. The loops that look for
  a child stop at the first one, so they ask whether there is one.
\<close>

definition below_dir :: "string \<Rightarrow> string \<Rightarrow> bool" where
  "below_dir dirPath p \<longleftrightarrow> p \<noteq> dirPath \<and> HasPrefix p dirPath"

definition below_file :: "string \<Rightarrow> string \<Rightarrow> bool" where
  "below_file dirPath f \<longleftrightarrow> HasPrefix (parent_key f) dirPath"

definition DeleteDirectory ::
  "string list \<Rightarrow> string list \<Rightarrow> MemoryStore \<Rightarrow> string \<Rightarrow> bool \<Rightarrow> MemoryStore \<times> go_error option"
where
  "DeleteDirectory dks fks s dirPath recursive =
     (if \<not> ms_initialized s then (s, Some err_uninit)
      else
        let dirPath = Clean dirPath;
            dirPath = (if dirPath \<noteq> ''/'' then dirPath @ ''/'' else dirPath)
        in if dirPath = ''/''
           then (s, Some (New PermissionDenied ''the root directory cannot be deleted''))
           else if ms_directories s dirPath = None then (s, Some err_nodir)
           else
             let hasDirs = list_ex (below_dir dirPath) dks
             in if hasDirs \<and> \<not> recursive then (s, Some err_notempty)
                else if \<not> hasDirs \<and> list_ex (below_file dirPath) fks \<and> \<not> recursive
                then (s, Some err_notempty)
                else
                  let s = (if recursive
                           then s\<lparr>ms_directories :=
                                    range_delete (\<lambda>p _. below_dir dirPath p) dks (ms_directories s),
                                  ms_files :=
                                    range_delete (\<lambda>f _. below_file dirPath f) fks (ms_files s)\<rparr>
                           else s)
                  in (s\<lparr>ms_directories := (ms_directories s)(dirPath := None)\<rparr>, None))"

section \<open>Clones and updates\<close>

lemma cloneFileInfo_idem [simp]: "cloneFileInfo (cloneFileInfo f) = cloneFileInfo f"
  by (simp add: cloneFileInfo_def)

lemma cloneDirectoryInfo_idem [simp]:
  "cloneDirectoryInfo (cloneDirectoryInfo d) = cloneDirectoryInfo d"
  by (simp add: cloneDirectoryInfo_def)

lemma cloneFileInfo_sel [simp]:
  "bf_Path (cloneFileInfo f) = bf_Path f"
  "bf_Name (cloneFileInfo f) = bf_Name f"
  "fi_Size (cloneFileInfo f) = fi_Size f"
  "fi_MimeType (cloneFileInfo f) = fi_MimeType f"
  "bf_CreatedAt (cloneFileInfo f) = bf_CreatedAt f"
  "bf_UpdatedAt (cloneFileInfo f) = bf_UpdatedAt f"
  "fi_Chunks (cloneFileInfo f) = fi_Chunks f"
  "bf_Metadata (cloneFileInfo f) = bf_Metadata f"
  by (simp_all add: cloneFileInfo_def)

text \<open>A stored file is its own clone: the fields that a clone drops are already empty.\<close>

definition stored_file :: "FileInfo \<Rightarrow> bool" where
  "stored_file f \<longleftrightarrow>
     bf_Owner f = [] \<and> bf_Permissions f = [] \<and> bf_ModifiedAt f = zero_time \<and>
     fi_Type f = [] \<and> fi_ChunkSize f = 0 \<and> fi_Replicas f = 0"

lemma stored_file_clone [simp]: "stored_file (cloneFileInfo f)"
  by (simp add: stored_file_def cloneFileInfo_def)

lemma clone_stored_file [simp]: "stored_file f \<Longrightarrow> cloneFileInfo f = f"
  by (simp add: stored_file_def cloneFileInfo_def)

lemma apply_update_frame [simp]:
  "bf_Path (apply_update k v f) = bf_Path f"
  "bf_Name (apply_update k v f) = bf_Name f"
  "bf_CreatedAt (apply_update k v f) = bf_CreatedAt f"
  "stored_file (apply_update k v f) = stored_file f"
  by (auto simp: apply_update_def stored_file_def split: any_value.splits)

lemma apply_updates_frame [simp]:
  "bf_Path (apply_updates ks u f) = bf_Path f"
  "bf_Name (apply_updates ks u f) = bf_Name f"
  "bf_CreatedAt (apply_updates ks u f) = bf_CreatedAt f"
  "stored_file (apply_updates ks u f) = stored_file f"
  by (induction ks arbitrary: f) (auto split: option.splits)

text \<open>
  What the update loop leaves in the four fields it can write, in terms of the map alone: the order
  of the loop does not matter, because each key writes its own field.
\<close>

definition upd_size :: "any_value option \<Rightarrow> int \<Rightarrow> int" where
  "upd_size v old = (case v of Some (AInt64 n) \<Rightarrow> n | _ \<Rightarrow> old)"

definition upd_chunks :: "any_value option \<Rightarrow> ChunkInfo list \<Rightarrow> ChunkInfo list" where
  "upd_chunks v old = (case v of Some (AChunks cs) \<Rightarrow> cs | _ \<Rightarrow> old)"

definition upd_mime :: "any_value option \<Rightarrow> string \<Rightarrow> string" where
  "upd_mime v old = (case v of Some (AString t) \<Rightarrow> t | _ \<Rightarrow> old)"

definition upd_meta ::
  "any_value option \<Rightarrow> (string \<rightharpoonup> string) option \<Rightarrow> (string \<rightharpoonup> string) option" where
  "upd_meta v old = (case v of Some (AMeta m) \<Rightarrow> m | _ \<Rightarrow> old)"

lemmas upd_defs = upd_size_def upd_chunks_def upd_mime_def upd_meta_def

lemma upd_None [simp]:
  "upd_size None x = x" "upd_chunks None y = y" "upd_mime None z = z" "upd_meta None w = w"
  by (simp_all add: upd_defs)

lemma upd_twice [simp]:
  "upd_size v (upd_size v x) = upd_size v x"
  "upd_chunks v (upd_chunks v y) = upd_chunks v y"
  "upd_mime v (upd_mime v z) = upd_mime v z"
  "upd_meta v (upd_meta v w) = upd_meta v w"
  by (simp_all add: upd_defs split: option.split any_value.split)

lemma apply_update_fields:
  "fi_Size (apply_update k v f) =
     (if k = ''size'' then upd_size (Some v) (fi_Size f) else fi_Size f)"
  "fi_Chunks (apply_update k v f) =
     (if k = ''chunks'' then upd_chunks (Some v) (fi_Chunks f) else fi_Chunks f)"
  "fi_MimeType (apply_update k v f) =
     (if k = ''mime_type'' then upd_mime (Some v) (fi_MimeType f) else fi_MimeType f)"
  "bf_Metadata (apply_update k v f) =
     (if k = ''metadata'' then upd_meta (Some v) (bf_Metadata f) else bf_Metadata f)"
  by (cases v; simp add: apply_update_def upd_defs)+

lemma apply_updates_size:
  "fi_Size (apply_updates ks u f) =
     (if ''size'' \<in> set ks then upd_size (u ''size'') (fi_Size f) else fi_Size f)"
  by (induction ks arbitrary: f) (auto simp: apply_update_fields split: option.split)

lemma apply_updates_chunks:
  "fi_Chunks (apply_updates ks u f) =
     (if ''chunks'' \<in> set ks then upd_chunks (u ''chunks'') (fi_Chunks f) else fi_Chunks f)"
  by (induction ks arbitrary: f) (auto simp: apply_update_fields split: option.split)

lemma apply_updates_mime:
  "fi_MimeType (apply_updates ks u f) =
     (if ''mime_type'' \<in> set ks then upd_mime (u ''mime_type'') (fi_MimeType f) else fi_MimeType f)"
  by (induction ks arbitrary: f) (auto simp: apply_update_fields split: option.split)

lemma apply_updates_meta:
  "bf_Metadata (apply_updates ks u f) =
     (if ''metadata'' \<in> set ks then upd_meta (u ''metadata'') (bf_Metadata f) else bf_Metadata f)"
  by (induction ks arbitrary: f) (auto simp: apply_update_fields split: option.split)

lemma apply_updates_unwritten:
  "bf_Owner (apply_updates ks u f) = bf_Owner f \<and>
   bf_Permissions (apply_updates ks u f) = bf_Permissions f \<and>
   bf_ModifiedAt (apply_updates ks u f) = bf_ModifiedAt f \<and>
   bf_UpdatedAt (apply_updates ks u f) = bf_UpdatedAt f \<and>
   fi_Type (apply_updates ks u f) = fi_Type f \<and>
   fi_ChunkSize (apply_updates ks u f) = fi_ChunkSize f \<and>
   fi_Replicas (apply_updates ks u f) = fi_Replicas f"
proof (induction ks arbitrary: f)
  case Nil
  then show ?case by simp
next
  case (Cons k ks)
  have "bf_Owner (apply_update k v f) = bf_Owner f \<and>
    bf_Permissions (apply_update k v f) = bf_Permissions f \<and>
    bf_ModifiedAt (apply_update k v f) = bf_ModifiedAt f \<and>
    bf_UpdatedAt (apply_update k v f) = bf_UpdatedAt f \<and>
    fi_Type (apply_update k v f) = fi_Type f \<and>
    fi_ChunkSize (apply_update k v f) = fi_ChunkSize f \<and>
    fi_Replicas (apply_update k v f) = fi_Replicas f" for v
    by (cases v) (simp_all add: apply_update_def)
  with Cons show ?case by (simp split: option.split)
qed

lemma apply_updates_eq:
  assumes "enumerates ks u"
  shows "apply_updates ks u f =
    f\<lparr>bf_Metadata := upd_meta (u ''metadata'') (bf_Metadata f),
      fi_Size := upd_size (u ''size'') (fi_Size f),
      fi_MimeType := upd_mime (u ''mime_type'') (fi_MimeType f),
      fi_Chunks := upd_chunks (u ''chunks'') (fi_Chunks f)\<rparr>"
proof -
  have dom: "k \<in> set ks \<longleftrightarrow> u k \<noteq> None" for k
    using enumeratesD(2) [OF assms] by auto
  show ?thesis
    by (rule FileInfo.equality)
      (auto simp: apply_updates_unwritten apply_updates_size apply_updates_chunks
         apply_updates_mime apply_updates_meta dom)
qed

section \<open>Keys\<close>

lemma dir_key_not_slash: "Clean p \<noteq> ''/'' \<Longrightarrow> dir_key p = Clean p @ ''/''"
  by (simp add: dir_key_def)

lemma dir_key_root_iff: "dir_key p = ''/'' \<longleftrightarrow> Clean p = ''/''"
  by (auto simp: dir_key_def)

lemma ListDirectory_key:
  "(if Clean p \<noteq> ''/'' \<and> last (Clean p) \<noteq> slash then Clean p @ ''/'' else Clean p) = dir_key p"
  using Clean_last [of p] by (auto simp: dir_key_def)

text \<open>The parent that \<^verbatim>\<open>CreateDirectory\<close> computes is the new directory itself.\<close>

lemma Dir_dir_key: "Clean p \<noteq> ''/'' \<Longrightarrow> Dir (dir_key p) = Clean p"
  by (simp add: dir_key_def Dir_snoc_slash Clean_idem)

section \<open>The invariant\<close>

text \<open>
  Well-formed stores: before initialisation nothing is stored; afterwards the root directory is
  there; every file is stored under its own cleaned path, has a name and is its own clone; every
  directory is stored under its own path, which ends in a slash.
\<close>

definition wf_store :: "MemoryStore \<Rightarrow> bool" where
  "wf_store s \<longleftrightarrow>
     (\<not> ms_initialized s \<longrightarrow> ms_files s = Map.empty \<and> ms_directories s = Map.empty) \<and>
     (ms_initialized s \<longrightarrow> ms_directories s ''/'' \<noteq> None) \<and>
     (\<forall>k f. ms_files s k = Some f \<longrightarrow>
        bf_Path f = k \<and> Clean k = k \<and> bf_Name f \<noteq> [] \<and> stored_file f) \<and>
     (\<forall>k d. ms_directories s k = Some d \<longrightarrow> bf_Path d = k \<and> (\<exists>p. k = dir_key p))"

text \<open>
  Calls of the store in any order. The directory map is part of the state that the calls see, so
  the orders of the loops are those of its current contents.
\<close>

inductive store_step :: "MemoryStore \<Rightarrow> MemoryStore \<Rightarrow> bool" where
  step_init: "store_step s (fst (Initialize t1 t2 s))"
| step_close: "store_step s (fst (Close s))"
| step_create: "store_step s (fst (CreateFile t s f))"
| step_update: "store_step s (fst (UpdateFile ks t s p u))"
| step_delete: "store_step s (fst (DeleteFile s p))"
| step_mkdir: "store_step s (fst (CreateDirectory t s d))"
| step_rmdir:
    "enumerates dks (ms_directories s) \<Longrightarrow> enumerates fks (ms_files s) \<Longrightarrow>
     store_step s (fst (DeleteDirectory dks fks s p r))"

inductive store_reachable :: "MemoryStore \<Rightarrow> bool" where
  reach_new: "store_reachable NewMemoryStore"
| reach_step: "store_reachable s \<Longrightarrow> store_step s s' \<Longrightarrow> store_reachable s'"

inductive_cases store_stepE: "store_step s s'"

lemma Base_not_Nil [simp]: "Base p \<noteq> []"
  by (auto simp: Base_def Let_def)

subsection \<open>What each operation does to the state\<close>

lemma Initialize_cases:
  obtains (again) "ms_initialized s" "fst (Initialize t1 t2 s) = s"
  | (first) "\<not> ms_initialized s"
      "fst (Initialize t1 t2 s) =
         s\<lparr>ms_directories := (ms_directories s)(''/'' \<mapsto> empty_dir_info ''/'' ''/'' t1 t2),
           ms_initialized := True\<rparr>"
  by (cases "ms_initialized s") (auto simp: Initialize_def)

lemma CreateFile_cases:
  assumes "CreateFile t s f = (s', r)"
  obtains (error) e where "r = Inl e" "s' = s"
  | (created) g where "r = Inr g" "ms_initialized s" "ms_files s (Clean (bf_Path f)) = None"
      "s' = s\<lparr>ms_files := (ms_files s)(Clean (bf_Path f) \<mapsto> g)\<rparr>"
      "bf_Path g = Clean (bf_Path f)" "bf_Name g \<noteq> []" "stored_file g"
      "Dir (Clean (bf_Path f)) = ''/'' \<or> ms_directories s (Dir (Clean (bf_Path f))) \<noteq> None"
proof (cases r)
  case (Inl e)
  with assms have "s' = s" by (auto simp: CreateFile_def Let_def split: if_splits)
  with Inl show ?thesis by (rule error)
next
  case (Inr g)
  with assms show ?thesis
    by (intro created [of g]) (auto simp: CreateFile_def Let_def split: if_splits)
qed

lemma UpdateFile_cases:
  assumes "UpdateFile ks t s p u = (s', r)"
  obtains (error) e where "r = Inl e" "s' = s"
  | (updated) f g where "r = Inr (cloneFileInfo g)" "ms_initialized s"
      "ms_files s (Clean p) = Some f" "g = (apply_updates ks u f)\<lparr>bf_UpdatedAt := t\<rparr>"
      "s' = s\<lparr>ms_files := (ms_files s)(Clean p \<mapsto> g)\<rparr>"
  using assms by (auto simp: UpdateFile_def Let_def split: if_splits option.splits)

lemma DeleteFile_cases:
  assumes "DeleteFile s p = (s', r)"
  obtains (error) e where "r = Some e" "s' = s"
  | (deleted) "r = None" "ms_initialized s" "ms_files s (Clean p) \<noteq> None"
      "s' = s\<lparr>ms_files := (ms_files s)(Clean p := None)\<rparr>"
  using assms by (auto simp: DeleteFile_def Let_def split: if_splits)

text \<open>
  \<^verbatim>\<open>CreateDirectory\<close> on a store whose root exists fails and changes nothing, whatever it is given.
\<close>

lemma CreateDirectory_fails:
  assumes "ms_initialized s" "ms_directories s ''/'' \<noteq> None"
  shows "CreateDirectory t s d =
    (s, Inl (if ms_directories s (dir_key (bf_Path d)) \<noteq> None
             then New AlreadyExists ''directory already exists'' else err_noparent))"
proof (cases "Clean (bf_Path d) = ''/''")
  case True
  with assms show ?thesis by (simp add: CreateDirectory_def dir_key_def)
next
  case False
  with assms Dir_dir_key [of "bf_Path d"] show ?thesis
    by (simp add: CreateDirectory_def Let_def dir_key_def)
qed

lemma DeleteDirectory_cases:
  assumes "DeleteDirectory dks fks s p r = (s', res)"
    and "enumerates dks (ms_directories s)" "enumerates fks (ms_files s)"
  obtains (error) e where "res = Some e" "s' = s"
  | (empty) "res = None" "\<not> r" "ms_initialized s" "dir_key p \<noteq> ''/''"
      "ms_directories s (dir_key p) \<noteq> None"
      "\<forall>q\<in>dom (ms_directories s). \<not> below_dir (dir_key p) q"
      "\<forall>q\<in>dom (ms_files s). \<not> below_file (dir_key p) q"
      "s' = s\<lparr>ms_directories := (ms_directories s)(dir_key p := None)\<rparr>"
  | (tree) "res = None" "r" "ms_initialized s" "dir_key p \<noteq> ''/''"
      "ms_directories s (dir_key p) \<noteq> None"
      "ms_directories s' =
         (\<lambda>q. if HasPrefix q (dir_key p) then None else ms_directories s q)"
      "ms_files s' = (\<lambda>q. if below_file (dir_key p) q then None else ms_files s q)"
      "ms_initialized s'"
proof (cases res)
  case (Some e)
  with assms(1) have "s' = s" by (auto simp: DeleteDirectory_def Let_def split: if_splits)
  with Some show ?thesis by (rule error)
next
  case None
  with assms(1) have ok: "ms_initialized s" "dir_key p \<noteq> ''/''"
      "ms_directories s (dir_key p) \<noteq> None"
    by (auto simp: DeleteDirectory_def Let_def dir_key_def split: if_splits)
  note sets = enumeratesD(2) [OF assms(2)] enumeratesD(2) [OF assms(3)]
  show ?thesis
  proof (cases r)
    case False
    with None assms(1) ok show ?thesis
      by (intro empty)
        (auto simp: DeleteDirectory_def Let_def dir_key_def list_ex_iff sets split: if_splits)
  next
    case True
    from ok True None assms(1) have s': "s' =
        s\<lparr>ms_directories :=
            (range_delete (\<lambda>q _. below_dir (dir_key p) q) dks (ms_directories s))(dir_key p := None),
          ms_files := range_delete (\<lambda>q _. below_file (dir_key p) q) fks (ms_files s)\<rparr>"
      by (auto simp: DeleteDirectory_def Let_def dir_key_def split: if_splits)
    show ?thesis
    proof (rule tree)
      show "ms_directories s' = (\<lambda>q. if HasPrefix q (dir_key p) then None else ms_directories s q)"
        unfolding s' range_delete_eq [OF assms(2)]
        by (auto simp: below_dir_def fun_eq_iff split: option.split)
      show "ms_files s' = (\<lambda>q. if below_file (dir_key p) q then None else ms_files s q)"
        unfolding s' range_delete_eq [OF assms(3)]
        by (auto simp: fun_eq_iff split: option.split)
    qed (use None True ok s' in auto)
  qed
qed

subsection \<open>Every operation preserves the invariant\<close>

lemma wf_storeD:
  assumes "wf_store s"
  shows "\<not> ms_initialized s \<Longrightarrow> ms_files s = Map.empty \<and> ms_directories s = Map.empty"
    and "ms_initialized s \<Longrightarrow> ms_directories s ''/'' \<noteq> None"
    and "ms_files s k = Some f \<Longrightarrow> bf_Path f = k \<and> Clean k = k \<and> bf_Name f \<noteq> [] \<and> stored_file f"
    and "ms_directories s k = Some d \<Longrightarrow> bf_Path d = k \<and> (\<exists>p. k = dir_key p)"
  using assms by (auto simp: wf_store_def)

lemma wf_NewMemoryStore: "wf_store NewMemoryStore"
  by (simp add: wf_store_def NewMemoryStore_def)

lemma wf_Initialize: "wf_store s \<Longrightarrow> wf_store (fst (Initialize t1 t2 s))"
proof (cases rule: Initialize_cases [of s t1 t2])
  case again
  moreover assume "wf_store s"
  ultimately show ?thesis by simp
next
  case first
  assume "wf_store s"
  moreover have "''/'' = dir_key ''/''"
    using Clean_abs_path [of "[]"] by (simp add: dir_key_def)
  then have "\<exists>p. ''/'' = dir_key p" by blast
  ultimately show ?thesis using first
    by (auto simp: wf_store_def empty_dir_info_def)
qed

lemma wf_Close: "wf_store s \<Longrightarrow> wf_store (fst (Close s))"
  by (simp add: Close_def wf_store_def)

lemma wf_CreateFile:
  assumes "wf_store s" "CreateFile t s f = (s', r)"
  shows "wf_store s'"
  using assms(2)
proof (cases rule: CreateFile_cases)
  case (error e)
  with assms(1) show ?thesis by simp
next
  case (created g)
  with assms(1) show ?thesis by (auto simp: wf_store_def Clean_idem)
qed

lemma wf_UpdateFile:
  assumes "wf_store s" "UpdateFile ks t s p u = (s', r)"
  shows "wf_store s'"
  using assms(2)
proof (cases rule: UpdateFile_cases)
  case (error e)
  with assms(1) show ?thesis by simp
next
  case (updated f g)
  from wf_storeD(3) [OF assms(1) updated(3)] have "bf_Path g = Clean p" "bf_Name g \<noteq> []" "stored_file g"
    by (auto simp: updated(4) stored_file_def apply_updates_unwritten)
  with assms(1) updated show ?thesis by (auto simp: wf_store_def Clean_idem)
qed

lemma wf_DeleteFile:
  assumes "wf_store s" "DeleteFile s p = (s', r)"
  shows "wf_store s'"
  using assms(2)
proof (cases rule: DeleteFile_cases)
  case (error e)
  with assms(1) show ?thesis by simp
next
  case deleted
  with assms(1) show ?thesis by (auto simp: wf_store_def)
qed

lemma wf_CreateDirectory:
  assumes "wf_store s"
  shows "\<exists>e. CreateDirectory t s d = (s, Inl e)"
proof (cases "ms_initialized s")
  case True
  with wf_storeD(2) [OF assms] show ?thesis by (simp add: CreateDirectory_fails)
next
  case False
  then show ?thesis by (simp add: CreateDirectory_def)
qed

lemma not_prefix_root: "dir_key p \<noteq> ''/'' \<Longrightarrow> \<not> prefix (dir_key p) ''/''"
  by (cases "Clean p") (auto simp: dir_key_def)

lemma wf_DeleteDirectory:
  assumes "wf_store s" "DeleteDirectory dks fks s p r = (s', res)"
    and "enumerates dks (ms_directories s)" "enumerates fks (ms_files s)"
  shows "wf_store s'"
  using assms(2-4)
proof (cases rule: DeleteDirectory_cases)
  case (error e)
  with assms(1) show ?thesis by simp
next
  case empty
  then have "''/'' \<noteq> dir_key p" by metis
  with empty assms(1) show ?thesis by (auto simp: wf_store_def)
next
  case tree
  with assms(1) show ?thesis by (auto simp: wf_store_def not_prefix_root split: if_splits)
qed

lemma store_step_wf: "store_step s s' \<Longrightarrow> wf_store s \<Longrightarrow> wf_store s'"
proof (induction rule: store_step.induct)
  case (step_mkdir s t d)
  then show ?case using wf_CreateDirectory [of s t d] by auto
next
  case (step_rmdir dks s fks p r)
  then show ?case
    using wf_DeleteDirectory [of s dks fks p r] by (metis prod.collapse)
qed (metis wf_Initialize wf_Close wf_CreateFile wf_UpdateFile wf_DeleteFile prod.collapse)+

lemma file_ops_directories [simp]:
  "ms_directories (fst (CreateFile t s f)) = ms_directories s"
  "ms_directories (fst (UpdateFile ks t s p u)) = ms_directories s"
  "ms_directories (fst (DeleteFile s p)) = ms_directories s"
  by (auto simp: CreateFile_def UpdateFile_def DeleteFile_def Let_def split: option.split)

text \<open>Only the root directory is ever stored.\<close>

definition root_only :: "MemoryStore \<Rightarrow> bool" where
  "root_only s \<longleftrightarrow> dom (ms_directories s) \<subseteq> {''/''}"

lemma store_step_root_only:
  "store_step s s' \<Longrightarrow> wf_store s \<Longrightarrow> root_only s \<Longrightarrow> root_only s'"
proof (induction rule: store_step.induct)
  case (step_init s t1 t2)
  then show ?case by (auto simp: Initialize_def root_only_def)
next
  case (step_close s)
  then show ?case by (auto simp: Close_def root_only_def)
next
  case (step_create s t f)
  then show ?case by (simp add: root_only_def)
next
  case (step_update s ks t p u)
  then show ?case by (simp add: root_only_def)
next
  case (step_delete s p)
  then show ?case by (simp add: root_only_def)
next
  case (step_mkdir s t d)
  then show ?case using wf_CreateDirectory [of s t d] by auto
next
  case (step_rmdir dks s fks p r)
  obtain s' res where "DeleteDirectory dks fks s p r = (s', res)" by fastforce
  then have "root_only s'" using step_rmdir(1,2)
    by (cases rule: DeleteDirectory_cases) (use step_rmdir(4) in \<open>auto simp: root_only_def split: if_splits\<close>)
  then show ?case using \<open>DeleteDirectory dks fks s p r = (s', res)\<close> by simp
qed

lemma store_reachable_wf: "store_reachable s \<Longrightarrow> wf_store s \<and> root_only s"
proof (induction rule: store_reachable.induct)
  case reach_new
  then show ?case by (simp add: wf_NewMemoryStore) (simp add: root_only_def NewMemoryStore_def)
next
  case (reach_step s s')
  then show ?case using store_step_wf store_step_root_only by blast
qed

section \<open>Listings\<close>

text \<open>The entries that a listing loop selects, in the order of the loop, without a limit.\<close>

definition selected ::
  "(string \<Rightarrow> bool) \<Rightarrow> (string \<Rightarrow> DirectoryEntry option) \<Rightarrow> string list \<Rightarrow> DirectoryEntry list" where
  "selected P entry ks = List.map_filter (\<lambda>k. if P k then entry k else None) ks"

lemma selected_simps [simp]:
  "selected P entry [] = []"
  "selected P entry (k # ks) =
     (case entry k of None \<Rightarrow> [] | Some e \<Rightarrow> if P k then [e] else []) @ selected P entry ks"
  by (auto simp: selected_def map_filter_simps split: option.split)

lemma set_selected: "e \<in> set (selected P entry ks) \<longleftrightarrow> (\<exists>k\<in>set ks. P k \<and> entry k = Some e)"
  by (induction ks) (auto split: option.split)

lemma length_selected:
  assumes "enumerates ks m" "\<And>q. entry q = None \<longleftrightarrow> m q = None"
  shows "length (selected P entry ks) = card {q \<in> dom m. P q}"
proof -
  have "length (selected P entry xs) = length (filter (\<lambda>q. P q \<and> entry q \<noteq> None) xs)" for xs
    by (induction xs) (auto split: option.split)
  also have "length (filter (\<lambda>q. P q \<and> entry q \<noteq> None) ks) =
      card (set (filter (\<lambda>q. P q \<and> entry q \<noteq> None) ks))"
    by (rule distinct_card [symmetric], rule distinct_filter, rule enumeratesD(1) [OF assms(1)])
  also have "set (filter (\<lambda>q. P q \<and> entry q \<noteq> None) ks) = {q \<in> dom m. P q}"
    unfolding set_filter enumeratesD(2) [OF assms(1)] assms(2) by auto
  finally show ?thesis .
qed

lemma set_selected_map:
  assumes "enumerates ks m"
  shows "set (selected P (\<lambda>q. map_option h (m q)) ks) = {h v |q v. m q = Some v \<and> P q}"
proof (rule set_eqI)
  fix e
  have "e \<in> set (selected P (\<lambda>q. map_option h (m q)) ks) \<longleftrightarrow>
      (\<exists>q\<in>dom m. P q \<and> map_option h (m q) = Some e)"
    by (simp add: set_selected enumeratesD(2) [OF assms])
  also have "\<dots> \<longleftrightarrow> e \<in> {h v |q v. m q = Some v \<and> P q}" by blast
  finally show "e \<in> set (selected P (\<lambda>q. map_option h (m q)) ks) \<longleftrightarrow>
      e \<in> {h v |q v. m q = Some v \<and> P q}" .
qed

lemma collect_unlimited: "limit \<le> 0 \<Longrightarrow> collect limit P entry ks acc = acc @ selected P entry ks"
  by (induction ks arbitrary: acc) (auto simp: full_def split: option.split)

lemma collect_limited:
  "0 < limit \<Longrightarrow> length acc \<le> nat limit \<Longrightarrow>
   collect limit P entry ks acc = take (nat limit) (acc @ selected P entry ks)"
proof (induction ks arbitrary: acc)
  case Nil
  then show ?case by simp
next
  case (Cons k ks)
  show ?case
  proof (cases "full (int (length acc)) limit")
    case True
    with Cons.prems have "length acc = nat limit" by (simp add: full_def)
    with True show ?thesis by simp
  next
    case False
    define acc' where
      "acc' = acc @ (case entry k of None \<Rightarrow> [] | Some e \<Rightarrow> if P k then [e] else [])"
    from False Cons.prems have "length acc < nat limit" by (auto simp: full_def)
    then have "length acc' \<le> nat limit" by (simp add: acc'_def split: option.split)
    then have "collect limit P entry ks acc' = take (nat limit) (acc' @ selected P entry ks)"
      using Cons.IH Cons.prems(1) by blast
    moreover have "collect limit P entry (k # ks) acc = collect limit P entry ks acc'"
      using False by (simp add: acc'_def split: option.split)
    ultimately show ?thesis by (simp add: acc'_def)
  qed
qed

definition listing ::
  "string list \<Rightarrow> string list \<Rightarrow> MemoryStore \<Rightarrow> string \<Rightarrow> bool \<Rightarrow> DirectoryEntry list" where
  "listing dks fks s p recursive =
     selected (lists_dir (dir_key p) recursive)
       (\<lambda>q. map_option (dir_entry dks fks s) (ms_directories s q)) dks @
     selected (lists_file (dir_key p) recursive) (\<lambda>q. map_option file_entry (ms_files s q)) fks"

lemma ListDirectory_eq:
  assumes "ms_initialized s"
  shows "ListDirectory dks fks s p recursive limit =
    (if ms_directories s (dir_key p) = None \<and> dir_key p \<noteq> ''/'' then Inl err_nodir
     else Inr (if limit \<le> 0 then listing dks fks s p recursive
               else take (nat limit) (listing dks fks s p recursive)))"
proof (cases "limit \<le> 0")
  case True
  with assms show ?thesis
    by (simp add: ListDirectory_def Let_def ListDirectory_key collect_unlimited listing_def)
next
  case False
  then have pos: "0 < limit" by simp
  have lim: "length (take (nat limit) es) \<le> nat limit" for es :: "DirectoryEntry list"
    by simp
  have mn: "n - min a n = n - a" for a n :: nat
    by (simp add: min_def)
  from assms False show ?thesis
    by (simp add: ListDirectory_def Let_def ListDirectory_key collect_limited [OF pos] listing_def
        collect_limited [OF pos lim] mn)
qed

section \<open>The interface of a metadata store\<close>

text \<open>
  What the HTTP handlers rely on when they call a \<^verbatim>\<open>metadata.Store\<close>: files are looked up by the
  cleaned path, a successful creation is visible and touches nothing else, a successful deletion
  is visible and touches nothing else, and an error changes nothing.
\<close>

locale file_store =
  fixes inv :: "'s \<Rightarrow> bool"
    and get :: "'s \<Rightarrow> string \<Rightarrow> go_error + FileInfo"
    and create :: "gotime \<Rightarrow> 's \<Rightarrow> FileInfo \<Rightarrow> 's \<times> (go_error + FileInfo)"
    and delete :: "'s \<Rightarrow> string \<Rightarrow> 's \<times> go_error option"
  assumes create_inv: "inv s \<Longrightarrow> create t s f = (s', r) \<Longrightarrow> inv s'"
    and delete_inv: "inv s \<Longrightarrow> delete s p = (s', d) \<Longrightarrow> inv s'"
    and create_error: "create t s f = (s', Inl e) \<Longrightarrow> s' = s"
    and create_get: "inv s \<Longrightarrow> create t s f = (s', Inr g) \<Longrightarrow>
      get s' q = (if Clean q = Clean (bf_Path f) then Inr g else get s q)"
    and create_fresh: "create t s f = (s', Inr g) \<Longrightarrow> \<exists>e. get s (bf_Path f) = Inl e \<and> GetCode (Some e) = NotFound"
    and create_exists: "get s (bf_Path f) = Inr h \<Longrightarrow>
      \<exists>e. create t s f = (s, Inl e) \<and> GetCode (Some e) = AlreadyExists"
    and delete_error: "delete s p = (s', Some e) \<Longrightarrow> s' = s \<and> get s p = Inl e"
    and delete_ok: "get s p = Inr h \<Longrightarrow> \<exists>s'. delete s p = (s', None)"
    and delete_get: "inv s \<Longrightarrow> delete s p = (s', None) \<Longrightarrow>
      (\<exists>h. get s p = Inr h) \<and>
      (if Clean q = Clean p then \<exists>e. get s' q = Inl e \<and> GetCode (Some e) = NotFound
       else get s' q = get s q)"
begin

text \<open>A second creation of the same path is refused and leaves the first file as it is.\<close>

lemma create_again:
  assumes "inv s" "create t s f = (s', Inr g)" "Clean (bf_Path f2) = Clean (bf_Path f)"
  shows "\<exists>e. create t2 s' f2 = (s', Inl e) \<and> GetCode (Some e) = AlreadyExists"
  using create_exists create_get [OF assms(1,2), of "bf_Path f2"] assms(3) by simp

text \<open>Deleting what was just created succeeds, and every other path reads as before.\<close>

lemma create_delete:
  assumes "inv s" "create t s f = (s', Inr g)"
  shows "\<exists>s''. delete s' (bf_Path f) = (s'', None) \<and>
    (\<forall>q. Clean q \<noteq> Clean (bf_Path f) \<longrightarrow> get s'' q = get s q) \<and>
    (\<exists>e. get s'' (bf_Path f) = Inl e \<and> GetCode (Some e) = NotFound)"
proof -
  have "get s' (bf_Path f) = Inr g" using create_get [OF assms] by simp
  then obtain s'' where s'': "delete s' (bf_Path f) = (s'', None)" using delete_ok by blast
  have "inv s'" using create_inv assms by blast
  with s'' show ?thesis
    using delete_get [of s' "bf_Path f" s''] create_get [OF assms] by metis
qed

text \<open>A second deletion of the same path reports that it is not there.\<close>

lemma delete_again:
  assumes "inv s" "delete s p = (s', None)"
  shows "\<exists>e. delete s' p = (s', Some e) \<and> GetCode (Some e) = NotFound"
proof -
  obtain e where e: "get s' p = Inl e" "GetCode (Some e) = NotFound"
    using delete_get [OF assms, of p] by auto
  obtain s'' d where d: "delete s' p = (s'', d)" by fastforce
  have "inv s'" using delete_inv assms by blast
  with d e delete_get [of s' p s''] obtain e' where "d = Some e'" by (cases d) auto
  with d e delete_error [of s' p s'' e'] show ?thesis by auto
qed

end

lemma GetFileInfo_CreateFile:
  assumes "CreateFile t s f = (s', Inr g)"
  shows "GetFileInfo s' q = (if Clean q = Clean (bf_Path f) then Inr g else GetFileInfo s q)"
  using assms by (cases rule: CreateFile_cases) (auto simp: GetFileInfo_def)

lemma DeleteFile_error: "DeleteFile s p = (s', Some e) \<Longrightarrow> s' = s \<and> GetFileInfo s p = Inl e"
  by (auto simp: DeleteFile_def GetFileInfo_def Let_def split: if_splits option.splits)

lemma DeleteFile_get:
  assumes "DeleteFile s p = (s', None)"
  shows "(\<exists>h. GetFileInfo s p = Inr h) \<and>
    GetFileInfo s' q = (if Clean q = Clean p then Inl err_nofile else GetFileInfo s q)"
  using assms by (cases rule: DeleteFile_cases) (auto simp: GetFileInfo_def)

interpretation mem: file_store wf_store GetFileInfo CreateFile DeleteFile
proof unfold_locales
  show "s' = s" if "CreateFile t s f = (s', Inl e)" for t s f s' e
    using that by (cases rule: CreateFile_cases) auto
  show "\<exists>e. GetFileInfo s (bf_Path f) = Inl e \<and> GetCode (Some e) = NotFound"
    if "CreateFile t s f = (s', Inr g)" for t s f s' g
    using that by (cases rule: CreateFile_cases) (auto simp: GetFileInfo_def)
  show "\<exists>e. CreateFile t s f = (s, Inl e) \<and> GetCode (Some e) = AlreadyExists"
    if "GetFileInfo s (bf_Path f) = Inr h" for t s f h
    using that by (auto simp: GetFileInfo_def CreateFile_def Let_def split: if_splits option.splits)
  show "\<exists>s'. DeleteFile s p = (s', None)" if "GetFileInfo s p = Inr h" for s p h
    using that by (auto simp: GetFileInfo_def DeleteFile_def Let_def split: if_splits option.splits)
  show "(\<exists>h. GetFileInfo s p = Inr h) \<and>
      (if Clean q = Clean p then \<exists>e. GetFileInfo s' q = Inl e \<and> GetCode (Some e) = NotFound
       else GetFileInfo s' q = GetFileInfo s q)"
    if "wf_store s" "DeleteFile s p = (s', None)" for s p s' q
    using DeleteFile_get [OF that(2), of q] by auto
qed ((erule (1) wf_CreateFile wf_DeleteFile | erule GetFileInfo_CreateFile DeleteFile_error)+)

section \<open>Properties\<close>


text \<open>A store with one file, reached by calls.\<close>

definition demo_file :: "string \<Rightarrow> FileInfo" where
  "demo_file p =
     \<lparr>bf_Name = [], bf_Path = p, bf_Owner = ''root'', bf_Permissions = ''0644'', bf_CreatedAt = 0,
      bf_ModifiedAt = 0, bf_UpdatedAt = 0, bf_Metadata = None, fi_Type = TypeRegular, fi_Size = 5,
      fi_MimeType = ''text/plain'', fi_ChunkSize = 0, fi_Chunks = [], fi_Replicas = 3\<rparr>"

definition demo_store :: MemoryStore where
  "demo_store = fst (CreateFile 20 (fst (Initialize 10 11 NewMemoryStore)) (demo_file ''//a''))"

lemma demo_store_reachable: "store_reachable demo_store"
  unfolding demo_store_def by (intro reach_step [OF _ step_create] reach_step [OF _ step_init] reach_new)

lemmas path_eval = Clean_def Dir_def Base_def abs_path_def clean_elems_def clean_push_def
  dir_part_def strip_slashes_def last_elem_def Let_def

lemma demo_store_eq:
  "ms_initialized demo_store"
  "ms_files demo_store ''/a'' = Some (cloneFileInfo
     ((demo_file ''/a'')\<lparr>bf_Name := ''a'', bf_CreatedAt := 20, bf_UpdatedAt := 20\<rparr>))"
  by (simp_all add: demo_store_def CreateFile_def Initialize_def NewMemoryStore_def demo_file_def
      path_eval)




text \<open>
  When a file can be created: in every reachable initialised state, creation succeeds exactly
  when no file has that cleaned path and the file lies directly below the root; the file that is
  stored carries the cleaned path, the time of the call and a name, and the store is otherwise
  unchanged.
\<close>

theorem CreateFile_succeeds_iff:
  assumes "store_reachable s" "ms_initialized s"
  shows "case CreateFile t s f of
      (s', Inr g) \<Rightarrow>
        ms_files s (Clean (bf_Path f)) = None \<and> Dir (Clean (bf_Path f)) = ''/'' \<and>
        s' = s\<lparr>ms_files := (ms_files s)(Clean (bf_Path f) \<mapsto> g)\<rparr> \<and>
        bf_Path g = Clean (bf_Path f) \<and> bf_CreatedAt g = t \<and> bf_UpdatedAt g = t \<and>
        fi_Size g = fi_Size f \<and> fi_Chunks g = fi_Chunks f \<and>
        bf_Name g = (if bf_Name f = [] then Base (Clean (bf_Path f)) else bf_Name f)
    | (s', Inl e) \<Rightarrow>
        s' = s \<and>
        (if ms_files s (Clean (bf_Path f)) \<noteq> None then GetCode (Some e) = AlreadyExists
         else Dir (Clean (bf_Path f)) \<noteq> ''/'' \<and> GetCode (Some e) = NotFound)"
proof -
  have "dom (ms_directories s) \<subseteq> {''/''}"
    using store_reachable_wf [OF assms(1)] by (simp add: root_only_def)
  then have none: "ms_directories s q = None" if "q \<noteq> ''/''" for q using that by blast
  show ?thesis
  proof (cases "Dir (Clean (bf_Path f)) = ''/''")
    case True
    with assms(2) show ?thesis by (simp add: CreateFile_def Let_def)
  next
    case False
    with assms(2) none [OF False] show ?thesis by (simp add: CreateFile_def Let_def)
  qed
qed

lemma demo_store_files: "ms_files demo_store = [''/a'' \<mapsto> cloneFileInfo
     ((demo_file ''/a'')\<lparr>bf_Name := ''a'', bf_CreatedAt := 20, bf_UpdatedAt := 20\<rparr>)]"
  by (simp add: demo_store_def CreateFile_def Initialize_def NewMemoryStore_def demo_file_def
      path_eval)

theorem CreateFile_succeeds_iff_witness:
  "(\<exists>s' g. CreateFile 40 demo_store (demo_file ''/b/'') = (s', Inr g) \<and> bf_Name g = ''b'') \<and>
   (\<exists>e. CreateFile 40 demo_store (demo_file ''/b/c'') = (demo_store, Inl e) \<and>
        GetCode (Some e) = NotFound)"
  using CreateFile_succeeds_iff [OF demo_store_reachable demo_store_eq(1), of "demo_file ''/b/''" 40]
    CreateFile_succeeds_iff [OF demo_store_reachable demo_store_eq(1), of "demo_file ''/b/c''" 40]
  by (auto simp: demo_store_files demo_file_def path_eval split: prod.splits sum.splits)

text \<open>
  (C16) Creating a file, reading and deleting it: after a successful creation the file is read back
  under every spelling of its path, a second creation is refused with \<open>AlreadyExists\<close>, its
  deletion succeeds, and afterwards every path reads as it did before the creation.
\<close>

theorem create_read_delete:
  assumes "wf_store s" "CreateFile t s f = (s1, Inr g)" "Clean q = Clean (bf_Path f)"
  shows "GetFileInfo s1 q = Inr g \<and>
    (\<exists>e. CreateFile t2 s1 (f2\<lparr>bf_Path := q\<rparr>) = (s1, Inl e) \<and> GetCode (Some e) = AlreadyExists) \<and>
    (\<exists>s2. DeleteFile s1 q = (s2, None) \<and>
       (\<forall>p. Clean p \<noteq> Clean q \<longrightarrow> GetFileInfo s2 p = GetFileInfo s p) \<and>
       (\<exists>e. DeleteFile s2 q = (s2, Some e) \<and> GetCode (Some e) = NotFound))"
proof -
  have get: "GetFileInfo s1 q = Inr g" using assms by (simp add: GetFileInfo_CreateFile)
  then obtain s2 where s2: "DeleteFile s1 q = (s2, None)" using mem.delete_ok by blast
  have "wf_store s1" using assms(1,2) by (rule wf_CreateFile)
  then have again: "\<exists>e. DeleteFile s2 q = (s2, Some e) \<and> GetCode (Some e) = NotFound"
    using s2 by (rule mem.delete_again)
  have "GetFileInfo s2 p = GetFileInfo s p" if "Clean p \<noteq> Clean q" for p
    using that DeleteFile_get [OF s2, of p] GetFileInfo_CreateFile [OF assms(2), of p] assms(3)
    by simp
  with get s2 again show ?thesis
    using mem.create_again [OF assms(1,2), of "f2\<lparr>bf_Path := q\<rparr>"] assms(3) by simp
qed

lemma demo_store0: "wf_store (fst (Initialize 10 11 NewMemoryStore))"
  by (rule wf_Initialize [OF wf_NewMemoryStore])

theorem create_read_delete_witness:
  "\<exists>s2. DeleteFile demo_store ''/x/../a/'' = (s2, None) \<and>
     (\<exists>e. DeleteFile s2 ''/x/../a/'' = (s2, Some e) \<and> GetCode (Some e) = NotFound)"
proof -
  have "\<exists>g. CreateFile 20 (fst (Initialize 10 11 NewMemoryStore)) (demo_file ''//a'') = (demo_store, Inr g)"
    by (simp add: demo_store_def CreateFile_def Initialize_def NewMemoryStore_def demo_file_def
        path_eval)
  moreover have "Clean ''/x/../a/'' = Clean (bf_Path (demo_file ''//a''))"
    by (simp add: demo_file_def path_eval)
  ultimately show ?thesis using create_read_delete [OF demo_store0] by blast
qed

text \<open>
  What an update changes: exactly the four updatable fields whose value has the dynamic type the
  code expects, and the time of the update. Values of another type are ignored without an error,
  the order of the loop over the map does not matter, and no other file changes.
\<close>

theorem UpdateFile_effect:
  assumes "enumerates ks u" "ms_initialized s" "ms_files s (Clean p) = Some f" "stored_file f"
  shows "UpdateFile ks t s p u =
    (let g = f\<lparr>bf_Metadata := upd_meta (u ''metadata'') (bf_Metadata f),
               fi_Size := upd_size (u ''size'') (fi_Size f),
               fi_MimeType := upd_mime (u ''mime_type'') (fi_MimeType f),
               fi_Chunks := upd_chunks (u ''chunks'') (fi_Chunks f), bf_UpdatedAt := t\<rparr>
     in (s\<lparr>ms_files := (ms_files s)(Clean p \<mapsto> g)\<rparr>, Inr g))"
  using assms by (simp add: UpdateFile_def Let_def apply_updates_eq stored_file_def cloneFileInfo_def)

theorem UpdateFile_effect_witness:
  "fi_Size (the (ms_files (fst (UpdateFile [''size'', ''mime_type''] 50 demo_store ''/a''
     [''size'' \<mapsto> AFloat64 9, ''mime_type'' \<mapsto> AString ''x'']))  ''/a'')) = 5 \<and>
   fi_MimeType (the (ms_files (fst (UpdateFile [''size'', ''mime_type''] 50 demo_store ''/a''
     [''size'' \<mapsto> AFloat64 9, ''mime_type'' \<mapsto> AString ''x'']))  ''/a'')) = ''x''"
proof -
  let ?u = "[''size'' \<mapsto> AFloat64 9, ''mime_type'' \<mapsto> AString ''x''] :: string \<rightharpoonup> any_value"
  have "enumerates [''size'', ''mime_type''] ?u" by (auto simp: enumerates_def)
  moreover have "Clean ''/a'' = ''/a''" by (simp add: path_eval)
  ultimately show ?thesis
    using UpdateFile_effect [of "[''size'', ''mime_type'']" ?u demo_store "''/a''" _ 50] demo_store_eq
    by (simp add: upd_defs demo_file_def Let_def)
qed

text \<open>
  Deleting a directory of a well-formed store, when it succeeds, removes the directory. Without
  the recursive flag nothing was below it and nothing else changes; with the flag exactly the
  directories and files below it go, and a sibling whose name merely starts with the same
  characters stays. The root is never deleted.
\<close>

theorem DeleteDirectory_effect:
  assumes "DeleteDirectory dks fks s p r = (s', None)"
    and "enumerates dks (ms_directories s)" "enumerates fks (ms_files s)"
  shows "Clean p \<noteq> ''/'' \<and> ms_directories s (Clean p @ ''/'') \<noteq> None \<and>
    (\<forall>q. ms_directories s' q =
       (if prefix (Clean p @ ''/'') q then None else ms_directories s q)) \<and>
    (\<forall>q. ms_files s' q = (if prefix (Clean p @ ''/'') (parent_key q) then None else ms_files s q)) \<and>
    (\<not> r \<longrightarrow> ms_files s' = ms_files s \<and>
       ms_directories s' = (ms_directories s)(Clean p @ ''/'' := None))"
  using assms
proof (cases rule: DeleteDirectory_cases)
  case (error e)
  then show ?thesis by simp
next
  case empty
  have key: "dir_key p = Clean p @ ''/''" using empty(4) by (auto simp: dir_key_def)
  have "ms_directories s q = None" if "prefix (dir_key p) q" "q \<noteq> dir_key p" for q
    using empty(6) that by (auto simp: below_dir_def)
  moreover have "ms_files s q = None" if "prefix (dir_key p) (parent_key q)" for q
    using empty(7) that by (auto simp: below_file_def)
  ultimately show ?thesis using empty by (auto simp: key dir_key_def)
next
  case tree
  have key: "dir_key p = Clean p @ ''/''" using tree(4) by (auto simp: dir_key_def)
  with tree show ?thesis by (auto simp: below_file_def dir_key_def)
qed

text \<open>A store whose directory map was filled by hand: directories /a/ and /ab/, a file in each.\<close>

definition tree_store :: MemoryStore where
  "tree_store =
     \<lparr>ms_files = [''/a/f'' \<mapsto> demo_file ''/a/f'', ''/ab/f'' \<mapsto> demo_file ''/ab/f''],
      ms_directories =
        [''/'' \<mapsto> empty_dir_info ''/'' ''/'' 1 1, ''/a/'' \<mapsto> empty_dir_info ''/a/'' ''a'' 1 1,
         ''/ab/'' \<mapsto> empty_dir_info ''/ab/'' ''ab'' 1 1],
      ms_initialized = True\<rparr>"

theorem DeleteDirectory_effect_witness:
  "\<exists>s'. DeleteDirectory [''/'', ''/a/'', ''/ab/''] [''/a/f'', ''/ab/f''] tree_store ''/a'' True = (s', None) \<and>
     ms_files s' ''/a/f'' = None \<and> ms_files s' ''/ab/f'' = Some (demo_file ''/ab/f'')"
proof -
  let ?d = "[''/'', ''/a/'', ''/ab/'']" and ?f = "[''/a/f'', ''/ab/f'']"
  have en: "enumerates ?d (ms_directories tree_store)" "enumerates ?f (ms_files tree_store)"
    by (auto simp: enumerates_def tree_store_def)
  have c: "Clean ''/a'' = ''/a''" by (simp add: path_eval)
  have "snd (DeleteDirectory ?d ?f tree_store ''/a'' True) = None"
    by (simp add: DeleteDirectory_def tree_store_def c Let_def)
  then obtain s' where s': "DeleteDirectory ?d ?f tree_store ''/a'' True = (s', None)"
    by (metis prod.collapse)
  have "parent_key ''/a/f'' = ''/a/''" "parent_key ''/ab/f'' = ''/ab/''"
    by (simp_all add: parent_key_def path_eval)
  then show ?thesis
    using s' DeleteDirectory_effect [OF s' en] by (simp add: c) (simp add: tree_store_def)
qed



end
