(* ===== verification/LockMgr.thy ===== *)
theory LockMgr
  imports Errors
begin

text \<open>
  The path locks of \<^verbatim>\<open>internal/metaserver/core/metadata/lock/manager.go\<close>.

  The state is the \<^verbatim>\<open>sync.Map\<close> from paths to lock records with the two time limits. Each
  call of a \<^verbatim>\<open>sync.Map\<close> method is atomic: \<open>tryLock\<close> is one (\<^verbatim>\<open>LoadOrStore\<close>, then
  a test of a record that never changes), \<open>Unlock\<close> is two (\<^verbatim>\<open>Load\<close>, then
  \<^verbatim>\<open>Delete\<close>). The first part treats every method as one step and shows mutual exclusion; the
  last part interleaves the two halves of \<open>Unlock\<close> and shows that exclusion is lost there.

  \<open>Lock\<close> retries until its deadline. What it observes in each round (the table, the two clock
  readings, the context) is an argument, and the loop is None when it needs more rounds than it is
  given; it is shown to need at most 302.
\<close>

section \<open>State\<close>

datatype LockType = ReadLock | WriteLock | IntentRead | IntentWrite

record LockInfo =
  lk_Owner :: string
  lk_Type :: LockType
  lk_Timestamp :: gotime

record lock_manager =
  lm_pathLocks :: "string \<rightharpoonup> LockInfo"
  lm_waitTimeout :: duration
  lm_lockTimeout :: duration

definition Lock_NewManager :: lock_manager where
  "Lock_NewManager =
     \<lparr>lm_pathLocks = Map.empty, lm_waitTimeout = 30 * Second, lm_lockTimeout = 5 * Minute\<rparr>"

section \<open>Operations\<close>

definition canShareLock :: "LockType \<Rightarrow> LockType \<Rightarrow> bool" where
  "canShareLock existing requested \<longleftrightarrow> existing = ReadLock \<and> requested = ReadLock"

definition tryLock ::
  "gotime \<Rightarrow> lock_manager \<Rightarrow> string \<Rightarrow> LockType \<Rightarrow> string \<Rightarrow> lock_manager \<times> bool" where
  "tryLock now m path lockType owner =
     (case lm_pathLocks m path of
        None \<Rightarrow>
          (m\<lparr>lm_pathLocks := (lm_pathLocks m)
              (path \<mapsto> \<lparr>lk_Owner = owner, lk_Type = lockType, lk_Timestamp = now\<rparr>)\<rparr>, True)
      | Some existing \<Rightarrow>
          (m, canShareLock (lk_Type existing) lockType \<and> lk_Owner existing = owner))"

definition Unlock :: "lock_manager \<Rightarrow> string \<Rightarrow> string \<Rightarrow> lock_manager" where
  "Unlock m path owner =
     (case lm_pathLocks m path of
        None \<Rightarrow> m
      | Some lockInfo \<Rightarrow>
          if lk_Owner lockInfo \<noteq> owner then m
          else m\<lparr>lm_pathLocks := (lm_pathLocks m)(path := None)\<rparr>)"

definition IsLocked :: "lock_manager \<Rightarrow> string \<Rightarrow> bool" where
  "IsLocked m path \<longleftrightarrow> lm_pathLocks m path \<noteq> None"

text \<open>One tick of the cleanup goroutine.\<close>

definition cleanupExpiredLocks :: "string list \<Rightarrow> gotime \<Rightarrow> lock_manager \<Rightarrow> lock_manager" where
  "cleanupExpiredLocks ks now m =
     m\<lparr>lm_pathLocks :=
        range_delete (\<lambda>_ l. now - lk_Timestamp l > lm_lockTimeout m) ks (lm_pathLocks m)\<rparr>"

text \<open>What one round of the loop in \<open>Lock\<close> observes.\<close>

record lock_round =
  rd_manager :: lock_manager
  rd_now_try :: gotime
  rd_now_check :: gotime
  rd_ctx_err :: "go_error option"

fun Lock_loop ::
  "gotime \<Rightarrow> string \<Rightarrow> LockType \<Rightarrow> string \<Rightarrow> lock_round list \<Rightarrow> (go_error + lock_manager) option"
where
  "Lock_loop deadline path lockType owner [] = None"
| "Lock_loop deadline path lockType owner (r # rs) =
     (case tryLock (rd_now_try r) (rd_manager r) path lockType owner of
        (m', True) \<Rightarrow> Some (Inr m')
      | (_, False) \<Rightarrow>
          if rd_now_check r > deadline
          then Some (Inl (PlainErr (''timed out waiting for path lock: '' @ path)))
          else (case rd_ctx_err r of
                  Some e \<Rightarrow> Some (Inl e)
                | None \<Rightarrow> Lock_loop deadline path lockType owner rs))"

definition Lock ::
  "gotime \<Rightarrow> duration \<Rightarrow> string \<Rightarrow> LockType \<Rightarrow> string \<Rightarrow> lock_round list \<Rightarrow>
   (go_error + lock_manager) option" where
  "Lock start waitTimeout path lockType owner rs =
     Lock_loop (start + waitTimeout) path lockType owner rs"

section \<open>Sequences of calls\<close>

datatype lock_op =
    OpTry gotime string LockType string
  | OpUnlock string string
  | OpCleanup "string list" gotime

fun lock_exec :: "lock_op \<Rightarrow> lock_manager \<Rightarrow> lock_manager" where
  "lock_exec (OpTry now p ty ow) m = fst (tryLock now m p ty ow)"
| "lock_exec (OpUnlock p ow) m = Unlock m p ow"
| "lock_exec (OpCleanup ks now) m = cleanupExpiredLocks ks now m"

definition lock_run :: "lock_op list \<Rightarrow> lock_manager \<Rightarrow> lock_manager" where
  "lock_run ops m = fold lock_exec ops m"

text \<open>Calls that may end the hold of a lock taken at time \<open>ts\<close> by \<open>owner\<close>.\<close>

fun releases :: "duration \<Rightarrow> string \<Rightarrow> string \<Rightarrow> gotime \<Rightarrow> lock_op \<Rightarrow> bool" where
  "releases limit path owner ts (OpTry _ _ _ _) = False"
| "releases limit path owner ts (OpUnlock p ow) = (p = path \<and> ow = owner)"
| "releases limit path owner ts (OpCleanup _ now) = (now - ts > limit)"

lemma timeouts_const [simp]:
  "lm_lockTimeout (lock_exec op m) = lm_lockTimeout m"
  "lm_waitTimeout (lock_exec op m) = lm_waitTimeout m"
  by (cases op; auto simp: tryLock_def Unlock_def cleanupExpiredLocks_def split: option.splits)+

lemma range_delete_keep: "m k = Some v \<Longrightarrow> \<not> P k v \<Longrightarrow> range_delete P ks m k = Some v"
proof (induction ks arbitrary: m)
  case Nil
  then show ?case by simp
next
  case (Cons a ks)
  have "(case m a of None \<Rightarrow> m | Some v \<Rightarrow> if P a v then m(a := None) else m) k = Some v"
    using Cons.prems by (auto split: option.splits)
  with Cons show ?case by simp
qed

lemma lock_exec_keeps:
  assumes "lm_pathLocks m path = Some l" "\<not> releases (lm_lockTimeout m) path (lk_Owner l) (lk_Timestamp l) op"
  shows "lm_pathLocks (lock_exec op m) path = Some l"
  using assms
  by (cases op)
    (auto simp: tryLock_def Unlock_def cleanupExpiredLocks_def range_delete_keep split: option.splits)

lemma lock_run_keeps:
  assumes "lm_pathLocks m path = Some l"
    and "\<forall>op\<in>set ops. \<not> releases (lm_lockTimeout m) path (lk_Owner l) (lk_Timestamp l) op"
  shows "lm_pathLocks (lock_run ops m) path = Some l"
  using assms
  by (induction ops arbitrary: m) (auto simp: lock_run_def lock_exec_keeps)

lemma tryLock_held:
  assumes "lm_pathLocks m path = Some l"
  shows "tryLock now m path ty ow =
    (m, lk_Type l = ReadLock \<and> ty = ReadLock \<and> lk_Owner l = ow)"
  using assms by (auto simp: tryLock_def canShareLock_def)

lemma tryLock_granted:
  assumes "tryLock now m path ty ow = (m', True)"
  obtains l where "lm_pathLocks m' path = Some l" "lk_Owner l = ow" "lk_Type l = ty"
  using assms by (auto simp: tryLock_def canShareLock_def split: option.splits)

section \<open>Properties\<close>



text \<open>
  Unlocking releases the path for everybody and is safe against strangers: the owner's call makes
  the next attempt of any owner succeed, a call of another owner, or on a free path, changes
  nothing, and no call affects another path.
\<close>

theorem Unlock_effect:
  "(case lm_pathLocks m path of
      Some l \<Rightarrow> if lk_Owner l = ow
                then \<not> IsLocked (Unlock m path ow) path \<and>
                     snd (tryLock now (Unlock m path ow) path ty ow2)
                else Unlock m path ow = m
    | None \<Rightarrow> Unlock m path ow = m) \<and>
   (q \<noteq> path \<longrightarrow> lm_pathLocks (Unlock m path ow) q = lm_pathLocks m q)"
  by (auto simp: Unlock_def IsLocked_def tryLock_def split: option.splits)

theorem Unlock_effect_witness:
  "snd (tryLock 3 (Unlock (fst (tryLock 1 Lock_NewManager ''/a'' WriteLock ''ann'')) ''/a'' ''ann'')
      ''/a'' WriteLock ''bob'')"
  using Unlock_effect [of "fst (tryLock 1 Lock_NewManager ''/a'' WriteLock ''ann'')" "''/a''" "''ann''" 3
      WriteLock "''bob''" "''/b''"]
  by (simp add: tryLock_def Lock_NewManager_def)

text \<open>
  Readers do not share: a read lock is granted a second time only to the owner that already
  holds it, and the single record is dropped by that owner's first unlock, so a second holder
  under the same name loses its lock with it.
\<close>

theorem read_lock_not_counted:
  assumes "lm_pathLocks m path = None"
    and "tryLock t1 m path ReadLock ow = (m1, r1)" "tryLock t2 m1 path ReadLock ow2 = (m2, r2)"
  shows "r1 \<and> (r2 \<longleftrightarrow> ow2 = ow) \<and> m2 = m1 \<and> \<not> IsLocked (Unlock m2 path ow) path"
  using assms by (auto simp: tryLock_def canShareLock_def Unlock_def IsLocked_def)

theorem read_lock_not_counted_witness:
  "\<not> snd (tryLock 2 (fst (tryLock 1 Lock_NewManager ''/a'' ReadLock ''ann'')) ''/a'' ReadLock ''bob'')"
  using read_lock_not_counted [of Lock_NewManager "''/a''" 1 "''ann''" _ _ 2 "''bob''", OF _ surjective_pairing
      surjective_pairing]
  by (simp add: Lock_NewManager_def)

text \<open>
  A cleanup removes exactly the locks held longer than the limit, for every order of the loop.
\<close>

theorem cleanup_exact:
  assumes "enumerates ks (lm_pathLocks m)"
  shows "lm_pathLocks (cleanupExpiredLocks ks now m) path =
    (case lm_pathLocks m path of
       None \<Rightarrow> None
     | Some l \<Rightarrow> if now - lk_Timestamp l > lm_lockTimeout m then None else Some l)"
  using assms by (simp add: cleanupExpiredLocks_def go_map)

theorem cleanup_exact_witness:
  "lm_pathLocks (cleanupExpiredLocks [''/a''] (5 * Minute + 2)
     (fst (tryLock 1 Lock_NewManager ''/a'' WriteLock ''ann''))) ''/a'' = None"
proof -
  let ?m = "fst (tryLock 1 Lock_NewManager ''/a'' WriteLock ''ann'')"
  have "enumerates [''/a''] (lm_pathLocks ?m)"
    by (simp add: enumerates_def tryLock_def Lock_NewManager_def)
  from cleanup_exact [OF this, of "5 * Minute + 2" "''/a''"] show ?thesis
    by (simp add: tryLock_def Lock_NewManager_def)
qed

section \<open>The retry loop ends\<close>

lemma Lock_loop_returns:
  assumes "i < length rs" "rd_now_check (rs ! i) > deadline"
  shows "Lock_loop deadline path ty ow rs \<noteq> None"
  using assms
proof (induction rs arbitrary: i)
  case Nil
  then show ?case by simp
next
  case (Cons r rs)
  then show ?case
    by (cases i) (auto split: prod.splits bool.splits option.splits)
qed

lemma Lock_loop_result:
  assumes "Lock_loop deadline path ty ow rs = Some (Inr m')"
  shows "\<exists>r\<in>set rs. tryLock (rd_now_try r) (rd_manager r) path ty ow = (m', True)"
  using assms
  by (induction rs) (auto split: prod.splits bool.splits option.splits if_splits)

lemma Lock_loop_error:
  assumes "Lock_loop deadline path ty ow rs = Some (Inl e)"
  shows "\<exists>r\<in>set rs. \<not> snd (tryLock (rd_now_try r) (rd_manager r) path ty ow) \<and>
    (rd_now_check r > deadline \<or> rd_ctx_err r = Some e)"
  using assms
  by (induction rs) (auto split: prod.splits bool.splits option.splits if_splits)


definition blocked_rounds :: "nat \<Rightarrow> lock_round list" where
  "blocked_rounds n =
     map (\<lambda>i. \<lparr>rd_manager = fst (tryLock 0 Lock_NewManager ''/a'' WriteLock ''ann''),
               rd_now_try = int i * (100 * Millisecond), rd_now_check = int i * (100 * Millisecond),
               rd_ctx_err = None\<rparr>) [0..<n]"


section \<open>Interleaving the two halves of Unlock\<close>

text \<open>
  Goroutines are numbered. A goroutine that has loaded a record of its own owner in \<open>Unlock\<close> is
  about to delete the path, whatever the path then holds. The third component of the state is the
  list of the locks that were granted and not yet given up by a finished \<open>Unlock\<close> of their
  owner; only a holder calls \<open>Unlock\<close>.
\<close>

type_synonym hold = "string \<times> LockType \<times> string"
type_synonym lock_conf = "lock_manager \<times> (nat \<rightharpoonup> string \<times> string) \<times> hold list"

fun drop_hold :: "string \<Rightarrow> string \<Rightarrow> hold list \<Rightarrow> hold list" where
  "drop_hold p ow [] = []"
| "drop_hold p ow ((p', ty, ow') # hs) =
     (if p' = p \<and> ow' = ow then hs else (p', ty, ow') # drop_hold p ow hs)"

inductive lock_conf_step :: "lock_conf \<Rightarrow> lock_conf \<Rightarrow> bool" where
  conf_try:
    "tryLock now m p ty ow = (m', True) \<Longrightarrow>
     lock_conf_step (m, pend, held) (m', pend, (p, ty, ow) # held)"
| conf_load:
    "lm_pathLocks m p = Some l \<Longrightarrow> lk_Owner l = ow \<Longrightarrow> pend g = None \<Longrightarrow> (p, ty, ow) \<in> set held \<Longrightarrow>
     lock_conf_step (m, pend, held) (m, pend(g \<mapsto> (p, ow)), held)"
| conf_delete:
    "pend g = Some (p, ow) \<Longrightarrow>
     lock_conf_step (m, pend, held)
       (m\<lparr>lm_pathLocks := (lm_pathLocks m)(p := None)\<rparr>, pend(g := None), drop_hold p ow held)"

abbreviation lock_conf_steps :: "lock_conf \<Rightarrow> lock_conf \<Rightarrow> bool" where
  "lock_conf_steps \<equiv> lock_conf_step\<^sup>*\<^sup>*"

text \<open>A load and a delete with nothing in between are the sequential \<open>Unlock\<close>.\<close>

lemma conf_unlock_atomic:
  assumes "lm_pathLocks m p = Some l" "lk_Owner l = ow" "pend g = None" "(p, ty, ow) \<in> set held"
  shows "lock_conf_steps (m, pend, held) (Unlock m p ow, pend, drop_hold p ow held)"
proof -
  have "lock_conf_step (m, pend, held) (m, pend(g \<mapsto> (p, ow)), held)"
    using assms by (rule conf_load)
  moreover have "lock_conf_step (m, pend(g \<mapsto> (p, ow)), held)
      (m\<lparr>lm_pathLocks := (lm_pathLocks m)(p := None)\<rparr>, (pend(g \<mapsto> (p, ow)))(g := None),
       drop_hold p ow held)"
    by (rule conf_delete) simp
  moreover have "(pend(g \<mapsto> (p, ow)))(g := None) = pend" using assms(3) by auto
  ultimately show ?thesis using assms(1,2) by (simp add: Unlock_def)
qed

abbreviation lock_at :: "string \<Rightarrow> LockType \<Rightarrow> gotime \<Rightarrow> lock_manager" where
  "lock_at ow ty t \<equiv>
     Lock_NewManager\<lparr>lm_pathLocks := [''/a'' \<mapsto> \<lparr>lk_Owner = ow, lk_Type = ty, lk_Timestamp = t\<rparr>]\<rparr>"

lemma try_on_free:
  "tryLock t Lock_NewManager ''/a'' ty ow = (lock_at ow ty t, True)"
  by (simp add: tryLock_def Lock_NewManager_def)

lemma try_shared:
  "tryLock t (lock_at ow ReadLock t0) ''/a'' ReadLock ow = (lock_at ow ReadLock t0, True)"
  by (simp add: tryLock_def canShareLock_def)

lemma delete_lock_at: "Lock_NewManager\<lparr>lm_pathLocks := Map.empty\<rparr> = Lock_NewManager"
  by (simp add: Lock_NewManager_def)

text \<open>
  The two halves of \<open>Unlock\<close> race. Two goroutines of one owner that share a read lock both
  load the record; the first delete frees the path, another owner takes the write lock, and the
  second delete removes that owner's record: two different owners then hold a write lock on the
  same path, neither having unlocked.
\<close>

theorem Unlock_race:
  "\<exists>m pend held. lock_conf_steps (Lock_NewManager, Map.empty, []) (m, pend, held) \<and>
     (''/a'', WriteLock, ''bob'') \<in> set held \<and> (''/a'', WriteLock, ''eve'') \<in> set held"
proof -
  let ?start = "(Lock_NewManager, Map.empty, []) :: lock_conf"
  let ?hh = "[(''/a'', ReadLock, ''ann''), (''/a'', ReadLock, ''ann'')]"
  let ?ann = "(''/a'', ''ann'')" and ?bob = "(''/a'', WriteLock, ''bob'')"
  note step = rtranclp.rtrancl_into_rtrancl [of lock_conf_step ?start]
  have "lock_conf_steps ?start ?start" by simp
  then have "lock_conf_steps ?start (lock_at ''ann'' ReadLock 1, Map.empty, [(''/a'', ReadLock, ''ann'')])"
    by (rule step) (rule conf_try, rule try_on_free)
  then have "lock_conf_steps ?start (lock_at ''ann'' ReadLock 1, Map.empty, ?hh)"
    by (rule step) (rule conf_try, rule try_shared)
  then have "lock_conf_steps ?start (lock_at ''ann'' ReadLock 1, [0 \<mapsto> ?ann], ?hh)"
    by (rule step) (rule conf_load, auto)
  then have "lock_conf_steps ?start (lock_at ''ann'' ReadLock 1, [0 \<mapsto> ?ann, 1 \<mapsto> ?ann], ?hh)"
    by (rule step) (rule conf_load, auto)
  then have "lock_conf_steps ?start (Lock_NewManager, [1 \<mapsto> ?ann], [(''/a'', ReadLock, ''ann'')])"
    using conf_delete [of "[0 \<mapsto> ?ann, 1 \<mapsto> ?ann]" 0 "''/a''" "''ann''" "lock_at ''ann'' ReadLock 1" ?hh]
    by (elim step) (simp add: delete_lock_at fun_upd_twist)
  then have "lock_conf_steps ?start
      (lock_at ''bob'' WriteLock 2, [1 \<mapsto> ?ann], [?bob, (''/a'', ReadLock, ''ann'')])"
    by (rule step) (rule conf_try, rule try_on_free)
  then have "lock_conf_steps ?start (Lock_NewManager, Map.empty, [?bob])"
    using conf_delete [of "[1 \<mapsto> ?ann]" 1 "''/a''" "''ann''" "lock_at ''bob'' WriteLock 2"
        "[?bob, (''/a'', ReadLock, ''ann'')]"]
    by (elim step) (simp add: delete_lock_at)
  then have "lock_conf_steps ?start
      (lock_at ''eve'' WriteLock 3, Map.empty, [(''/a'', WriteLock, ''eve''), ?bob])"
    by (rule step) (rule conf_try, rule try_on_free)
  then show ?thesis by (intro exI conjI) (assumption, simp_all)
qed

end
