(* ===== verification/TxMgr.thy ===== *)
theory TxMgr
  imports Errors
begin

text \<open>
  Transactions: \<^verbatim>\<open>internal/metaserver/core/metadata/transaction/manager.go\<close> and the HTTP
  middleware \<^verbatim>\<open>server/middleware/transaction.go\<close> that wraps a request in one.

  A \<^verbatim>\<open>*Transaction\<close> is shared between the table and \<open>WithTransaction\<close>, so transactions are
  objects of a heap; the n-th transaction opened has reference n, and so has its
  \<^verbatim>\<open>*sql.Tx\<close>. Of \<^verbatim>\<open>database/sql\<close> the model has what the code relies on: a
  \<^verbatim>\<open>Tx\<close> is finished by its first \<open>Commit\<close> or \<open>Rollback\<close>, also when the driver reports an
  error, and every later one returns \<^verbatim>\<open>ErrTxDone\<close>. What the driver answers is an argument.

  The middleware is a function of the three methods of its \<^verbatim>\<open>TransactionManager\<close> interface;
  the locale \<open>tx_service\<close> states what it relies on and the manager is its interpretation.
\<close>

section \<open>sql.Tx\<close>

datatype sql_status = SqlOpen | SqlCommitted | SqlRolledBack | SqlBroken

definition ErrTxDone :: go_error where
  "ErrTxDone = PlainErr ''sql: transaction has already been committed or rolled back''"

definition sql_Commit :: "go_error option \<Rightarrow> sql_status \<Rightarrow> sql_status \<times> go_error option" where
  "sql_Commit drv st =
     (if st \<noteq> SqlOpen then (st, Some ErrTxDone)
      else case drv of None \<Rightarrow> (SqlCommitted, None) | Some e \<Rightarrow> (SqlBroken, Some e))"

definition sql_Rollback :: "go_error option \<Rightarrow> sql_status \<Rightarrow> sql_status \<times> go_error option" where
  "sql_Rollback drv st =
     (if st \<noteq> SqlOpen then (st, Some ErrTxDone)
      else case drv of None \<Rightarrow> (SqlRolledBack, None) | Some e \<Rightarrow> (SqlBroken, Some e))"

section \<open>State\<close>

datatype TransactionState = TxActive | TxCommitted | TxAborted

record Transaction =
  tx_ID :: string
  tx_Tx :: nat
  tx_State :: TransactionState
  tx_StartTime :: gotime
  tx_Timeout :: duration

record tx_manager =
  tm_txMap :: "string \<rightharpoonup> nat"
  tm_heap :: "nat \<Rightarrow> Transaction"
  tm_sql :: "nat \<Rightarrow> sql_status"
  tm_next :: nat
  tm_txTimeout :: duration
  tm_closed :: bool

definition no_tx :: Transaction where
  "no_tx = \<lparr>tx_ID = [], tx_Tx = 0, tx_State = TxAborted, tx_StartTime = 0, tx_Timeout = 0\<rparr>"

definition Tx_NewManager :: tx_manager where
  "Tx_NewManager =
     \<lparr>tm_txMap = Map.empty, tm_heap = (\<lambda>_. no_tx), tm_sql = (\<lambda>_. SqlBroken), tm_next = 0,
      tm_txTimeout = 5 * Minute, tm_closed = False\<rparr>"

definition set_state :: "nat \<Rightarrow> TransactionState \<Rightarrow> tx_manager \<Rightarrow> tx_manager" where
  "set_state r st m = m\<lparr>tm_heap := (tm_heap m)(r := (tm_heap m r)\<lparr>tx_State := st\<rparr>)\<rparr>"

definition set_sql :: "nat \<Rightarrow> sql_status \<Rightarrow> tx_manager \<Rightarrow> tx_manager" where
  "set_sql h st m = m\<lparr>tm_sql := (tm_sql m)(h := st)\<rparr>"

section \<open>Operations\<close>

definition tx_id :: "gotime \<Rightarrow> string" where
  "tx_id now = ''tx-'' @ dec_int now"

definition Begin ::
  "go_error option \<Rightarrow> gotime \<Rightarrow> gotime \<Rightarrow> tx_manager \<Rightarrow> tx_manager \<times> (go_error + string)" where
  "Begin db_err now1 now2 m =
     (case db_err of
        Some e \<Rightarrow> (m, Inl (Errorf_w ''begin transaction failed'' e))
      | None \<Rightarrow>
          let r = tm_next m;
              transaction = \<lparr>tx_ID = tx_id now1, tx_Tx = r, tx_State = TxActive,
                             tx_StartTime = now2, tx_Timeout = tm_txTimeout m\<rparr>
          in (m\<lparr>tm_txMap := (tm_txMap m)(tx_id now1 \<mapsto> r),
                tm_heap := (tm_heap m)(r := transaction),
                tm_sql := (tm_sql m)(r := SqlOpen),
                tm_next := Suc r\<rparr>, Inr (tx_id now1)))"

definition err_no_tx :: "string \<Rightarrow> go_error" where
  "err_no_tx txID = PlainErr (''transaction does not exist: '' @ txID)"

fun state_text :: "TransactionState \<Rightarrow> string" where
  "state_text TxActive = ''active''"
| "state_text TxCommitted = ''committed''"
| "state_text TxAborted = ''aborted''"

definition err_tx_state :: "string \<Rightarrow> TransactionState \<Rightarrow> go_error" where
  "err_tx_state txID st =
     PlainErr (''transaction state invalid: '' @ txID @ '', state='' @ state_text st)"

definition Commit :: "go_error option \<Rightarrow> tx_manager \<Rightarrow> string \<Rightarrow> tx_manager \<times> go_error option" where
  "Commit drv m txID =
     (case tm_txMap m txID of
        None \<Rightarrow> (m, Some (err_no_tx txID))
      | Some r \<Rightarrow>
          let tx = tm_heap m r
          in if tx_State tx \<noteq> TxActive then (m, Some (err_tx_state txID (tx_State tx)))
             else case sql_Commit drv (tm_sql m (tx_Tx tx)) of
                    (st, Some e) \<Rightarrow>
                      (set_state r TxAborted (set_sql (tx_Tx tx) st m),
                       Some (Errorf_w ''commit transaction failed'' e))
                  | (st, None) \<Rightarrow>
                      let m = set_state r TxCommitted (set_sql (tx_Tx tx) st m)
                      in (m\<lparr>tm_txMap := (tm_txMap m)(txID := None)\<rparr>, None))"

definition Rollback :: "go_error option \<Rightarrow> tx_manager \<Rightarrow> string \<Rightarrow> tx_manager \<times> go_error option" where
  "Rollback drv m txID =
     (case tm_txMap m txID of
        None \<Rightarrow> (m, Some (err_no_tx txID))
      | Some r \<Rightarrow>
          let tx = tm_heap m r
          in if tx_State tx \<noteq> TxActive then (m, Some (err_tx_state txID (tx_State tx)))
             else case sql_Rollback drv (tm_sql m (tx_Tx tx)) of
                    (st, Some e) \<Rightarrow>
                      (set_sql (tx_Tx tx) st m, Some (Errorf_w ''rollback transaction failed'' e))
                  | (st, None) \<Rightarrow>
                      let m = set_state r TxAborted (set_sql (tx_Tx tx) st m)
                      in (m\<lparr>tm_txMap := (tm_txMap m)(txID := None)\<rparr>, None))"

text \<open>
  One tick of the cleanup goroutine, and \<open>Stop\<close>: loops over the table, one entry after the other.
  The driver's answer for each transaction is a function of its reference; it is ignored by the code.
\<close>

fun cleanup_loop :: "(nat \<Rightarrow> go_error option) \<Rightarrow> gotime \<Rightarrow> string list \<Rightarrow> tx_manager \<Rightarrow> tx_manager" where
  "cleanup_loop drv now [] m = m"
| "cleanup_loop drv now (k # ks) m =
     cleanup_loop drv now ks
       (case tm_txMap m k of
          None \<Rightarrow> m
        | Some r \<Rightarrow>
            let tx = tm_heap m r
            in if tx_State tx \<noteq> TxActive then m
               else if now - tx_StartTime tx > tx_Timeout tx
               then set_state r TxAborted
                      (set_sql (tx_Tx tx) (fst (sql_Rollback (drv r) (tm_sql m (tx_Tx tx)))) m)
               else m)"

fun stop_loop :: "(nat \<Rightarrow> go_error option) \<Rightarrow> string list \<Rightarrow> tx_manager \<Rightarrow> tx_manager" where
  "stop_loop drv [] m = m"
| "stop_loop drv (k # ks) m =
     stop_loop drv ks
       (case tm_txMap m k of
          None \<Rightarrow> m
        | Some r \<Rightarrow>
            let tx = tm_heap m r
            in if tx_State tx = TxActive
               then set_sql (tx_Tx tx) (fst (sql_Rollback (drv r) (tm_sql m (tx_Tx tx)))) m
               else m)"

text \<open>\<open>Stop\<close> closes the cleanup channel; a second call closes it again and panics (None).\<close>

definition Tx_Stop :: "(nat \<Rightarrow> go_error option) \<Rightarrow> string list \<Rightarrow> tx_manager \<Rightarrow> tx_manager option" where
  "Tx_Stop drv ks m =
     (if tm_closed m then None else Some (stop_loop drv ks (m\<lparr>tm_closed := True\<rparr>)))"

text \<open>
  How the callback of \<open>WithTransaction\<close> ends. The result of \<open>WithTransaction\<close> is None when it
  panics on. The driver answers, in the order they can be needed: to the rollback after an error,
  to the commit, to the deferred rollback.
\<close>

datatype fn_outcome = Returns "go_error option" | Panics

definition deferred_rollback ::
  "go_error option \<Rightarrow> nat \<Rightarrow> string \<Rightarrow> tx_manager \<Rightarrow> tx_manager" where
  "deferred_rollback drv r txID m =
     (if tx_State (tm_heap m r) = TxActive then fst (Rollback drv m txID) else m)"

definition WithTransaction ::
  "go_error option \<Rightarrow> gotime \<Rightarrow> gotime \<Rightarrow> go_error option \<Rightarrow> go_error option \<Rightarrow> go_error option \<Rightarrow>
   (tx_manager \<Rightarrow> nat \<Rightarrow> tx_manager \<times> fn_outcome) \<Rightarrow> tx_manager \<Rightarrow>
   tx_manager \<times> go_error option option" where
  "WithTransaction db_err now1 now2 drv_rb drv_cm drv_defer fn m =
     (case Begin db_err now1 now2 m of
        (m, Inl e) \<Rightarrow> (m, Some (Some e))
      | (m, Inr txID) \<Rightarrow>
          let r = the (tm_txMap m txID)
          in case fn m (tx_Tx (tm_heap m r)) of
               (m, Panics) \<Rightarrow> (deferred_rollback drv_defer r txID m, None)
             | (m, Returns (Some e)) \<Rightarrow>
                 let m = fst (Rollback drv_rb m txID)
                 in (deferred_rollback drv_defer r txID m, Some (Some e))
             | (m, Returns None) \<Rightarrow>
                 (case Commit drv_cm m txID of
                    (m, err) \<Rightarrow> (deferred_rollback drv_defer r txID m, Some err)))"

section \<open>The middleware\<close>

text \<open>
  The handler is given the transaction identifier of the context (None outside a transaction) and
  returns the status codes it passes to \<^verbatim>\<open>WriteHeader\<close>, in order; the recorder keeps the last one
  and starts with 200. The result lists the codes sent, with the one of \<^verbatim>\<open>http.Error\<close>.
\<close>

definition recorded_status :: "int list \<Rightarrow> int" where
  "recorded_status codes = (if codes = [] then 200 else last codes)"

definition Transaction_middleware ::
  "('s \<Rightarrow> 's \<times> (go_error + string)) \<Rightarrow> ('s \<Rightarrow> string \<Rightarrow> 's \<times> go_error option) \<Rightarrow>
   ('s \<Rightarrow> string \<Rightarrow> 's \<times> go_error option) \<Rightarrow> ('s \<Rightarrow> string option \<Rightarrow> 's \<times> int list) \<Rightarrow>
   string \<Rightarrow> 's \<Rightarrow> 's \<times> int list" where
  "Transaction_middleware begin_tx commit_tx rollback_tx serve meth s =
     (if meth = ''GET'' \<or> meth = ''HEAD'' \<or> meth = ''OPTIONS'' then serve s None
      else case begin_tx s of
             (s, Inl e) \<Rightarrow> (s, [500])
           | (s, Inr txID) \<Rightarrow>
               (case serve s (Some txID) of
                  (s, codes) \<Rightarrow>
                    if recorded_status codes \<ge> 200 \<and> recorded_status codes < 400
                    then (case commit_tx s txID of
                            (s, Some e) \<Rightarrow> (s, codes @ [500])
                          | (s, None) \<Rightarrow> (fst (rollback_tx s txID), codes))
                    else (s, codes)))"

section \<open>Well-formed managers\<close>

text \<open>
  The table points to transactions that were opened, under their own identifiers, and each has its
  own \<^verbatim>\<open>sql.Tx\<close>; a transaction that is committed or aborted has a finished one.
\<close>

definition tx_ok :: "nat \<Rightarrow> Transaction \<Rightarrow> sql_status \<Rightarrow> bool" where
  "tx_ok r tx st \<longleftrightarrow> tx_Tx tx = r \<and>
     (tx_State tx = TxCommitted \<longrightarrow> st = SqlCommitted) \<and> (tx_State tx = TxAborted \<longrightarrow> st \<noteq> SqlOpen)"

definition wf_tx :: "tx_manager \<Rightarrow> bool" where
  "wf_tx m \<longleftrightarrow>
     (\<forall>k r. tm_txMap m k = Some r \<longrightarrow> r < tm_next m \<and> tx_ID (tm_heap m r) = k) \<and>
     (\<forall>r < tm_next m. tx_ok r (tm_heap m r) (tm_sql m r))"

lemma wf_NewManager: "wf_tx Tx_NewManager"
  by (simp add: wf_tx_def Tx_NewManager_def)

lemma wf_txD:
  assumes "wf_tx m"
  shows "tm_txMap m k = Some r \<Longrightarrow> r < tm_next m \<and> tx_ID (tm_heap m r) = k"
    and "r < tm_next m \<Longrightarrow> tx_ok r (tm_heap m r) (tm_sql m r)"
    and "tm_txMap m k = Some r \<Longrightarrow> tx_Tx (tm_heap m r) = r"
  using assms by (auto simp: wf_tx_def tx_ok_def)

lemma wf_Begin:
  assumes "wf_tx m" "Begin de t1 t2 m = (m', res)"
  shows "wf_tx m'"
proof (cases de)
  case (Some e)
  with assms show ?thesis by (simp add: Begin_def)
next
  case None
  define tx where "tx = \<lparr>tx_ID = tx_id t1, tx_Tx = tm_next m, tx_State = TxActive,
    tx_StartTime = t2, tx_Timeout = tm_txTimeout m\<rparr>"
  have "tx_ID tx = tx_id t1" "tx_ok (tm_next m) tx SqlOpen" by (simp_all add: tx_def tx_ok_def)
  moreover have "m' = m\<lparr>tm_txMap := (tm_txMap m)(tx_id t1 \<mapsto> tm_next m),
      tm_heap := (tm_heap m)(tm_next m := tx), tm_sql := (tm_sql m)(tm_next m := SqlOpen),
      tm_next := Suc (tm_next m)\<rparr>"
    using None assms(2) by (simp add: Begin_def Let_def tx_def)
  ultimately show ?thesis
    using assms(1) unfolding wf_tx_def by (auto split: if_splits) (metis less_SucE less_irrefl_nat less_Suc_eq)+
qed

text \<open>Changing one transaction and its \<^verbatim>\<open>sql.Tx\<close> consistently, dropping entries of the table.\<close>

lemma wf_tx_change:
  assumes "wf_tx m" "r < tm_next m" "tx_ok r tx st" "tx_ID tx = tx_ID (tm_heap m r)"
    and "tm_heap m' = (tm_heap m)(r := tx)" "tm_sql m' = (tm_sql m)(r := st)"
    and "tm_next m' = tm_next m" "tm_txMap m' \<subseteq>\<^sub>m tm_txMap m"
  shows "wf_tx m'"
proof -
  have "tm_txMap m k = Some q" if "tm_txMap m' k = Some q" for k q
    using assms(8) that by (auto simp: map_le_def dom_def)
  with assms(1-7) show ?thesis unfolding wf_tx_def by (auto simp del: fun_upd_apply simp: fun_upd_def)
qed

lemma sql_done [simp]:
  "fst (sql_Rollback d st) \<noteq> SqlOpen"
  "fst (sql_Commit d st) \<noteq> SqlOpen"
  by (auto simp: sql_Rollback_def sql_Commit_def split: option.splits)

lemma Commit_cases:
  assumes "Commit d m txID = (m', e)"
  obtains (refused) er where "e = Some er" "m' = m"
      "\<And>r. tm_txMap m txID = Some r \<Longrightarrow> tx_State (tm_heap m r) \<noteq> TxActive"
  | (failed) r st er where "e = Some er" "tm_txMap m txID = Some r" "tx_State (tm_heap m r) = TxActive"
      "m' = set_state r TxAborted (set_sql (tx_Tx (tm_heap m r)) st m)" "st \<noteq> SqlOpen"
  | (committed) r where "e = None" "tm_txMap m txID = Some r" "tx_State (tm_heap m r) = TxActive"
      "d = None" "tm_sql m (tx_Tx (tm_heap m r)) = SqlOpen"
      "m' = (set_state r TxCommitted (set_sql (tx_Tx (tm_heap m r)) SqlCommitted m))
              \<lparr>tm_txMap := (tm_txMap m)(txID := None)\<rparr>"
proof (cases "tm_txMap m txID")
  case None
  with assms show ?thesis by (intro refused) (auto simp: Commit_def)
next
  case (Some r)
  let ?tx = "tm_heap m r"
  show ?thesis
  proof (cases "tx_State ?tx = TxActive")
    case False
    with Some assms show ?thesis by (intro refused) (auto simp: Commit_def)
  next
    case act: True
    obtain st er where q: "sql_Commit d (tm_sql m (tx_Tx ?tx)) = (st, er)" by fastforce
    then have st: "st \<noteq> SqlOpen" using sql_done [of d "tm_sql m (tx_Tx ?tx)"] by simp
    show ?thesis
    proof (cases er)
      case None
      with q have ok: "d = None" "tm_sql m (tx_Tx ?tx) = SqlOpen" "st = SqlCommitted"
        by (auto simp: sql_Commit_def split: if_splits option.splits)
      with assms Some act q None show ?thesis
        by (intro committed [of r]) (auto simp: Commit_def Let_def set_state_def set_sql_def)
    next
      case (Some er')
      have "tm_sql m (tx_Tx ?tx) \<noteq> SqlOpen \<Longrightarrow> st = tm_sql m (tx_Tx ?tx)"
        using q by (simp add: sql_Commit_def)
      with assms \<open>tm_txMap m txID = Some r\<close> act q Some st show ?thesis
        by (intro failed [of "Errorf_w ''commit transaction failed'' er'" r st])
          (simp_all add: Commit_def)
    qed
  qed
qed

lemma Rollback_cases:
  assumes "Rollback d m txID = (m', e)"
  obtains (refused) er where "e = Some er" "m' = m"
      "\<And>r. tm_txMap m txID = Some r \<Longrightarrow> tx_State (tm_heap m r) \<noteq> TxActive"
  | (failed) r st er where "e = Some er" "tm_txMap m txID = Some r" "tx_State (tm_heap m r) = TxActive"
      "m' = set_sql (tx_Tx (tm_heap m r)) st m" "st \<noteq> SqlOpen"
      "tm_sql m (tx_Tx (tm_heap m r)) \<noteq> SqlOpen \<Longrightarrow> st = tm_sql m (tx_Tx (tm_heap m r))"
  | (rolled) r where "e = None" "tm_txMap m txID = Some r" "tx_State (tm_heap m r) = TxActive"
      "d = None" "tm_sql m (tx_Tx (tm_heap m r)) = SqlOpen"
      "m' = (set_state r TxAborted (set_sql (tx_Tx (tm_heap m r)) SqlRolledBack m))
              \<lparr>tm_txMap := (tm_txMap m)(txID := None)\<rparr>"
proof (cases "tm_txMap m txID")
  case None
  with assms show ?thesis by (intro refused) (auto simp: Rollback_def)
next
  case (Some r)
  let ?tx = "tm_heap m r"
  show ?thesis
  proof (cases "tx_State ?tx = TxActive")
    case False
    with Some assms show ?thesis by (intro refused) (auto simp: Rollback_def)
  next
    case act: True
    obtain st er where q: "sql_Rollback d (tm_sql m (tx_Tx ?tx)) = (st, er)" by fastforce
    then have st: "st \<noteq> SqlOpen" using sql_done [of d "tm_sql m (tx_Tx ?tx)"] by simp
    show ?thesis
    proof (cases er)
      case None
      with q have ok: "d = None" "tm_sql m (tx_Tx ?tx) = SqlOpen" "st = SqlRolledBack"
        by (auto simp: sql_Rollback_def split: if_splits option.splits)
      with assms Some act q None show ?thesis
        by (intro rolled [of r]) (auto simp: Rollback_def Let_def set_state_def set_sql_def)
    next
      case (Some er')
      have "tm_sql m (tx_Tx ?tx) \<noteq> SqlOpen \<Longrightarrow> st = tm_sql m (tx_Tx ?tx)"
        using q by (simp add: sql_Rollback_def)
      with assms \<open>tm_txMap m txID = Some r\<close> act q Some st show ?thesis
        by (intro failed [of "Errorf_w ''rollback transaction failed'' er'" r st])
          (simp_all add: Rollback_def)
    qed
  qed
qed

lemma wf_Commit:
  assumes "wf_tx m" "Commit d m txID = (m', e)"
  shows "wf_tx m'"
  using assms(2)
proof (cases rule: Commit_cases)
  case (refused er)
  with assms(1) show ?thesis by simp
next
  case (failed r st er)
  with wf_txD [OF assms(1)] have "tx_Tx (tm_heap m r) = r" "r < tm_next m" by auto
  with failed show ?thesis
    by (intro wf_tx_change [OF assms(1), of r "(tm_heap m r)\<lparr>tx_State := TxAborted\<rparr>" st])
      (auto simp: set_state_def set_sql_def tx_ok_def)
next
  case (committed r)
  with wf_txD [OF assms(1)] have "tx_Tx (tm_heap m r) = r" "r < tm_next m" by auto
  with committed show ?thesis
    by (intro wf_tx_change [OF assms(1), of r "(tm_heap m r)\<lparr>tx_State := TxCommitted\<rparr>" SqlCommitted])
      (auto simp: set_state_def set_sql_def tx_ok_def map_le_def)
qed

lemma wf_Rollback:
  assumes "wf_tx m" "Rollback d m txID = (m', e)"
  shows "wf_tx m'"
  using assms(2)
proof (cases rule: Rollback_cases)
  case (refused er)
  with assms(1) show ?thesis by simp
next
  case (failed r st er)
  with wf_txD [OF assms(1)] have "tx_Tx (tm_heap m r) = r" "r < tm_next m" by auto
  with failed show ?thesis
    by (intro wf_tx_change [OF assms(1), of r "tm_heap m r" st])
      (auto simp: set_sql_def tx_ok_def)
next
  case (rolled r)
  with wf_txD [OF assms(1)] have "tx_Tx (tm_heap m r) = r" "r < tm_next m" by auto
  with rolled show ?thesis
    by (intro wf_tx_change [OF assms(1), of r "(tm_heap m r)\<lparr>tx_State := TxAborted\<rparr>" SqlRolledBack])
      (auto simp: set_state_def set_sql_def tx_ok_def map_le_def)
qed

text \<open>What a round of the cleanup loop does to one entry.\<close>

definition cleanup_entry :: "(nat \<Rightarrow> go_error option) \<Rightarrow> gotime \<Rightarrow> string \<Rightarrow> tx_manager \<Rightarrow> tx_manager" where
  "cleanup_entry drv now k m = cleanup_loop drv now [k] m"

lemma cleanup_loop_Cons:
  "cleanup_loop drv now (k # ks) m = cleanup_loop drv now ks (cleanup_entry drv now k m)"
  by (simp add: cleanup_entry_def)

lemma cleanup_entry_cases:
  obtains (skip) "cleanup_entry drv now k m = m"
      "\<And>r. tm_txMap m k = Some r \<Longrightarrow> tx_State (tm_heap m r) \<noteq> TxActive \<or>
         now - tx_StartTime (tm_heap m r) \<le> tx_Timeout (tm_heap m r)"
  | (abort) r st where "tm_txMap m k = Some r" "tx_State (tm_heap m r) = TxActive"
      "now - tx_StartTime (tm_heap m r) > tx_Timeout (tm_heap m r)" "st \<noteq> SqlOpen"
      "cleanup_entry drv now k m = set_state r TxAborted (set_sql (tx_Tx (tm_heap m r)) st m)"
proof (cases "tm_txMap m k")
  case None
  then show ?thesis by (intro skip) (auto simp: cleanup_entry_def)
next
  case (Some r)
  show ?thesis
  proof (cases "tx_State (tm_heap m r) = TxActive \<and>
      now - tx_StartTime (tm_heap m r) > tx_Timeout (tm_heap m r)")
    case True
    with Some show ?thesis
      by (intro abort [of r "fst (sql_Rollback (drv r) (tm_sql m (tx_Tx (tm_heap m r))))"])
        (auto simp: cleanup_entry_def Let_def)
  next
    case False
    with Some show ?thesis by (intro skip) (auto simp: cleanup_entry_def Let_def)
  qed
qed

lemma cleanup_entry_table [simp]:
  "tm_txMap (cleanup_entry drv now k m) = tm_txMap m"
  by (cases rule: cleanup_entry_cases [of drv now k m]) (auto simp: set_state_def set_sql_def)

lemma wf_cleanup_entry:
  assumes "wf_tx m"
  shows "wf_tx (cleanup_entry drv now k m)"
proof (cases rule: cleanup_entry_cases [of drv now k m])
  case skip
  with assms show ?thesis by simp
next
  case (abort r st)
  with wf_txD [OF assms] have "tx_Tx (tm_heap m r) = r" "r < tm_next m" by auto
  with abort show ?thesis
    by (intro wf_tx_change [OF assms, of r "(tm_heap m r)\<lparr>tx_State := TxAborted\<rparr>" st])
      (auto simp: set_state_def set_sql_def tx_ok_def)
qed

lemma wf_cleanup_loop: "wf_tx m \<Longrightarrow> wf_tx (cleanup_loop drv now ks m)"
  by (induction ks arbitrary: m) (auto simp: cleanup_loop_Cons wf_cleanup_entry simp del: cleanup_loop.simps(2))

lemma cleanup_loop_table [simp]: "tm_txMap (cleanup_loop drv now ks m) = tm_txMap m"
  by (induction ks arbitrary: m) (auto simp: cleanup_loop_Cons simp del: cleanup_loop.simps(2))

lemma wf_set_sql:
  assumes "wf_tx m" "tm_txMap m k = Some r" "tx_State (tm_heap m r) = TxActive"
  shows "wf_tx (set_sql (tx_Tx (tm_heap m r)) st m)"
proof -
  from wf_txD [OF assms(1)] assms(2) have "tx_Tx (tm_heap m r) = r" "r < tm_next m" by auto
  with assms show ?thesis
    by (intro wf_tx_change [OF assms(1), of r "tm_heap m r" st]) (auto simp: set_sql_def tx_ok_def)
qed

lemma wf_stop_loop: "wf_tx m \<Longrightarrow> wf_tx (stop_loop drv ks m)"
  by (induction ks arbitrary: m) (auto simp: Let_def wf_set_sql split: option.split)

subsection \<open>Calls in any order\<close>

inductive tx_step :: "tx_manager \<Rightarrow> tx_manager \<Rightarrow> bool" where
  tx_begin: "tx_step m (fst (Begin de t1 t2 m))"
| tx_commit: "tx_step m (fst (Commit d m k))"
| tx_rollback: "tx_step m (fst (Rollback d m k))"
| tx_cleanup: "tx_step m (cleanup_loop drv now ks m)"
| tx_stop: "Tx_Stop drv ks m = Some m' \<Longrightarrow> tx_step m m'"

lemma wf_closed [simp]: "wf_tx (m\<lparr>tm_closed := b\<rparr>) = wf_tx m"
  by (simp add: wf_tx_def)

lemma tx_step_wf: "tx_step m m' \<Longrightarrow> wf_tx m \<Longrightarrow> wf_tx m'"
proof (induction rule: tx_step.induct)
  case (tx_stop drv ks m m')
  then show ?case by (auto simp: Tx_Stop_def wf_stop_loop split: if_splits)
qed (metis wf_Begin wf_Commit wf_Rollback wf_cleanup_loop prod.collapse)+

text \<open>The outcome of a transaction never changes again once its \<^verbatim>\<open>sql.Tx\<close> is finished.\<close>

lemma sql_Commit_final: "st \<noteq> SqlOpen \<Longrightarrow> sql_Commit d st = (st, Some ErrTxDone)"
  by (simp add: sql_Commit_def)

lemma sql_Rollback_final: "st \<noteq> SqlOpen \<Longrightarrow> sql_Rollback d st = (st, Some ErrTxDone)"
  by (simp add: sql_Rollback_def)

lemma Commit_final: "tm_sql m h \<noteq> SqlOpen \<Longrightarrow> tm_sql (fst (Commit d m k)) h = tm_sql m h"
  by (auto simp: Commit_def Let_def set_sql_def set_state_def sql_Commit_final split: option.split prod.split)

lemma Rollback_final: "tm_sql m h \<noteq> SqlOpen \<Longrightarrow> tm_sql (fst (Rollback d m k)) h = tm_sql m h"
  by (auto simp: Rollback_def Let_def set_sql_def set_state_def sql_Rollback_final split: option.split prod.split)

lemma cleanup_loop_final:
  "tm_sql m h \<noteq> SqlOpen \<Longrightarrow> tm_sql (cleanup_loop drv now ks m) h = tm_sql m h"
  by (induction ks arbitrary: m)
    (auto simp: Let_def set_sql_def set_state_def sql_Rollback_final split: option.split)

lemma stop_loop_final: "tm_sql m h \<noteq> SqlOpen \<Longrightarrow> tm_sql (stop_loop drv ks m) h = tm_sql m h"
  by (induction ks arbitrary: m)
    (auto simp: Let_def set_sql_def sql_Rollback_final split: option.split)

lemma tx_step_final:
  assumes "tx_step m m'" "h < tm_next m" "tm_sql m h \<noteq> SqlOpen"
  shows "tm_sql m' h = tm_sql m h \<and> h < tm_next m'"
proof -
  have next_le: "tm_next m \<le> tm_next m'"
    using assms(1)
  proof (induction rule: tx_step.induct)
    case (tx_begin m de t1 t2)
    then show ?case by (simp add: Begin_def Let_def split: option.split)
  next
    case (tx_commit m d k)
    then show ?case
      by (simp add: Commit_def Let_def set_sql_def set_state_def split: option.split prod.split)
  next
    case (tx_rollback m d k)
    then show ?case
      by (simp add: Rollback_def Let_def set_sql_def set_state_def split: option.split prod.split)
  next
    case (tx_cleanup m drv now ks)
    have "tm_next (cleanup_loop drv now ks m) = tm_next m"
      by (induction ks arbitrary: m) (auto simp: Let_def set_sql_def set_state_def split: option.split)
    then show ?case by simp
  next
    case (tx_stop drv ks m m')
    have "tm_next (stop_loop drv ks m) = tm_next m" for m
      by (induction ks arbitrary: m) (auto simp: Let_def set_sql_def split: option.split)
    with tx_stop show ?case by (auto simp: Tx_Stop_def split: if_splits)
  qed
  have "tm_sql m' h = tm_sql m h"
    using assms
  proof (induction rule: tx_step.induct)
    case (tx_begin m de t1 t2)
    then show ?case by (auto simp: Begin_def Let_def split: option.split)
  next
    case (tx_stop drv ks m m')
    then show ?case using stop_loop_final [of "m\<lparr>tm_closed := True\<rparr>"]
      by (auto simp: Tx_Stop_def split: if_splits)
  qed (auto simp: Commit_final Rollback_final cleanup_loop_final)
  with next_le assms(2) show ?thesis by simp
qed

section \<open>The interface of a transaction manager\<close>

text \<open>
  What the middleware relies on: a transaction is pending from \<open>begin_tx\<close> until it is committed or
  rolled back, committing a pending one ends it when no error is returned, and a call for an
  identifier that is not pending is refused without an effect.
\<close>

locale tx_service =
  fixes inv :: "'s \<Rightarrow> bool"
    and pending :: "'s \<Rightarrow> string \<Rightarrow> bool"
    and begin_tx :: "'s \<Rightarrow> 's \<times> (go_error + string)"
    and commit_tx :: "'s \<Rightarrow> string \<Rightarrow> 's \<times> go_error option"
    and rollback_tx :: "'s \<Rightarrow> string \<Rightarrow> 's \<times> go_error option"
  assumes begin_error: "begin_tx s = (s', Inl e) \<Longrightarrow> s' = s"
    and begin_pending: "inv s \<Longrightarrow> begin_tx s = (s', Inr k) \<Longrightarrow> inv s' \<and> pending s' k"
    and commit_ends: "inv s \<Longrightarrow> commit_tx s k = (s', r) \<Longrightarrow> inv s' \<and> \<not> pending s' k"
    and commit_refused: "\<not> pending s k \<Longrightarrow> \<exists>e. commit_tx s k = (s, Some e)"
    and rollback_refused: "\<not> pending s k \<Longrightarrow> \<exists>e. rollback_tx s k = (s, Some e)"
begin

abbreviation middleware where
  "middleware \<equiv> Transaction_middleware begin_tx commit_tx rollback_tx"

text \<open>Requests that only read run outside any transaction.\<close>

lemma read_only:
  "meth \<in> {''GET'', ''HEAD'', ''OPTIONS''} \<Longrightarrow> middleware serve meth s = serve s None"
  by (auto simp: Transaction_middleware_def)

text \<open>
  A successful response: the transaction is committed, and the rollback that follows the commit is
  refused and changes nothing.
\<close>

lemma success_commits:
  assumes "inv s" "meth \<notin> {''GET'', ''HEAD'', ''OPTIONS''}"
    and "begin_tx s = (s1, Inr k)" "serve s1 (Some k) = (s2, codes)" "inv s2"
    and "200 \<le> recorded_status codes" "recorded_status codes < 400"
    and "commit_tx s2 k = (s3, e)"
  shows "middleware serve meth s = (s3, if e = None then codes else codes @ [500]) \<and> \<not> pending s3 k"
proof -
  have ended: "\<not> pending s3 k" using commit_ends [OF assms(5) assms(8)] by simp
  from rollback_refused [OF this] have "fst (rollback_tx s3 k) = s3" by auto
  with assms ended show ?thesis by (cases e) (auto simp: Transaction_middleware_def)
qed

text \<open>An error response: neither commit nor rollback is called, the transaction stays pending.\<close>

lemma error_leaves_pending:
  assumes "meth \<notin> {''GET'', ''HEAD'', ''OPTIONS''}"
    and "begin_tx s = (s1, Inr k)" "serve s1 (Some k) = (s2, codes)" "pending s2 k"
    and "recorded_status codes \<ge> 400"
  shows "middleware serve meth s = (s2, codes) \<and> pending (fst (middleware serve meth s)) k"
  using assms by (auto simp: Transaction_middleware_def)

end

definition tx_pending :: "tx_manager \<Rightarrow> string \<Rightarrow> bool" where
  "tx_pending m k \<longleftrightarrow> (\<exists>r. tm_txMap m k = Some r \<and> tx_State (tm_heap m r) = TxActive)"

lemma Begin_pending: "Begin de t1 t2 m = (m', Inr k) \<Longrightarrow> tx_pending m' k"
  by (auto simp: Begin_def Let_def tx_pending_def split: option.splits)

lemma Commit_ends: "Commit d m k = (m', e) \<Longrightarrow> \<not> tx_pending m' k"
  by (erule Commit_cases) (auto simp: tx_pending_def set_state_def set_sql_def)

lemma Commit_refused: "\<not> tx_pending m k \<Longrightarrow> \<exists>e. Commit d m k = (m, Some e)"
  by (auto simp: Commit_def Let_def tx_pending_def split: option.split)

lemma Rollback_refused: "\<not> tx_pending m k \<Longrightarrow> \<exists>e. Rollback d m k = (m, Some e)"
  by (auto simp: Rollback_def Let_def tx_pending_def split: option.split)

interpretation tx: tx_service wf_tx tx_pending "Begin de t1 t2" "Commit dc" "Rollback dr"
  for de t1 t2 dc dr
proof unfold_locales
  show "m' = m" if "Begin de t1 t2 m = (m', Inl e)" for m m' e
    using that by (auto simp: Begin_def Let_def split: option.splits)
  show "wf_tx m' \<and> tx_pending m' k" if "wf_tx m" "Begin de t1 t2 m = (m', Inr k)" for m m' k
    using that wf_Begin Begin_pending by blast
  show "wf_tx m' \<and> \<not> tx_pending m' k" if "wf_tx m" "Commit dc m k = (m', e)" for m m' k e
    using that wf_Commit Commit_ends by blast
qed (rule Commit_refused Rollback_refused, assumption)+

section \<open>Properties\<close>

text \<open>
  (C25) Running a callback in a transaction, all endings: the new \<^verbatim>\<open>sql.Tx\<close> is finished when
  \<^verbatim>\<open>WithTransaction\<close> ends, also when the callback panics; it is committed exactly when the
  callback returned no error and the driver accepted the commit, and only then no error is
  returned; an error of the callback is returned as it is; other transactions are not touched.
\<close>

theorem WithTransaction_outcome:
  assumes "wf_tx m" "\<And>m h. fn m h = (m, out h)"
    and "WithTransaction None t1 t2 drv_rb drv_cm drv_defer fn m = (m', res)"
  shows "tm_sql m' (tm_next m) \<noteq> SqlOpen \<and>
    (tm_sql m' (tm_next m) = SqlCommitted \<longleftrightarrow> out (tm_next m) = Returns None \<and> drv_cm = None) \<and>
    (res = Some None \<longleftrightarrow> out (tm_next m) = Returns None \<and> drv_cm = None) \<and>
    (res = None \<longleftrightarrow> out (tm_next m) = Panics) \<and>
    (\<forall>e. out (tm_next m) = Returns (Some e) \<longrightarrow> res = Some (Some e)) \<and>
    (\<forall>h < tm_next m. tm_sql m' h = tm_sql m h \<and> tm_heap m' h = tm_heap m h)"
proof -
  let ?r = "tm_next m"
  note defs = WithTransaction_def Begin_def Let_def deferred_rollback_def Rollback_def Commit_def
    sql_Commit_def sql_Rollback_def set_state_def set_sql_def
  show ?thesis
  proof (cases "out ?r")
    case Panics
    with assms show ?thesis by (cases drv_defer) (auto simp: defs)
  next
    case (Returns e)
    show ?thesis
    proof (cases e)
      case None
      with assms Returns show ?thesis by (cases drv_cm) (auto simp: defs)
    next
      case (Some er)
      with assms Returns show ?thesis
        by (cases drv_rb; cases drv_defer) (auto simp: defs)
    qed
  qed
qed

theorem WithTransaction_outcome_witness:
  "tm_sql (fst (WithTransaction None 5 6 None None None (\<lambda>m h. (m, Returns None)) Tx_NewManager)) 0 =
     SqlCommitted"
  using WithTransaction_outcome [OF wf_NewManager, of "\<lambda>m h. (m, Returns None)" "\<lambda>h. Returns None", OF refl
      surjective_pairing [symmetric, THEN sym]]
  by (simp add: Tx_NewManager_def)

text \<open>
  (C8) A transaction is decided once: in every sequence of calls, once the \<^verbatim>\<open>sql.Tx\<close> of a
  transaction is committed or rolled back it stays so, the manager stays well formed, and a
  transaction marked committed has a committed \<^verbatim>\<open>sql.Tx\<close>.
\<close>

theorem transaction_decided_once:
  assumes "tx_step\<^sup>*\<^sup>* m m'" "wf_tx m" "h < tm_next m" "tm_sql m h \<noteq> SqlOpen"
  shows "tm_sql m' h = tm_sql m h \<and> wf_tx m' \<and>
    (tx_State (tm_heap m' h) = TxCommitted \<longrightarrow> tm_sql m h = SqlCommitted)"
proof -
  have "tm_sql m' h = tm_sql m h \<and> h < tm_next m' \<and> wf_tx m'"
    using assms
  proof (induction rule: rtranclp_induct)
    case base
    then show ?case by simp
  next
    case (step y z)
    then show ?case using tx_step_final [of y z h] tx_step_wf [of y z] by simp
  qed
  then show ?thesis by (auto simp: wf_tx_def tx_ok_def)
qed

definition tx_demo :: tx_manager where
  "tx_demo = fst (Commit None (fst (Begin None 5 6 Tx_NewManager)) (tx_id 5))"

lemma tx_demo_facts: "wf_tx tx_demo" "tm_sql tx_demo 0 = SqlCommitted" "tm_next tx_demo = 1"
proof -
  show "wf_tx tx_demo"
    unfolding tx_demo_def by (metis prod.collapse wf_Begin wf_Commit wf_NewManager)
qed (simp_all add: tx_demo_def Begin_def Commit_def Tx_NewManager_def Let_def set_state_def set_sql_def
    sql_Commit_def)

theorem transaction_decided_once_witness:
  "tm_sql (fst (Rollback None tx_demo (tx_id 5))) 0 = SqlCommitted"
  using transaction_decided_once [OF r_into_rtranclp [of tx_step, OF tx_rollback] tx_demo_facts(1), of 0]
  by (simp add: tx_demo_facts)

text \<open>
  The transaction middleware on a request that writes: an error status leaves the transaction
  open, because neither commit nor rollback is called; a success status commits it, and the
  rollback that the code then also calls is refused without an effect.
\<close>

theorem middleware_outcome:
  assumes "wf_tx m" "meth \<notin> {''GET'', ''HEAD'', ''OPTIONS''}"
    and "\<And>m k. serve m k = (m, codes)"
  shows "\<exists>m'. Transaction_middleware (Begin None t1 t2) (Commit dc) (Rollback dr) serve meth m =
      (m', if 200 \<le> recorded_status codes \<and> recorded_status codes < 400 \<and> dc \<noteq> None
           then codes @ [500] else codes) \<and>
    (recorded_status codes \<ge> 400 \<longrightarrow>
       tx_pending m' (tx_id t1) \<and> tm_sql m' (tm_next m) = SqlOpen) \<and>
    (200 \<le> recorded_status codes \<and> recorded_status codes < 400 \<longrightarrow>
       \<not> tx_pending m' (tx_id t1) \<and>
       tm_sql m' (tm_next m) = (if dc = None then SqlCommitted else SqlBroken))"
proof -
  obtain m1 where b: "Begin None t1 t2 m = (m1, Inr (tx_id t1))" by (simp add: Begin_def Let_def)
  have open1: "tm_sql m1 (tm_next m) = SqlOpen" using b by (auto simp: Begin_def Let_def)
  have pend: "tx_pending m1 (tx_id t1)" using Begin_pending [OF b] .
  have serve: "serve m1 (Some (tx_id t1)) = (m1, codes)" by (rule assms(3))
  show ?thesis
  proof (cases "200 \<le> recorded_status codes \<and> recorded_status codes < 400")
    case True
    obtain m2 e where c: "Commit dc m1 (tx_id t1) = (m2, e)" by fastforce
    have "(e = None \<longleftrightarrow> dc = None) \<and>
        tm_sql m2 (tm_next m) = (if dc = None then SqlCommitted else SqlBroken)"
      using b c by (cases dc)
        (auto simp: Begin_def Commit_def Let_def sql_Commit_def set_state_def set_sql_def)
    with True tx.success_commits [of m meth None t1 t2 m1 "tx_id t1" serve, OF assms(1,2) b serve
          wf_Begin [OF assms(1) b] _ _ c, of dr]
    show ?thesis by auto
  next
    case False
    with open1 pend serve b assms(2)
    show ?thesis by (auto simp: Transaction_middleware_def)
  qed
qed

theorem middleware_outcome_witness:
  "tm_sql (fst (Transaction_middleware (Begin None 5 6) (Commit None) (Rollback None)
      (\<lambda>m k. (m, [404])) ''POST'' Tx_NewManager)) 0 = SqlOpen"
  using middleware_outcome [OF wf_NewManager, of "''POST''" "\<lambda>m k. (m, [404])" "[404]" 5 6 None None]
  by (auto simp: recorded_status_def Tx_NewManager_def)

text \<open>
  Aborted entries of the table: the calls that keep them, all but a \<open>Begin\<close> whose clock reading
  gives the same identifier.
\<close>

inductive tx_step_other :: "string \<Rightarrow> tx_manager \<Rightarrow> tx_manager \<Rightarrow> bool" for k where
  oth_begin: "tx_id t1 \<noteq> k \<Longrightarrow> tx_step_other k m (fst (Begin de t1 t2 m))"
| oth_commit: "tx_step_other k m (fst (Commit d m k'))"
| oth_rollback: "tx_step_other k m (fst (Rollback d m k'))"
| oth_cleanup: "tx_step_other k m (cleanup_loop drv now ks m)"

definition aborted_entry :: "tx_manager \<Rightarrow> string \<Rightarrow> nat \<Rightarrow> bool" where
  "aborted_entry m k r \<longleftrightarrow> tm_txMap m k = Some r \<and> tx_State (tm_heap m r) = TxAborted"

lemma tx_step_other_step: "tx_step_other k m m' \<Longrightarrow> tx_step m m'"
  by (induction rule: tx_step_other.induct) (auto intro: tx_step.intros)

lemma other_ref:
  assumes "wf_tx m" "aborted_entry m k r" "tm_txMap m k' = Some r'" "tx_State (tm_heap m r') = TxActive"
  shows "r' \<noteq> r \<and> k' \<noteq> k"
  using assms by (auto simp: aborted_entry_def)

lemma aborted_Commit:
  assumes "wf_tx m" "aborted_entry m k r" "Commit d m k' = (m', e)"
  shows "aborted_entry m' k r"
  using assms(3)
proof (cases rule: Commit_cases)
  case (refused er)
  with assms show ?thesis by simp
next
  case (failed r' st er)
  with other_ref [OF assms(1,2) failed(2,3)] assms(2) show ?thesis
    by (auto simp: aborted_entry_def set_state_def set_sql_def)
next
  case (committed r')
  with other_ref [OF assms(1,2) committed(2,3)] assms(2) show ?thesis
    by (auto simp: aborted_entry_def set_state_def set_sql_def)
qed

lemma aborted_Rollback:
  assumes "wf_tx m" "aborted_entry m k r" "Rollback d m k' = (m', e)"
  shows "aborted_entry m' k r"
  using assms(3)
proof (cases rule: Rollback_cases)
  case (refused er)
  with assms show ?thesis by simp
next
  case (failed r' st er)
  with assms(2) show ?thesis by (auto simp: aborted_entry_def set_sql_def)
next
  case (rolled r')
  with other_ref [OF assms(1,2) rolled(2,3)] assms(2) show ?thesis
    by (auto simp: aborted_entry_def set_state_def set_sql_def)
qed

lemma aborted_cleanup:
  "aborted_entry m k r \<Longrightarrow> aborted_entry (cleanup_loop drv now ks m) k r"
proof (induction ks arbitrary: m)
  case (Cons k' ks)
  have "aborted_entry (cleanup_entry drv now k' m) k r"
    by (cases rule: cleanup_entry_cases [of drv now k' m])
      (use Cons.prems in \<open>auto simp: aborted_entry_def set_state_def set_sql_def\<close>)
  then show ?case unfolding cleanup_loop_Cons by (rule Cons.IH)
qed simp

lemma aborted_step:
  assumes "tx_step_other k m m'" "wf_tx m" "aborted_entry m k r"
  shows "aborted_entry m' k r"
  using assms
proof (induction rule: tx_step_other.induct)
  case (oth_begin t1 m de t2)
  then have "r < tm_next m" using wf_txD(1) by (auto simp: aborted_entry_def)
  with oth_begin show ?case
    by (auto simp: Begin_def Let_def aborted_entry_def split: option.split)
qed (metis aborted_Commit aborted_Rollback aborted_cleanup prod.collapse)+

text \<open>
  Aborted transactions are never forgotten: an entry of the table whose transaction is aborted,
  by a failed commit or by the cleanup, is still there after every sequence of calls that begins
  no transaction with the same identifier, because neither the cleanup nor any later call
  deletes it.
\<close>

theorem aborted_entries_stay:
  assumes "(tx_step_other k)\<^sup>*\<^sup>* m m'" "wf_tx m" "tm_txMap m k = Some r"
    and "tx_State (tm_heap m r) = TxAborted"
  shows "tm_txMap m' k = Some r \<and> tx_State (tm_heap m' r) = TxAborted"
proof -
  have "wf_tx m' \<and> aborted_entry m' k r"
    using assms
  proof (induction rule: rtranclp_induct)
    case base
    then show ?case by (simp add: aborted_entry_def)
  next
    case (step y z)
    then show ?case
      by (metis aborted_step tx_step_other_step tx_step_wf)
  qed
  then show ?thesis by (simp add: aborted_entry_def)
qed

definition tx_failed :: tx_manager where
  "tx_failed = fst (Commit (Some (PlainErr ''io'')) (fst (Begin None 5 6 Tx_NewManager)) (tx_id 5))"

lemma tx_failed_facts:
  "wf_tx tx_failed" "tm_txMap tx_failed (tx_id 5) = Some 0" "tx_State (tm_heap tx_failed 0) = TxAborted"
proof -
  show "wf_tx tx_failed"
    unfolding tx_failed_def by (metis prod.collapse wf_Begin wf_Commit wf_NewManager)
qed (simp_all add: tx_failed_def Begin_def Commit_def Tx_NewManager_def Let_def set_state_def
    set_sql_def sql_Commit_def)

theorem aborted_entries_stay_witness:
  "tm_txMap (cleanup_loop (\<lambda>_. None) (60 * Minute) [tx_id 5] tx_failed) (tx_id 5) = Some 0"
  using aborted_entries_stay [OF r_into_rtranclp [of "tx_step_other (tx_id 5)", OF oth_cleanup] tx_failed_facts]
  by blast

text \<open>
  Identifiers are the nanosecond clock: two transactions begun at different readings have
  different identifiers; two begun at the same reading have the same one, and then the first is
  no longer reachable through the table although its \<^verbatim>\<open>sql.Tx\<close> is still open.
\<close>

theorem Begin_identifiers:
  assumes "wf_tx m" "Begin None t1 t1' m = (m1, Inr k1)" "Begin None t2 t2' m1 = (m2, Inr k2)"
  shows "(k1 = k2 \<longleftrightarrow> t1 = t2) \<and>
    (t1 = t2 \<longrightarrow> tm_sql m2 (tm_next m) = SqlOpen \<and> (\<forall>k. tm_txMap m2 k \<noteq> Some (tm_next m)))"
proof -
  have "tm_txMap m k \<noteq> Some (tm_next m)" for k
    using wf_txD(1) [OF assms(1)] by fastforce
  with assms(2,3) show ?thesis by (auto simp: Begin_def Let_def tx_id_def split: if_splits)
qed

theorem Begin_identifiers_witness:
  "tm_sql (fst (Begin None 5 7 (fst (Begin None 5 6 Tx_NewManager)))) 0 = SqlOpen \<and>
   (\<forall>k. tm_txMap (fst (Begin None 5 7 (fst (Begin None 5 6 Tx_NewManager)))) k \<noteq> Some 0)"
proof -
  let ?m1 = "fst (Begin None 5 6 Tx_NewManager)"
  have "Begin None 5 6 Tx_NewManager = (?m1, Inr (tx_id 5))" by (simp add: Begin_def Let_def)
  moreover have "Begin None 5 7 ?m1 = (fst (Begin None 5 7 ?m1), Inr (tx_id 5))"
    by (simp add: Begin_def Let_def)
  ultimately show ?thesis
    using Begin_identifiers [OF wf_NewManager] by (simp add: Tx_NewManager_def)
qed

end
