(* ===== verification/NodeTypes.thy ===== *)
theory NodeTypes
  imports Complex_Main "HOL-Library.Word" Prelude
begin

text \<open>
  The node types of \<^verbatim>\<open>common/types\<close>: the status of a node, what is known of it, and its
  metrics. A \<^verbatim>\<open>uint64\<close> is a \<open>64 word\<close>; a \<^verbatim>\<open>float64\<close> is a real number, so rounding,
  infinities and NaN are not modelled.
\<close>

datatype NodeStatus =
    NodeStatusUnknown | NodeStatusHealthy | NodeStatusSuspect | NodeStatusDead

type_synonym uint64 = "64 word"
type_synonym float64 = real

definition float_of_uint64 :: "uint64 \<Rightarrow> float64" where
  "float_of_uint64 w = real (unat w)"

record NodeMetrics =
  nm_NodeID :: NodeID
  nm_DiskUsageBytes :: uint64
  nm_DiskCapacityBytes :: uint64
  nm_DiskUsageRatio :: float64
  nm_CPUUsagePercent :: float64
  nm_MemoryUsageBytes :: uint64
  nm_NetworkInBps :: uint64
  nm_NetworkOutBps :: uint64
  nm_ShardCount :: int
  nm_LoadScore :: float64
  nm_IsHealthy :: bool
  nm_LastUpdated :: int

record NodeInfo =
  ni_NodeID :: NodeID
  ni_Address :: string
  ni_Status :: NodeStatus
  ni_IsLeader :: bool
  ni_JoinTime :: int
  ni_LastSeen :: int
  ni_Metrics :: "NodeMetrics option"

text \<open>\<^verbatim>\<open>IsEmpty\<close> and \<^verbatim>\<open>ToLogString\<close> of a node identifier.\<close>

definition IsEmpty :: "NodeID \<Rightarrow> bool" where
  "IsEmpty n \<longleftrightarrow> n = []"

definition ToLogString :: "NodeID \<Rightarrow> string" where
  "ToLogString n = (if IsEmpty n then ''[empty node]'' else ''[node:'' @ n @ '']'')"

definition CalculateUsageRatio :: "NodeMetrics \<Rightarrow> NodeMetrics \<times> float64" where
  "CalculateUsageRatio m =
     (if nm_DiskCapacityBytes m = 0 then (m\<lparr>nm_DiskUsageRatio := 0\<rparr>, 0)
      else let r = float_of_uint64 (nm_DiskUsageBytes m) / float_of_uint64 (nm_DiskCapacityBytes m)
           in (m\<lparr>nm_DiskUsageRatio := r\<rparr>, r))"

definition CalculateLoadScore :: "NodeMetrics \<Rightarrow> NodeMetrics \<times> float64" where
  "CalculateLoadScore m =
     (let diskWeight = 7 / 10; cpuWeight = 3 / 10;
          (m', ratio) = CalculateUsageRatio m;
          diskScore = ratio * 100;
          score = diskScore * diskWeight + nm_CPUUsagePercent m' * cpuWeight
      in (m'\<lparr>nm_LoadScore := score\<rparr>, score))"

lemma float_of_uint64_nonneg [simp]: "0 \<le> float_of_uint64 w"
  by (simp add: float_of_uint64_def del: of_nat_unat)

lemma float_of_uint64_pos [simp]: "0 < float_of_uint64 w \<longleftrightarrow> w \<noteq> 0"
  by (simp add: float_of_uint64_def unat_gt_0 del: of_nat_unat)

lemma float_of_uint64_mono: "v \<le> w \<Longrightarrow> float_of_uint64 v \<le> float_of_uint64 w"
  by (simp add: float_of_uint64_def word_le_nat_alt del: of_nat_unat)

text \<open>
  The load score of a node lies between 0 and 100 when its disk is not over-full and its CPU
  usage is a percentage; the score also refreshes the usage ratio, which is 0 for a node without
  capacity.
\<close>

theorem CalculateLoadScore_bounds:
  assumes "nm_DiskUsageBytes m \<le> nm_DiskCapacityBytes m"
    and "0 \<le> nm_CPUUsagePercent m" "nm_CPUUsagePercent m \<le> 100"
    and "CalculateLoadScore m = (m', score)"
  shows "0 \<le> score \<and> score \<le> 100 \<and> nm_LoadScore m' = score \<and>
    0 \<le> nm_DiskUsageRatio m' \<and> nm_DiskUsageRatio m' \<le> 1"
proof (cases "nm_DiskCapacityBytes m = 0")
  case True
  with assms show ?thesis by (auto simp: CalculateLoadScore_def CalculateUsageRatio_def Let_def)
next
  case False
  define r where "r = float_of_uint64 (nm_DiskUsageBytes m) / float_of_uint64 (nm_DiskCapacityBytes m)"
  have pos: "0 < float_of_uint64 (nm_DiskCapacityBytes m)" using False by simp
  then have r: "0 \<le> r" "r \<le> 1"
    using float_of_uint64_mono [OF assms(1)] by (simp_all add: r_def)
  have "m' = m\<lparr>nm_DiskUsageRatio := r, nm_LoadScore := score\<rparr>"
    "score = r * 70 + nm_CPUUsagePercent m * (3 / 10)"
    using False assms(4) by (auto simp: CalculateLoadScore_def CalculateUsageRatio_def r_def Let_def)
  with r assms(2,3) show ?thesis by simp
qed

definition demo_metrics :: "NodeID \<Rightarrow> uint64 \<Rightarrow> uint64 \<Rightarrow> float64 \<Rightarrow> int \<Rightarrow> NodeMetrics" where
  "demo_metrics n used cap cpu shards =
     \<lparr>nm_NodeID = n, nm_DiskUsageBytes = used, nm_DiskCapacityBytes = cap, nm_DiskUsageRatio = 0,
      nm_CPUUsagePercent = cpu, nm_MemoryUsageBytes = 0, nm_NetworkInBps = 0, nm_NetworkOutBps = 0,
      nm_ShardCount = shards, nm_LoadScore = 0, nm_IsHealthy = True, nm_LastUpdated = 0\<rparr>"

theorem CalculateLoadScore_bounds_witness:
  "snd (CalculateLoadScore (demo_metrics ''n1'' 50 100 20 3)) \<le> 100"
  using CalculateLoadScore_bounds [of "demo_metrics ''n1'' 50 100 20 3", OF _ _ _ surjective_pairing]
  by (simp add: demo_metrics_def)

end
