(* ===== verification/Heartbeat.thy ===== *)
theory Heartbeat
  imports NodeTypes
begin

text \<open>
  Failure detection by heartbeats:
  \<^verbatim>\<open>internal/metaserver/core/cluster/heartbeat/manager.go\<close>.

  The state is the table of node states with the configuration. Every method holds the mutex; the
  methods that report a change send it to a channel of capacity 100 \<^emph>\<open>while they hold the
  mutex\<close>, so they are functions to the new table and the list of the reports in sending order,
  and the last section composes them with the channel: while a report is waiting to be sent, no
  other method can run.

  The lemmas show the state machine of a node (healthy, suspect, dead, back to healthy by a
  heartbeat), that a node silent for long enough is found dead by two checks and then removed, and
  which changes are reported.
\<close>

section \<open>State\<close>

record HeartbeatConfig =
  hb_NodeID :: NodeID
  hb_HeartbeatInterval :: duration
  hb_SuspectTimeout :: duration
  hb_DeadTimeout :: duration
  hb_CleanupInterval :: duration

record StateChange =
  sc_NodeID :: NodeID
  sc_State :: NodeStatus

record nodeState =
  ns_NodeID :: NodeID
  ns_State :: NodeStatus
  ns_LastHeartbeat :: gotime
  ns_FailCount :: int

record hb_manager =
  hm_cfg :: HeartbeatConfig
  hm_nodeStates :: "NodeID \<rightharpoonup> nodeState"

definition stateChange_cap :: nat where
  "stateChange_cap = 100"

section \<open>Operations\<close>

definition Heartbeat_NewManager :: "HeartbeatConfig \<Rightarrow> hb_manager" where
  "Heartbeat_NewManager cfg =
     (let cfg = (if hb_HeartbeatInterval cfg = 0 then cfg\<lparr>hb_HeartbeatInterval := 1 * Second\<rparr> else cfg);
          cfg = (if hb_SuspectTimeout cfg = 0 then cfg\<lparr>hb_SuspectTimeout := 3 * Second\<rparr> else cfg);
          cfg = (if hb_DeadTimeout cfg = 0 then cfg\<lparr>hb_DeadTimeout := 10 * Second\<rparr> else cfg);
          cfg = (if hb_CleanupInterval cfg = 0 then cfg\<lparr>hb_CleanupInterval := 30 * Second\<rparr> else cfg)
      in \<lparr>hm_cfg = cfg, hm_nodeStates = Map.empty\<rparr>)"

definition fresh_node :: "NodeID \<Rightarrow> gotime \<Rightarrow> nodeState" where
  "fresh_node nodeID now =
     \<lparr>ns_NodeID = nodeID, ns_State = NodeStatusHealthy, ns_LastHeartbeat = now, ns_FailCount = 0\<rparr>"

definition RegisterNode :: "gotime \<Rightarrow> NodeID \<Rightarrow> hb_manager \<Rightarrow> hb_manager" where
  "RegisterNode now nodeID m =
     m\<lparr>hm_nodeStates := (hm_nodeStates m)(nodeID \<mapsto> fresh_node nodeID now)\<rparr>"

definition UnregisterNode :: "NodeID \<Rightarrow> hb_manager \<Rightarrow> hb_manager" where
  "UnregisterNode nodeID m = m\<lparr>hm_nodeStates := (hm_nodeStates m)(nodeID := None)\<rparr>"

definition RecordHeartbeat ::
  "gotime \<Rightarrow> NodeID \<Rightarrow> hb_manager \<Rightarrow> hb_manager \<times> StateChange list" where
  "RecordHeartbeat now nodeID m =
     (case hm_nodeStates m nodeID of
        Some state \<Rightarrow>
          let oldState = ns_State state;
              state = state\<lparr>ns_LastHeartbeat := now, ns_FailCount := 0, ns_State := NodeStatusHealthy\<rparr>
          in (m\<lparr>hm_nodeStates := (hm_nodeStates m)(nodeID \<mapsto> state)\<rparr>,
              if oldState \<noteq> NodeStatusHealthy
              then [\<lparr>sc_NodeID = nodeID, sc_State = NodeStatusHealthy\<rparr>] else [])
      | None \<Rightarrow>
          (m\<lparr>hm_nodeStates := (hm_nodeStates m)(nodeID \<mapsto> fresh_node nodeID now)\<rparr>,
           [\<lparr>sc_NodeID = nodeID, sc_State = NodeStatusHealthy\<rparr>]))"

text \<open>The nodes a tick of \<^verbatim>\<open>sendHeartbeats\<close> sends to, with the address it uses.\<close>

definition getNodeURL :: "NodeID \<Rightarrow> string" where
  "getNodeURL nodeID = ''http://'' @ nodeID @ '':8080''"

definition sendHeartbeats :: "NodeID list \<Rightarrow> hb_manager \<Rightarrow> (NodeID \<times> string) list" where
  "sendHeartbeats ks m =
     map (\<lambda>n. (n, getNodeURL n)) (filter (\<lambda>n. n \<noteq> hb_NodeID (hm_cfg m)) ks)"

text \<open>The body of the loop in \<^verbatim>\<open>checkHeartbeats\<close>, for one node.\<close>

definition check_node ::
  "HeartbeatConfig \<Rightarrow> gotime \<Rightarrow> NodeID \<Rightarrow> nodeState \<Rightarrow> nodeState \<times> StateChange list" where
  "check_node cfg now nodeID state =
     (if nodeID = hb_NodeID cfg then (state, [])
      else
        let timeSince = now - ns_LastHeartbeat state
        in if ns_State state = NodeStatusHealthy \<and> timeSince > hb_SuspectTimeout cfg
           then (state\<lparr>ns_State := NodeStatusSuspect, ns_FailCount := ns_FailCount state + 1\<rparr>,
                 [\<lparr>sc_NodeID = nodeID, sc_State = NodeStatusSuspect\<rparr>])
           else if ns_State state = NodeStatusSuspect \<and> timeSince > hb_DeadTimeout cfg
           then (state\<lparr>ns_State := NodeStatusDead\<rparr>,
                 [\<lparr>sc_NodeID = nodeID, sc_State = NodeStatusDead\<rparr>])
           else (state, []))"

fun checkHeartbeats ::
  "NodeID list \<Rightarrow> gotime \<Rightarrow> hb_manager \<Rightarrow> hb_manager \<times> StateChange list" where
  "checkHeartbeats [] now m = (m, [])"
| "checkHeartbeats (k # ks) now m =
     (case hm_nodeStates m k of
        None \<Rightarrow> checkHeartbeats ks now m
      | Some state \<Rightarrow>
          let (state', evs) = check_node (hm_cfg m) now k state;
              (m', evs') = checkHeartbeats ks now
                 (m\<lparr>hm_nodeStates := (hm_nodeStates m)(k \<mapsto> state')\<rparr>)
          in (m', evs @ evs'))"

definition cleanupDeadNodes :: "NodeID list \<Rightarrow> gotime \<Rightarrow> hb_manager \<Rightarrow> hb_manager" where
  "cleanupDeadNodes ks now m =
     m\<lparr>hm_nodeStates :=
        range_delete
          (\<lambda>_ st. ns_State st = NodeStatusDead \<and>
                  now - ns_LastHeartbeat st > 3 * hb_DeadTimeout (hm_cfg m)) ks (hm_nodeStates m)\<rparr>"

definition GetAllNodeStates :: "hb_manager \<Rightarrow> NodeID \<rightharpoonup> NodeStatus" where
  "GetAllNodeStates m = map_entries (\<lambda>_ st. ns_State st) (hm_nodeStates m)"

definition GetNodeState :: "hb_manager \<Rightarrow> NodeID \<Rightarrow> NodeStatus" where
  "GetNodeState m nodeID =
     (case hm_nodeStates m nodeID of Some state \<Rightarrow> ns_State state | None \<Rightarrow> NodeStatusUnknown)"

section \<open>What a check does to every node\<close>

lemma checkHeartbeats_cfg [simp]: "hm_cfg (fst (checkHeartbeats ks now m)) = hm_cfg m"
  by (induction ks arbitrary: m) (auto split: option.split simp: Let_def case_prod_unfold)

lemma checkHeartbeats_notin:
  "k \<notin> set ks \<Longrightarrow> hm_nodeStates (fst (checkHeartbeats ks now m)) k = hm_nodeStates m k"
  by (induction ks arbitrary: m) (auto split: option.split simp: Let_def case_prod_unfold)

lemma checkHeartbeats_table:
  assumes "distinct ks"
  shows "hm_nodeStates (fst (checkHeartbeats ks now m)) k =
    (if k \<in> set ks then map_option (\<lambda>st. fst (check_node (hm_cfg m) now k st)) (hm_nodeStates m k)
     else hm_nodeStates m k)"
  using assms
proof (induction ks arbitrary: m)
  case (Cons a ks)
  show ?case
  proof (cases "hm_nodeStates m a")
    case None
    with Cons show ?thesis by auto
  next
    case (Some st)
    let ?m = "m\<lparr>hm_nodeStates := (hm_nodeStates m)(a \<mapsto> fst (check_node (hm_cfg m) now a st))\<rparr>"
    have "fst (checkHeartbeats (a # ks) now m) = fst (checkHeartbeats ks now ?m)"
      using Some by (simp add: Let_def case_prod_unfold)
    with Cons Some show ?thesis by (auto simp: checkHeartbeats_notin)
  qed
qed simp

lemma checkHeartbeats_events:
  assumes "distinct ks"
  shows "snd (checkHeartbeats ks now m) =
    concat (map (\<lambda>k. case hm_nodeStates m k of None \<Rightarrow> [] | Some st \<Rightarrow> snd (check_node (hm_cfg m) now k st)) ks)"
  using assms
proof (induction ks arbitrary: m)
  case (Cons a ks)
  show ?case
  proof (cases "hm_nodeStates m a")
    case None
    with Cons show ?thesis by simp
  next
    case (Some st)
    let ?m = "m\<lparr>hm_nodeStates := (hm_nodeStates m)(a \<mapsto> fst (check_node (hm_cfg m) now a st))\<rparr>"
    have "snd (checkHeartbeats (a # ks) now m) =
        snd (check_node (hm_cfg m) now a st) @ snd (checkHeartbeats ks now ?m)"
      using Some by (simp add: Let_def case_prod_unfold)
    moreover have "snd (checkHeartbeats ks now ?m) = concat (map (\<lambda>k. case hm_nodeStates m k of
        None \<Rightarrow> [] | Some st \<Rightarrow> snd (check_node (hm_cfg m) now k st)) ks)"
    proof -
      have "snd (checkHeartbeats ks now ?m) = concat (map (\<lambda>k. case hm_nodeStates ?m k of
          None \<Rightarrow> [] | Some st \<Rightarrow> snd (check_node (hm_cfg ?m) now k st)) ks)"
        using Cons.IH Cons.prems by auto
      also have "map (\<lambda>k. case hm_nodeStates ?m k of None \<Rightarrow> [] | Some st \<Rightarrow> snd (check_node (hm_cfg ?m) now k st)) ks
          = map (\<lambda>k. case hm_nodeStates m k of None \<Rightarrow> [] | Some st \<Rightarrow> snd (check_node (hm_cfg m) now k st)) ks"
        using Cons.prems by (intro map_cong) (auto split: option.split)
      finally show ?thesis .
    qed
    ultimately show ?thesis using Some by simp
  qed
qed simp

lemma check_node_all:
  assumes "enumerates ks (hm_nodeStates m)"
  shows "hm_nodeStates (fst (checkHeartbeats ks now m)) k =
    map_option (\<lambda>st. fst (check_node (hm_cfg m) now k st)) (hm_nodeStates m k)"
  using enumeratesD [OF assms] by (auto simp: checkHeartbeats_table)

lemma enumerates_check:
  "enumerates ks (hm_nodeStates m) \<Longrightarrow> enumerates ks (hm_nodeStates (fst (checkHeartbeats ks now m)))"
  by (simp add: enumerates_def dom_def check_node_all [unfolded enumerates_def dom_def])

section \<open>The state machine of a node\<close>

inductive hb_step :: "hb_manager \<Rightarrow> hb_manager \<Rightarrow> bool" where
  hb_register: "hb_step m (RegisterNode now n m)"
| hb_unregister: "hb_step m (UnregisterNode n m)"
| hb_record: "hb_step m (fst (RecordHeartbeat now n m))"
| hb_check: "enumerates ks (hm_nodeStates m) \<Longrightarrow> hb_step m (fst (checkHeartbeats ks now m))"
| hb_cleanup: "enumerates ks (hm_nodeStates m) \<Longrightarrow> hb_step m (cleanupDeadNodes ks now m)"

inductive hb_reachable :: "HeartbeatConfig \<Rightarrow> hb_manager \<Rightarrow> bool" for cfg where
  hb_new: "hb_reachable cfg (Heartbeat_NewManager cfg)"
| hb_next: "hb_reachable cfg m \<Longrightarrow> hb_step m m' \<Longrightarrow> hb_reachable cfg m'"

text \<open>
  A stored state: under its own identifier, never unknown, with a failure count of 0 when healthy
  and 1 otherwise.
\<close>

definition wf_node :: "NodeID \<Rightarrow> nodeState \<Rightarrow> bool" where
  "wf_node n st \<longleftrightarrow> ns_NodeID st = n \<and> ns_State st \<noteq> NodeStatusUnknown \<and>
     ns_FailCount st = (if ns_State st = NodeStatusHealthy then 0 else 1)"

definition wf_hb :: "hb_manager \<Rightarrow> bool" where
  "wf_hb m \<longleftrightarrow> (\<forall>n st. hm_nodeStates m n = Some st \<longrightarrow> wf_node n st)"

lemma wf_fresh_node: "wf_node n (fresh_node n now)"
  by (simp add: wf_node_def fresh_node_def)

lemma wf_check_node: "wf_node n st \<Longrightarrow> wf_node n (fst (check_node cfg now n st))"
  by (auto simp: wf_node_def check_node_def Let_def)

lemma wf_healthy_again:
  "wf_node n st \<Longrightarrow>
   wf_node n (st\<lparr>ns_LastHeartbeat := now, ns_FailCount := 0, ns_State := NodeStatusHealthy\<rparr>)"
  by (simp add: wf_node_def)

lemma hb_step_wf: "hb_step m m' \<Longrightarrow> wf_hb m \<Longrightarrow> wf_hb m'"
proof (induction rule: hb_step.induct)
  case (hb_register m now n)
  then show ?case by (auto simp: wf_hb_def RegisterNode_def wf_fresh_node)
next
  case (hb_unregister m n)
  then show ?case by (auto simp: wf_hb_def UnregisterNode_def)
next
  case (hb_record m now n)
  then show ?case
    by (auto simp: wf_hb_def RecordHeartbeat_def Let_def wf_fresh_node wf_healthy_again split: option.splits)
next
  case (hb_check ks m now)
  then show ?case by (auto simp: wf_hb_def check_node_all wf_check_node)
next
  case (hb_cleanup ks m now)
  then show ?case
    by (auto simp: wf_hb_def cleanupDeadNodes_def go_map split: option.splits if_splits)
qed

lemma hb_reachable_wf: "hb_reachable cfg m \<Longrightarrow> wf_hb m"
proof (induction rule: hb_reachable.induct)
  case hb_new
  then show ?case by (simp add: wf_hb_def Heartbeat_NewManager_def Let_def)
next
  case (hb_next m m')
  then show ?case using hb_step_wf by blast
qed

text \<open>The moves of the state machine that one step can make for a node present before and after.\<close>

definition hb_move :: "NodeStatus \<Rightarrow> NodeStatus \<Rightarrow> bool" where
  "hb_move a b \<longleftrightarrow> a = b \<or> b = NodeStatusHealthy \<or>
     (a = NodeStatusHealthy \<and> b = NodeStatusSuspect) \<or> (a = NodeStatusSuspect \<and> b = NodeStatusDead)"

lemma hb_step_move:
  assumes "hb_step m m'" "hm_nodeStates m n = Some st" "hm_nodeStates m' n = Some st'"
  shows "hb_move (ns_State st) (ns_State st') \<and>
    (n = hb_NodeID (hm_cfg m) \<and> ns_State st = NodeStatusHealthy \<longrightarrow> ns_State st' = NodeStatusHealthy)"
  using assms
proof (induction rule: hb_step.induct)
  case (hb_register m now k)
  then show ?case by (auto simp: RegisterNode_def fresh_node_def hb_move_def split: if_splits)
next
  case (hb_unregister m k)
  then show ?case by (auto simp: UnregisterNode_def hb_move_def split: if_splits)
next
  case (hb_record m now k)
  then show ?case
    by (auto simp: RecordHeartbeat_def Let_def hb_move_def split: option.splits if_splits)
next
  case (hb_check ks m now)
  then show ?case by (auto simp: check_node_all check_node_def Let_def hb_move_def split: if_splits)
next
  case (hb_cleanup ks m now)
  then show ?case by (auto simp: cleanupDeadNodes_def go_map hb_move_def split: if_splits)
qed

lemma hb_step_cfg: "hb_step m m' \<Longrightarrow> hm_cfg m' = hm_cfg m"
  by (induction rule: hb_step.induct)
    (auto simp: RegisterNode_def UnregisterNode_def RecordHeartbeat_def cleanupDeadNodes_def Let_def
      split: option.split)

section \<open>Properties\<close>

definition hb_default :: "NodeID \<Rightarrow> HeartbeatConfig" where
  "hb_default self = \<lparr>hb_NodeID = self, hb_HeartbeatInterval = 0, hb_SuspectTimeout = 0,
     hb_DeadTimeout = 0, hb_CleanupInterval = 0\<rparr>"

definition hb_demo :: hb_manager where
  "hb_demo = fst (RecordHeartbeat 0 ''n1'' (Heartbeat_NewManager (hb_default ''me'')))"

lemma hb_demo_reachable: "hb_reachable (hb_default ''me'') hb_demo"
  unfolding hb_demo_def by (intro hb_next [OF hb_new hb_record])

lemma hb_demo_eq:
  "hm_nodeStates hb_demo = [''n1'' \<mapsto> fresh_node ''n1'' 0]"
  "hb_NodeID (hm_cfg hb_demo) = ''me''"
  "hb_SuspectTimeout (hm_cfg hb_demo) = 3 * Second" "hb_DeadTimeout (hm_cfg hb_demo) = 10 * Second"
  by (simp_all add: hb_demo_def RecordHeartbeat_def Heartbeat_NewManager_def hb_default_def Let_def)

text \<open>
  (C9) The state machine of failure detection, over all calls in any order: a node is stored under
  its own identifier, is never in the unknown state, has failure count 0 when healthy and 1
  otherwise, and one step moves it only from healthy to suspect, from suspect to dead, or back to
  healthy; it is never declared dead without having been suspect. The node itself never leaves the
  healthy state.
\<close>

theorem heartbeat_state_machine:
  assumes "hb_reachable cfg m" "hb_step m m'" "hm_nodeStates m n = Some st"
  shows "ns_NodeID st = n \<and> ns_State st \<noteq> NodeStatusUnknown \<and>
    ns_FailCount st = (if ns_State st = NodeStatusHealthy then 0 else 1) \<and>
    (case hm_nodeStates m' n of
       None \<Rightarrow> True
     | Some st' \<Rightarrow> hb_move (ns_State st) (ns_State st') \<and>
         (n = hb_NodeID (hm_cfg m) \<and> ns_State st = NodeStatusHealthy \<longrightarrow> ns_State st' = NodeStatusHealthy))"
  using hb_reachable_wf [OF assms(1)] assms(3) hb_step_move [OF assms(2,3)]
  by (auto simp: wf_hb_def wf_node_def split: option.split)

lemma hb_demo_enum: "enumerates [''n1''] (hm_nodeStates hb_demo)"
  by (simp add: hb_demo_eq enumerates_def)

theorem heartbeat_state_machine_witness:
  "hb_move NodeStatusHealthy
     (ns_State (the (hm_nodeStates (fst (checkHeartbeats [''n1''] (4 * Second) hb_demo)) ''n1'')))"
  using heartbeat_state_machine [OF hb_demo_reachable hb_check [OF hb_demo_enum, of "4 * Second"],
      of "''n1''" "fresh_node ''n1'' 0"]
  by (simp add: hb_demo_eq check_node_all [OF hb_demo_enum] check_node_def fresh_node_def Let_def)

text \<open>
  Detection. A registered node other than this one that sends nothing is suspect after the first
  check later than its last heartbeat by more than the suspect limit, dead after a second check
  later than it by more than the dead limit, and gone after a cleanup later by more than three
  times the dead limit; a heartbeat before the cleanup makes it healthy again at once.
\<close>

theorem silent_node_is_detected:
  assumes "hm_nodeStates m n = Some st" "ns_State st = NodeStatusHealthy" "n \<noteq> hb_NodeID (hm_cfg m)"
    and "enumerates ks1 (hm_nodeStates m)"
    and "t1 - ns_LastHeartbeat st > hb_SuspectTimeout (hm_cfg m)"
    and "fst (checkHeartbeats ks1 t1 m) = m1" "enumerates ks2 (hm_nodeStates m1)"
    and "t2 - ns_LastHeartbeat st > hb_DeadTimeout (hm_cfg m)"
    and "fst (checkHeartbeats ks2 t2 m1) = m2" "enumerates ks3 (hm_nodeStates m2)"
    and "t3 - ns_LastHeartbeat st > 3 * hb_DeadTimeout (hm_cfg m)"
  shows "GetNodeState m1 n = NodeStatusSuspect \<and> GetNodeState m2 n = NodeStatusDead \<and>
    GetNodeState (cleanupDeadNodes ks3 t3 m2) n = NodeStatusUnknown \<and>
    GetNodeState (fst (RecordHeartbeat t4 n m2)) n = NodeStatusHealthy"
proof -
  have 1: "hm_nodeStates m1 n =
      Some (st\<lparr>ns_State := NodeStatusSuspect, ns_FailCount := ns_FailCount st + 1\<rparr>)"
    unfolding assms(6) [symmetric] check_node_all [OF assms(4)]
    using assms(1-3,5) by (simp add: check_node_def)
  have cfg1: "hm_cfg m1 = hm_cfg m" using assms(6) by auto
  have 2: "hm_nodeStates m2 n =
      Some (st\<lparr>ns_State := NodeStatusDead, ns_FailCount := ns_FailCount st + 1\<rparr>)"
    unfolding assms(9) [symmetric] check_node_all [OF assms(7)]
    using 1 assms(3,8) by (simp add: check_node_def cfg1)
  have cfg2: "hm_cfg m2 = hm_cfg m" using assms(9) cfg1 by auto
  have "hm_nodeStates (cleanupDeadNodes ks3 t3 m2) n = None"
    using 2 assms(10,11) by (simp add: cleanupDeadNodes_def go_map cfg2)
  with 1 2 show ?thesis
    by (simp add: GetNodeState_def RecordHeartbeat_def Let_def)
qed

theorem silent_node_is_detected_witness:
  "GetNodeState (fst (checkHeartbeats [''n1''] (11 * Second)
     (fst (checkHeartbeats [''n1''] (4 * Second) hb_demo)))) ''n1'' = NodeStatusDead"
proof -
  let ?m1 = "fst (checkHeartbeats [''n1''] (4 * Second) hb_demo)"
  let ?m2 = "fst (checkHeartbeats [''n1''] (11 * Second) ?m1)"
  note e1 = enumerates_check [OF hb_demo_enum, of "4 * Second"]
  note e2 = enumerates_check [OF e1, of "11 * Second"]
  show ?thesis
    using silent_node_is_detected [of hb_demo "''n1''" "fresh_node ''n1'' 0" "[''n1'']" "4 * Second", OF _ _ _
        hb_demo_enum _ refl e1 _ refl e2, of "31 * Second"]
    by (simp add: hb_demo_eq fresh_node_def durations)
qed

text \<open>
  No false alarms: a check changes the state of a node only when its last heartbeat is older
  than the limit of the state it leaves, it reports exactly the changes it makes, each once and in
  the order of the loop, and a cleanup drops only dead nodes silent for more than three times the
  dead limit.
\<close>

theorem check_reports_changes:
  assumes "enumerates ks (hm_nodeStates m)" "checkHeartbeats ks now m = (m', evs)"
  shows "evs = map (\<lambda>n. \<lparr>sc_NodeID = n, sc_State = GetNodeState m' n\<rparr>)
      (filter (\<lambda>n. GetNodeState m' n \<noteq> GetNodeState m n) ks) \<and>
    (\<forall>n st. hm_nodeStates m n = Some st \<and> GetNodeState m' n \<noteq> GetNodeState m n \<longrightarrow>
       now - ns_LastHeartbeat st >
         (if ns_State st = NodeStatusHealthy then hb_SuspectTimeout (hm_cfg m) else hb_DeadTimeout (hm_cfg m)))"
proof -
  have m': "m' = fst (checkHeartbeats ks now m)" and evs: "evs = snd (checkHeartbeats ks now m)"
    using assms(2) by simp_all
  have st': "GetNodeState m' n = (case hm_nodeStates m n of None \<Rightarrow> NodeStatusUnknown
      | Some st \<Rightarrow> ns_State (fst (check_node (hm_cfg m) now n st)))" for n
    unfolding m' GetNodeState_def check_node_all [OF assms(1)] by (simp split: option.split)
  have one: "(case hm_nodeStates m n of None \<Rightarrow> [] | Some st \<Rightarrow> snd (check_node (hm_cfg m) now n st)) =
      (if GetNodeState m' n \<noteq> GetNodeState m n then [\<lparr>sc_NodeID = n, sc_State = GetNodeState m' n\<rparr>] else [])" for n
    unfolding st' by (auto simp: GetNodeState_def check_node_def Let_def split: option.split)
  have "evs = map (\<lambda>n. \<lparr>sc_NodeID = n, sc_State = GetNodeState m' n\<rparr>)
      (filter (\<lambda>n. GetNodeState m' n \<noteq> GetNodeState m n) ks)"
    unfolding evs checkHeartbeats_events [OF enumeratesD(1) [OF assms(1)]] one
    by (induction ks) auto
  moreover have "now - ns_LastHeartbeat st >
      (if ns_State st = NodeStatusHealthy then hb_SuspectTimeout (hm_cfg m) else hb_DeadTimeout (hm_cfg m))"
    if "hm_nodeStates m n = Some st" "GetNodeState m' n \<noteq> GetNodeState m n" for n st
    using that unfolding st' by (auto simp: GetNodeState_def check_node_def Let_def split: if_splits)
  ultimately show ?thesis by blast
qed

theorem check_reports_changes_witness:
  "snd (checkHeartbeats [''n1''] (4 * Second) hb_demo) =
     [\<lparr>sc_NodeID = ''n1'', sc_State = NodeStatusSuspect\<rparr>]"
  using check_reports_changes [OF hb_demo_enum, of "4 * Second", OF surjective_pairing]
  by (simp add: GetNodeState_def check_node_all [OF hb_demo_enum] hb_demo_eq check_node_def
      fresh_node_def durations)

section \<open>The notification channel\<close>

text \<open>
  The manager with its channel and the reader of it. A method that has reports to send keeps the
  mutex until the last one is in the channel, so no method starts while \<open>hc_sending\<close> is not empty.
  \<open>hc_read\<close> is what the reader has received, oldest first, and \<open>hc_log\<close> the reports of all
  methods so far.
\<close>

record hb_conf =
  hc_mgr :: hb_manager
  hc_sending :: "StateChange list"
  hc_chan :: "StateChange list"
  hc_read :: "StateChange list"
  hc_log :: "StateChange list"

inductive hb_conf_step :: "hb_conf \<Rightarrow> hb_conf \<Rightarrow> bool" where
  hc_register:
    "hc_sending c = [] \<Longrightarrow> hb_conf_step c (c\<lparr>hc_mgr := RegisterNode now n (hc_mgr c)\<rparr>)"
| hc_unregister:
    "hc_sending c = [] \<Longrightarrow> hb_conf_step c (c\<lparr>hc_mgr := UnregisterNode n (hc_mgr c)\<rparr>)"
| hc_record:
    "hc_sending c = [] \<Longrightarrow> RecordHeartbeat now n (hc_mgr c) = (m', evs) \<Longrightarrow>
     hb_conf_step c (c\<lparr>hc_mgr := m', hc_sending := evs, hc_log := hc_log c @ evs\<rparr>)"
| hc_check:
    "hc_sending c = [] \<Longrightarrow> enumerates ks (hm_nodeStates (hc_mgr c)) \<Longrightarrow>
     checkHeartbeats ks now (hc_mgr c) = (m', evs) \<Longrightarrow>
     hb_conf_step c (c\<lparr>hc_mgr := m', hc_sending := evs, hc_log := hc_log c @ evs\<rparr>)"
| hc_cleanup:
    "hc_sending c = [] \<Longrightarrow> enumerates ks (hm_nodeStates (hc_mgr c)) \<Longrightarrow>
     hb_conf_step c (c\<lparr>hc_mgr := cleanupDeadNodes ks now (hc_mgr c)\<rparr>)"
| hc_send:
    "hc_sending c = e # es \<Longrightarrow> length (hc_chan c) < stateChange_cap \<Longrightarrow>
     hb_conf_step c (c\<lparr>hc_sending := es, hc_chan := hc_chan c @ [e]\<rparr>)"
| hc_recv:
    "hc_chan c = e # es \<Longrightarrow> hb_conf_step c (c\<lparr>hc_chan := es, hc_read := hc_read c @ [e]\<rparr>)"

definition hb_conf_init :: "HeartbeatConfig \<Rightarrow> hb_conf" where
  "hb_conf_init cfg =
     \<lparr>hc_mgr = Heartbeat_NewManager cfg, hc_sending = [], hc_chan = [], hc_read = [], hc_log = []\<rparr>"

definition hb_conf_inv :: "hb_conf \<Rightarrow> bool" where
  "hb_conf_inv c \<longleftrightarrow>
     hc_read c @ hc_chan c @ hc_sending c = hc_log c \<and> length (hc_chan c) \<le> stateChange_cap"

lemma hb_conf_step_inv: "hb_conf_step c c' \<Longrightarrow> hb_conf_inv c \<Longrightarrow> hb_conf_inv c'"
  by (induction rule: hb_conf_step.induct) (auto simp: hb_conf_inv_def)



text \<open>
  Registering again is silent: when a suspect or dead node is registered again, its state becomes
  healthy without a report, so a reader that follows the reports still takes it for suspect or
  dead; a heartbeat in the same situation is reported.
\<close>

theorem reregistration_is_silent:
  assumes "hm_nodeStates m n = Some st" "ns_State st \<noteq> NodeStatusHealthy"
  shows "GetNodeState (RegisterNode now n m) n = NodeStatusHealthy \<and>
    snd (RecordHeartbeat t n (RegisterNode now n m)) = [] \<and>
    snd (RecordHeartbeat t n m) = [\<lparr>sc_NodeID = n, sc_State = NodeStatusHealthy\<rparr>]"
  using assms by (simp add: GetNodeState_def RegisterNode_def RecordHeartbeat_def fresh_node_def Let_def)

theorem reregistration_is_silent_witness:
  "snd (RecordHeartbeat 9 ''n1'' (RegisterNode 8 ''n1''
     (hb_demo\<lparr>hm_nodeStates := [''n1'' \<mapsto> (fresh_node ''n1'' 0)\<lparr>ns_State := NodeStatusDead\<rparr>]\<rparr>))) = []"
  using reregistration_is_silent [of "hb_demo\<lparr>hm_nodeStates :=
      [''n1'' \<mapsto> (fresh_node ''n1'' 0)\<lparr>ns_State := NodeStatusDead\<rparr>]\<rparr>" "''n1''"]
  by simp

end
