(* ===== verification/Strategy.thy ===== *)
theory Strategy
  imports NodeTypes Errors "HOL-Library.Multiset"
begin

text \<open>
  Load metrics and the rebalancing strategies:
  \<^verbatim>\<open>cluster/rebalance/metrics.go\<close> and \<^verbatim>\<open>cluster/rebalance/strategy.go\<close>.

  A map of node metrics is ranged over in the order of an argument \<open>ks\<close>. A \<^verbatim>\<open>float64\<close> is a
  real number, so a loop that adds up is a sum. \<^verbatim>\<open>sort.Slice\<close> leaves the order of equal elements
  open; it is a stable sort here, and as the order of the input is arbitrary, every order the
  library may return is covered. The identifiers that \<^verbatim>\<open>uuid.New\<close> returns are an argument.
  The strategies, an interface in the source, are the constructors of a datatype.

  The lemmas show that an evaluation does not depend on the order of the map, what a migration plan
  looks like (source and target are different nodes of the cluster, no node is in two plans, the
  source is the more loaded one), and when the composite strategy crashes.
\<close>

section \<open>Metric collector\<close>

type_synonym node_metrics = "NodeID \<rightharpoonup> NodeMetrics"

record ClusterStats =
  cs_NodeCount :: int
  cs_TotalStorage :: uint64
  cs_UsedStorage :: uint64
  cs_TotalShardCount :: int
  cs_AvgCPUUsage :: float64
  cs_AvgMemoryUsage :: float64
  cs_AvgDiskUsage :: float64
  cs_AvgShardCount :: float64
  cs_CPUStdDev :: float64
  cs_MemoryStdDev :: float64
  cs_DiskStdDev :: float64
  cs_ShardStdDev :: float64

definition NewMetricCollector :: node_metrics where
  "NewMetricCollector = Map.empty"

definition UpdateNodeMetrics :: "NodeID \<Rightarrow> NodeMetrics \<Rightarrow> node_metrics \<Rightarrow> node_metrics" where
  "UpdateNodeMetrics nodeID metrics c = c(nodeID \<mapsto> metrics)"

definition GetNodeMetrics :: "node_metrics \<Rightarrow> NodeID \<Rightarrow> NodeMetrics option" where
  "GetNodeMetrics c nodeID = c nodeID"

definition GetAllMetrics :: "node_metrics \<Rightarrow> node_metrics" where
  "GetAllMetrics c = map_entries (\<lambda>_ m. m) c"

text \<open>The metrics in the order of a loop over the map.\<close>

definition values_of :: "NodeID list \<Rightarrow> node_metrics \<Rightarrow> NodeMetrics list" where
  "values_of ks m = List.map_filter m ks"

definition GB :: float64 where
  "GB = 2 ^ 30"

definition memory_gb :: "NodeMetrics \<Rightarrow> float64" where
  "memory_gb m = float_of_uint64 (nm_MemoryUsageBytes m) / GB"

definition squared_diffs :: "(NodeMetrics \<Rightarrow> float64) \<Rightarrow> float64 \<Rightarrow> NodeMetrics list \<Rightarrow> float64" where
  "squared_diffs f avg ms = sum_list (map (\<lambda>m. (f m - avg) * (f m - avg)) ms)"

definition CalculateClusterStats :: "NodeID list \<Rightarrow> node_metrics \<Rightarrow> ClusterStats" where
  "CalculateClusterStats ks mc =
     (let ms = values_of ks mc; n = length ms
      in if n = 0
         then \<lparr>cs_NodeCount = 0, cs_TotalStorage = 0, cs_UsedStorage = 0, cs_TotalShardCount = 0,
               cs_AvgCPUUsage = 0, cs_AvgMemoryUsage = 0, cs_AvgDiskUsage = 0, cs_AvgShardCount = 0,
               cs_CPUStdDev = 0, cs_MemoryStdDev = 0, cs_DiskStdDev = 0, cs_ShardStdDev = 0\<rparr>
         else
           let shards = sum_list (map nm_ShardCount ms);
               cpu = sum_list (map nm_CPUUsagePercent ms) / real n;
               mem = sum_list (map memory_gb ms) / real n;
               disk = sum_list (map (\<lambda>m. nm_DiskUsageRatio m * 100) ms) / real n;
               avgShards = real_of_int shards / real n;
               scale = (\<lambda>x. if n > 1 then x / real (n - 1) else x)
           in \<lparr>cs_NodeCount = int n,
               cs_TotalStorage = sum_list (map nm_DiskCapacityBytes ms),
               cs_UsedStorage = sum_list (map nm_DiskUsageBytes ms),
               cs_TotalShardCount = shards,
               cs_AvgCPUUsage = cpu, cs_AvgMemoryUsage = mem, cs_AvgDiskUsage = disk,
               cs_AvgShardCount = avgShards,
               cs_CPUStdDev = scale (squared_diffs nm_CPUUsagePercent cpu ms),
               cs_MemoryStdDev = scale (squared_diffs memory_gb mem ms),
               cs_DiskStdDev = scale (squared_diffs (\<lambda>m. nm_DiskUsageRatio m * 100) disk ms),
               cs_ShardStdDev = scale (squared_diffs (\<lambda>m. real_of_int (nm_ShardCount m)) avgShards ms)\<rparr>)"

section \<open>Plans and helpers\<close>

record MigrationPlan =
  mp_PlanID :: string
  mp_SourceNodeID :: NodeID
  mp_TargetNodeID :: NodeID
  mp_ShardIDs :: "string list"
  mp_EstimatedBytes :: uint64
  mp_Priority :: int

text \<open>
  \<^verbatim>\<open>string(rune(j))\<close>: the UTF-8 encoding of a code point; a value that is none becomes U+FFFD.
\<close>

definition rune_string :: "nat \<Rightarrow> string" where
  "rune_string j =
     (if j < 128 then [char_of j]
      else if j < 2048 then [char_of (192 + j div 64), char_of (128 + j mod 64)]
      else if (55296 \<le> j \<and> j < 57344) \<or> 1114112 \<le> j then [char_of (239::nat), char_of (191::nat), char_of (189::nat)]
      else if j < 65536 then
        [char_of (224 + j div 4096), char_of (128 + j div 64 mod 64), char_of (128 + j mod 64)]
      else
        [char_of (240 + j div 262144), char_of (128 + j div 4096 mod 64),
         char_of (128 + j div 64 mod 64), char_of (128 + j mod 64)])"

definition shard_ids :: "string \<Rightarrow> NodeID \<Rightarrow> int \<Rightarrow> string list" where
  "shard_ids tag node n = map (\<lambda>j. tag @ node @ ''_'' @ rune_string j) [0..<nat n]"

text \<open>\<^verbatim>\<open>uint64(n) * uint64(1024*1024*1024)\<close>, modulo \<open>2 ^ 64\<close>.\<close>

definition estimated_bytes :: "int \<Rightarrow> uint64" where
  "estimated_bytes n = word_of_int n * word_of_int (1024 * 1024 * 1024)"

text \<open>\<^verbatim>\<open>int(f)\<close> of a \<^verbatim>\<open>float64\<close>: towards zero.\<close>

definition trunc_int :: "float64 \<Rightarrow> int" where
  "trunc_int r = (if r \<ge> 0 then \<lfloor>r\<rfloor> else \<lceil>r\<rceil>)"

text \<open>The coefficient of variation in percent, None when the average is 0.\<close>

definition variation :: "float64 list \<Rightarrow> float64 option" where
  "variation xs =
     (let n = real (length xs); avg = sum_list xs / n;
          squaredDiffSum = sum_list (map (\<lambda>x. (x - avg) * (x - avg)) xs)
      in if avg = 0 then None else Some (sqrt (squaredDiffSum / n) / avg * 100))"

text \<open>The entries of a metrics map with their key, sorted by a load, the highest first.\<close>

definition sorted_load ::
  "(NodeMetrics \<Rightarrow> float64) \<Rightarrow> NodeID list \<Rightarrow> node_metrics \<Rightarrow> (NodeID \<times> float64 \<times> NodeMetrics) list" where
  "sorted_load load ks nodeMetrics =
     sort_key (\<lambda>e. - fst (snd e))
       (List.map_filter (\<lambda>k. map_option (\<lambda>m. (k, load m, m)) (nodeMetrics k)) ks)"

definition max_pairs :: "nat \<Rightarrow> int" where
  "max_pairs n = (let p = \<lceil>real n / 3\<rceil> in if p < 1 then 1 else p)"

text \<open>The loop \<^verbatim>\<open>for i := 0; i < maxPairs && i < n/2; i++\<close> that appends at most one plan per round.\<close>

definition pair_loop :: "int \<Rightarrow> nat \<Rightarrow> (nat \<Rightarrow> 'a list) \<Rightarrow> 'a list" where
  "pair_loop maxPairs n body = concat (map body [0..<min (nat maxPairs) (n div 2)])"

abbreviation err_two_nodes :: go_error where
  "err_two_nodes \<equiv> PlainErr ''at least two nodes are needed for a migration plan''"

section \<open>Weighted score\<close>

definition NewBaseStrategy :: "float64 \<Rightarrow> float64" where
  "NewBaseStrategy threshold = (if threshold \<le> 0 then 20 else threshold)"

record WeightedScoreStrategy =
  ws_imbalanceThreshold :: float64
  ws_cpuWeight :: float64
  ws_memoryWeight :: float64
  ws_diskWeight :: float64
  ws_shardWeight :: float64

definition NewWeightedScoreStrategy ::
  "float64 \<Rightarrow> float64 \<Rightarrow> float64 \<Rightarrow> float64 \<Rightarrow> WeightedScoreStrategy" where
  "NewWeightedScoreStrategy c m d s =
     \<lparr>ws_imbalanceThreshold = NewBaseStrategy 0, ws_cpuWeight = c, ws_memoryWeight = m,
      ws_diskWeight = d, ws_shardWeight = s\<rparr>"

definition calculateNodeScore ::
  "WeightedScoreStrategy \<Rightarrow> NodeID list \<Rightarrow> node_metrics \<Rightarrow> NodeMetrics \<Rightarrow> float64" where
  "calculateNodeScore s ks allMetrics metrics =
     (let ms = values_of ks allMetrics;
          avgShards = sum_list (map (\<lambda>m. real_of_int (nm_ShardCount m)) ms) / real (length ms);
          normalizedShards = (if avgShards > 0 then real_of_int (nm_ShardCount metrics) / avgShards else 0)
      in ws_cpuWeight s * nm_CPUUsagePercent metrics +
         ws_memoryWeight s * memory_gb metrics +
         ws_diskWeight s * nm_DiskUsageRatio metrics * 100 +
         ws_shardWeight s * normalizedShards * 100)"

definition Weighted_Evaluate ::
  "WeightedScoreStrategy \<Rightarrow> NodeID list \<Rightarrow> node_metrics \<Rightarrow> bool \<times> float64" where
  "Weighted_Evaluate s ks nodeMetrics =
     (let ms = values_of ks nodeMetrics
      in if length ms < 2 then (False, 0)
         else case variation (map (calculateNodeScore s ks nodeMetrics) ms) of
                None \<Rightarrow> (False, 0)
              | Some imbalanceScore \<Rightarrow>
                  let threshold = ws_imbalanceThreshold s;
                      threshold = (if threshold = 0 then (if length ms < 3 then 30 else 20) else threshold)
                  in (imbalanceScore > threshold, imbalanceScore))"

definition weighted_shards :: "int \<Rightarrow> int \<Rightarrow> int" where
  "weighted_shards sourceShards targetShards =
     (let avgShards = real_of_int (sourceShards + targetShards) / 2;
          shardsToMigrate = trunc_int (min (real_of_int sourceShards - avgShards)
                                           (avgShards - real_of_int targetShards));
          maxMigration = go_div sourceShards 4;
          maxMigration = (if maxMigration < 1 then 1 else maxMigration);
          shardsToMigrate = (if shardsToMigrate > maxMigration then maxMigration else shardsToMigrate)
      in if shardsToMigrate < 1 then 1 else shardsToMigrate)"

definition mk_plan ::
  "(nat \<Rightarrow> string) \<Rightarrow> string \<Rightarrow> (NodeID \<times> float64 \<times> NodeMetrics) list \<Rightarrow> nat \<Rightarrow> int \<Rightarrow> MigrationPlan" where
  "mk_plan uuids tag scores i shards =
     \<lparr>mp_PlanID = uuids i, mp_SourceNodeID = fst (scores ! i),
      mp_TargetNodeID = fst (scores ! (length scores - i - 1)),
      mp_ShardIDs = shard_ids tag (fst (scores ! i)) shards,
      mp_EstimatedBytes = estimated_bytes shards, mp_Priority = 10 - int i\<rparr>"

abbreviation entry_load :: "NodeID \<times> float64 \<times> NodeMetrics \<Rightarrow> float64" where
  "entry_load e \<equiv> fst (snd e)"

abbreviation entry_metrics :: "NodeID \<times> float64 \<times> NodeMetrics \<Rightarrow> NodeMetrics" where
  "entry_metrics e \<equiv> snd (snd e)"

definition Weighted_GeneratePlan ::
  "(nat \<Rightarrow> string) \<Rightarrow> WeightedScoreStrategy \<Rightarrow> NodeID list \<Rightarrow> node_metrics \<Rightarrow> go_error + MigrationPlan list" where
  "Weighted_GeneratePlan uuids s ks nodeMetrics =
     (let scores = sorted_load (calculateNodeScore s ks nodeMetrics) ks nodeMetrics
      in if length scores < 2 then Inl err_two_nodes
         else Inr (pair_loop (max_pairs (length scores)) (length scores)
                (\<lambda>i. let sourceNode = scores ! i; targetNode = scores ! (length scores - i - 1)
                     in if entry_load sourceNode - entry_load targetNode \<le> 1 / 10 then []
                        else [mk_plan uuids ''shard_placeholder_'' scores i
                                (weighted_shards (nm_ShardCount (entry_metrics sourceNode))
                                   (nm_ShardCount (entry_metrics targetNode)))])))"

section \<open>Capacity and access frequency\<close>

definition Capacity_Evaluate :: "float64 \<Rightarrow> NodeID list \<Rightarrow> node_metrics \<Rightarrow> bool \<times> float64" where
  "Capacity_Evaluate threshold ks nodeMetrics =
     (let ms = values_of ks nodeMetrics
      in if length ms < 2 then (False, 0)
         else case variation (map nm_DiskUsageRatio ms) of
                None \<Rightarrow> (False, 0)
              | Some imbalanceScore \<Rightarrow> (imbalanceScore > threshold, imbalanceScore))"

definition capacity_shards :: "int \<Rightarrow> int" where
  "capacity_shards sourceShards =
     (let n = trunc_int (real_of_int sourceShards * (3 / 10)) in if n < 1 then 1 else n)"

definition Capacity_GeneratePlan ::
  "(nat \<Rightarrow> string) \<Rightarrow> NodeID list \<Rightarrow> node_metrics \<Rightarrow> go_error + MigrationPlan list" where
  "Capacity_GeneratePlan uuids ks nodeMetrics =
     (let scores = sorted_load nm_DiskUsageRatio ks nodeMetrics
      in if length scores < 2 then Inl err_two_nodes
         else Inr (pair_loop (max_pairs (length scores)) (length scores)
                (\<lambda>i. let sourceNode = scores ! i; targetNode = scores ! (length scores - i - 1)
                     in if entry_load sourceNode - entry_load targetNode < 1 / 10 then []
                        else [mk_plan uuids ''capacity_shard_'' scores i
                                (capacity_shards (nm_ShardCount (entry_metrics sourceNode)))])))"

definition AccessFrequency_Evaluate :: "float64 \<Rightarrow> NodeID list \<Rightarrow> node_metrics \<Rightarrow> bool \<times> float64" where
  "AccessFrequency_Evaluate threshold ks nodeMetrics =
     (let cpuUsages = map nm_CPUUsagePercent (values_of ks nodeMetrics)
      in if length cpuUsages < 2 then (False, 0)
         else case variation cpuUsages of
                None \<Rightarrow> (False, 0)
              | Some imbalanceScore \<Rightarrow> (imbalanceScore > threshold, imbalanceScore))"

definition access_shards :: "int \<Rightarrow> int" where
  "access_shards sourceShards = (let n = go_div sourceShards 5 in if n < 1 then 1 else n)"

definition AccessFrequency_GeneratePlan ::
  "(nat \<Rightarrow> string) \<Rightarrow> NodeID list \<Rightarrow> node_metrics \<Rightarrow> go_error + MigrationPlan list" where
  "AccessFrequency_GeneratePlan uuids ks nodeMetrics =
     (let scores = sorted_load nm_CPUUsagePercent ks nodeMetrics
      in if length scores < 2 then Inl err_two_nodes
         else Inr (pair_loop 2 (length scores)
                (\<lambda>i. let sourceNode = scores ! i; targetNode = scores ! (length scores - i - 1)
                     in if entry_load sourceNode - entry_load targetNode < 20 then []
                        else [mk_plan uuids ''hotspot_shard_'' scores i
                                (access_shards (nm_ShardCount (entry_metrics sourceNode)))])))"

section \<open>Strategies\<close>

datatype BalanceStrategy =
    WeightedScore WeightedScoreStrategy
  | CapacityBalance float64
  | AccessFrequency float64
  | Composite "BalanceStrategy list" "float64 list"

definition NewCapacityBalanceStrategy :: "float64 \<Rightarrow> BalanceStrategy" where
  "NewCapacityBalanceStrategy threshold = CapacityBalance (NewBaseStrategy threshold)"

definition NewAccessFrequencyStrategy :: "float64 \<Rightarrow> BalanceStrategy" where
  "NewAccessFrequencyStrategy threshold = AccessFrequency (NewBaseStrategy threshold)"

definition NewCompositeStrategy :: "BalanceStrategy list \<Rightarrow> float64 list option \<Rightarrow> BalanceStrategy" where
  "NewCompositeStrategy strategies weights =
     (let ws = (case weights of
                  Some ws \<Rightarrow> if length ws = length strategies then ws
                             else replicate (length strategies) (1 / real (length strategies))
                | None \<Rightarrow> replicate (length strategies) (1 / real (length strategies)))
      in Composite strategies ws)"

text \<open>
  The composite evaluation adds up the weighted scores. The loop indexes the weights by the position
  of the strategy; the constructor makes both lists equally long.
\<close>

fun Evaluate :: "BalanceStrategy \<Rightarrow> NodeID list \<Rightarrow> node_metrics \<Rightarrow> bool \<times> float64" where
  "Evaluate (WeightedScore s) ks nodeMetrics = Weighted_Evaluate s ks nodeMetrics"
| "Evaluate (CapacityBalance t) ks nodeMetrics = Capacity_Evaluate t ks nodeMetrics"
| "Evaluate (AccessFrequency t) ks nodeMetrics = AccessFrequency_Evaluate t ks nodeMetrics"
| "Evaluate (Composite strategies weights) ks nodeMetrics =
     (if strategies = [] then (False, 0)
      else let rs = map (\<lambda>s. Evaluate s ks nodeMetrics) strategies
           in (list_ex fst rs, sum_list (map (\<lambda>(r, w). snd r * w) (zip rs weights))))"

text \<open>The loop that keeps the strategy with the highest score, starting from nil and 0.\<close>

fun best_strategy ::
  "(BalanceStrategy \<Rightarrow> float64) \<Rightarrow> BalanceStrategy list \<Rightarrow> BalanceStrategy option \<Rightarrow> float64 \<Rightarrow>
   BalanceStrategy option" where
  "best_strategy score [] best highest = best"
| "best_strategy score (s # ss) best highest =
     (if score s > highest then best_strategy score ss (Some s) (score s)
      else best_strategy score ss best highest)"

lemma best_strategy_mem: "best_strategy score ss best h = Some s \<Longrightarrow> s \<in> set ss \<or> best = Some s"
  by (induction ss arbitrary: best h) (auto split: if_splits)

function GeneratePlan ::
  "(nat \<Rightarrow> string) \<Rightarrow> BalanceStrategy \<Rightarrow> NodeID list \<Rightarrow> node_metrics \<Rightarrow> (go_error + MigrationPlan list) outcome" where
  "GeneratePlan uuids (WeightedScore s) ks nodeMetrics = Return (Weighted_GeneratePlan uuids s ks nodeMetrics)"
| "GeneratePlan uuids (CapacityBalance t) ks nodeMetrics = Return (Capacity_GeneratePlan uuids ks nodeMetrics)"
| "GeneratePlan uuids (AccessFrequency t) ks nodeMetrics =
     Return (AccessFrequency_GeneratePlan uuids ks nodeMetrics)"
| "GeneratePlan uuids (Composite strategies weights) ks nodeMetrics =
     (if strategies = [] then Return (Inl (PlainErr ''no strategy available''))
      else case best_strategy (\<lambda>s. snd (Evaluate s ks nodeMetrics)) strategies None 0 of
             None \<Rightarrow> Panic ''nil pointer dereference''
           | Some s \<Rightarrow> GeneratePlan uuids s ks nodeMetrics)"
  by pat_completeness auto
termination
proof (relation "measure (\<lambda>(u, s, ks, m). size s)", simp)
  fix uuids :: "nat \<Rightarrow> string" and strategies :: "BalanceStrategy list" and weights :: "float64 list"
    and ks :: "NodeID list" and m :: node_metrics and s :: BalanceStrategy
  assume "best_strategy (\<lambda>s. snd (Evaluate s ks m)) strategies None 0 = Some s"
  then have "s \<in> set strategies" using best_strategy_mem by fastforce
  then have "size s \<le> size_list size strategies" by (rule size_list_estimation') simp
  then show "((uuids, s, ks, m), (uuids, Composite strategies weights, ks, m)) \<in>
      measure (\<lambda>(u, s, ks, m). size s)" by simp
qed

section \<open>Loops over the metrics map\<close>

lemma values_of_simps [simp]:
  "values_of [] m = []"
  "values_of (k # ks) m = (case m k of None \<Rightarrow> [] | Some v \<Rightarrow> [v]) @ values_of ks m"
  by (simp_all add: values_of_def map_filter_simps split: option.split)

lemma values_of_map: "set ks \<subseteq> dom m \<Longrightarrow> values_of ks m = map (\<lambda>k. the (m k)) ks"
  by (induction ks) (auto split: option.split)

lemma values_of_enum: "enumerates ks m \<Longrightarrow> values_of ks m = map (\<lambda>k. the (m k)) ks"
  by (simp add: enumeratesD values_of_map)

lemma length_values_of: "enumerates ks m \<Longrightarrow> length (values_of ks m) = card (dom m)"
  by (simp add: values_of_enum enumerates_length)

text \<open>Two orders of the same map visit the same values, as multisets.\<close>

lemma enumerates_mset: "enumerates ks m \<Longrightarrow> enumerates ks' m \<Longrightarrow> mset ks = mset ks'"
  by (metis enumeratesD(1) enumeratesD(2) set_eq_iff_mset_eq_distinct)

lemma values_of_mset:
  assumes "enumerates ks m" "enumerates ks' m"
  shows "mset (values_of ks m) = mset (values_of ks' m)"
  by (simp add: values_of_enum [OF assms(1)] values_of_enum [OF assms(2)] enumerates_mset [OF assms])

lemma sum_list_mset_cong:
  fixes xs ys :: "'a :: comm_monoid_add list"
  assumes "mset xs = mset ys"
  shows "sum_list xs = sum_list ys"
  by (metis assms sum_mset_sum_list)

lemma variation_mset_cong:
  assumes "mset xs = mset ys"
  shows "variation xs = variation ys"
proof -
  have "length xs = length ys" using assms by (rule mset_eq_length)
  moreover have "sum_list xs = sum_list ys" using assms by (rule sum_list_mset_cong)
  moreover have "sum_list (map f xs) = sum_list (map f ys)" for f :: "real \<Rightarrow> real"
    using assms by (intro sum_list_mset_cong) simp
  ultimately show ?thesis by (simp add: variation_def)
qed

lemma calculateNodeScore_order:
  assumes "enumerates ks m" "enumerates ks' m"
  shows "calculateNodeScore s ks m = calculateNodeScore s ks' m"
proof -
  have "sum_list (map f (values_of ks m)) = sum_list (map f (values_of ks' m))" for f :: "NodeMetrics \<Rightarrow> real"
    using values_of_mset [OF assms] by (intro sum_list_mset_cong) simp
  then show ?thesis
    using length_values_of [OF assms(1)] length_values_of [OF assms(2)]
    by (intro ext) (simp add: calculateNodeScore_def)
qed

lemma variation_values_order:
  assumes "enumerates ks m" "enumerates ks' m"
  shows "variation (map f (values_of ks m)) = variation (map f (values_of ks' m))"
  using values_of_mset [OF assms] by (intro variation_mset_cong) simp

lemma Evaluate_order:
  assumes "enumerates ks m" "enumerates ks' m"
  shows "Evaluate s ks m = Evaluate s ks' m"
proof (induction s)
  case (WeightedScore w)
  show ?case
    using variation_values_order [OF assms] calculateNodeScore_order [OF assms]
      length_values_of [OF assms(1)] length_values_of [OF assms(2)]
    by (simp add: Weighted_Evaluate_def Let_def)
next
  case (CapacityBalance t)
  show ?case
    using variation_values_order [OF assms] length_values_of [OF assms(1)] length_values_of [OF assms(2)]
    by (simp add: Capacity_Evaluate_def Let_def)
next
  case (AccessFrequency t)
  show ?case
    using variation_values_order [OF assms] length_values_of [OF assms(1)] length_values_of [OF assms(2)]
    by (simp add: AccessFrequency_Evaluate_def Let_def)
next
  case (Composite ss ws)
  then have "map (\<lambda>s. Evaluate s ks m) ss = map (\<lambda>s. Evaluate s ks' m) ss" by simp
  then show ?case by (metis (no_types, lifting) Evaluate.simps(4))
qed

section \<open>The sorted loads\<close>

lemma sorted_load_entries:
  assumes "set ks \<subseteq> dom m"
  shows "List.map_filter (\<lambda>k. map_option (\<lambda>v. (k, load v, v)) (m k)) ks = map (\<lambda>k. (k, load (the (m k)), the (m k))) ks"
  using assms by (induction ks) (auto simp: map_filter_simps split: option.split)

lemma sorted_load_eq:
  assumes "enumerates ks m"
  shows "sorted_load load ks m = sort_key (\<lambda>e. - entry_load e) (map (\<lambda>k. (k, load (the (m k)), the (m k))) ks)"
  using enumeratesD(2) [OF assms] by (simp add: sorted_load_def sorted_load_entries)

lemma sorted_load_length: "enumerates ks m \<Longrightarrow> length (sorted_load load ks m) = card (dom m)"
  by (simp add: sorted_load_eq enumerates_length)

lemma sorted_load_nth:
  assumes "enumerates ks m" "i < length (sorted_load load ks m)"
  obtains v where "m (fst (sorted_load load ks m ! i)) = Some v"
    "entry_load (sorted_load load ks m ! i) = load v" "entry_metrics (sorted_load load ks m ! i) = v"
proof -
  have "sorted_load load ks m ! i \<in> set (sorted_load load ks m)" using assms(2) by simp
  then obtain k where k: "k \<in> dom m" "sorted_load load ks m ! i = (k, load (the (m k)), the (m k))"
    using enumeratesD(2) [OF assms(1)] by (auto simp: sorted_load_eq [OF assms(1)])
  then show ?thesis using that [of "the (m k)"] by auto
qed

lemma sorted_load_distinct:
  assumes "enumerates ks m"
  shows "distinct (map fst (sorted_load load ks m))"
proof -
  have "distinct (map fst (map (\<lambda>k. (k, load (the (m k)), the (m k))) ks))"
    using enumeratesD(1) [OF assms] by (simp add: comp_def)
  moreover have "mset (map fst (sorted_load load ks m)) =
      mset (map fst (map (\<lambda>k. (k, load (the (m k)), the (m k))) ks))"
    by (simp add: sorted_load_eq [OF assms] multiset.map_comp comp_def)
  ultimately show ?thesis using mset_eq_imp_distinct_iff by blast
qed

lemma sorted_load_desc:
  assumes "enumerates ks m" "i \<le> j" "j < length (sorted_load load ks m)"
  shows "entry_load (sorted_load load ks m ! j) \<le> entry_load (sorted_load load ks m ! i)"
proof -
  have "sorted (map (\<lambda>e. - entry_load e) (sorted_load load ks m))"
    by (simp add: sorted_load_eq [OF assms(1)])
  from sorted_nth_mono [OF this assms(2)] assms(2,3) show ?thesis by simp
qed

section \<open>Pairing the first with the last\<close>

text \<open>The three generators are instances of one pairing scheme.\<close>

definition pair_plans ::
  "(NodeID \<times> float64 \<times> NodeMetrics) list \<Rightarrow> int \<Rightarrow> (float64 \<Rightarrow> bool) \<Rightarrow>
   (NodeMetrics \<Rightarrow> NodeMetrics \<Rightarrow> int) \<Rightarrow> string \<Rightarrow> (nat \<Rightarrow> string) \<Rightarrow> MigrationPlan list" where
  "pair_plans scores maxPairs skip shards tag uuids =
     pair_loop maxPairs (length scores)
       (\<lambda>i. let sourceNode = scores ! i; targetNode = scores ! (length scores - i - 1)
            in if skip (entry_load sourceNode - entry_load targetNode) then []
               else [mk_plan uuids tag scores i (shards (entry_metrics sourceNode) (entry_metrics targetNode))])"

lemma Weighted_GeneratePlan_pairs:
  "Weighted_GeneratePlan uuids s ks m =
     (let scores = sorted_load (calculateNodeScore s ks m) ks m
      in if length scores < 2 then Inl err_two_nodes
         else Inr (pair_plans scores (max_pairs (length scores)) (\<lambda>d. d \<le> 1 / 10)
                (\<lambda>a b. weighted_shards (nm_ShardCount a) (nm_ShardCount b)) ''shard_placeholder_'' uuids))"
  by (simp add: Weighted_GeneratePlan_def pair_plans_def Let_def)

lemma Capacity_GeneratePlan_pairs:
  "Capacity_GeneratePlan uuids ks m =
     (let scores = sorted_load nm_DiskUsageRatio ks m
      in if length scores < 2 then Inl err_two_nodes
         else Inr (pair_plans scores (max_pairs (length scores)) (\<lambda>d. d < 1 / 10)
                (\<lambda>a b. capacity_shards (nm_ShardCount a)) ''capacity_shard_'' uuids))"
  by (simp add: Capacity_GeneratePlan_def pair_plans_def Let_def)

lemma AccessFrequency_GeneratePlan_pairs:
  "AccessFrequency_GeneratePlan uuids ks m =
     (let scores = sorted_load nm_CPUUsagePercent ks m
      in if length scores < 2 then Inl err_two_nodes
         else Inr (pair_plans scores 2 (\<lambda>d. d < 20)
                (\<lambda>a b. access_shards (nm_ShardCount a)) ''hotspot_shard_'' uuids))"
  by (simp add: AccessFrequency_GeneratePlan_def pair_plans_def Let_def)

lemma pair_distinct:
  assumes "distinct xs" "K \<le> length xs div 2"
  shows "distinct (concat (map (\<lambda>i. if P i then [] else [xs ! i, xs ! (length xs - i - 1)]) [0..<K])) \<and>
    set (concat (map (\<lambda>i. if P i then [] else [xs ! i, xs ! (length xs - i - 1)]) [0..<K])) \<subseteq>
      (\<lambda>j. xs ! j) ` {j. j < length xs \<and> (j < K \<or> length xs - K \<le> j)}"
  using assms(2)
proof (induction K)
  case 0
  then show ?case by simp
next
  case (Suc K)
  let ?n = "length xs"
  let ?J = "{j. j < ?n \<and> (j < K \<or> ?n - K \<le> j)}"
  from Suc.prems have K: "K < ?n" "?n - K - 1 < ?n" "K \<noteq> ?n - K - 1" "K \<notin> ?J" "?n - K - 1 \<notin> ?J" by auto
  have notin: "xs ! j \<notin> (\<lambda>j. xs ! j) ` ?J" if "j < ?n" "j \<notin> ?J" for j
    using that assms(1) by (auto simp: nth_eq_iff_index_eq)
  let ?c = "concat (map (\<lambda>i. if P i then [] else [xs ! i, xs ! (?n - i - 1)]) [0..<K])"
  let ?S = "(\<lambda>j. xs ! j) ` {j. j < ?n \<and> (j < Suc K \<or> ?n - Suc K \<le> j)}"
  have IH: "distinct ?c" "set ?c \<subseteq> (\<lambda>j. xs ! j) ` ?J" using Suc.IH Suc.prems by simp_all
  have ne: "xs ! K \<noteq> xs ! (?n - K - 1)" using K assms(1) by (simp add: nth_eq_iff_index_eq)
  have "(\<lambda>j. xs ! j) ` ?J \<subseteq> ?S" by (intro image_mono) auto
  moreover have "xs ! K \<in> ?S" "xs ! (?n - K - 1) \<in> ?S" using K by auto
  ultimately have "set ?c \<subseteq> ?S" "{xs ! K, xs ! (?n - K - 1)} \<subseteq> ?S" using IH(2) by blast+
  moreover have "xs ! K \<notin> set ?c" "xs ! (?n - K - 1) \<notin> set ?c"
    using IH(2) notin [OF K(1,4)] notin [OF K(2,5)] by blast+
  ultimately show ?case using IH(1) ne by (cases "P K") simp_all
qed

text \<open>
  What every list of plans satisfies: both nodes of a plan are in the cluster, no node occurs twice
  in all the plans, at least one shard is moved, and the bytes are one GiB for each shard.
\<close>

definition plan_nodes :: "MigrationPlan list \<Rightarrow> NodeID list" where
  "plan_nodes ps = concat (map (\<lambda>p. [mp_SourceNodeID p, mp_TargetNodeID p]) ps)"

definition good_plans :: "node_metrics \<Rightarrow> MigrationPlan list \<Rightarrow> bool" where
  "good_plans m ps \<longleftrightarrow>
     distinct (plan_nodes ps) \<and> set (plan_nodes ps) \<subseteq> dom m \<and>
     (\<forall>p\<in>set ps. mp_ShardIDs p \<noteq> [] \<and>
        mp_EstimatedBytes p = of_nat (length (mp_ShardIDs p)) * 2 ^ 30 \<and> mp_Priority p \<le> 10)"

lemma mk_plan_shards:
  assumes "shards \<ge> 1"
  shows "mp_ShardIDs (mk_plan uuids tag scores i shards) \<noteq> []"
    and "length (mp_ShardIDs (mk_plan uuids tag scores i shards)) = nat shards"
    and "mp_EstimatedBytes (mk_plan uuids tag scores i shards) =
      of_nat (length (mp_ShardIDs (mk_plan uuids tag scores i shards))) * 2 ^ 30"
  using assms by (simp_all add: mk_plan_def shard_ids_def estimated_bytes_def)

lemma pair_plans_mem:
  assumes "p \<in> set (pair_plans scores maxPairs skip shards tag uuids)"
  obtains i where "i < length scores div 2" "i < nat maxPairs" "length scores - i - 1 < length scores"
    "i < length scores - i - 1"
    "\<not> skip (entry_load (scores ! i) - entry_load (scores ! (length scores - i - 1)))"
    "p = mk_plan uuids tag scores i
       (shards (entry_metrics (scores ! i)) (entry_metrics (scores ! (length scores - i - 1))))"
proof -
  from assms obtain i where i: "i < min (nat maxPairs) (length scores div 2)"
    "\<not> skip (entry_load (scores ! i) - entry_load (scores ! (length scores - i - 1)))"
    "p = mk_plan uuids tag scores i
       (shards (entry_metrics (scores ! i)) (entry_metrics (scores ! (length scores - i - 1))))"
    by (auto simp: pair_plans_def pair_loop_def Let_def split: if_splits)
  then have "i < length scores - i - 1" "length scores - i - 1 < length scores" by auto
  with i that [of i] show ?thesis by simp
qed

lemma length_concat_le: "(\<And>x. x \<in> set xs \<Longrightarrow> length (f x) \<le> 1) \<Longrightarrow> length (concat (map f xs)) \<le> length xs"
  by (induction xs) (auto, fastforce)

lemma pair_plans_length:
  "length (pair_plans scores maxPairs skip shards tag uuids) \<le> min (nat maxPairs) (length scores div 2)"
proof -
  have "length (pair_plans scores maxPairs skip shards tag uuids) \<le>
      length [0..<min (nat maxPairs) (length scores div 2)]"
    unfolding pair_plans_def pair_loop_def by (rule length_concat_le) (simp add: Let_def)
  then show ?thesis by simp
qed

lemma pair_plans_half:
  assumes "enumerates ks m"
  shows "length (pair_plans (sorted_load load ks m) maxPairs skip shards tag uuids) \<le> card (dom m) div 2"
  using pair_plans_length [of "sorted_load load ks m" maxPairs skip shards tag uuids]
  by (simp add: sorted_load_length [OF assms])

lemma pair_plans_nodes:
  "plan_nodes (pair_plans scores maxPairs skip shards tag uuids) =
     concat (map (\<lambda>i. if skip (entry_load (scores ! i) - entry_load (scores ! (length scores - i - 1))) then []
        else [fst (scores ! i), fst (scores ! (length scores - i - 1))])
      [0..<min (nat maxPairs) (length scores div 2)])"
proof -
  have "plan_nodes (concat (map f xs)) = concat (map (plan_nodes \<circ> f) xs)" for f and xs :: "nat list"
    by (induction xs) (simp_all add: plan_nodes_def)
  moreover have "plan_nodes [] = []" "plan_nodes [p] = [mp_SourceNodeID p, mp_TargetNodeID p]" for p
    by (simp_all add: plan_nodes_def)
  ultimately show ?thesis
    unfolding pair_plans_def pair_loop_def
    by (simp, intro arg_cong [where f = concat] map_cong) (simp_all add: Let_def mk_plan_def)
qed

lemma pair_plans_good:
  assumes "enumerates ks m" "\<And>a b. shards a b \<ge> 1"
  shows "good_plans m (pair_plans (sorted_load load ks m) maxPairs skip shards tag uuids)"
proof -
  let ?sc = "sorted_load load ks m"
  let ?ps = "pair_plans ?sc maxPairs skip shards tag uuids"
  let ?K = "min (nat maxPairs) (length ?sc div 2)"
  let ?P = "\<lambda>i. skip (entry_load (?sc ! i) - entry_load (?sc ! (length ?sc - i - 1)))"
  have "plan_nodes ?ps = concat (map (\<lambda>i. if ?P i then []
      else [map fst ?sc ! i, map fst ?sc ! (length (map fst ?sc) - i - 1)]) [0..<?K])"
    unfolding pair_plans_nodes by (intro arg_cong [where f = concat] map_cong) auto
  with pair_distinct [OF sorted_load_distinct [OF assms(1), of load], of ?K ?P]
  have "distinct (plan_nodes ?ps)" "set (plan_nodes ?ps) \<subseteq> fst ` set ?sc" by (auto simp: nth_mem)
  moreover have "fst ` set ?sc \<subseteq> dom m"
    using enumeratesD(2) [OF assms(1)] by (auto simp: sorted_load_eq [OF assms(1)])
  moreover have "mp_ShardIDs p \<noteq> [] \<and> mp_EstimatedBytes p = of_nat (length (mp_ShardIDs p)) * 2 ^ 30 \<and>
      mp_Priority p \<le> 10" if p: "p \<in> set ?ps" for p
  proof -
    from p obtain i where "p = mk_plan uuids tag ?sc i
        (shards (entry_metrics (?sc ! i)) (entry_metrics (?sc ! (length ?sc - i - 1))))"
      by (rule pair_plans_mem)
    with mk_plan_shards [OF assms(2)] show ?thesis by (simp add: mk_plan_def)
  qed
  ultimately show ?thesis by (auto simp: good_plans_def)
qed

lemma shards_ge_1 [simp]:
  "weighted_shards a b \<ge> 1" "capacity_shards a \<ge> 1" "access_shards a \<ge> 1"
  by (simp_all add: weighted_shards_def capacity_shards_def access_shards_def Let_def)

lemma GeneratePlan_good:
  assumes "enumerates ks m" "GeneratePlan uuids s ks m = Return (Inr ps)"
  shows "good_plans m ps \<and> length ps \<le> card (dom m) div 2"
  using assms
proof (induction uuids s ks m rule: GeneratePlan.induct)
  case (1 uuids s ks m)
  then show ?case
    using pair_plans_good [of ks m "\<lambda>a b. weighted_shards (nm_ShardCount a) (nm_ShardCount b)"]
      pair_plans_half [OF 1(1)]
    by (auto simp: Weighted_GeneratePlan_pairs Let_def split: if_splits)
next
  case (2 uuids t ks m)
  then show ?case
    using pair_plans_good [of ks m "\<lambda>a b. capacity_shards (nm_ShardCount a)"]
      pair_plans_half [OF 2(1)]
    by (auto simp: Capacity_GeneratePlan_pairs Let_def split: if_splits)
next
  case (3 uuids t ks m)
  then show ?case
    using pair_plans_good [of ks m "\<lambda>a b. access_shards (nm_ShardCount a)"]
      pair_plans_half [OF 3(1)]
    by (auto simp: AccessFrequency_GeneratePlan_pairs Let_def split: if_splits)
next
  case (4 uuids ss ws ks m)
  then show ?case by (auto split: if_splits option.splits)
qed

section \<open>The composite choice\<close>

lemma best_strategy_None:
  "best_strategy score ss None h = None \<longleftrightarrow> (\<forall>s\<in>set ss. score s \<le> h)"
proof (induction ss)
  case Nil
  then show ?case by simp
next
  case (Cons a ss)
  have "best_strategy score xs (Some b) g \<noteq> None" for xs b g
    by (induction xs arbitrary: b g) auto
  with Cons show ?case by auto
qed

lemma best_strategy_max:
  "best_strategy score ss best h = Some s \<Longrightarrow> (\<forall>b. best = Some b \<longrightarrow> score b = h) \<Longrightarrow>
   h \<le> score s \<and> (\<forall>t\<in>set ss. score t \<le> score s)"
proof (induction ss arbitrary: best h)
  case Nil
  then show ?case by simp
next
  case (Cons a ss)
  show ?case
  proof (cases "score a > h")
    case True
    with Cons.prems(1) have "best_strategy score ss (Some a) (score a) = Some s" by simp
    from Cons.IH [OF this] have "score a \<le> score s" "\<forall>t\<in>set ss. score t \<le> score s" by simp_all
    with True show ?thesis by simp
  next
    case False
    with Cons.prems(1) have "best_strategy score ss best h = Some s" by simp
    from Cons.IH [OF this Cons.prems(2)] False show ?thesis by simp
  qed
qed

section \<open>Properties\<close>

definition demo_cluster :: node_metrics where
  "demo_cluster = [''a'' \<mapsto> demo_metrics ''a'' 90 100 80 12, ''b'' \<mapsto> demo_metrics ''b'' 10 100 10 2]"

lemma demo_cluster_enum: "enumerates [''a'', ''b''] demo_cluster" "enumerates [''b'', ''a''] demo_cluster"
  by (auto simp: enumerates_def demo_cluster_def)

text \<open>
  (C12) Plans are well formed, for every strategy, composites included, and every order of the map:
  source and target are nodes of the cluster, no node takes part in two plans or on both sides of
  one, at least one shard is moved, the estimate is one GiB for each shard, and there are at most
  half as many plans as nodes.
\<close>

theorem plans_well_formed:
  assumes "enumerates ks m" "GeneratePlan uuids s ks m = Return (Inr ps)"
  shows "distinct (concat (map (\<lambda>p. [mp_SourceNodeID p, mp_TargetNodeID p]) ps)) \<and>
    length ps \<le> card (dom m) div 2 \<and>
    (\<forall>p\<in>set ps. mp_SourceNodeID p \<in> dom m \<and> mp_TargetNodeID p \<in> dom m \<and> mp_ShardIDs p \<noteq> [] \<and>
       mp_EstimatedBytes p = of_nat (length (mp_ShardIDs p)) * 2 ^ 30)"
  using GeneratePlan_good [OF assms] by (auto simp: good_plans_def plan_nodes_def)

theorem plans_well_formed_witness:
  "\<exists>p. GeneratePlan (\<lambda>i. ''id'') (NewAccessFrequencyStrategy 0) [''a'', ''b''] demo_cluster = Return (Inr [p]) \<and>
     mp_SourceNodeID p = ''a'' \<and> mp_TargetNodeID p = ''b'' \<and> mp_EstimatedBytes p = 2 * 2 ^ 30"
proof -
  let ?ps = "[mk_plan (\<lambda>i. ''id'') ''hotspot_shard_''
      [(''a'', 80, demo_metrics ''a'' 90 100 80 12), (''b'', 10, demo_metrics ''b'' 10 100 10 2)] 0 2]"
  have "GeneratePlan (\<lambda>i. ''id'') (NewAccessFrequencyStrategy 0) [''a'', ''b''] demo_cluster = Return (Inr ?ps)"
    by (simp add: NewAccessFrequencyStrategy_def AccessFrequency_GeneratePlan_def sorted_load_def
        map_filter_simps demo_cluster_def demo_metrics_def pair_loop_def access_shards_def go_div_def Let_def)
  moreover from plans_well_formed [OF demo_cluster_enum(1) this]
  have "mp_EstimatedBytes (hd ?ps) = of_nat (length (mp_ShardIDs (hd ?ps))) * 2 ^ 30" by simp
  then have "mp_EstimatedBytes (hd ?ps) = 2 * 2 ^ 30" by (simp add: mk_plan_def shard_ids_def)
  ultimately show ?thesis by (simp add: mk_plan_def)
qed

text \<open>
  The weighted strategy moves load downhill and in moderation: a plan goes from a node to one whose
  score is lower by more than 0.1, and moves at most a quarter of the shards of the source, or one
  shard when the source has fewer than four; it moves one even when the source has none.
\<close>

theorem weighted_plan_bounds:
  assumes "enumerates ks m" "Weighted_GeneratePlan uuids s ks m = Inr ps" "p \<in> set ps"
  shows "\<exists>ms mt. m (mp_SourceNodeID p) = Some ms \<and> m (mp_TargetNodeID p) = Some mt \<and>
    calculateNodeScore s ks m ms - calculateNodeScore s ks m mt > 1 / 10 \<and>
    int (length (mp_ShardIDs p)) = weighted_shards (nm_ShardCount ms) (nm_ShardCount mt) \<and>
    int (length (mp_ShardIDs p)) \<le> max 1 (nm_ShardCount ms div 4)"
proof -
  let ?load = "calculateNodeScore s ks m"
  let ?sc = "sorted_load ?load ks m"
  let ?sh = "\<lambda>a b. weighted_shards (nm_ShardCount a) (nm_ShardCount b)"
  have "p \<in> set (pair_plans ?sc (max_pairs (length ?sc)) (\<lambda>d. d \<le> 1 / 10) ?sh ''shard_placeholder_'' uuids)"
    using assms(2,3) by (auto simp: Weighted_GeneratePlan_pairs Let_def split: if_splits)
  then obtain i where i: "i < length ?sc - i - 1" "length ?sc - i - 1 < length ?sc"
    "\<not> entry_load (?sc ! i) - entry_load (?sc ! (length ?sc - i - 1)) \<le> 1 / 10"
    "p = mk_plan uuids ''shard_placeholder_'' ?sc i
      (?sh (entry_metrics (?sc ! i)) (entry_metrics (?sc ! (length ?sc - i - 1))))"
    by (rule pair_plans_mem)
  from i have "i < length ?sc" by simp
  then obtain ms where ms: "m (fst (?sc ! i)) = Some ms" "entry_load (?sc ! i) = ?load ms"
    "entry_metrics (?sc ! i) = ms" by (rule sorted_load_nth [OF assms(1)])
  obtain mt where mt: "m (fst (?sc ! (length ?sc - i - 1))) = Some mt"
    "entry_load (?sc ! (length ?sc - i - 1)) = ?load mt" "entry_metrics (?sc ! (length ?sc - i - 1)) = mt"
    by (rule sorted_load_nth [OF assms(1) i(2)])
  have len: "int (length (mp_ShardIDs p)) = weighted_shards (nm_ShardCount ms) (nm_ShardCount mt)"
    using i(4) ms(3) mt(3) mk_plan_shards(2) [OF shards_ge_1(1)]
      order_trans [OF zero_le_one shards_ge_1(1), of "nm_ShardCount ms" "nm_ShardCount mt"] by simp
  have bound: "weighted_shards a b \<le> max 1 (a div 4)" for a b
  proof (cases "a \<ge> 0")
    case True
    then show ?thesis by (simp add: weighted_shards_def Let_def go_div_nonneg)
  next
    case False
    then have "go_div a 4 \<le> 0" by (simp add: go_div_def)
    then show ?thesis by (simp add: weighted_shards_def Let_def)
  qed
  have "int (length (mp_ShardIDs p)) \<le> max 1 (nm_ShardCount ms div 4)"
    unfolding len by (rule bound)
  with i ms mt len show ?thesis by (auto simp: mk_plan_def)
qed

theorem weighted_plan_bounds_witness:
  "\<exists>ps. Weighted_GeneratePlan (\<lambda>i. ''id'') (NewWeightedScoreStrategy 1 0 0 0) [''a'', ''b''] demo_cluster = Inr ps \<and>
     (\<forall>p\<in>set ps. int (length (mp_ShardIDs p)) \<le> 3)"
proof -
  let ?s = "NewWeightedScoreStrategy 1 0 0 0"
  have "length (sorted_load (calculateNodeScore ?s [''a'', ''b''] demo_cluster) [''a'', ''b''] demo_cluster) = 2"
    by (simp add: sorted_load_eq [OF demo_cluster_enum(1)])
  then obtain ps where ps: "Weighted_GeneratePlan (\<lambda>i. ''id'') ?s [''a'', ''b''] demo_cluster = Inr ps"
    by (simp add: Weighted_GeneratePlan_def Let_def)
  have "nm_ShardCount v \<le> 12" if "demo_cluster k = Some v" for k v
    using that by (auto simp: demo_cluster_def demo_metrics_def split: if_splits)
  then have "max 1 (nm_ShardCount v div 4) \<le> 3" if "demo_cluster k = Some v" for k v
    using zdiv_mono1 [of "nm_ShardCount v" 12 4] that by fastforce
  with weighted_plan_bounds [OF demo_cluster_enum(1) ps] ps show ?thesis by (meson order_trans)
qed

text \<open>
  An evaluation does not depend on the order in which the map is visited, for every strategy and
  every nesting of composites; a cluster of fewer than two nodes is never rebalanced.
\<close>

theorem Evaluate_order_independent:
  assumes "enumerates ks m" "enumerates ks' m"
  shows "Evaluate s ks m = Evaluate s ks' m \<and> (card (dom m) < 2 \<longrightarrow> \<not> fst (Evaluate s ks m))"
proof -
  have "\<not> fst (Evaluate s ks m)" if lt: "card (dom m) < 2"
  proof (induction s)
    case (Composite ss ws)
    then show ?case by (auto simp: Let_def list_ex_iff)
  qed (use lt length_values_of [OF assms(1)] in
      \<open>auto simp: Weighted_Evaluate_def Capacity_Evaluate_def AccessFrequency_Evaluate_def Let_def\<close>)
  with Evaluate_order [OF assms] show ?thesis by simp
qed

theorem Evaluate_order_independent_witness:
  "Evaluate (NewCompositeStrategy [NewCapacityBalanceStrategy 10, NewAccessFrequencyStrategy 0] None)
      [''a'', ''b''] demo_cluster =
   Evaluate (NewCompositeStrategy [NewCapacityBalanceStrategy 10, NewAccessFrequencyStrategy 0] None)
      [''b'', ''a''] demo_cluster"
  using Evaluate_order_independent [OF demo_cluster_enum] by simp

lemma variation_const: "variation (replicate n c) \<in> {None, Some 0}" if "n > 0"
  using that by (auto simp: variation_def Let_def sum_list_replicate map_replicate_const)

lemma Weighted_Evaluate_New:
  "Weighted_Evaluate (NewWeightedScoreStrategy a b c d) ks m =
     (if length (values_of ks m) < 2 then (False, 0)
      else case variation (map (calculateNodeScore (NewWeightedScoreStrategy a b c d) ks m) (values_of ks m)) of
             None \<Rightarrow> (False, 0)
           | Some imbalance \<Rightarrow> (imbalance > 20, imbalance))"
proof -
  have "ws_imbalanceThreshold (NewWeightedScoreStrategy a b c d) = 20"
    by (simp add: NewWeightedScoreStrategy_def NewBaseStrategy_def)
  then show ?thesis by (simp add: Weighted_Evaluate_def Let_def split: option.split)
qed

text \<open>
  A cluster whose nodes all report the same metrics needs no rebalancing: each of the three basic
  strategies evaluates it to an imbalance of 0 and answers no.
\<close>

theorem balanced_cluster:
  assumes "enumerates ks m" "\<forall>k v. m k = Some v \<longrightarrow> v\<lparr>nm_NodeID := []\<rparr> = c" "t \<ge> 0"
  shows "Evaluate (WeightedScore (NewWeightedScoreStrategy a b d e)) ks m = (False, 0) \<and>
    Evaluate (CapacityBalance t) ks m = (False, 0) \<and> Evaluate (AccessFrequency t) ks m = (False, 0)"
proof -
  let ?w = "NewWeightedScoreStrategy a b d e"
  have const: "map f (values_of ks m) = replicate (length (values_of ks m)) (f c)"
    if f: "\<And>v. f (v\<lparr>nm_NodeID := []\<rparr>) = f v" for f :: "NodeMetrics \<Rightarrow> real"
  proof -
    have "f x = f c" if "x \<in> set (values_of ks m)" for x
    proof -
      from that obtain k where "m k = Some x"
        using enumeratesD(2) [OF assms(1)] by (auto simp: values_of_enum [OF assms(1)])
      with assms(2) f [of x] show ?thesis by auto
    qed
    then have "map f (values_of ks m) = map (\<lambda>_. f c) (values_of ks m)" by simp
    then show ?thesis by (simp add: map_replicate_const)
  qed
  have sc: "calculateNodeScore ?w ks m (v\<lparr>nm_NodeID := []\<rparr>) = calculateNodeScore ?w ks m v" for v
    by (simp add: calculateNodeScore_def memory_gb_def Let_def)
  have ev: "(if n < 2 then (False, 0) else case variation (replicate n x) of None \<Rightarrow> (False, 0)
      | Some i \<Rightarrow> (i > th, i)) = (False, 0)" if "th \<ge> 0" for n x th
    using variation_const [of n x] that by auto
  have "Evaluate (WeightedScore ?w) ks m = (False, 0)"
    using ev [of 20 "length (values_of ks m)" "calculateNodeScore ?w ks m c"]
    by (auto simp: Weighted_Evaluate_New const [of "calculateNodeScore ?w ks m", OF sc] split: if_splits)
  moreover have "Evaluate (CapacityBalance t) ks m = (False, 0)"
    using ev [OF assms(3), of "length (values_of ks m)" "nm_DiskUsageRatio c"]
    by (auto simp: Capacity_Evaluate_def const [of nm_DiskUsageRatio] Let_def split: if_splits)
  moreover have "Evaluate (AccessFrequency t) ks m = (False, 0)"
    using ev [OF assms(3), of "length (values_of ks m)" "nm_CPUUsagePercent c"]
    by (auto simp: AccessFrequency_Evaluate_def const [of nm_CPUUsagePercent] Let_def split: if_splits)
  ultimately show ?thesis by blast
qed

definition equal_cluster :: node_metrics where
  "equal_cluster = [''a'' \<mapsto> demo_metrics ''a'' 9 10 80 3, ''b'' \<mapsto> demo_metrics ''b'' 9 10 80 3]"

theorem balanced_cluster_witness:
  "Evaluate (CapacityBalance 20) [''a'', ''b''] equal_cluster = (False, 0)"
proof -
  have "enumerates [''a'', ''b''] equal_cluster" by (auto simp: enumerates_def equal_cluster_def)
  moreover have "\<forall>k v. equal_cluster k = Some v \<longrightarrow> v\<lparr>nm_NodeID := []\<rparr> = demo_metrics [] 9 10 80 3"
    by (auto simp: equal_cluster_def demo_metrics_def split: if_splits)
  ultimately show ?thesis using balanced_cluster [of "[''a'', ''b'']" equal_cluster _ 20] by fastforce
qed

text \<open>
  The composite strategy: with at least one strategy it returns the plans of a strategy whose score
  is the highest, except that it crashes on a nil strategy when no score is positive, which is the
  case for every cluster of fewer than two nodes.
\<close>

theorem composite_outcome:
  assumes "ss \<noteq> []"
  shows "(if \<forall>s\<in>set ss. snd (Evaluate s ks m) \<le> 0
      then GeneratePlan uuids (Composite ss ws) ks m = Panic ''nil pointer dereference''
      else \<exists>s\<in>set ss. GeneratePlan uuids (Composite ss ws) ks m = GeneratePlan uuids s ks m \<and>
             (\<forall>t\<in>set ss. snd (Evaluate t ks m) \<le> snd (Evaluate s ks m)))"
proof (cases "best_strategy (\<lambda>s. snd (Evaluate s ks m)) ss None 0")
  case None
  with assms show ?thesis using best_strategy_None [of "\<lambda>s. snd (Evaluate s ks m)" ss 0] by simp
next
  case (Some s)
  then have "\<not> (\<forall>s\<in>set ss. snd (Evaluate s ks m) \<le> 0)"
    using best_strategy_None [of "\<lambda>s. snd (Evaluate s ks m)" ss 0] by fastforce
  moreover have "s \<in> set ss" using best_strategy_mem [OF Some] by simp
  moreover have "\<forall>t\<in>set ss. snd (Evaluate t ks m) \<le> snd (Evaluate s ks m)"
    using best_strategy_max [OF Some] by simp
  ultimately show ?thesis using assms Some by auto
qed

theorem composite_outcome_witness:
  "GeneratePlan (\<lambda>i. ''id'') (Composite [CapacityBalance 20] [1]) [''a''] [''a'' \<mapsto> demo_metrics ''a'' 9 10 80 3] =
     Panic ''nil pointer dereference''"
  using composite_outcome [of "[CapacityBalance 20]" "[''a'']" "[''a'' \<mapsto> demo_metrics ''a'' 9 10 80 3]" "\<lambda>i. ''id''" "[1]"]
  by (simp add: Capacity_Evaluate_def Let_def)

text \<open>
  The threshold of the weighted strategy is always 20 percent: its constructor passes 0 to the base
  strategy, which turns it into the default, so the higher limit that the evaluation reserves for
  clusters of fewer than three nodes is never used.
\<close>

theorem weighted_threshold_fixed:
  "Evaluate (WeightedScore (NewWeightedScoreStrategy a b c d)) ks m =
     (if length (values_of ks m) < 2 then (False, 0)
      else case variation (map (calculateNodeScore (NewWeightedScoreStrategy a b c d) ks m) (values_of ks m)) of
             None \<Rightarrow> (False, 0)
           | Some imbalance \<Rightarrow> (imbalance > 20, imbalance))"
  by (simp add: Weighted_Evaluate_New)

text \<open>
  Cluster statistics do not depend on the order of the loop; the field called CPU standard deviation
  holds the sample variance, the square of the standard deviation, because the root is never taken.
\<close>

theorem ClusterStats_variance:
  assumes "enumerates ks mc" "enumerates ks' mc" "card (dom mc) \<ge> 2"
  shows "CalculateClusterStats ks mc = CalculateClusterStats ks' mc \<and>
    cs_CPUStdDev (CalculateClusterStats ks mc) =
      (sqrt (squared_diffs nm_CPUUsagePercent (cs_AvgCPUUsage (CalculateClusterStats ks mc)) (values_of ks mc) /
         real (card (dom mc) - 1)))\<^sup>2"
proof -
  have sums: "sum_list (map f (values_of ks mc)) = sum_list (map f (values_of ks' mc))"
    for f :: "NodeMetrics \<Rightarrow> 'a :: comm_monoid_add"
    using values_of_mset [OF assms(1,2)] by (intro sum_list_mset_cong) simp
  have len: "length (values_of ks mc) = card (dom mc)" "length (values_of ks' mc) = card (dom mc)"
    using length_values_of assms(1,2) by auto
  have eq: "CalculateClusterStats ks mc = CalculateClusterStats ks' mc"
    unfolding CalculateClusterStats_def squared_diffs_def Let_def len sums ..
  have "0 \<le> squared_diffs f avg ms" for f avg ms
    unfolding squared_diffs_def by (rule sum_list_nonneg) auto
  moreover have "values_of ks mc \<noteq> []" using len(1) assms(3) by auto
  ultimately have "cs_CPUStdDev (CalculateClusterStats ks mc) =
      (sqrt (squared_diffs nm_CPUUsagePercent (cs_AvgCPUUsage (CalculateClusterStats ks mc)) (values_of ks mc) /
         real (card (dom mc) - 1)))\<^sup>2"
    using assms(3) len(1) by (simp add: CalculateClusterStats_def Let_def)
  with eq show ?thesis by blast
qed

theorem ClusterStats_variance_witness:
  "cs_CPUStdDev (CalculateClusterStats [''a'', ''b''] demo_cluster) = 2450 \<and>
   CalculateClusterStats [''a'', ''b''] demo_cluster = CalculateClusterStats [''b'', ''a''] demo_cluster"
proof -
  have "card (dom demo_cluster) \<ge> 2" using enumerates_length [OF demo_cluster_enum(1)] by simp
  from ClusterStats_variance [OF demo_cluster_enum this] show ?thesis
    by (simp add: CalculateClusterStats_def squared_diffs_def demo_cluster_def demo_metrics_def Let_def)
qed

end
