(* ===== verification/Migrator.thy ===== *)
theory Migrator
  imports Strategy
begin

text \<open>
  The migration executor: \<^verbatim>\<open>cluster/rebalance/migrator.go\<close>.

  A task is shared by the table of tasks, the queue and the worker that runs it, so tasks are objects
  of a heap and everything else holds references. The worker goroutines are numbered; the state
  remembers for every busy worker its task and the shard it is at. A worker advances by one round
  of the loop of \<^verbatim>\<open>executeMigration\<close> at a time, so cancellation and submission interleave with
  it. \<^verbatim>\<open>uuid.New\<close> and the clock are arguments, \<open>done\<close> is what the context answers.

  The lemmas bound the queue and the busy workers, give the states a task can go through, show that
  an undisturbed task completes after one round per shard, and that a cancelled task is not taken
  back: it still runs, and ends as completed.
\<close>

section \<open>State\<close>

datatype TaskState = TaskStatePending | TaskStateRunning | TaskStateCompleted | TaskStateFailed

record MigrationTask =
  mt_TaskID :: string
  mt_Plan :: MigrationPlan
  mt_State :: TaskState
  mt_Progress :: float64
  mt_StartTime :: gotime
  mt_EndTime :: gotime
  mt_ErrorDetail :: string

record Migrator =
  mg_maxConcurrent :: nat
  mg_tasks :: "string \<rightharpoonup> nat"
  mg_heap :: "nat \<Rightarrow> MigrationTask"
  mg_next :: nat
  mg_queue :: "nat list"
  mg_workers :: "nat \<rightharpoonup> nat \<times> nat"

definition pending_cap :: nat where
  "pending_cap = 100"

definition no_plan :: MigrationPlan where
  "no_plan = \<lparr>mp_PlanID = [], mp_SourceNodeID = [], mp_TargetNodeID = [], mp_ShardIDs = [],
     mp_EstimatedBytes = 0, mp_Priority = 0\<rparr>"

definition new_task :: "string \<Rightarrow> MigrationPlan \<Rightarrow> MigrationTask" where
  "new_task taskID plan =
     \<lparr>mt_TaskID = taskID, mt_Plan = plan, mt_State = TaskStatePending, mt_Progress = 0,
      mt_StartTime = zero_time, mt_EndTime = zero_time, mt_ErrorDetail = []\<rparr>"

definition NewMigrator :: "int \<Rightarrow> Migrator" where
  "NewMigrator maxConcurrent =
     \<lparr>mg_maxConcurrent = nat (if maxConcurrent \<le> 0 then 5 else maxConcurrent), mg_tasks = Map.empty,
      mg_heap = (\<lambda>_. new_task [] no_plan), mg_next = 0, mg_queue = [], mg_workers = Map.empty\<rparr>"

definition upd_task :: "nat \<Rightarrow> (MigrationTask \<Rightarrow> MigrationTask) \<Rightarrow> Migrator \<Rightarrow> Migrator" where
  "upd_task r f m = m\<lparr>mg_heap := (mg_heap m)(r := f (mg_heap m r))\<rparr>"

section \<open>Operations\<close>

definition submit_one :: "string \<Rightarrow> MigrationPlan \<Rightarrow> Migrator \<Rightarrow> Migrator" where
  "submit_one taskID plan m =
     (let r = mg_next m;
          m = m\<lparr>mg_heap := (mg_heap m)(r := new_task taskID plan), mg_next := Suc r,
                mg_tasks := (mg_tasks m)(taskID \<mapsto> r)\<rparr>
      in case try_send pending_cap r (mg_queue m) of
           (queue, True) \<Rightarrow> m\<lparr>mg_queue := queue\<rparr>
         | (_, False) \<Rightarrow>
             upd_task r (\<lambda>t. t\<lparr>mt_State := TaskStateFailed, mt_ErrorDetail := ''task queue is full''\<rparr>) m)"

fun SubmitTasks :: "(nat \<Rightarrow> string) \<Rightarrow> MigrationPlan list \<Rightarrow> Migrator \<Rightarrow> Migrator \<times> string list" where
  "SubmitTasks uuids [] m = (m, [])"
| "SubmitTasks uuids (plan # plans) m =
     (let (m', ids) = SubmitTasks (\<lambda>i. uuids (Suc i)) plans (submit_one (uuids 0) plan m)
      in (m', uuids 0 # ids))"

definition GetTaskStatus :: "Migrator \<Rightarrow> string \<Rightarrow> MigrationTask option" where
  "GetTaskStatus m taskID = map_option (mg_heap m) (mg_tasks m taskID)"

definition active :: "MigrationTask \<Rightarrow> bool" where
  "active t \<longleftrightarrow> mt_State t = TaskStatePending \<or> mt_State t = TaskStateRunning"

definition GetAllActiveTasks :: "string list \<Rightarrow> Migrator \<Rightarrow> MigrationTask list" where
  "GetAllActiveTasks ks m = filter active (map (mg_heap m) (List.map_filter (mg_tasks m) ks))"

definition CancelTask :: "gotime \<Rightarrow> string \<Rightarrow> Migrator \<Rightarrow> Migrator \<times> bool" where
  "CancelTask now taskID m =
     (case mg_tasks m taskID of
        None \<Rightarrow> (m, False)
      | Some r \<Rightarrow>
          if \<not> active (mg_heap m r) then (m, False)
          else (upd_task r (\<lambda>t. t\<lparr>mt_State := TaskStateFailed,
                                  mt_ErrorDetail := ''task cancelled manually'', mt_EndTime := now\<rparr>) m, True))"

text \<open>The beginning of \<^verbatim>\<open>processTask\<close>: a free worker receives the oldest task of the queue.\<close>

definition worker_take :: "nat \<Rightarrow> gotime \<Rightarrow> Migrator \<Rightarrow> Migrator option" where
  "worker_take w now m =
     (if w \<ge> mg_maxConcurrent m \<or> mg_workers m w \<noteq> None then None
      else case mg_queue m of
             [] \<Rightarrow> None
           | r # rs \<Rightarrow>
               Some (upd_task r (\<lambda>t. t\<lparr>mt_State := TaskStateRunning, mt_StartTime := now\<rparr>)
                       (m\<lparr>mg_queue := rs, mg_workers := (mg_workers m)(w \<mapsto> (r, 0))\<rparr>)))"

text \<open>
  One round of the loop over the shards in \<^verbatim>\<open>executeMigration\<close>, at index i: None when the task is
  interrupted (its error is set then), otherwise the loop goes on.
\<close>

definition exec_shard :: "bool \<Rightarrow> bool \<Rightarrow> nat \<Rightarrow> MigrationTask \<Rightarrow> MigrationTask \<times> bool" where
  "exec_shard done_before done_during i t =
     (if done_before then (t\<lparr>mt_ErrorDetail := ''migration cancelled''\<rparr>, False)
      else
        let t = t\<lparr>mt_Progress := real i / real (length (mp_ShardIDs (mt_Plan t))) * 100\<rparr>
        in if done_during then (t\<lparr>mt_ErrorDetail := ''migration cancelled''\<rparr>, False) else (t, True))"

text \<open>The end of \<^verbatim>\<open>processTask\<close>, after \<^verbatim>\<open>executeMigration\<close> returned.\<close>

definition finish_task :: "bool \<Rightarrow> gotime \<Rightarrow> MigrationTask \<Rightarrow> MigrationTask" where
  "finish_task success now t =
     (let t = t\<lparr>mt_EndTime := now\<rparr>
      in if success then t\<lparr>mt_State := TaskStateCompleted, mt_Progress := 100\<rparr>
         else let t = t\<lparr>mt_State := TaskStateFailed\<rparr>
              in if mt_ErrorDetail t = [] then t\<lparr>mt_ErrorDetail := ''migration interrupted''\<rparr> else t)"

text \<open>A busy worker advances: no shards, all shards done, or the next shard.\<close>

definition worker_advance :: "nat \<Rightarrow> bool \<Rightarrow> bool \<Rightarrow> gotime \<Rightarrow> Migrator \<Rightarrow> Migrator option" where
  "worker_advance w done_before done_during now m =
     (case mg_workers m w of
        None \<Rightarrow> None
      | Some (r, i) \<Rightarrow>
          let t = mg_heap m r; total = length (mp_ShardIDs (mt_Plan t));
              release = m\<lparr>mg_workers := (mg_workers m)(w := None)\<rparr>
          in if total = 0
             then Some (upd_task r (\<lambda>t. finish_task False now (t\<lparr>mt_ErrorDetail := ''no shards to migrate''\<rparr>)) release)
             else if i \<ge> total then Some (upd_task r (finish_task True now) release)
             else (case exec_shard done_before done_during i t of
                     (t', True) \<Rightarrow>
                       Some (upd_task r (\<lambda>_. t') (m\<lparr>mg_workers := (mg_workers m)(w \<mapsto> (r, Suc i))\<rparr>))
                   | (t', False) \<Rightarrow> Some (upd_task r (\<lambda>_. finish_task False now t') release)))"

text \<open>\<^verbatim>\<open>executeMigration\<close> as a whole, when nothing else touches the task: the answers of the context
  are given round by round.\<close>

fun exec_loop :: "nat \<Rightarrow> (nat \<Rightarrow> bool \<times> bool) \<Rightarrow> nat \<Rightarrow> MigrationTask \<Rightarrow> MigrationTask \<times> bool" where
  "exec_loop 0 obs i t = (t, True)"
| "exec_loop (Suc n) obs i t =
     (case exec_shard (fst (obs i)) (snd (obs i)) i t of
        (t', True) \<Rightarrow> exec_loop n obs (Suc i) t'
      | (t', False) \<Rightarrow> (t', False))"

definition executeMigration :: "(nat \<Rightarrow> bool \<times> bool) \<Rightarrow> MigrationTask \<Rightarrow> MigrationTask \<times> bool" where
  "executeMigration obs t =
     (if length (mp_ShardIDs (mt_Plan t)) = 0
      then (t\<lparr>mt_ErrorDetail := ''no shards to migrate''\<rparr>, False)
      else exec_loop (length (mp_ShardIDs (mt_Plan t))) obs 0 t)"

definition processTask :: "(nat \<Rightarrow> bool \<times> bool) \<Rightarrow> gotime \<Rightarrow> gotime \<Rightarrow> MigrationTask \<Rightarrow> MigrationTask" where
  "processTask obs now1 now2 t =
     (case executeMigration obs (t\<lparr>mt_State := TaskStateRunning, mt_StartTime := now1\<rparr>) of
        (t', success) \<Rightarrow> finish_task success now2 t')"

section \<open>Steps\<close>

inductive mig_step :: "Migrator \<Rightarrow> Migrator \<Rightarrow> bool" where
  mig_submit: "mg_tasks m taskID = None \<Longrightarrow> mig_step m (submit_one taskID plan m)"
| mig_cancel: "mig_step m (fst (CancelTask now taskID m))"
| mig_take: "worker_take w now m = Some m' \<Longrightarrow> mig_step m m'"
| mig_advance: "worker_advance w d1 d2 now m = Some m' \<Longrightarrow> mig_step m m'"

inductive mig_reachable :: "int \<Rightarrow> Migrator \<Rightarrow> bool" for n where
  mig_new: "mig_reachable n (NewMigrator n)"
| mig_next: "mig_reachable n m \<Longrightarrow> mig_step m m' \<Longrightarrow> mig_reachable n m'"

text \<open>
  The invariant: the queue holds at most 100 different tasks; busy workers have numbers below the
  limit, run different tasks, none of which is in the queue, and are at a shard within the plan; every
  progress is a percentage, 100 for a completed task; a pending task is in the queue, and a
  running one belongs to a worker.
\<close>

definition running_refs :: "Migrator \<Rightarrow> nat set" where
  "running_refs m = {r. \<exists>w i. mg_workers m w = Some (r, i)}"

definition wf_task :: "MigrationTask \<Rightarrow> bool" where
  "wf_task t \<longleftrightarrow> 0 \<le> mt_Progress t \<and> mt_Progress t \<le> 100 \<and>
     (mt_State t = TaskStateCompleted \<longrightarrow> mt_Progress t = 100)"

definition wf_mig :: "Migrator \<Rightarrow> bool" where
  "wf_mig m \<longleftrightarrow>
     distinct (mg_queue m) \<and> length (mg_queue m) \<le> pending_cap \<and> set (mg_queue m) \<subseteq> {..<mg_next m} \<and>
     running_refs m \<subseteq> {..<mg_next m} \<and> running_refs m \<inter> set (mg_queue m) = {} \<and>
     dom (mg_workers m) \<subseteq> {..<mg_maxConcurrent m} \<and>
     (\<forall>w w' r i i'. mg_workers m w = Some (r, i) \<longrightarrow> mg_workers m w' = Some (r, i') \<longrightarrow> w = w') \<and>
     (\<forall>w r i. mg_workers m w = Some (r, i) \<longrightarrow> i \<le> length (mp_ShardIDs (mt_Plan (mg_heap m r)))) \<and>
     (\<forall>r. wf_task (mg_heap m r)) \<and>
     (\<forall>r < mg_next m. mt_State (mg_heap m r) = TaskStatePending \<longrightarrow> r \<in> set (mg_queue m)) \<and>
     (\<forall>r < mg_next m. mt_State (mg_heap m r) = TaskStateRunning \<longrightarrow> r \<in> running_refs m)"

lemma wf_migI:
  assumes "distinct (mg_queue m)" "length (mg_queue m) \<le> pending_cap" "set (mg_queue m) \<subseteq> {..<mg_next m}"
    "running_refs m \<subseteq> {..<mg_next m}" "running_refs m \<inter> set (mg_queue m) = {}"
    "dom (mg_workers m) \<subseteq> {..<mg_maxConcurrent m}"
    "\<And>w w' r i i'. mg_workers m w = Some (r, i) \<Longrightarrow> mg_workers m w' = Some (r, i') \<Longrightarrow> w = w'"
    "\<And>w r i. mg_workers m w = Some (r, i) \<Longrightarrow> i \<le> length (mp_ShardIDs (mt_Plan (mg_heap m r)))"
    "\<And>r. wf_task (mg_heap m r)"
    "\<And>r. r < mg_next m \<Longrightarrow> mt_State (mg_heap m r) = TaskStatePending \<Longrightarrow> r \<in> set (mg_queue m)"
    "\<And>r. r < mg_next m \<Longrightarrow> mt_State (mg_heap m r) = TaskStateRunning \<Longrightarrow> r \<in> running_refs m"
  shows "wf_mig m"
  unfolding wf_mig_def by (intro conjI allI impI) (use assms in blast)+

lemma wf_migD:
  assumes "wf_mig m"
  shows "distinct (mg_queue m)" "length (mg_queue m) \<le> pending_cap" "set (mg_queue m) \<subseteq> {..<mg_next m}"
    "running_refs m \<subseteq> {..<mg_next m}" "running_refs m \<inter> set (mg_queue m) = {}"
    "dom (mg_workers m) \<subseteq> {..<mg_maxConcurrent m}"
    "\<And>w w' r i i'. mg_workers m w = Some (r, i) \<Longrightarrow> mg_workers m w' = Some (r, i') \<Longrightarrow> w = w'"
    "\<And>w r i. mg_workers m w = Some (r, i) \<Longrightarrow> i \<le> length (mp_ShardIDs (mt_Plan (mg_heap m r)))"
    "\<And>r. wf_task (mg_heap m r)"
    "\<And>r. r < mg_next m \<Longrightarrow> mt_State (mg_heap m r) = TaskStatePending \<Longrightarrow> r \<in> set (mg_queue m)"
    "\<And>r. r < mg_next m \<Longrightarrow> mt_State (mg_heap m r) = TaskStateRunning \<Longrightarrow> r \<in> running_refs m"
  using assms unfolding wf_mig_def by blast+

lemma running_refs_cong: "mg_workers m = mg_workers m' \<Longrightarrow> running_refs m = running_refs m'"
  by (simp add: running_refs_def)

text \<open>Changing one task without touching its plan, its place or making it pending or running.\<close>

lemma wf_mig_upd:
  assumes "wf_mig m" "wf_task (f (mg_heap m r))" "mt_Plan (f (mg_heap m r)) = mt_Plan (mg_heap m r)"
    and "mt_State (f (mg_heap m r)) \<in> {TaskStateCompleted, TaskStateFailed} \<or>
         mt_State (f (mg_heap m r)) = mt_State (mg_heap m r)"
  shows "wf_mig (upd_task r f m)"
proof (rule wf_migI)
  note d = wf_migD [OF assms(1)]
  have rr: "running_refs (upd_task r f m) = running_refs m"
    by (rule running_refs_cong) (simp add: upd_task_def)
  show "running_refs (upd_task r f m) \<subseteq> {..<mg_next (upd_task r f m)}"
    "running_refs (upd_task r f m) \<inter> set (mg_queue (upd_task r f m)) = {}"
    unfolding rr using d(4,5) by (simp_all add: upd_task_def)
  show "\<And>q. q < mg_next (upd_task r f m) \<Longrightarrow> mt_State (mg_heap (upd_task r f m) q) = TaskStatePending \<Longrightarrow>
      q \<in> set (mg_queue (upd_task r f m))"
    using d(10) assms(4) by (auto simp: upd_task_def split: if_splits)
  show "\<And>q. q < mg_next (upd_task r f m) \<Longrightarrow> mt_State (mg_heap (upd_task r f m) q) = TaskStateRunning \<Longrightarrow>
      q \<in> running_refs (upd_task r f m)"
    unfolding rr using d(11) assms(4) by (auto simp: upd_task_def split: if_splits)
  show "\<And>w q i. mg_workers (upd_task r f m) w = Some (q, i) \<Longrightarrow>
      i \<le> length (mp_ShardIDs (mt_Plan (mg_heap (upd_task r f m) q)))"
    using d(8) assms(3) by (auto simp: upd_task_def)
  show "\<And>q. wf_task (mg_heap (upd_task r f m) q)"
    using d(9) assms(2) by (simp add: upd_task_def)
  show "\<And>w w' r' i i'. mg_workers (upd_task r f m) w = Some (r', i) \<Longrightarrow>
      mg_workers (upd_task r f m) w' = Some (r', i') \<Longrightarrow> w = w'"
    using d(7) by (simp add: upd_task_def)
qed (use wf_migD [OF assms(1)] in \<open>auto simp: upd_task_def\<close>)

text \<open>Enlarging the heap by a task that is queued, or failed at once.\<close>

lemma wf_mig_alloc:
  assumes "wf_mig m" "wf_task t"
    and "mt_State t = TaskStatePending \<and> q = mg_queue m @ [mg_next m] \<and> length (mg_queue m) < pending_cap \<or>
         mt_State t = TaskStateFailed \<and> q = mg_queue m"
  shows "wf_mig (m\<lparr>mg_heap := (mg_heap m)(mg_next m := t), mg_next := Suc (mg_next m), mg_tasks := tt,
    mg_queue := q\<rparr>)" (is "wf_mig ?m")
proof (rule wf_migI)
  note d = wf_migD [OF assms(1)]
  have fresh: "mg_next m \<notin> set (mg_queue m)" "mg_next m \<notin> running_refs m" using d(3,4) by auto
  have rr: "running_refs ?m = running_refs m" by (rule running_refs_cong) simp
  show "distinct (mg_queue ?m)" "length (mg_queue ?m) \<le> pending_cap"
    "set (mg_queue ?m) \<subseteq> {..<mg_next ?m}"
    using assms(3) d(1-3) fresh by auto
  show "running_refs ?m \<subseteq> {..<mg_next ?m}" "running_refs ?m \<inter> set (mg_queue ?m) = {}"
    unfolding rr using assms(3) d(4,5) fresh by auto
  show "\<And>r. r < mg_next ?m \<Longrightarrow> mt_State (mg_heap ?m r) = TaskStatePending \<Longrightarrow> r \<in> set (mg_queue ?m)"
    using d(10) assms(3) by (auto simp: less_Suc_eq split: if_splits)
  show "\<And>r. r < mg_next ?m \<Longrightarrow> mt_State (mg_heap ?m r) = TaskStateRunning \<Longrightarrow> r \<in> running_refs ?m"
    unfolding rr using d(11) assms(3) by (auto simp: less_Suc_eq split: if_splits)
  show "\<And>w r i. mg_workers ?m w = Some (r, i) \<Longrightarrow> i \<le> length (mp_ShardIDs (mt_Plan (mg_heap ?m r)))"
    using d(8) fresh(2) by (auto simp: running_refs_def)
  show "\<And>r. wf_task (mg_heap ?m r)" using d(9) assms(2) by simp
  show "\<And>w w' r i i'. mg_workers ?m w = Some (r, i) \<Longrightarrow> mg_workers ?m w' = Some (r, i') \<Longrightarrow> w = w'"
    using d(7) by simp
qed (use wf_migD(6) [OF assms(1)] in simp)

lemma wf_submit_one: "wf_mig m \<Longrightarrow> wf_mig (submit_one taskID plan m)"
proof -
  assume wf: "wf_mig m"
  let ?t = "new_task taskID plan"
  let ?f = "?t\<lparr>mt_State := TaskStateFailed, mt_ErrorDetail := ''task queue is full''\<rparr>"
  let ?tt = "(mg_tasks m)(taskID \<mapsto> mg_next m)"
  have t: "wf_task ?t" "wf_task ?f" "mt_State ?t = TaskStatePending"
    by (simp_all add: wf_task_def new_task_def)
  show ?thesis
  proof (cases "length (mg_queue m) < pending_cap")
    case True
    then have "submit_one taskID plan m = m\<lparr>mg_heap := (mg_heap m)(mg_next m := ?t),
        mg_next := Suc (mg_next m), mg_tasks := ?tt, mg_queue := mg_queue m @ [mg_next m]\<rparr>"
      by (simp add: submit_one_def Let_def try_send_def)
    with wf_mig_alloc [OF wf t(1)] t(3) True show ?thesis by simp
  next
    case False
    then have "submit_one taskID plan m = m\<lparr>mg_heap := (mg_heap m)(mg_next m := ?f),
        mg_next := Suc (mg_next m), mg_tasks := ?tt, mg_queue := mg_queue m\<rparr>"
      by (simp add: submit_one_def Let_def try_send_def upd_task_def)
    with wf_mig_alloc [OF wf t(2)] show ?thesis by simp
  qed
qed

lemma wf_CancelTask: "wf_mig m \<Longrightarrow> wf_mig (fst (CancelTask now taskID m))"
proof (cases "mg_tasks m taskID")
  case (Some r)
  assume wf: "wf_mig m"
  have "wf_task (mg_heap m r)" using wf_migD(9) [OF wf] .
  with Some wf show ?thesis
    by (auto simp: CancelTask_def wf_task_def intro!: wf_mig_upd)
qed (simp add: CancelTask_def)

lemma wf_worker_take:
  assumes "wf_mig m" "worker_take w now m = Some m'"
  shows "wf_mig m'"
proof -
  note d = wf_migD [OF assms(1)]
  have w: "w < mg_maxConcurrent m" "mg_workers m w = None"
    using assms(2) by (cases "mg_workers m w"; auto simp: worker_take_def split: if_splits)+
  with assms(2) obtain r rs where q: "mg_queue m = r # rs" and m': "m' = upd_task r (\<lambda>t. t\<lparr>mt_State := TaskStateRunning, mt_StartTime := now\<rparr>)
      (m\<lparr>mg_queue := rs, mg_workers := (mg_workers m)(w \<mapsto> (r, 0))\<rparr>)"
    by (auto simp: worker_take_def split: list.splits)
  have r: "r < mg_next m" "r \<notin> running_refs m" "r \<notin> set rs" using d(1,3,5) q by auto
  have rr: "running_refs m' = insert r (running_refs m)"
    using w(2) by (auto simp: m' running_refs_def upd_task_def) (metis option.distinct(1))
  have heap: "mg_heap m' = (mg_heap m)(r := (mg_heap m r)\<lparr>mt_State := TaskStateRunning, mt_StartTime := now\<rparr>)"
    and [simp]: "mg_queue m' = rs" "mg_workers m' = (mg_workers m)(w \<mapsto> (r, 0))" "mg_next m' = mg_next m"
      "mg_maxConcurrent m' = mg_maxConcurrent m"
    by (simp_all add: m' upd_task_def)
  show ?thesis
  proof (rule wf_migI)
    show "running_refs m' \<subseteq> {..<mg_next m'}" "running_refs m' \<inter> set (mg_queue m') = {}"
      unfolding rr using d(4,5) q r by auto
    show "dom (mg_workers m') \<subseteq> {..<mg_maxConcurrent m'}" using d(6) w by auto
    show "\<And>v v' q i i'. mg_workers m' v = Some (q, i) \<Longrightarrow> mg_workers m' v' = Some (q, i') \<Longrightarrow> v = v'"
      using d(7) r(2) by (auto simp: running_refs_def split: if_splits)
    show "\<And>v q i. mg_workers m' v = Some (q, i) \<Longrightarrow> i \<le> length (mp_ShardIDs (mt_Plan (mg_heap m' q)))"
      using d(8) by (auto simp: heap split: if_splits)
    show "\<And>q. wf_task (mg_heap m' q)" using d(9) by (auto simp: heap wf_task_def)
    show "\<And>q. q < mg_next m' \<Longrightarrow> mt_State (mg_heap m' q) = TaskStatePending \<Longrightarrow> q \<in> set (mg_queue m')"
      using d(10) q by (auto simp: heap split: if_splits)
    show "\<And>q. q < mg_next m' \<Longrightarrow> mt_State (mg_heap m' q) = TaskStateRunning \<Longrightarrow> q \<in> running_refs m'"
      unfolding rr using d(11) by (auto simp: heap split: if_splits)
  qed (use d(1-3) q in auto)
qed

lemma wf_mig_release:
  assumes "wf_mig m" "mg_workers m w = Some (r, i)" "wf_task t" "mt_Plan t = mt_Plan (mg_heap m r)"
    and "mt_State t \<in> {TaskStateCompleted, TaskStateFailed}"
  shows "wf_mig (upd_task r (\<lambda>_. t) (m\<lparr>mg_workers := (mg_workers m)(w := None)\<rparr>))" (is "wf_mig ?m")
proof -
  note d = wf_migD [OF assms(1)]
  have rr: "running_refs ?m = running_refs m - {r}"
    using assms(2) d(7) by (auto simp: running_refs_def upd_task_def) (metis option.inject prod.inject)
  show ?thesis
  proof (rule wf_migI)
    show "running_refs ?m \<subseteq> {..<mg_next ?m}" "running_refs ?m \<inter> set (mg_queue ?m) = {}"
      unfolding rr using d(4,5) by (auto simp: upd_task_def)
    show "dom (mg_workers ?m) \<subseteq> {..<mg_maxConcurrent ?m}" using d(6) by (auto simp: upd_task_def)
    show "\<And>v v' q i i'. mg_workers ?m v = Some (q, i) \<Longrightarrow> mg_workers ?m v' = Some (q, i') \<Longrightarrow> v = v'"
      using d(7) by (auto simp: upd_task_def split: if_splits)
    show "\<And>v q i. mg_workers ?m v = Some (q, i) \<Longrightarrow> i \<le> length (mp_ShardIDs (mt_Plan (mg_heap ?m q)))"
      using d(8) assms(4) by (auto simp: upd_task_def split: if_splits)
    show "\<And>q. wf_task (mg_heap ?m q)" using d(9) assms(3) by (simp add: upd_task_def)
    show "\<And>q. q < mg_next ?m \<Longrightarrow> mt_State (mg_heap ?m q) = TaskStatePending \<Longrightarrow> q \<in> set (mg_queue ?m)"
      using d(10) assms(5) by (auto simp: upd_task_def split: if_splits)
    show "\<And>q. q < mg_next ?m \<Longrightarrow> mt_State (mg_heap ?m q) = TaskStateRunning \<Longrightarrow> q \<in> running_refs ?m"
      unfolding rr using d(11) assms(5) by (auto simp: upd_task_def split: if_splits)
  qed (use d(1-3) in \<open>auto simp: upd_task_def\<close>)
qed

lemma wf_mig_goto:
  assumes "wf_mig m" "mg_workers m w = Some (r, i)" "j \<le> length (mp_ShardIDs (mt_Plan (mg_heap m r)))"
  shows "wf_mig (m\<lparr>mg_workers := (mg_workers m)(w \<mapsto> (r, j))\<rparr>)" (is "wf_mig ?m")
proof -
  note d = wf_migD [OF assms(1)]
  have rr: "running_refs ?m = running_refs m"
    using assms(2) by (auto simp: running_refs_def split: if_splits) (metis option.inject prod.inject)
  show ?thesis
  proof (rule wf_migI)
    show "running_refs ?m \<subseteq> {..<mg_next ?m}" "running_refs ?m \<inter> set (mg_queue ?m) = {}"
      unfolding rr using d(4,5) by auto
    show "dom (mg_workers ?m) \<subseteq> {..<mg_maxConcurrent ?m}" using d(6) assms(2) by auto
    show "\<And>v v' q i i'. mg_workers ?m v = Some (q, i) \<Longrightarrow> mg_workers ?m v' = Some (q, i') \<Longrightarrow> v = v'"
      using d(7) assms(2) by (auto split: if_splits)
    show "\<And>v q i. mg_workers ?m v = Some (q, i) \<Longrightarrow> i \<le> length (mp_ShardIDs (mt_Plan (mg_heap ?m q)))"
      using d(8) assms(3) by (auto split: if_splits)
    show "\<And>q. q < mg_next ?m \<Longrightarrow> mt_State (mg_heap ?m q) = TaskStateRunning \<Longrightarrow> q \<in> running_refs ?m"
      unfolding rr using d(11) by simp
  qed (use d(1-3,9,10) in auto)
qed

lemma finish_task_wf:
  assumes "0 \<le> mt_Progress t" "mt_Progress t \<le> 100"
  shows "wf_task (finish_task b now t)" "mt_Plan (finish_task b now t) = mt_Plan t"
    "mt_State (finish_task b now t) = (if b then TaskStateCompleted else TaskStateFailed)"
  using assms by (auto simp: finish_task_def wf_task_def Let_def)

lemma exec_shard_facts:
  assumes "exec_shard d1 d2 i t = (t', ok)" "0 \<le> mt_Progress t" "mt_Progress t \<le> 100"
    and "i < length (mp_ShardIDs (mt_Plan t))"
  shows "0 \<le> mt_Progress t' \<and> mt_Progress t' \<le> 100 \<and> mt_Plan t' = mt_Plan t \<and> mt_State t' = mt_State t \<and>
    (ok \<longleftrightarrow> \<not> d1 \<and> \<not> d2) \<and> (\<not> ok \<longrightarrow> mt_ErrorDetail t' \<noteq> []) \<and>
    (mt_State t = TaskStateCompleted \<longrightarrow> mt_State t' = TaskStateCompleted)"
proof -
  have "real i / real (length (mp_ShardIDs (mt_Plan t))) * 100 \<le> 100"
  proof -
    have "real i / real (length (mp_ShardIDs (mt_Plan t))) \<le> 1" using assms(4) by (intro divide_le_eq_1 [THEN iffD2]) auto
    then show ?thesis using mult_right_mono [of _ 1 100] by fastforce
  qed
  with assms show ?thesis by (auto simp: exec_shard_def Let_def split: if_splits)
qed

text \<open>A busy worker holds a task that is running, or was cancelled while it ran.\<close>

definition not_completed :: "Migrator \<Rightarrow> bool" where
  "not_completed m \<longleftrightarrow> (\<forall>r \<in> running_refs m \<union> set (mg_queue m). mt_State (mg_heap m r) \<noteq> TaskStateCompleted)"

lemma worker_advance_cases:
  assumes "worker_advance w d1 d2 now m = Some m'" "wf_mig m"
  obtains (finish) r i t where "mg_workers m w = Some (r, i)" "wf_task t" "mt_Plan t = mt_Plan (mg_heap m r)"
      "mt_State t \<in> {TaskStateCompleted, TaskStateFailed}"
      "m' = upd_task r (\<lambda>_. t) (m\<lparr>mg_workers := (mg_workers m)(w := None)\<rparr>)"
      "mt_State t = TaskStateCompleted \<longleftrightarrow>
         length (mp_ShardIDs (mt_Plan (mg_heap m r))) > 0 \<and> i = length (mp_ShardIDs (mt_Plan (mg_heap m r)))"
  | (go) r i t where "mg_workers m w = Some (r, i)" "i < length (mp_ShardIDs (mt_Plan (mg_heap m r)))"
      "exec_shard False False i (mg_heap m r) = (t, True)" "\<not> d1" "\<not> d2"
      "m' = upd_task r (\<lambda>_. t) (m\<lparr>mg_workers := (mg_workers m)(w \<mapsto> (r, Suc i))\<rparr>)"
proof -
  from assms(1) obtain r i where wri: "mg_workers m w = Some (r, i)"
    by (auto simp: worker_advance_def split: option.splits)
  let ?t = "mg_heap m r" and ?n = "length (mp_ShardIDs (mt_Plan (mg_heap m r)))"
  have i: "i \<le> ?n" using wf_migD(8) [OF assms(2) wri] .
  have p: "0 \<le> mt_Progress ?t" "mt_Progress ?t \<le> 100" using wf_migD(9) [OF assms(2)] by (auto simp: wf_task_def)
  consider "?n = 0" | "?n > 0" "i = ?n" | "i < ?n" using i by linarith
  then show ?thesis
  proof cases
    case 1
    let ?f = "finish_task False now (?t\<lparr>mt_ErrorDetail := ''no shards to migrate''\<rparr>)"
    have "m' = upd_task r (\<lambda>_. ?f) (m\<lparr>mg_workers := (mg_workers m)(w := None)\<rparr>)"
      using 1 assms(1) wri by (simp add: worker_advance_def upd_task_def)
    with 1 wri p show ?thesis
      by (intro finish [of r i ?f]) (auto simp: finish_task_wf)
  next
    case 2
    let ?f = "finish_task True now ?t"
    have "m' = upd_task r (\<lambda>_. ?f) (m\<lparr>mg_workers := (mg_workers m)(w := None)\<rparr>)"
      using 2 assms(1) wri by (simp add: worker_advance_def upd_task_def Let_def)
    with 2 wri p show ?thesis
      by (intro finish [of r i ?f]) (auto simp: finish_task_wf)
  next
    case 3
    obtain t' ok where ex: "exec_shard d1 d2 i ?t = (t', ok)" by fastforce
    note f = exec_shard_facts [OF ex p 3]
    show ?thesis
    proof (cases ok)
      case True
      with f ex have "\<not> d1" "\<not> d2" "exec_shard False False i ?t = (t', True)" by auto
      with 3 assms(1) wri ex True show ?thesis
        by (intro go [of r i t']) (auto simp: worker_advance_def Let_def split: if_splits)
    next
      case False
      let ?f = "finish_task False now t'"
      have "m' = upd_task r (\<lambda>_. ?f) (m\<lparr>mg_workers := (mg_workers m)(w := None)\<rparr>)"
        using 3 assms(1) wri ex False by (auto simp: worker_advance_def upd_task_def Let_def split: if_splits)
      with 3 wri f show ?thesis by (intro finish [of r i ?f]) (auto simp: finish_task_wf)
    qed
  qed
qed

lemma exec_shard_go: "exec_shard False False i t = (t', True) \<Longrightarrow>
   t' = t\<lparr>mt_Progress := real i / real (length (mp_ShardIDs (mt_Plan t))) * 100\<rparr>"
  by (simp add: exec_shard_def Let_def)

lemma mig_step_wf:
  assumes "mig_step m m'" "wf_mig m" "not_completed m"
  shows "wf_mig m' \<and> not_completed m'"
  using assms
proof (induction rule: mig_step.induct)
  case (mig_submit m taskID plan)
  have "not_completed (submit_one taskID plan m)"
    using mig_submit.prems(2) wf_migD(3,4) [OF mig_submit.prems(1)]
    by (auto simp: not_completed_def submit_one_def Let_def try_send_def upd_task_def running_refs_def
        new_task_def split: prod.splits bool.splits)
  with mig_submit.prems show ?case by (simp add: wf_submit_one)
next
  case (mig_cancel m now taskID)
  then show ?case
    by (auto simp: wf_CancelTask)
      (auto simp: not_completed_def CancelTask_def upd_task_def running_refs_def split: option.splits)
next
  case (mig_take w now m m')
  have "not_completed m'"
    using mig_take
    by (auto simp: not_completed_def worker_take_def upd_task_def running_refs_def split: if_splits list.splits)
      blast
  with mig_take show ?case using wf_worker_take by blast
next
  case (mig_advance w d1 d2 now m m')
  from mig_advance.hyps mig_advance.prems(1) show ?case
  proof (cases rule: worker_advance_cases)
    case (finish r i t)
    then have "wf_mig m'" using wf_mig_release [OF mig_advance.prems(1)] by blast
    moreover have "r \<in> running_refs m" using finish(1) by (auto simp: running_refs_def)
    then have "r \<notin> set (mg_queue m)" using wf_migD(5) [OF mig_advance.prems(1)] by auto
    then have "not_completed m'"
      using finish mig_advance.prems wf_migD(7) [OF mig_advance.prems(1)]
      by (auto simp: not_completed_def upd_task_def running_refs_def split: if_splits)
    ultimately show ?thesis by blast
  next
    case (go r i t)
    let ?g = "m\<lparr>mg_workers := (mg_workers m)(w \<mapsto> (r, Suc i))\<rparr>"
    have wf: "wf_mig ?g" using wf_mig_goto [OF mig_advance.prems(1) go(1)] go(2) by simp
    have r: "r \<in> running_refs m" using go(1) by (auto simp: running_refs_def)
    have "0 \<le> mt_Progress (mg_heap m r)" "mt_Progress (mg_heap m r) \<le> 100"
      using wf_migD(9) [OF mig_advance.prems(1)] by (auto simp: wf_task_def)
    from exec_shard_facts [OF go(3) this go(2)] mig_advance.prems(2) r
    have t: "wf_task t" "mt_Plan t = mt_Plan (mg_heap m r)" "mt_State t = mt_State (mg_heap m r)"
      by (auto simp: wf_task_def not_completed_def)
    have "wf_mig m'" unfolding go(6) by (rule wf_mig_upd [OF wf]) (use t in auto)
    moreover have "not_completed m'"
      using mig_advance.prems(2) t(3) go(1)
      by (auto simp: go(6) not_completed_def upd_task_def running_refs_def split: if_splits)
    ultimately show ?thesis by blast
  qed
qed

lemma mig_reachable_wf: "mig_reachable n m \<Longrightarrow> wf_mig m \<and> not_completed m"
proof (induction rule: mig_reachable.induct)
  case mig_new
  then show ?case
    by (auto simp: wf_mig_def not_completed_def NewMigrator_def running_refs_def wf_task_def new_task_def)
next
  case (mig_next m m')
  then show ?case using mig_step_wf by blast
qed

section \<open>Running one task\<close>

lemma exec_loop_undisturbed:
  "(\<And>j. i \<le> j \<Longrightarrow> obs j = (False, False)) \<Longrightarrow> snd (exec_loop n obs i t)"
  by (induction n arbitrary: i t) (auto simp: exec_shard_def Let_def)

lemma exec_loop_interrupted:
  assumes "k < n" "\<And>j. j < k \<Longrightarrow> obs (i + j) = (False, False)" "fst (obs (i + k)) \<or> snd (obs (i + k))"
  shows "\<not> snd (exec_loop n obs i t) \<and> mt_ErrorDetail (fst (exec_loop n obs i t)) = ''migration cancelled''"
  using assms
proof (induction k arbitrary: n i t)
  case 0
  then show ?case by (cases n) (auto simp: exec_shard_def Let_def)
next
  case (Suc k)
  then obtain n' where n: "n = Suc n'" by (cases n) auto
  have "obs i = (False, False)" using Suc.prems(2) [of 0] by simp
  moreover have "obs (Suc i + j) = (False, False)" if "j < k" for j
    using Suc.prems(2) [of "Suc j"] that by simp
  moreover have "fst (obs (Suc i + k)) \<or> snd (obs (Suc i + k))" using Suc.prems(3) by simp
  ultimately show ?case
    using Suc.IH [of n' "Suc i"] Suc.prems(1) n by (auto simp: exec_shard_def Let_def)
qed

section \<open>Submission\<close>

lemma submit_one_facts:
  "mg_tasks (submit_one k plan m) = (mg_tasks m)(k \<mapsto> mg_next m)"
  "mg_next (submit_one k plan m) = Suc (mg_next m)"
  "mg_queue (submit_one k plan m) =
     (if length (mg_queue m) < pending_cap then mg_queue m @ [mg_next m] else mg_queue m)"
  "mg_heap (submit_one k plan m) = (mg_heap m)(mg_next m :=
     if length (mg_queue m) < pending_cap then new_task k plan
     else (new_task k plan)\<lparr>mt_State := TaskStateFailed, mt_ErrorDetail := ''task queue is full''\<rparr>)"
  "mg_workers (submit_one k plan m) = mg_workers m"
  by (simp_all add: submit_one_def Let_def try_send_def upd_task_def)

lemma SubmitTasks_keep_all:
  "SubmitTasks uuids plans m = (m', ids) \<Longrightarrow>
   ids = map uuids [0..<length plans] \<and> mg_next m' = mg_next m + length plans \<and>
   (\<forall>r < mg_next m. mg_heap m' r = mg_heap m r) \<and> (\<forall>k. k \<notin> set ids \<longrightarrow> mg_tasks m' k = mg_tasks m k)"
proof (induction plans arbitrary: uuids m m' ids)
  case Nil
  then show ?case by simp
next
  case (Cons plan plans)
  obtain ids1 where r: "SubmitTasks (\<lambda>i. uuids (Suc i)) plans (submit_one (uuids 0) plan m) = (m', ids1)"
    and ids: "ids = uuids 0 # ids1"
    using Cons.prems by (cases "SubmitTasks (\<lambda>i. uuids (Suc i)) plans (submit_one (uuids 0) plan m)") auto
  from Cons.IH [OF r] show ?case
    unfolding ids by (auto simp: submit_one_facts map_upt_Suc simp del: upt_Suc)
qed

lemma SubmitTasks_keep:
  assumes "SubmitTasks uuids plans m = (m', ids)"
  shows "ids = map uuids [0..<length plans]" "mg_next m' = mg_next m + length plans"
    "\<And>r. r < mg_next m \<Longrightarrow> mg_heap m' r = mg_heap m r"
    "\<And>k. k \<notin> set ids \<Longrightarrow> mg_tasks m' k = mg_tasks m k"
  using SubmitTasks_keep_all [OF assms] by blast+

lemma SubmitTasks_task:
  assumes "SubmitTasks uuids plans m = (m', ids)" "inj_on uuids {..<length plans}" "j < length plans"
  shows "mg_tasks m' (uuids j) = Some (mg_next m + j) \<and>
    mg_heap m' (mg_next m + j) =
      (if length (mg_queue m) + j < pending_cap then new_task (uuids j) (plans ! j)
       else (new_task (uuids j) (plans ! j))\<lparr>mt_State := TaskStateFailed, mt_ErrorDetail := ''task queue is full''\<rparr>)"
  using assms
proof (induction plans arbitrary: uuids m m' ids j)
  case Nil
  then show ?case by simp
next
  case (Cons plan plans)
  let ?m = "submit_one (uuids 0) plan m"
  let ?u = "\<lambda>i. uuids (Suc i)"
  obtain ids1 where r: "SubmitTasks ?u plans ?m = (m', ids1)"
    using Cons.prems(1) by (cases "SubmitTasks ?u plans ?m") auto
  have inj: "inj_on ?u {..<length plans}"
    using Cons.prems(2) by (auto simp: inj_on_def)
  show ?case
  proof (cases j)
    case 0
    have "uuids 0 \<notin> set ids1"
    proof
      assume "uuids 0 \<in> set ids1"
      then obtain x where "x < length plans" "uuids 0 = uuids (Suc x)"
        using SubmitTasks_keep(1) [OF r] by auto
      with inj_onD [OF Cons.prems(2), of 0 "Suc x"] show False by simp
    qed
    then show ?thesis
      using 0 SubmitTasks_keep(4) [OF r, of "uuids 0"] SubmitTasks_keep(3) [OF r, of "mg_next m"]
      by (simp add: submit_one_facts)
  next
    case (Suc j')
    with Cons.IH [OF r inj, of j'] Cons.prems(3) show ?thesis
      by (auto simp: submit_one_facts split: if_splits)
  qed
qed

section \<open>Properties\<close>

text \<open>
  (C13) The executor stays within its limits, whatever submissions, cancellations, worker rounds and
  context cancellations interleave: at most 100 tasks wait, at most the configured number run, no
  task runs on two workers, progress is a percentage, and a completed task is at 100.
\<close>

theorem migrator_limits:
  assumes "mig_reachable n m"
  shows "length (mg_queue m) \<le> 100 \<and> card (dom (mg_workers m)) \<le> mg_maxConcurrent m \<and>
    (\<forall>w w' r i i'. mg_workers m w = Some (r, i) \<and> mg_workers m w' = Some (r, i') \<longrightarrow> w = w') \<and>
    (\<forall>r. 0 \<le> mt_Progress (mg_heap m r) \<and> mt_Progress (mg_heap m r) \<le> 100 \<and>
       (mt_State (mg_heap m r) = TaskStateCompleted \<longrightarrow> mt_Progress (mg_heap m r) = 100))"
proof -
  note wf = conjunct1 [OF mig_reachable_wf [OF assms]]
  have "card (dom (mg_workers m)) \<le> card {..<mg_maxConcurrent m}"
    by (rule card_mono [OF _ wf_migD(6) [OF wf]]) simp
  then show ?thesis
    using wf_migD(2) [OF wf] wf_migD(7) [OF wf] wf_migD(9) [OF wf]
    by (auto simp: pending_cap_def wf_task_def)
qed

theorem migrator_limits_witness:
  "card (dom (mg_workers (NewMigrator 0))) \<le> 5 \<and> mg_maxConcurrent (NewMigrator 0) = 5"
  using migrator_limits [OF mig_new [of 0]] by (simp add: NewMigrator_def)

text \<open>
  Running a task to its end, when nobody else changes it: it is completed at progress 100 exactly
  when it has shards and the context stays alive in every round; without shards it fails with that
  error, and when the context ends it fails as cancelled. It always ends, with its end time set.
\<close>

theorem processTask_outcome:
  "mt_EndTime (processTask obs now1 now2 t) = now2 \<and> mt_StartTime (processTask obs now1 now2 t) = now1 \<and>
   (if mp_ShardIDs (mt_Plan t) = []
    then mt_State (processTask obs now1 now2 t) = TaskStateFailed \<and>
         mt_ErrorDetail (processTask obs now1 now2 t) = ''no shards to migrate''
    else if \<forall>j < length (mp_ShardIDs (mt_Plan t)). obs j = (False, False)
    then mt_State (processTask obs now1 now2 t) = TaskStateCompleted \<and>
         mt_Progress (processTask obs now1 now2 t) = 100
    else mt_State (processTask obs now1 now2 t) = TaskStateFailed \<and>
         mt_ErrorDetail (processTask obs now1 now2 t) = ''migration cancelled'')"
proof -
  define t0 where "t0 = t\<lparr>mt_State := TaskStateRunning, mt_StartTime := now1\<rparr>"
  let ?n = "length (mp_ShardIDs (mt_Plan t))"
  have plan: "mt_Plan t0 = mt_Plan t" by (simp add: t0_def)
  have start: "mt_StartTime (fst (exec_loop k obs i u)) = mt_StartTime u" for k i u
    by (induction k arbitrary: i u) (auto simp: exec_shard_def Let_def split: prod.splits)
  have proc: "processTask obs now1 now2 t =
      finish_task (snd (executeMigration obs t0)) now2 (fst (executeMigration obs t0))"
    by (simp add: processTask_def t0_def case_prod_unfold)
  have st: "mt_StartTime (fst (executeMigration obs t0)) = now1"
    using start by (simp add: executeMigration_def t0_def)
  have fin: "mt_EndTime (finish_task b now2 u) = now2" "mt_StartTime (finish_task b now2 u) = mt_StartTime u" for b u
    by (simp_all add: finish_task_def Let_def)
  consider "?n = 0" | "?n > 0" "\<forall>j < ?n. obs j = (False, False)" | k where "k < ?n" "obs k \<noteq> (False, False)"
    "\<forall>j < k. obs j = (False, False)"
  proof (cases "\<forall>j < ?n. obs j = (False, False)")
    case False
    then have "\<exists>k. k < ?n \<and> obs k \<noteq> (False, False)" by blast
    then obtain k where "k < ?n \<and> obs k \<noteq> (False, False)" "\<forall>j < k. \<not> (j < ?n \<and> obs j \<noteq> (False, False))"
      using exists_least_iff [of "\<lambda>k. k < ?n \<and> obs k \<noteq> (False, False)"] by blast
    then show ?thesis by (intro that(3) [of k]) auto
  qed (use that in fastforce)
  then show ?thesis
  proof cases
    case 1
    then show ?thesis using proc fin st
      by (simp add: executeMigration_def plan finish_task_def Let_def)
  next
    case 2
    define obs' where "obs' j = (if j < ?n then obs j else (False, False))" for j
    have cong: "exec_loop k obs i u = exec_loop k obs' i u" if "i + k \<le> ?n" for k i u
      using that by (induction k arbitrary: i u) (auto simp: obs'_def split: prod.split)
    have "snd (exec_loop ?n obs' 0 t0)"
      by (rule exec_loop_undisturbed) (use 2 in \<open>auto simp: obs'_def\<close>)
    with 2 cong [of 0 ?n t0] have "snd (executeMigration obs t0)" by (simp add: executeMigration_def plan)
    with 2 fin st show ?thesis unfolding proc by (auto simp: finish_task_def Let_def)
  next
    case (3 k)
    then have "fst (obs k) \<or> snd (obs k)" by (metis prod.collapse)
    with exec_loop_interrupted [of k ?n obs 0 t0] 3
    have "\<not> snd (executeMigration obs t0)" "mt_ErrorDetail (fst (executeMigration obs t0)) = ''migration cancelled''"
      by (auto simp: executeMigration_def plan)
    with 3 fin st show ?thesis unfolding proc by (auto simp: finish_task_def Let_def)
  qed
qed

theorem processTask_outcome_witness:
  "mt_State (processTask (\<lambda>_. (False, False)) 3 9 (new_task ''t'' (no_plan\<lparr>mp_ShardIDs := [''s1'', ''s2'']\<rparr>))) =
     TaskStateCompleted"
  using processTask_outcome [of "\<lambda>_. (False, False)" 3 9 "new_task ''t'' (no_plan\<lparr>mp_ShardIDs := [''s1'', ''s2'']\<rparr>)"]
  by (simp add: new_task_def no_plan_def)

text \<open>
  Cancelling does not stop a task: a waiting task that is cancelled is marked failed but stays in
  the queue, a worker that later takes it marks it running again, and when its shards are done it is
  marked completed; the same holds for a task cancelled while it runs.
\<close>

theorem cancelled_task_still_runs:
  assumes "mg_tasks m k = Some r" "active (mg_heap m r)"
  shows "\<exists>m1. CancelTask now k m = (m1, True) \<and> mt_State (mg_heap m1 r) = TaskStateFailed \<and>
    (\<forall>w rs. mg_queue m = r # rs \<and> w < mg_maxConcurrent m \<and> mg_workers m w = None \<longrightarrow>
       (\<exists>m2. worker_take w now2 m1 = Some m2 \<and> mt_State (mg_heap m2 r) = TaskStateRunning)) \<and>
    (\<forall>w. mg_workers m w = Some (r, length (mp_ShardIDs (mt_Plan (mg_heap m r)))) \<and>
         mp_ShardIDs (mt_Plan (mg_heap m r)) \<noteq> [] \<longrightarrow>
       (\<exists>m2. worker_advance w d1 d2 now2 m1 = Some m2 \<and> mt_State (mg_heap m2 r) = TaskStateCompleted))"
  using assms
  by (auto simp: CancelTask_def worker_take_def worker_advance_def upd_task_def finish_task_def Let_def)

definition mig_demo :: Migrator where
  "mig_demo = submit_one ''t1'' (no_plan\<lparr>mp_ShardIDs := [''s1'']\<rparr>) (NewMigrator 2)"

lemma mig_demo_eq:
  "mg_tasks mig_demo ''t1'' = Some 0" "active (mg_heap mig_demo 0)" "mg_queue mig_demo = [0]"
  "mg_maxConcurrent mig_demo = 2" "mg_workers mig_demo = Map.empty"
  by (simp_all add: mig_demo_def submit_one_def NewMigrator_def try_send_def pending_cap_def new_task_def
      active_def Let_def)

theorem cancelled_task_still_runs_witness:
  "\<exists>m2. worker_take 0 8 (fst (CancelTask 7 ''t1'' mig_demo)) = Some m2 \<and>
     mt_State (mg_heap m2 0) = TaskStateRunning"
  using cancelled_task_still_runs [OF mig_demo_eq(1,2), of 7 8] mig_demo_eq(3-5) by auto

text \<open>
  Submitting plans: every plan gets a task under its own identifier, in order; the tasks for which
  the queue has room are waiting, the others are marked failed with the reason, and no task that
  existed before is changed.
\<close>

theorem SubmitTasks_outcome:
  assumes "SubmitTasks uuids plans m = (m', ids)" "inj_on uuids {..<length plans}"
  shows "ids = map uuids [0..<length plans] \<and>
    (\<forall>j < length plans. \<exists>t. GetTaskStatus m' (uuids j) = Some t \<and> mt_TaskID t = uuids j \<and>
       mt_Plan t = plans ! j \<and>
       (if length (mg_queue m) + j < 100 then mt_State t = TaskStatePending
        else mt_State t = TaskStateFailed \<and> mt_ErrorDetail t = ''task queue is full'')) \<and>
    (\<forall>k r. mg_tasks m k = Some r \<and> r < mg_next m \<and> k \<notin> set ids \<longrightarrow> GetTaskStatus m' k = GetTaskStatus m k)"
  using SubmitTasks_keep [OF assms(1)] SubmitTasks_task [OF assms]
  by (auto simp: GetTaskStatus_def new_task_def pending_cap_def)

theorem SubmitTasks_outcome_witness:
  "snd (SubmitTasks (\<lambda>i. dec i) [no_plan, no_plan] (NewMigrator 2)) = [dec 0, dec 1]"
  using SubmitTasks_outcome [of dec "[no_plan, no_plan]" "NewMigrator 2", OF surjective_pairing]
  by (simp add: inj_on_def upt_rec)

end
