(* ===== verification/RebalanceMgr.thy ===== *)
theory RebalanceMgr
  imports Migrator
begin

text \<open>
  The load balancing manager: \<^verbatim>\<open>cluster/rebalance/manager.go\<close>, which joins the metric
  collector, a strategy and the migrator.

  One evaluation runs in the loop goroutine; the two clock readings it takes, the order of the metrics
  map and the identifiers of plans and tasks are arguments. It ends in a panic when the strategy
  panics. The interface of a strategy is the locale \<open>balance_strategy\<close>; every strategy of the
  model is an interpretation, and what the manager relies on is proved from it.
\<close>

section \<open>State\<close>

record LoadBalancerConfig =
  lb_EvaluationInterval :: duration
  lb_ImbalanceThreshold :: float64
  lb_MaxConcurrentMigrations :: int
  lb_MinMigrationInterval :: duration
  lb_MigrationTimeout :: duration

record rb_manager =
  rm_cfg :: LoadBalancerConfig
  rm_metricCollector :: node_metrics
  rm_strategy :: BalanceStrategy
  rm_migrator :: Migrator
  rm_lastRebalance :: gotime
  rm_isRebalancing :: bool
  rm_triggerCh :: "unit list"
  rm_nodeMetrics :: node_metrics

section \<open>Operations\<close>

text \<open>
  \<^verbatim>\<open>NewManager\<close> reads the configuration before it tests it for nil, so a nil configuration
  panics and the defaults below the test are never used.
\<close>

definition default_lb_config :: LoadBalancerConfig where
  "default_lb_config =
     \<lparr>lb_EvaluationInterval = 5 * Minute, lb_ImbalanceThreshold = 20, lb_MaxConcurrentMigrations = 5,
      lb_MinMigrationInterval = 30 * Minute, lb_MigrationTimeout = 120 * Minute\<rparr>"

definition Rebalance_NewManager :: "LoadBalancerConfig option \<Rightarrow> rb_manager outcome" where
  "Rebalance_NewManager cfg =
     (case cfg of
        None \<Rightarrow> Panic ''nil pointer dereference''
      | Some c \<Rightarrow>
          let c = (if lb_EvaluationInterval c \<le> 0 then c\<lparr>lb_EvaluationInterval := 30 * Second\<rparr> else c)
          in Return
               \<lparr>rm_cfg = c, rm_metricCollector = NewMetricCollector,
                rm_strategy = WeightedScore (NewWeightedScoreStrategy (4 / 10) (2 / 10) (2 / 10) (2 / 10)),
                rm_migrator = NewMigrator (lb_MaxConcurrentMigrations c), rm_lastRebalance = zero_time,
                rm_isRebalancing = False, rm_triggerCh = [], rm_nodeMetrics = Map.empty\<rparr>)"

definition TriggerRebalance :: "rb_manager \<Rightarrow> rb_manager" where
  "TriggerRebalance m = m\<lparr>rm_triggerCh := fst (try_send 1 () (rm_triggerCh m))\<rparr>"

definition IsRebalancing :: "rb_manager \<Rightarrow> bool" where
  "IsRebalancing m \<longleftrightarrow> rm_isRebalancing m"

definition GetStatus :: "string list \<Rightarrow> rb_manager \<Rightarrow> bool \<times> gotime \<times> nat \<times> MigrationTask list" where
  "GetStatus ks m =
     (let activeTasks = GetAllActiveTasks ks (rm_migrator m)
      in (rm_isRebalancing m, rm_lastRebalance m, length activeTasks, activeTasks))"

definition Rebalance_UpdateNodeMetrics :: "NodeID \<Rightarrow> NodeMetrics \<Rightarrow> rb_manager \<Rightarrow> rb_manager" where
  "Rebalance_UpdateNodeMetrics nodeID metrics m =
     m\<lparr>rm_metricCollector := UpdateNodeMetrics nodeID metrics (rm_metricCollector m)\<rparr>"

definition Rebalance_GetNodeMetrics :: "rb_manager \<Rightarrow> NodeID \<Rightarrow> NodeMetrics option" where
  "Rebalance_GetNodeMetrics m nodeID = rm_nodeMetrics m nodeID"

definition performRebalance ::
  "(nat \<Rightarrow> string) \<Rightarrow> (nat \<Rightarrow> string) \<Rightarrow> NodeID list \<Rightarrow> node_metrics \<Rightarrow> rb_manager \<Rightarrow>
   (rb_manager \<times> go_error option) outcome" where
  "performRebalance plan_ids task_ids ks nodeMetrics m =
     (case GeneratePlan plan_ids (rm_strategy m) ks nodeMetrics of
        Panic why \<Rightarrow> Panic why
      | Return (Inl e) \<Rightarrow> Return (m, Some e)
      | Return (Inr plans) \<Rightarrow>
          if plans = [] then Return (m, None)
          else Return (m\<lparr>rm_migrator := fst (SubmitTasks task_ids plans (rm_migrator m))\<rparr>, None))"

definition evaluateAndRebalance ::
  "gotime \<Rightarrow> gotime \<Rightarrow> (nat \<Rightarrow> string) \<Rightarrow> (nat \<Rightarrow> string) \<Rightarrow> NodeID list \<Rightarrow> rb_manager \<Rightarrow> rb_manager outcome" where
  "evaluateAndRebalance now_check now_done plan_ids task_ids ks m =
     (if rm_isRebalancing m then Return m
      else if \<not> IsZero (rm_lastRebalance m) \<and>
              now_check - rm_lastRebalance m < lb_MinMigrationInterval (rm_cfg m)
      then Return m
      else
        let m = m\<lparr>rm_isRebalancing := True\<rparr>;
            reset = (\<lambda>m. Return (m\<lparr>rm_isRebalancing := False\<rparr>));
            nodeMetrics = GetAllMetrics (rm_metricCollector m)
        in if length (values_of ks nodeMetrics) < 2 then reset m
           else if \<not> fst (Evaluate (rm_strategy m) ks nodeMetrics) then reset m
           else (case performRebalance plan_ids task_ids ks nodeMetrics m of
                   Panic why \<Rightarrow> Panic why
                 | Return (m, Some e) \<Rightarrow> reset m
                 | Return (m, None) \<Rightarrow> reset (m\<lparr>rm_lastRebalance := now_done\<rparr>)))"

text \<open>One round of \<^verbatim>\<open>runEvaluationLoop\<close>: a tick, or a manual trigger if there is one.\<close>

definition evaluation_round ::
  "bool \<Rightarrow> gotime \<Rightarrow> gotime \<Rightarrow> (nat \<Rightarrow> string) \<Rightarrow> (nat \<Rightarrow> string) \<Rightarrow> NodeID list \<Rightarrow> rb_manager \<Rightarrow>
   rb_manager outcome option" where
  "evaluation_round tick now1 now2 plan_ids task_ids ks m =
     (if tick then Some (evaluateAndRebalance now1 now2 plan_ids task_ids ks m)
      else case rm_triggerCh m of
             [] \<Rightarrow> None
           | _ # rest \<Rightarrow> Some (evaluateAndRebalance now1 now2 plan_ids task_ids ks (m\<lparr>rm_triggerCh := rest\<rparr>)))"

section \<open>The interface of a strategy\<close>

text \<open>What the manager relies on: answers do not depend on the order of the map, and the plans are good.\<close>

locale balance_strategy =
  fixes evaluate :: "NodeID list \<Rightarrow> node_metrics \<Rightarrow> bool \<times> float64"
    and generate :: "(nat \<Rightarrow> string) \<Rightarrow> NodeID list \<Rightarrow> node_metrics \<Rightarrow> (go_error + MigrationPlan list) outcome"
  assumes evaluate_order: "enumerates ks m \<Longrightarrow> enumerates ks' m \<Longrightarrow> evaluate ks m = evaluate ks' m"
    and generate_good: "enumerates ks m \<Longrightarrow> generate ids ks m = Return (Inr ps) \<Longrightarrow>
      good_plans m ps \<and> length ps \<le> card (dom m) div 2"
begin

text \<open>Every task made from the plans of the strategy moves shards between two different known nodes.\<close>

lemma submitted_tasks_good:
  assumes "enumerates ks m" "generate ids ks m = Return (Inr ps)"
    and "SubmitTasks tids ps mig = (mig', out)" "inj_on tids {..<length ps}" "k \<in> set out"
  shows "\<exists>t. GetTaskStatus mig' k = Some t \<and> mp_SourceNodeID (mt_Plan t) \<in> dom m \<and>
    mp_TargetNodeID (mt_Plan t) \<in> dom m \<and> mp_SourceNodeID (mt_Plan t) \<noteq> mp_TargetNodeID (mt_Plan t)"
proof -
  from SubmitTasks_keep(1) [OF assms(3)] assms(5) obtain j where j: "j < length ps" "k = tids j" by auto
  from SubmitTasks_task [OF assms(3,4) j(1)] obtain t where
    t: "GetTaskStatus mig' k = Some t" "mt_Plan t = ps ! j"
    by (auto simp: GetTaskStatus_def j(2) new_task_def split: if_splits)
  have good: "distinct (plan_nodes ps)" "set (plan_nodes ps) \<subseteq> dom m"
    using generate_good [OF assms(1,2)] by (auto simp: good_plans_def)
  obtain as bs where split: "ps = as @ ps ! j # bs" using id_take_nth_drop [OF j(1)] by blast
  have "mp_SourceNodeID (ps ! j) \<noteq> mp_TargetNodeID (ps ! j)"
    using good(1) by (subst (asm) split) (simp add: plan_nodes_def)
  moreover have "mp_SourceNodeID (ps ! j) \<in> set (plan_nodes ps)" "mp_TargetNodeID (ps ! j) \<in> set (plan_nodes ps)"
    using nth_mem [OF j(1)] by (auto simp: plan_nodes_def)
  ultimately show ?thesis using t good(2) by auto
qed

end

interpretation strat: balance_strategy "Evaluate s" "\<lambda>ids. GeneratePlan ids s" for s
  by unfold_locales (use Evaluate_order GeneratePlan_good in blast)+

section \<open>Lemmas\<close>

lemma GetAllMetrics_id [simp]: "GetAllMetrics c = c"
  by (simp add: GetAllMetrics_def map_entries_def option.map_ident)

lemma evaluate_cases:
  assumes "evaluateAndRebalance t1 t2 pids tids ks m = Return m'"
  obtains (idle) "m' = m \<or> m' = m\<lparr>rm_isRebalancing := False\<rparr>"
  | (ran) plans where "\<not> rm_isRebalancing m"
      "rm_lastRebalance m = 0 \<or> t1 - rm_lastRebalance m \<ge> lb_MinMigrationInterval (rm_cfg m)"
      "fst (Evaluate (rm_strategy m) ks (rm_metricCollector m))"
      "GeneratePlan pids (rm_strategy m) ks (rm_metricCollector m) = Return (Inr plans)"
      "m' = m\<lparr>rm_migrator := fst (SubmitTasks tids plans (rm_migrator m)), rm_lastRebalance := t2,
              rm_isRebalancing := False\<rparr>"
proof (cases "rm_isRebalancing m \<or> (rm_lastRebalance m \<noteq> 0 \<and> t1 - rm_lastRebalance m < lb_MinMigrationInterval (rm_cfg m)) \<or>
    length (values_of ks (rm_metricCollector m)) < 2 \<or> \<not> fst (Evaluate (rm_strategy m) ks (rm_metricCollector m))")
  case True
  with assms show ?thesis by (intro idle) (auto simp: evaluateAndRebalance_def Let_def split: if_splits)
next
  case False
  with assms show ?thesis
    by (cases "GeneratePlan pids (rm_strategy m) ks (rm_metricCollector m)")
      (auto simp: evaluateAndRebalance_def performRebalance_def Let_def
        split: if_splits sum.splits intro: idle ran)
qed

text \<open>Calls in any order; a panicking evaluation ends the program.\<close>

inductive rb_step :: "rb_manager \<Rightarrow> rb_manager \<Rightarrow> bool" where
  rb_update: "rb_step m (Rebalance_UpdateNodeMetrics n v m)"
| rb_trigger: "rb_step m (TriggerRebalance m)"
| rb_round:
    "enumerates ks (rm_metricCollector m) \<Longrightarrow>
     evaluation_round tick t1 t2 pids tids ks m = Some (Return m') \<Longrightarrow> rb_step m m'"

inductive rb_reachable :: "LoadBalancerConfig \<Rightarrow> rb_manager \<Rightarrow> bool" for cfg where
  rb_new: "Rebalance_NewManager (Some cfg) = Return m \<Longrightarrow> rb_reachable cfg m"
| rb_next: "rb_reachable cfg m \<Longrightarrow> rb_step m m' \<Longrightarrow> rb_reachable cfg m'"

definition rb_inv :: "rb_manager \<Rightarrow> bool" where
  "rb_inv m \<longleftrightarrow> rm_nodeMetrics m = Map.empty \<and> \<not> rm_isRebalancing m \<and> length (rm_triggerCh m) \<le> 1 \<and>
     lb_EvaluationInterval (rm_cfg m) > 0"

lemma evaluate_inv:
  assumes "evaluateAndRebalance t1 t2 pids tids ks m = Return m'" "rb_inv m"
  shows "rb_inv m'"
  using assms(1) by (cases rule: evaluate_cases) (use assms(2) in \<open>auto simp: rb_inv_def\<close>)

lemma rb_step_inv: "rb_step m m' \<Longrightarrow> rb_inv m \<Longrightarrow> rb_inv m'"
proof (induction rule: rb_step.induct)
  case (rb_update m n v)
  then show ?case by (simp add: rb_inv_def Rebalance_UpdateNodeMetrics_def)
next
  case (rb_trigger m)
  then show ?case by (auto simp: rb_inv_def TriggerRebalance_def try_send_def)
next
  case (rb_round ks m tick t1 t2 pids tids m')
  show ?case
  proof (cases tick)
    case True
    with rb_round show ?thesis using evaluate_inv by (simp add: evaluation_round_def)
  next
    case False
    with rb_round.hyps(2) obtain u rest where r: "rm_triggerCh m = u # rest"
      "evaluateAndRebalance t1 t2 pids tids ks (m\<lparr>rm_triggerCh := rest\<rparr>) = Return m'"
      by (auto simp: evaluation_round_def split: list.splits)
    have "rb_inv (m\<lparr>rm_triggerCh := rest\<rparr>)" using rb_round.prems r(1) by (simp add: rb_inv_def)
    with evaluate_inv [OF r(2)] show ?thesis by blast
  qed
qed

lemma rb_reachable_inv: "rb_reachable cfg m \<Longrightarrow> rb_inv m"
proof (induction rule: rb_reachable.induct)
  case (rb_new m)
  then show ?case by (auto simp: Rebalance_NewManager_def rb_inv_def Let_def split: if_splits)
next
  case (rb_next m m')
  then show ?case using rb_step_inv by blast
qed

section \<open>Properties\<close>

text \<open>
  Rebalancing is spaced out and complete: an evaluation that changes the migrator was allowed by the
  strategy, came no sooner after the last rebalancing than the configured interval, records the
  time, leaves the metrics and the strategy alone and the manager idle, and every task it submits
  moves shards between two different nodes whose metrics are known.
\<close>

theorem rebalance_spacing:
  assumes "evaluateAndRebalance t1 t2 pids tids ks m = Return m'" "enumerates ks (rm_metricCollector m)"
    and "inj tids" "rm_migrator m' \<noteq> rm_migrator m"
  shows "fst (Evaluate (rm_strategy m) ks (rm_metricCollector m)) \<and>
    (rm_lastRebalance m = 0 \<or> t1 - rm_lastRebalance m \<ge> lb_MinMigrationInterval (rm_cfg m)) \<and>
    rm_lastRebalance m' = t2 \<and> \<not> rm_isRebalancing m' \<and>
    rm_metricCollector m' = rm_metricCollector m \<and> rm_strategy m' = rm_strategy m \<and>
    (\<exists>ids. rm_migrator m' = fst (SubmitTasks tids (map (\<lambda>k. mt_Plan (the (GetTaskStatus (rm_migrator m') k))) ids) (rm_migrator m)) \<and>
       (\<forall>k\<in>set ids. \<exists>t. GetTaskStatus (rm_migrator m') k = Some t \<and>
          mp_SourceNodeID (mt_Plan t) \<in> dom (rm_metricCollector m) \<and>
          mp_TargetNodeID (mt_Plan t) \<in> dom (rm_metricCollector m) \<and>
          mp_SourceNodeID (mt_Plan t) \<noteq> mp_TargetNodeID (mt_Plan t)))"
  using assms(1)
proof (cases rule: evaluate_cases)
  case idle
  with assms(4) show ?thesis by auto
next
  case (ran plans)
  obtain mig ids where sub: "SubmitTasks tids plans (rm_migrator m) = (mig, ids)" by fastforce
  have mig: "rm_migrator m' = mig" using ran(5) sub by simp
  have inj: "inj_on tids {..<length plans}" using assms(3) by (rule inj_on_subset) simp
  have ids: "ids = map tids [0..<length plans]" by (rule SubmitTasks_keep(1) [OF sub])
  have plan: "mt_Plan (the (GetTaskStatus mig (tids j))) = plans ! j" if "j < length plans" for j
    using SubmitTasks_task [OF sub inj that] by (simp add: GetTaskStatus_def new_task_def)
  have "map (\<lambda>k. mt_Plan (the (GetTaskStatus mig k))) ids = plans"
    by (rule nth_equalityI) (simp_all add: ids plan)
  moreover have "\<exists>t. GetTaskStatus mig k = Some t \<and> mp_SourceNodeID (mt_Plan t) \<in> dom (rm_metricCollector m) \<and>
      mp_TargetNodeID (mt_Plan t) \<in> dom (rm_metricCollector m) \<and> mp_SourceNodeID (mt_Plan t) \<noteq> mp_TargetNodeID (mt_Plan t)"
    if "k \<in> set ids" for k
    by (rule strat.submitted_tasks_good [OF assms(2) ran(4) sub inj that])
  ultimately show ?thesis using ran(1-3,5) mig sub by (intro conjI exI [of _ ids]) auto
qed

text \<open>
  (C34) In every state that calls of the manager lead to, it is idle between evaluations, at most one
  manual trigger is waiting, the evaluation interval is positive, and reading the metrics of a node
  returns nothing although they were updated: the map that is read is never written.
\<close>

theorem rebalance_manager_invariant:
  assumes "rb_reachable cfg m"
  shows "\<not> IsRebalancing m \<and> length (rm_triggerCh m) \<le> 1 \<and> lb_EvaluationInterval (rm_cfg m) > 0 \<and>
    Rebalance_GetNodeMetrics (Rebalance_UpdateNodeMetrics n v m) n = None"
  using rb_reachable_inv [OF assms]
  by (simp add: rb_inv_def IsRebalancing_def Rebalance_GetNodeMetrics_def Rebalance_UpdateNodeMetrics_def)

definition rb_demo :: "gotime \<Rightarrow> rb_manager" where
  "rb_demo t =
     \<lparr>rm_cfg = default_lb_config, rm_metricCollector = demo_cluster,
      rm_strategy = NewAccessFrequencyStrategy 20, rm_migrator = NewMigrator 2, rm_lastRebalance = t,
      rm_isRebalancing = False, rm_triggerCh = [], rm_nodeMetrics = Map.empty\<rparr>"

theorem rebalance_manager_invariant_witness:
  "\<exists>m. Rebalance_NewManager (Some default_lb_config) = Return m \<and>
     Rebalance_GetNodeMetrics (Rebalance_UpdateNodeMetrics ''a'' (demo_metrics ''a'' 1 2 3 4) m) ''a'' = None"
proof -
  obtain m where m: "Rebalance_NewManager (Some default_lb_config) = Return m"
    by (simp add: Rebalance_NewManager_def Let_def)
  with rebalance_manager_invariant [OF rb_new [OF m]] show ?thesis by blast
qed

text \<open>
  A manager cannot be made with the default configuration: a nil configuration, for which the code
  has defaults, is read before it is tested, and crashes.
\<close>

theorem nil_config_panics:
  "(case Rebalance_NewManager cfg of Panic why \<Rightarrow> cfg = None | Return m \<Rightarrow> \<exists>c. cfg = Some c \<and>
      lb_ImbalanceThreshold (rm_cfg m) = lb_ImbalanceThreshold c)"
  by (cases cfg) (auto simp: Rebalance_NewManager_def Let_def)

lemma rb_demo_evaluates: "fst (Evaluate (NewAccessFrequencyStrategy 20) [''a'', ''b''] demo_cluster)"
proof -
  have "sqrt (1225 :: real) = 35" by (rule real_sqrt_unique) simp_all
  then show ?thesis
    by (simp add: NewAccessFrequencyStrategy_def NewBaseStrategy_def AccessFrequency_Evaluate_def variation_def
        demo_cluster_def demo_metrics_def Let_def)
qed

theorem rebalance_spacing_witness:
  "\<exists>m'. evaluateAndRebalance (40 * Minute) (41 * Minute) (\<lambda>i. ''p'') dec [''a'', ''b''] (rb_demo (5 * Minute)) = Return m' \<and>
     rm_lastRebalance m' = 41 * Minute \<and> \<not> rm_isRebalancing m'"
proof -
  let ?m = "rb_demo (5 * Minute)"
  let ?ev = "evaluateAndRebalance (40 * Minute) (41 * Minute) (\<lambda>i. ''p'') dec [''a'', ''b''] ?m"
  obtain p where p: "AccessFrequency_GeneratePlan (\<lambda>i. ''p'') [''a'', ''b''] demo_cluster = Inr [p]"
    by (simp add: AccessFrequency_GeneratePlan_def sorted_load_def map_filter_simps demo_cluster_def
        demo_metrics_def pair_loop_def Let_def)
  have gen: "GeneratePlan (\<lambda>i. ''p'') (NewAccessFrequencyStrategy 20) [''a'', ''b''] demo_cluster = Return (Inr [p])"
    using p by (simp add: NewAccessFrequencyStrategy_def)
  have len: "length (values_of [''a'', ''b''] demo_cluster) = 2" by (simp add: demo_cluster_def)
  obtain m' where m': "?ev = Return m'" "rm_migrator m' = submit_one (dec 0) p (NewMigrator 2)"
    using gen rb_demo_evaluates len
    by (simp add: evaluateAndRebalance_def performRebalance_def rb_demo_def default_lb_config_def durations Let_def)
  have "mg_next (rm_migrator m') \<noteq> mg_next (rm_migrator ?m)"
    by (simp add: m'(2) submit_one_facts rb_demo_def)
  then have "rm_migrator m' \<noteq> rm_migrator ?m" by auto
  moreover have "inj dec" by (rule injI) simp
  moreover have "enumerates [''a'', ''b''] (rm_metricCollector ?m)"
    using demo_cluster_enum(1) by (simp add: rb_demo_def)
  ultimately show ?thesis using rebalance_spacing [OF m'(1)] m'(1) by blast
qed

end
