(* ===== verification/RaftStorage.thy ===== *)
theory RaftStorage
  imports "HOL-Library.Word" Errors
begin

text \<open>
  The consensus layer of the program: \<^verbatim>\<open>common/consensus/raft/node.go\<close> and
  \<^verbatim>\<open>config.go\<close>. The consensus algorithm itself is the etcd/raft library; what the program
  adds is the log storage the library reads, the handling of the \<^verbatim>\<open>Ready\<close> values the library
  produces, and the flags and channels around it.

  Indexes and terms are \<^verbatim>\<open>uint64\<close>, here \<open>64 word\<close>, and wrap as in the source. Of the
  library's types the model has the fields the source uses; the configuration state is a type
  parameter, the library's tests for an empty hard state and an empty snapshot are the arguments
  \<open>isEmptyHardState\<close> and \<open>isEmptySnap\<close>, and decoding a configuration change and handing it to
  the library is the argument \<open>apply_conf\<close>, from the entry to the resulting configuration (None
  when the entry does not decode). A send to \<^verbatim>\<open>applyCh\<close> waits for room, so the messages of one
  \<^verbatim>\<open>Ready\<close> are a list in sending order.

  The lemmas show that the stored log stays contiguous and above the snapshot, what each read
  returns on such a log, and where the storage departs from the documentation of the
  \<^verbatim>\<open>raft.Storage\<close> interface: the term of the entry before the first one.
\<close>

section \<open>Types\<close>

type_synonym bytes = string
type_synonym uint64 = "64 word"

datatype EntryType = EntryNormal | EntryConfChange | EntryConfChangeV2

record Entry =
  en_Term :: uint64
  en_Index :: uint64
  en_Type :: EntryType
  en_Data :: bytes

record HardState =
  hs_Term :: uint64
  hs_Vote :: uint64
  hs_Commit :: uint64

record 'c Snapshot =
  sn_Data :: bytes
  sn_ConfState :: 'c
  sn_Index :: uint64
  sn_Term :: uint64

record 'c MemoryStorage =
  st_hardState :: HardState
  st_confState :: 'c
  st_entries :: "Entry list"
  st_snapshot :: "'c Snapshot"

record ApplyMsg =
  am_CommandValid :: bool
  am_Command :: bytes
  am_CommandIndex :: uint64
  am_CommandTerm :: uint64
  am_SnapshotValid :: bool
  am_Snapshot :: bytes
  am_SnapshotTerm :: uint64
  am_SnapshotIndex :: uint64

text \<open>A \<^verbatim>\<open>Ready\<close>; the soft state says whether the node is leader, None when unchanged.\<close>

record ('c, 'msg) Ready =
  rd_HardState :: HardState
  rd_Entries :: "Entry list"
  rd_Snapshot :: "'c Snapshot"
  rd_Messages :: "'msg list"
  rd_CommittedEntries :: "Entry list"
  rd_SoftState :: "bool option"

text \<open>The node: the leader flag, the storage, and the leader channel, which is never made (None is nil).\<close>

record 'c RaftNode =
  rn_isLeader :: bool
  rn_raftStorage :: "'c MemoryStorage"
  rn_leaderCh :: "bool list option"
  rn_stopped :: bool

datatype raft_error = ErrCompacted | ErrUnavailable | ErrSnapshotTemporarilyUnavailable

section \<open>Configuration\<close>

record raft_Config =
  rc_NodeID :: uint64
  rc_Peers :: "uint64 list"
  rc_HeartbeatTick :: int
  rc_ElectionTick :: int
  rc_StorageDir :: string
  rc_SnapshotChunkSize :: uint64
  rc_ApplyBufferSize :: int
  rc_SendBufferSize :: int

definition DefaultConfig :: raft_Config where
  "DefaultConfig =
     \<lparr>rc_NodeID = 1, rc_Peers = [1], rc_HeartbeatTick = 1, rc_ElectionTick = 10,
      rc_StorageDir = ''./raft-data'', rc_SnapshotChunkSize = 1024 * 1024, rc_ApplyBufferSize = 1024,
      rc_SendBufferSize = 1024\<rparr>"

text \<open>\<^verbatim>\<open>ToEtcdConfig\<close>: identifier, election and heartbeat ticks, message size and in-flight limits.\<close>

record etcd_Config =
  ec_ID :: uint64
  ec_ElectionTick :: int
  ec_HeartbeatTick :: int
  ec_MaxSizePerMsg :: uint64
  ec_MaxInflightMsgs :: int

definition ToEtcdConfig :: "raft_Config \<Rightarrow> etcd_Config" where
  "ToEtcdConfig c =
     \<lparr>ec_ID = rc_NodeID c, ec_ElectionTick = rc_ElectionTick c, ec_HeartbeatTick = rc_HeartbeatTick c,
      ec_MaxSizePerMsg = 1024 * 1024, ec_MaxInflightMsgs = 256\<rparr>"

section \<open>Storage\<close>

definition NewMemoryStorage :: "'c \<Rightarrow> 'c MemoryStorage" where
  "NewMemoryStorage empty_conf =
     \<lparr>st_hardState = \<lparr>hs_Term = 0, hs_Vote = 0, hs_Commit = 0\<rparr>, st_confState = empty_conf, st_entries = [],
      st_snapshot = \<lparr>sn_Data = [], sn_ConfState = empty_conf, sn_Index = 0, sn_Term = 0\<rparr>\<rparr>"

text \<open>The loop that cuts the result when its data exceed the limit, at index i with the sum so far.\<close>

fun limit_size :: "uint64 \<Rightarrow> nat \<Rightarrow> uint64 \<Rightarrow> Entry list \<Rightarrow> Entry list" where
  "limit_size maxSize i acc [] = []"
| "limit_size maxSize i acc (e # es) =
     (let acc = acc + of_nat (length (en_Data e))
      in if acc > maxSize \<and> i > 0 then [] else e # limit_size maxSize (Suc i) acc es)"

definition Entries ::
  "'c MemoryStorage \<Rightarrow> uint64 \<Rightarrow> uint64 \<Rightarrow> uint64 \<Rightarrow> (raft_error + Entry list) outcome" where
  "Entries m lo hi maxSize =
     (if st_entries m = [] then Return (Inl ErrUnavailable)
      else
        let offset = en_Index (hd (st_entries m))
        in if lo < offset then Return (Inl ErrCompacted)
           else
             let end_idx = offset + of_nat (length (st_entries m));
                 hi = (if hi > end_idx then end_idx else hi);
                 loIdx = lo - offset; hiIdx = hi - offset
             in if hiIdx < loIdx then Panic ''makeslice: len out of range''
                else if unat hiIdx > length (st_entries m) then Panic ''slice bounds out of range''
                else Return (Inr (limit_size maxSize 0 0
                       (drop (unat loIdx) (take (unat hiIdx) (st_entries m))))))"

definition FirstIndex :: "'c MemoryStorage \<Rightarrow> uint64" where
  "FirstIndex m =
     (if st_entries m = [] then sn_Index (st_snapshot m) + 1 else en_Index (hd (st_entries m)))"

definition LastIndex :: "'c MemoryStorage \<Rightarrow> uint64" where
  "LastIndex m =
     (if st_entries m = [] then sn_Index (st_snapshot m) else en_Index (last (st_entries m)))"

definition InitialState :: "'c MemoryStorage \<Rightarrow> HardState \<times> 'c" where
  "InitialState m = (st_hardState m, st_confState m)"

definition storage_Snapshot :: "'c MemoryStorage \<Rightarrow> raft_error + 'c Snapshot" where
  "storage_Snapshot m =
     (if sn_Index (st_snapshot m) = 0 then Inl ErrSnapshotTemporarilyUnavailable
      else Inr (st_snapshot m))"

definition Term :: "'c MemoryStorage \<Rightarrow> uint64 \<Rightarrow> (raft_error + uint64) outcome" where
  "Term m i =
     (if i < sn_Index (st_snapshot m) then Return (Inl ErrCompacted)
      else if st_entries m = [] then
        (if i = sn_Index (st_snapshot m) then Return (Inr (sn_Term (st_snapshot m)))
         else Return (Inl ErrUnavailable))
      else
        let offset = en_Index (hd (st_entries m))
        in if i < offset then Return (Inl ErrCompacted)
           else if i > en_Index (last (st_entries m)) then Return (Inl ErrUnavailable)
           else if unat (i - offset) < length (st_entries m)
           then Return (Inr (en_Term (st_entries m ! unat (i - offset))))
           else Panic ''index out of range'')"

section \<open>Handling a Ready\<close>

text \<open>Step 1, the entries: None is the panic on a gap.\<close>

definition append_entries :: "Entry list \<Rightarrow> Entry list \<Rightarrow> Entry list option" where
  "append_entries new old =
     (if new = [] then Some old
      else if old = [] then Some new
      else
        let firstNewIdx = en_Index (hd new); firstStoreIdx = en_Index (hd old);
            offset = sint (firstNewIdx - firstStoreIdx)
        in if offset < 0 then Some new
           else if offset < int (length old) then Some (take (nat offset) old @ new)
           else if offset = int (length old) then Some (old @ new)
           else None)"

text \<open>Step 2, the snapshot: later entries are kept, one message is sent.\<close>

definition apply_snapshot ::
  "('c Snapshot \<Rightarrow> bool) \<Rightarrow> 'c Snapshot \<Rightarrow> 'c MemoryStorage \<Rightarrow> 'c MemoryStorage \<times> ApplyMsg list" where
  "apply_snapshot isEmptySnap snap st =
     (if isEmptySnap snap then (st, [])
      else
        (st\<lparr>st_snapshot := snap, st_entries := filter (\<lambda>e. en_Index e > sn_Index snap) (st_entries st)\<rparr>,
         [\<lparr>am_CommandValid = False, am_Command = [], am_CommandIndex = 0, am_CommandTerm = 0,
           am_SnapshotValid = True, am_Snapshot = sn_Data snap, am_SnapshotTerm = sn_Term snap,
           am_SnapshotIndex = sn_Index snap\<rparr>]))"

definition command_msg :: "Entry \<Rightarrow> ApplyMsg" where
  "command_msg e =
     \<lparr>am_CommandValid = True, am_Command = en_Data e, am_CommandIndex = en_Index e,
      am_CommandTerm = en_Term e, am_SnapshotValid = False, am_Snapshot = [], am_SnapshotTerm = 0,
      am_SnapshotIndex = 0\<rparr>"

text \<open>Step 4, the committed entries.\<close>

fun apply_committed ::
  "(Entry \<Rightarrow> 'c option) \<Rightarrow> Entry list \<Rightarrow> 'c MemoryStorage \<Rightarrow> 'c MemoryStorage \<times> ApplyMsg list" where
  "apply_committed apply_conf [] st = (st, [])"
| "apply_committed apply_conf (e # es) st =
     (if en_Type e = EntryNormal \<and> en_Data e \<noteq> [] then
        (let (st', msgs) = apply_committed apply_conf es st in (st', command_msg e # msgs))
      else if en_Type e = EntryConfChange then
        (case apply_conf e of
           None \<Rightarrow> apply_committed apply_conf es st
         | Some conf \<Rightarrow>
             let (st', msgs) = apply_committed apply_conf es (st\<lparr>st_confState := conf\<rparr>)
             in (st', command_msg e # msgs))
      else apply_committed apply_conf es st)"

text \<open>All of \<^verbatim>\<open>handleReady\<close>: the node, the messages for \<^verbatim>\<open>applyCh\<close>, the messages for the
  transport.\<close>

definition handleReady ::
  "(HardState \<Rightarrow> bool) \<Rightarrow> ('c Snapshot \<Rightarrow> bool) \<Rightarrow> (Entry \<Rightarrow> 'c option) \<Rightarrow> ('c, 'msg) Ready \<Rightarrow> 'c RaftNode \<Rightarrow>
     ('c RaftNode \<times> ApplyMsg list \<times> 'msg list) outcome" where
  "handleReady isEmptyHardState isEmptySnap apply_conf rd rn =
     (let st = rn_raftStorage rn;
          st = (if \<not> isEmptyHardState (rd_HardState rd) then st\<lparr>st_hardState := rd_HardState rd\<rparr> else st)
      in case append_entries (rd_Entries rd) (st_entries st) of
           None \<Rightarrow> Panic ''raft log has gap''
         | Some es \<Rightarrow>
             let (st, msgs1) = apply_snapshot isEmptySnap (rd_Snapshot rd) (st\<lparr>st_entries := es\<rparr>);
                 (st, msgs2) = apply_committed apply_conf (rd_CommittedEntries rd) st;
                 leader = (case rd_SoftState rd of None \<Rightarrow> rn_isLeader rn | Some l \<Rightarrow> l)
             in Return (rn\<lparr>rn_raftStorage := st, rn_isLeader := leader\<rparr>, msgs1 @ msgs2, rd_Messages rd))"

definition NewRaftNode :: "'c \<Rightarrow> 'c RaftNode" where
  "NewRaftNode empty_conf =
     \<lparr>rn_isLeader = False, rn_raftStorage = NewMemoryStorage empty_conf, rn_leaderCh = None, rn_stopped = False\<rparr>"

definition IsLeader :: "'c RaftNode \<Rightarrow> bool" where
  "IsLeader rn \<longleftrightarrow> rn_isLeader rn"

definition LeaderCh :: "'c RaftNode \<Rightarrow> bool list option" where
  "LeaderCh rn = rn_leaderCh rn"

text \<open>
  \<^verbatim>\<open>Propose\<close>: the send to \<^verbatim>\<open>proposeC\<close> or the stop signal, whichever is ready; \<open>choice\<close> is
  what the \<^verbatim>\<open>select\<close> picks when both are. None means that the call waits.
\<close>

definition raft_Propose :: "bool \<Rightarrow> nat \<Rightarrow> bytes \<Rightarrow> bytes list \<Rightarrow> 'c RaftNode \<Rightarrow> (bytes list \<times> bool) option" where
  "raft_Propose choice cap command proposeC rn =
     (let room = length proposeC < cap
      in if room \<and> (choice \<or> \<not> rn_stopped rn) then Some (proposeC @ [command], True)
         else if rn_stopped rn then Some (proposeC, False)
         else None)"

definition raft_Stop :: "'c RaftNode \<Rightarrow> 'c RaftNode" where
  "raft_Stop rn = rn\<lparr>rn_stopped := True\<rparr>"

section \<open>Contiguous logs\<close>

definition contiguous :: "Entry list \<Rightarrow> bool" where
  "contiguous es \<longleftrightarrow>
     (\<forall>i < length es. unat (en_Index (es ! i)) = unat (en_Index (hd es)) + i)"

definition wf_log :: "'c MemoryStorage \<Rightarrow> bool" where
  "wf_log m \<longleftrightarrow> contiguous (st_entries m) \<and>
     (st_entries m \<noteq> [] \<longrightarrow> unat (sn_Index (st_snapshot m)) < unat (en_Index (hd (st_entries m))))"

lemma contiguous_Nil [simp]: "contiguous []"
  by (simp add: contiguous_def)

lemma contiguousD: "contiguous es \<Longrightarrow> i < length es \<Longrightarrow> unat (en_Index (es ! i)) = unat (en_Index (hd es)) + i"
  by (simp add: contiguous_def)

lemma contiguous_last:
  "contiguous es \<Longrightarrow> es \<noteq> [] \<Longrightarrow> unat (en_Index (last es)) = unat (en_Index (hd es)) + length es - 1"
  using contiguousD [of es "length es - 1"] by (cases es rule: rev_cases) (auto simp: last_conv_nth)

lemma contiguous_take: "contiguous es \<Longrightarrow> contiguous (take n es)"
  by (cases es; cases n) (auto simp: contiguous_def nth_Cons split: nat.splits)

lemma contiguous_drop: "contiguous es \<Longrightarrow> contiguous (drop n es)"
proof (cases "n < length es")
  case True
  assume c: "contiguous es"
  have "unat (en_Index (drop n es ! i)) = unat (en_Index (hd (drop n es))) + i" if "i < length (drop n es)" for i
    using that True contiguousD [OF c, of "n + i"] contiguousD [OF c, of n]
    by (simp add: hd_drop_conv_nth)
  then show ?thesis by (simp add: contiguous_def)
qed simp

lemma contiguous_append:
  assumes "contiguous xs" "contiguous ys" "ys \<noteq> []" "xs \<noteq> []"
    and "unat (en_Index (hd ys)) = unat (en_Index (hd xs)) + length xs"
  shows "contiguous (xs @ ys)"
  using assms contiguousD [OF assms(1)] contiguousD [OF assms(2)]
  by (auto simp: contiguous_def nth_append)

text \<open>The entry at an index, as a partial map: the abstract log.\<close>

definition log_at :: "Entry list \<Rightarrow> nat \<Rightarrow> Entry option" where
  "log_at es i =
     (if es \<noteq> [] \<and> unat (en_Index (hd es)) \<le> i \<and> i < unat (en_Index (hd es)) + length es
      then Some (es ! (i - unat (en_Index (hd es)))) else None)"

lemma log_at_Nil [simp]: "log_at [] i = None"
  by (simp add: log_at_def)

lemma log_at_index: "contiguous es \<Longrightarrow> log_at es i = Some e \<Longrightarrow> unat (en_Index e) = i"
  using contiguousD [of es "i - unat (en_Index (hd es))"] by (auto simp: log_at_def split: if_splits)

lemma log_at_append:
  assumes "xs \<noteq> []" "ys \<noteq> []" "unat (en_Index (hd ys)) = unat (en_Index (hd xs)) + length xs"
  shows "log_at (xs @ ys) i = (if i < unat (en_Index (hd ys)) then log_at xs i else log_at ys i)"
  using assms by (auto simp: log_at_def nth_append)

lemma log_at_take:
  "log_at (take n es) i = (if i < unat (en_Index (hd es)) + n then log_at es i else None)"
  by (cases "n = 0"; cases es) (auto simp: log_at_def)

lemma log_at_drop:
  assumes "contiguous es"
  shows "log_at (drop n es) i = (if unat (en_Index (hd es)) + n \<le> i then log_at es i else None)"
proof (cases "n < length es")
  case True
  have "unat (en_Index (hd (drop n es))) = unat (en_Index (hd es)) + n"
    using contiguousD [OF assms True] True by (simp add: hd_drop_conv_nth)
  with True show ?thesis by (auto simp: log_at_def)
next
  case False
  then show ?thesis by (auto simp: log_at_def)
qed

lemma filter_eq_drop:
  "(\<And>i. i < length xs \<Longrightarrow> P (xs ! i) \<longleftrightarrow> k \<le> i) \<Longrightarrow> filter P xs = drop k xs"
proof (induction xs arbitrary: k)
  case Nil
  then show ?case by simp
next
  case (Cons x xs)
  show ?case
  proof (cases k)
    case 0
    then have "P (xs ! i)" if "i < length xs" for i using Cons.prems [of "Suc i"] that by simp
    then have "filter P xs = drop 0 xs" by (intro Cons.IH) simp
    with 0 Cons.prems [of 0] show ?thesis by simp
  next
    case (Suc k')
    have "filter P xs = drop k' xs"
      by (rule Cons.IH) (use Cons.prems [of "Suc _"] Suc in simp)
    with Suc Cons.prems [of 0] show ?thesis by simp
  qed
qed

text \<open>What a snapshot leaves of a contiguous log.\<close>

lemma filter_after_snapshot:
  assumes "contiguous es"
  shows "\<exists>k. filter (\<lambda>e. en_Index e > s) es = drop k es"
    and "log_at (filter (\<lambda>e. en_Index e > s) es) i = (if unat s < i then log_at es i else None)"
proof -
  let ?f = "unat (en_Index (hd es))"
  let ?k = "unat s + 1 - ?f"
  have d: "filter (\<lambda>e. en_Index e > s) es = drop ?k es"
    by (rule filter_eq_drop) (use contiguousD [OF assms] in \<open>auto simp: word_less_nat_alt\<close>)
  then show "\<exists>k. filter (\<lambda>e. en_Index e > s) es = drop k es" by blast
  have "log_at es i = None" if "i < ?f" using that by (simp add: log_at_def)
  then show "log_at (filter (\<lambda>e. en_Index e > s) es) i = (if unat s < i then log_at es i else None)"
    unfolding d log_at_drop [OF assms] by auto
qed

text \<open>Indexes below \<open>2 ^ 63\<close>, for which the conversion of a difference to \<^verbatim>\<open>int\<close> is exact.\<close>

definition small :: "uint64 \<Rightarrow> bool" where
  "small i \<longleftrightarrow> unat i < 2 ^ 63"

lemma sint_diff_small:
  assumes "small a" "small b"
  shows "sint (a - b) = int (unat a) - int (unat b)"
proof -
  have "int (unat a) < int (2 ^ 63)" "int (unat b) < int (2 ^ 63)"
    using assms by (simp_all only: small_def of_nat_less_iff)
  then have lt: "uint a < 2 ^ 63" "uint b < 2 ^ 63" by simp_all
  have self: "signed_take_bit 63 (uint w) = uint w" if "uint w < 2 ^ 63" for w :: uint64
    by (rule signed_take_bit_int_eq_self) (use that uint_ge_0 [of w] in linarith)+
  have len: "LENGTH(64) - Suc 0 = (63::nat)" "LENGTH(64) - 1 = (63::nat)" by simp_all
  have sa: "sint a = uint a" "sint b = uint b"
    using self [OF lt(1)] self [OF lt(2)] unfolding sint_uint len by blast+
  have "sint (a - b) = signed_take_bit 63 (uint a - uint b)"
    unfolding sint_word_ariths(2) len sa ..
  also have "\<dots> = uint a - uint b"
    by (rule signed_take_bit_int_eq_self) (use lt uint_ge_0 [of a] uint_ge_0 [of b] in linarith)+
  finally show ?thesis by simp
qed

lemma append_entries_offset:
  assumes "new \<noteq> []" "old \<noteq> []" "sint (en_Index (hd new) - en_Index (hd old)) = d"
  shows "append_entries new old =
    (if d < 0 then Some new else if d < int (length old) then Some (take (nat d) old @ new)
     else if d = int (length old) then Some (old @ new) else None)"
  using assms by (simp add: append_entries_def)

text \<open>
  Appending, on the abstract log: everything from the first new index on is replaced, everything
  before it is kept, and the log starts anew when the new entries start before it.
\<close>

lemma append_entries_spec:
  assumes "contiguous old" "contiguous new" "new \<noteq> []" "small (en_Index (hd new))"
    and "old \<noteq> [] \<Longrightarrow> small (en_Index (hd old)) \<and>
      unat (en_Index (hd new)) \<le> unat (en_Index (hd old)) + length old"
  shows "\<exists>es. append_entries new old = Some es \<and> contiguous es \<and> es \<noteq> [] \<and>
    (\<forall>i. log_at es i = (if unat (en_Index (hd new)) \<le> i then log_at new i
       else log_at old i)) \<and>
    (old \<noteq> [] \<longrightarrow> unat (en_Index (hd es)) = min (unat (en_Index (hd old))) (unat (en_Index (hd new)))) \<and>
    (old = [] \<longrightarrow> hd es = hd new)"
proof (cases "old = []")
  case True
  then show ?thesis using assms(2,3) by (auto simp: append_entries_def log_at_def)
next
  case False
  define n where "n = unat (en_Index (hd new))"
  define f where "f = unat (en_Index (hd old))"
  from assms(5) [OF False] have sm: "small (en_Index (hd old))" "n \<le> f + length old"
    by (auto simp: n_def f_def)
  have "sint (en_Index (hd new) - en_Index (hd old)) = int n - int f"
    unfolding n_def f_def by (rule sint_diff_small [OF assms(4) sm(1)])
  note app = append_entries_offset [OF assms(3) False this]
  have low: "log_at old i = None" if "i < f" for i using that by (simp add: log_at_def f_def)
  have low': "log_at new i = None" if "i < n" for i using that by (simp add: log_at_def n_def)
  show ?thesis
  proof (cases "n \<le> f")
    case True
    then have "append_entries new old = Some new" by (auto simp: app)
    moreover have "log_at new i = (if n \<le> i then log_at new i else log_at old i)" for i
      using True low low' by auto
    ultimately show ?thesis using assms(2,3) True False by (auto simp: n_def f_def)
  next
    case gt: False
    let ?t = "take (n - f) old"
    have t: "?t \<noteq> []" "hd ?t = hd old" "length ?t = n - f" using False gt sm(2) by auto
    have app': "append_entries new old = Some (?t @ new)" using gt sm(2) by (auto simp: app nat_diff_distrib)
    have fst: "unat (en_Index (hd new)) = unat (en_Index (hd ?t)) + length ?t"
      using t gt by (simp add: n_def f_def)
    have cont: "contiguous (?t @ new)"
      by (rule contiguous_append [OF contiguous_take [OF assms(1)] assms(2,3) t(1) fst])
    have "log_at (?t @ new) i = (if n \<le> i then log_at new i else log_at old i)" for i
      using gt log_at_take [of "n - f" old i] log_at_append [OF t(1) assms(3) fst, of i]
      by (auto simp: n_def [symmetric] f_def [symmetric])
    with app' cont t gt False show ?thesis by (auto simp: n_def f_def)
  qed
qed

section \<open>A Ready on a well-formed storage\<close>

text \<open>
  What the library guarantees of a \<^verbatim>\<open>Ready\<close>: its entries are contiguous, later than the stored
  snapshot, and leave no gap after the stored log.
\<close>

definition ready_ok :: "('c, 'msg) Ready \<Rightarrow> 'c MemoryStorage \<Rightarrow> bool" where
  "ready_ok rd st \<longleftrightarrow> contiguous (rd_Entries rd) \<and>
     (rd_Entries rd \<noteq> [] \<longrightarrow>
        small (en_Index (hd (rd_Entries rd))) \<and>
        unat (sn_Index (st_snapshot st)) < unat (en_Index (hd (rd_Entries rd))) \<and>
        (st_entries st \<noteq> [] \<longrightarrow> small (en_Index (hd (st_entries st))) \<and>
           unat (en_Index (hd (rd_Entries rd))) \<le> unat (en_Index (hd (st_entries st))) + length (st_entries st)))"

text \<open>The abstract log after the entries of a \<^verbatim>\<open>Ready\<close>.\<close>

definition spec_append :: "Entry list \<Rightarrow> (nat \<Rightarrow> Entry option) \<Rightarrow> nat \<Rightarrow> Entry option" where
  "spec_append new lg i =
     (if new \<noteq> [] \<and> unat (en_Index (hd new)) \<le> i then log_at new i else lg i)"

text \<open>The abstract log after a snapshot.\<close>

definition spec_snapshot ::
  "('c Snapshot \<Rightarrow> bool) \<Rightarrow> 'c Snapshot \<Rightarrow> (nat \<Rightarrow> Entry option) \<Rightarrow> nat \<Rightarrow> Entry option" where
  "spec_snapshot es snap lg i = (if es snap \<or> unat (sn_Index snap) < i then lg i else None)"

lemma apply_committed_frame:
  "st_entries (fst (apply_committed ac es st)) = st_entries st"
  "st_snapshot (fst (apply_committed ac es st)) = st_snapshot st"
  "st_hardState (fst (apply_committed ac es st)) = st_hardState st"
  by (induction es arbitrary: st) (auto split: option.split simp: case_prod_unfold Let_def)

lemma append_entries_ready:
  assumes "wf_log st" "ready_ok rd st"
  obtains es where "append_entries (rd_Entries rd) (st_entries st) = Some es" "contiguous es"
    "\<And>i. log_at es i = spec_append (rd_Entries rd) (log_at (st_entries st)) i"
    "es \<noteq> [] \<Longrightarrow> unat (sn_Index (st_snapshot st)) < unat (en_Index (hd es))"
proof (cases "rd_Entries rd = []")
  case True
  with assms(1) show ?thesis
    by (intro that [of "st_entries st"]) (auto simp: append_entries_def wf_log_def spec_append_def)
next
  case False
  from append_entries_spec [of "st_entries st" "rd_Entries rd"] assms False
  obtain es where es: "append_entries (rd_Entries rd) (st_entries st) = Some es" "contiguous es" "es \<noteq> []"
    "\<And>i. log_at es i = (if unat (en_Index (hd (rd_Entries rd))) \<le> i then log_at (rd_Entries rd) i
       else log_at (st_entries st) i)"
    "st_entries st \<noteq> [] \<Longrightarrow> unat (en_Index (hd es)) =
       min (unat (en_Index (hd (st_entries st)))) (unat (en_Index (hd (rd_Entries rd))))"
    "st_entries st = [] \<Longrightarrow> hd es = hd (rd_Entries rd)"
    by (auto simp: wf_log_def ready_ok_def)
  have "unat (sn_Index (st_snapshot st)) < unat (en_Index (hd es))"
    using assms False es(5,6) by (cases "st_entries st = []") (auto simp: wf_log_def ready_ok_def)
  with es False show ?thesis by (intro that [of es]) (auto simp: spec_append_def)
qed

lemma apply_snapshot_wf:
  assumes "contiguous (st_entries st)"
    and "st_entries st \<noteq> [] \<Longrightarrow> unat (sn_Index (st_snapshot st)) < unat (en_Index (hd (st_entries st)))"
  shows "wf_log (fst (apply_snapshot es snap st)) \<and>
    (\<forall>i. log_at (st_entries (fst (apply_snapshot es snap st))) i = spec_snapshot es snap (log_at (st_entries st)) i)"
proof (cases "es snap")
  case True
  with assms show ?thesis by (simp add: apply_snapshot_def wf_log_def spec_snapshot_def)
next
  case False
  let ?es = "filter (\<lambda>e. en_Index e > sn_Index snap) (st_entries st)"
  have "contiguous ?es"
    using filter_after_snapshot(1) [OF assms(1), of "sn_Index snap"] contiguous_drop [OF assms(1)] by metis
  moreover have "unat (sn_Index snap) < unat (en_Index (hd ?es))" if "?es \<noteq> []"
    using hd_in_set [OF that] by (simp add: word_less_nat_alt)
  ultimately show ?thesis
    using False filter_after_snapshot(2) [OF assms(1)]
    by (simp add: apply_snapshot_def wf_log_def spec_snapshot_def)
qed

text \<open>One \<^verbatim>\<open>Ready\<close> on a well-formed log.\<close>

lemma handleReady_log:
  assumes "wf_log (rn_raftStorage rn)" "ready_ok rd (rn_raftStorage rn)"
  shows "\<exists>rn' msgs. handleReady eh emp ac rd rn = Return (rn', msgs, rd_Messages rd) \<and> wf_log (rn_raftStorage rn') \<and>
    (\<forall>i. log_at (st_entries (rn_raftStorage rn')) i =
       spec_snapshot emp (rd_Snapshot rd) (spec_append (rd_Entries rd) (log_at (st_entries (rn_raftStorage rn)))) i)"
proof -
  define st where "st = (if \<not> eh (rd_HardState rd)
    then (rn_raftStorage rn)\<lparr>st_hardState := rd_HardState rd\<rparr> else rn_raftStorage rn)"
  have same: "st_entries st = st_entries (rn_raftStorage rn)" "st_snapshot st = st_snapshot (rn_raftStorage rn)"
    by (simp_all add: st_def)
  obtain es where es: "append_entries (rd_Entries rd) (st_entries st) = Some es" "contiguous es"
    "\<And>i. log_at es i = spec_append (rd_Entries rd) (log_at (st_entries st)) i"
    "es \<noteq> [] \<Longrightarrow> unat (sn_Index (st_snapshot st)) < unat (en_Index (hd es))"
    unfolding same by (rule append_entries_ready [OF assms]) blast
  define st2 where "st2 = fst (apply_snapshot emp (rd_Snapshot rd) (st\<lparr>st_entries := es\<rparr>))"
  have st2: "wf_log st2" "log_at (st_entries st2) i = spec_snapshot emp (rd_Snapshot rd) (log_at es) i" for i
    using apply_snapshot_wf [of "st\<lparr>st_entries := es\<rparr>" emp "rd_Snapshot rd"] es(2,4) by (simp_all add: st2_def)
  define st3 where "st3 = fst (apply_committed ac (rd_CommittedEntries rd) st2)"
  have st3: "wf_log st3" "st_entries st3 = st_entries st2"
    using st2(1) apply_committed_frame [of ac "rd_CommittedEntries rd" st2] by (simp_all add: st3_def wf_log_def)
  have "spec_snapshot emp (rd_Snapshot rd) (log_at es) i =
      spec_snapshot emp (rd_Snapshot rd) (spec_append (rd_Entries rd) (log_at (st_entries st))) i" for i
    using es(3) by (simp add: spec_snapshot_def)
  moreover have "\<exists>rn' msgs. handleReady eh emp ac rd rn = Return (rn', msgs, rd_Messages rd) \<and> rn_raftStorage rn' = st3"
    unfolding handleReady_def Let_def
    unfolding st_def [symmetric]
    using es(1) by (simp add: case_prod_unfold st2_def st3_def)
  ultimately show ?thesis using st2(2) st3 same(1) by auto
qed

section \<open>Properties\<close>

text \<open>
  (C1) Handling a \<^verbatim>\<open>Ready\<close> refines the abstract log: with entries as the library guarantees them,
  it does not panic, the stored log stays contiguous and above the snapshot, every index from the
  first new one on holds the new entry or nothing, every earlier one is unchanged, and a snapshot
  removes exactly the indexes it covers.
\<close>

theorem handleReady_refines:
  assumes "wf_log (rn_raftStorage rn)" "ready_ok rd (rn_raftStorage rn)"
  shows "\<exists>rn' msgs. handleReady eh emp ac rd rn = Return (rn', msgs, rd_Messages rd) \<and> wf_log (rn_raftStorage rn') \<and>
    (\<forall>i. log_at (st_entries (rn_raftStorage rn')) i =
       spec_snapshot emp (rd_Snapshot rd) (spec_append (rd_Entries rd) (log_at (st_entries (rn_raftStorage rn)))) i)"
  by (rule handleReady_log [OF assms])

text \<open>The library's tests for empty values, as its documentation states them, for the concrete runs.\<close>

definition hs_zero :: "HardState \<Rightarrow> bool" where
  "hs_zero h \<longleftrightarrow> hs_Term h = 0 \<and> hs_Vote h = 0 \<and> hs_Commit h = 0"

definition sn_zero :: "'c Snapshot \<Rightarrow> bool" where
  "sn_zero s \<longleftrightarrow> sn_Index s = 0"

definition demo_entry :: "uint64 \<Rightarrow> uint64 \<Rightarrow> bytes \<Rightarrow> Entry" where
  "demo_entry t i d = \<lparr>en_Term = t, en_Index = i, en_Type = EntryNormal, en_Data = d\<rparr>"

definition demo_ready :: "Entry list \<Rightarrow> (unit, unit) Ready" where
  "demo_ready es =
     \<lparr>rd_HardState = \<lparr>hs_Term = 0, hs_Vote = 0, hs_Commit = 0\<rparr>, rd_Entries = es,
      rd_Snapshot = \<lparr>sn_Data = [], sn_ConfState = (), sn_Index = 0, sn_Term = 0\<rparr>, rd_Messages = [],
      rd_CommittedEntries = [], rd_SoftState = None\<rparr>"

definition demo_node :: "unit RaftNode" where
  "demo_node = (NewRaftNode ())\<lparr>rn_raftStorage := (NewMemoryStorage ())\<lparr>st_entries :=
     [demo_entry 1 1 ''a'', demo_entry 1 2 ''b'', demo_entry 1 3 ''c'']\<rparr>\<rparr>"

lemma contiguous_Cons2:
  "contiguous (e # e' # es) \<longleftrightarrow> unat (en_Index e') = unat (en_Index e) + 1 \<and> contiguous (e' # es)"
proof
  assume c: "contiguous (e # e' # es)"
  from contiguousD [OF c, of 1] contiguous_drop [OF c, of 1]
  show "unat (en_Index e') = unat (en_Index e) + 1 \<and> contiguous (e' # es)" by simp
next
  assume "unat (en_Index e') = unat (en_Index e) + 1 \<and> contiguous (e' # es)"
  then show "contiguous (e # e' # es)"
    using contiguous_append [of "[e]" "e' # es"] by (simp add: contiguous_def)
qed

lemma contiguous_single [simp]: "contiguous [e]"
  by (simp add: contiguous_def)

lemma demo_node_wf: "wf_log (rn_raftStorage demo_node)"
  by (simp add: wf_log_def demo_node_def contiguous_Cons2 demo_entry_def NewMemoryStorage_def)

lemma demo_ready_ok: "ready_ok (demo_ready [demo_entry 2 2 ''x'']) (rn_raftStorage demo_node)"
  by (simp add: ready_ok_def demo_ready_def demo_node_def demo_entry_def NewMemoryStorage_def small_def)

theorem handleReady_refines_witness:
  "\<exists>rn' msgs. handleReady hs_zero sn_zero (\<lambda>_. None) (demo_ready [demo_entry 2 2 ''x'']) demo_node = Return (rn', msgs, []) \<and>
     log_at (st_entries (rn_raftStorage rn')) 3 = None \<and>
     log_at (st_entries (rn_raftStorage rn')) 2 = Some (demo_entry 2 2 ''x'')"
proof -
  have at: "log_at [demo_entry 2 2 ''x''] 2 = Some (demo_entry 2 2 ''x'')" "log_at [demo_entry 2 2 ''x''] 3 = None"
    by (simp_all add: log_at_def demo_entry_def)
  have hd: "unat (en_Index (demo_entry 2 2 ''x'')) = 2" by (simp add: demo_entry_def)
  obtain rn' msgs where "handleReady hs_zero sn_zero (\<lambda>_. None) (demo_ready [demo_entry 2 2 ''x'']) demo_node = Return (rn', msgs, [])"
    "\<And>i. log_at (st_entries (rn_raftStorage rn')) i = spec_snapshot sn_zero (rd_Snapshot (demo_ready [demo_entry 2 2 ''x'']))
       (spec_append [demo_entry 2 2 ''x''] (log_at (st_entries (rn_raftStorage demo_node)))) i"
    using handleReady_refines [OF demo_node_wf demo_ready_ok, of hs_zero sn_zero "\<lambda>_. None"] by (auto simp: demo_ready_def)
  then show ?thesis
    by (intro exI [of _ rn'] exI [of _ msgs])
      (simp add: spec_snapshot_def spec_append_def at hd demo_ready_def sn_zero_def)
qed

text \<open>What the reads return on a well-formed log.\<close>

lemma limit_size_prefix: "\<exists>n. limit_size mx i acc es = take n es \<and> (i = 0 \<longrightarrow> es \<noteq> [] \<longrightarrow> n > 0)"
proof (induction es arbitrary: i acc)
  case (Cons e es)
  obtain n where "limit_size mx (Suc i) (acc + of_nat (length (en_Data e))) es = take n es"
    using Cons.IH by blast
  then show ?case
    by (cases "acc + of_nat (length (en_Data e)) > mx \<and> i > 0")
      (auto simp: Let_def intro: exI [of _ 0] exI [of _ "Suc n"])
qed simp

lemma unat_diff:
  "(a :: uint64) \<le> b \<Longrightarrow> unat (b - a) = unat b - unat a"
  by (simp add: unat_sub)

text \<open>The last index, when it does not reach the end of the range of \<^verbatim>\<open>uint64\<close>.\<close>

definition end_fits :: "'c MemoryStorage \<Rightarrow> bool" where
  "end_fits m \<longleftrightarrow> unat (en_Index (hd (st_entries m))) + length (st_entries m) < 2 ^ 64"

lemma unat_end:
  assumes "end_fits m"
  shows "unat (en_Index (hd (st_entries m)) + of_nat (length (st_entries m))) =
    unat (en_Index (hd (st_entries m))) + length (st_entries m)"
proof -
  let ?a = "en_Index (hd (st_entries m))" and ?n = "length (st_entries m)"
  have "unat ?a + ?n < 2 ^ 64" using assms by (simp add: end_fits_def)
  then have "unat (of_nat (unat ?a + ?n) :: uint64) = unat ?a + ?n"
    by (simp only: unsigned_of_nat) (simp add: take_bit_nat_eq_self)
  then show ?thesis by simp
qed

text \<open>
  (C39) Reading a non-empty range of the stored log returns a non-empty run of consecutive entries
  that begins at the requested index and stays below the requested end, each the entry of the
  abstract log at its index.
\<close>

theorem Entries_range:
  assumes "wf_log m" "end_fits m" "st_entries m \<noteq> []"
    and "FirstIndex m \<le> lo" "lo \<le> LastIndex m" "lo < hi"
  shows "\<exists>es. Entries m lo hi maxSize = Return (Inr es) \<and> es \<noteq> [] \<and> length es \<le> unat hi - unat lo \<and>
    (\<forall>k < length es. log_at (st_entries m) (unat lo + k) = Some (es ! k))"
proof -
  let ?es = "st_entries m" and ?o = "en_Index (hd (st_entries m))"
  define hi' where "hi' = (if hi > ?o + of_nat (length ?es) then ?o + of_nat (length ?es) else hi)"
  have c: "contiguous ?es" using assms(1) by (simp add: wf_log_def)
  have lo: "?o \<le> lo" using assms(3,4) by (simp add: FirstIndex_def)
  have lo2: "unat lo < unat ?o + length ?es"
    using assms(3,5) contiguous_last [OF c assms(3)] by (cases ?es) (auto simp: LastIndex_def word_le_nat_alt)
  have hi: "unat lo < unat hi'" "unat hi' \<le> unat hi" "unat hi' \<le> unat ?o + length ?es"
    using assms(6) lo2 unat_end [OF assms(2)] by (auto simp: hi'_def word_less_nat_alt)
  have o: "?o \<le> hi'" using lo hi(1) by (simp add: word_le_nat_alt)
  have idx: "unat (lo - ?o) = unat lo - unat ?o" "unat (hi' - ?o) = unat hi' - unat ?o"
    using unat_diff [OF lo] unat_diff [OF o] by simp_all
  let ?r = "drop (unat (lo - ?o)) (take (unat (hi' - ?o)) ?es)"
  have len: "length ?r = unat hi' - unat lo"
    using idx lo o hi(1,3) by (simp add: word_le_nat_alt min_def) arith
  have nth: "log_at ?es (unat lo + k) = Some (?r ! k)" if "k < length ?r" for k
    using that len idx lo o hi assms(3) by (auto simp: log_at_def word_le_nat_alt)
  obtain n where n: "limit_size maxSize 0 0 ?r = take n ?r" "?r \<noteq> [] \<Longrightarrow> n > 0"
    using limit_size_prefix [of maxSize 0 0 ?r] by auto
  have ne: "?r \<noteq> []" using len hi(1) by (metis list.size(3) zero_less_diff less_irrefl)
  have ok: "\<not> lo < ?o" "\<not> hi' - ?o < lo - ?o" "\<not> length ?es < unat (hi' - ?o)"
    using lo idx hi(1,3) by (auto simp: word_less_nat_alt word_le_nat_alt)
  have "Entries m lo hi maxSize = Return (Inr (take n ?r))"
    unfolding Entries_def Let_def
    unfolding hi'_def [symmetric]
    using assms(3) ok n(1) by simp
  moreover have "length (take n ?r) \<le> unat hi - unat lo" using len hi(2) by simp
  moreover have "take n ?r \<noteq> []" using n(2) ne by simp
  ultimately show ?thesis using nth by (intro exI [of _ "take n ?r"]) (simp del: drop_take)
qed

theorem Entries_range_witness:
  "\<exists>es. Entries (rn_raftStorage demo_node) 2 9 1 = Return (Inr es) \<and> es \<noteq> [] \<and> length es \<le> 7 \<and>
    (\<forall>k < length es. log_at (st_entries (rn_raftStorage demo_node)) (2 + k) = Some (es ! k))"
proof -
  have "end_fits (rn_raftStorage demo_node)" "st_entries (rn_raftStorage demo_node) \<noteq> []"
    "FirstIndex (rn_raftStorage demo_node) \<le> 2" "2 \<le> LastIndex (rn_raftStorage demo_node)"
    by (simp_all add: end_fits_def demo_node_def FirstIndex_def LastIndex_def demo_entry_def)
  from Entries_range [OF demo_node_wf this, of 9 1] show ?thesis by simp
qed

lemma Entries_empty_range:
  assumes "st_entries m \<noteq> []" "en_Index (hd (st_entries m)) \<le> hi" "hi < lo"
    and "hi \<le> en_Index (hd (st_entries m)) + of_nat (length (st_entries m))"
  shows "Entries m lo hi maxSize = Panic ''makeslice: len out of range''"
proof -
  have o: "en_Index (hd (st_entries m)) \<le> lo" using assms(2,3) by simp
  have "hi - en_Index (hd (st_entries m)) < lo - en_Index (hd (st_entries m))"
    using unat_diff [OF o] unat_diff [OF assms(2)] assms(2,3) by (auto simp: word_less_nat_alt word_le_nat_alt)
  with assms o show ?thesis by (auto simp: Entries_def Let_def)
qed

text \<open>
  \<^verbatim>\<open>Term\<close> answers every index: inside the log it is the term of the entry there, after the
  last one the error is \<^verbatim>\<open>ErrUnavailable\<close>, before the first one \<^verbatim>\<open>ErrCompacted\<close>; it never
  panics. In particular the index of the snapshot, the one before the first entry, whose term the
  library's interface says is retained for matching, answers \<^verbatim>\<open>ErrCompacted\<close> as soon as the log
  has an entry.
\<close>

theorem Term_outcome:
  assumes "wf_log m" "st_entries m \<noteq> []"
  shows "Term m i =
    (if i < FirstIndex m then Return (Inl ErrCompacted)
     else if LastIndex m < i then Return (Inl ErrUnavailable)
     else Return (Inr (en_Term (the (log_at (st_entries m) (unat i))))))"
proof -
  let ?es = "st_entries m" and ?o = "en_Index (hd (st_entries m))"
  have c: "contiguous ?es" and s: "sn_Index (st_snapshot m) < ?o"
    using assms by (auto simp: wf_log_def word_less_nat_alt)
  have "unat (i - ?o) < length ?es \<and> log_at ?es (unat i) = Some (?es ! unat (i - ?o))"
    if "\<not> i < ?o" "\<not> en_Index (last ?es) < i"
  proof -
    have le: "?o \<le> i" "unat i < unat ?o + length ?es"
      using that contiguous_last [OF c assms(2)] assms(2)
      by (cases ?es; auto simp: word_le_nat_alt word_less_nat_alt)+
    then show ?thesis using unat_diff [OF le(1)] assms(2) by (auto simp: log_at_def word_le_nat_alt)
  qed
  then show ?thesis
    using assms(2) s by (auto simp: Term_def FirstIndex_def LastIndex_def Let_def)
qed

text \<open>A node that installed a snapshot at index 3 and then received entry 4: the term of 3 is lost.\<close>

definition demo_snapshotted :: "unit MemoryStorage" where
  "demo_snapshotted = (NewMemoryStorage ())\<lparr>
     st_snapshot := \<lparr>sn_Data = ''s'', sn_ConfState = (), sn_Index = 3, sn_Term = 2\<rparr>,
     st_entries := [demo_entry 2 4 ''d'']\<rparr>"

theorem Term_outcome_witness:
  "Term demo_snapshotted 3 = Return (Inl ErrCompacted) \<and> Term demo_snapshotted 4 = Return (Inr 2) \<and>
   Term (demo_snapshotted\<lparr>st_entries := []\<rparr>) 3 = Return (Inr 2)"
proof -
  have wf: "wf_log demo_snapshotted" "st_entries demo_snapshotted \<noteq> []"
    by (simp_all add: wf_log_def demo_snapshotted_def demo_entry_def)
  show ?thesis
    using Term_outcome [OF wf, of 3] Term_outcome [OF wf, of 4]
    by (simp add: FirstIndex_def LastIndex_def demo_snapshotted_def demo_entry_def log_at_def Term_def)
qed

text \<open>Which committed entries reach the state machine, and the configuration they leave.\<close>

definition delivered :: "(Entry \<Rightarrow> 'c option) \<Rightarrow> Entry \<Rightarrow> bool" where
  "delivered ac e \<longleftrightarrow> en_Type e = EntryNormal \<and> en_Data e \<noteq> [] \<or>
     en_Type e = EntryConfChange \<and> ac e \<noteq> None"

definition conf_after :: "(Entry \<Rightarrow> 'c option) \<Rightarrow> Entry list \<Rightarrow> 'c \<Rightarrow> 'c" where
  "conf_after ac es c = (case rev (List.map_filter
     (\<lambda>e. if en_Type e = EntryConfChange then ac e else None) es) of [] \<Rightarrow> c | c' # _ \<Rightarrow> c')"

lemma conf_after_simps [simp]:
  "conf_after ac [] c = c"
  "conf_after ac (e # es) c =
     conf_after ac es (if en_Type e = EntryConfChange then (case ac e of None \<Rightarrow> c | Some c' \<Rightarrow> c') else c)"
  by (auto simp: conf_after_def List.map_filter_simps split: list.split option.split)

lemma apply_committed_delivers:
  "snd (apply_committed ac es st) = map command_msg (filter (delivered ac) es) \<and>
   st_confState (fst (apply_committed ac es st)) = conf_after ac es (st_confState st)"
  by (induction es arbitrary: st)
    (auto simp: delivered_def case_prod_unfold Let_def split: option.split)

text \<open>
  What a handled \<^verbatim>\<open>Ready\<close> delivers: the state machine receives at most one snapshot message,
  first, and then exactly one message per committed entry that carries a command or a decodable
  configuration change, in log order; only \<^verbatim>\<open>EntryConfChange\<close> entries change the configuration, so
  a change proposed as a plain command does not; the leader flag follows the soft state, and nothing
  is ever announced on the leader channel.
\<close>

theorem handleReady_delivers:
  assumes "handleReady eh emp ac rd rn = Return (rn', msgs, out)"
  shows "(\<exists>pre. msgs = pre @ map command_msg (filter (delivered ac) (rd_CommittedEntries rd)) \<and>
      length pre = (if emp (rd_Snapshot rd) then 0 else 1) \<and> (\<forall>m \<in> set pre. am_SnapshotValid m)) \<and>
    out = rd_Messages rd \<and>
    st_confState (rn_raftStorage rn') =
      conf_after ac (rd_CommittedEntries rd) (st_confState (rn_raftStorage rn)) \<and>
    IsLeader rn' = (case rd_SoftState rd of None \<Rightarrow> IsLeader rn | Some l \<Rightarrow> l) \<and>
    LeaderCh rn' = LeaderCh rn"
  using assms
  by (auto simp: handleReady_def Let_def case_prod_unfold apply_committed_delivers apply_snapshot_def
      IsLeader_def LeaderCh_def split: option.splits)

theorem handleReady_delivers_witness:
  "\<exists>rn' msgs. handleReady hs_zero sn_zero (\<lambda>_. Some False)
     \<lparr>rd_HardState = \<lparr>hs_Term = 1, hs_Vote = 1, hs_Commit = 2\<rparr>, rd_Entries = [],
      rd_Snapshot = \<lparr>sn_Data = [], sn_ConfState = True, sn_Index = 0, sn_Term = 0\<rparr>, rd_Messages = [()],
      rd_CommittedEntries = [demo_entry 1 1 [], demo_entry 1 2 ''add node 7''], rd_SoftState = Some True\<rparr>
     (NewRaftNode True) = Return (rn', msgs, [()]) \<and>
     msgs = [command_msg (demo_entry 1 2 ''add node 7'')] \<and>
     st_confState (rn_raftStorage rn') = True \<and> IsLeader rn' \<and> LeaderCh rn' = None"
proof -
  define rd where "rd = \<lparr>rd_HardState = \<lparr>hs_Term = 1, hs_Vote = 1, hs_Commit = 2\<rparr>, rd_Entries = [],
      rd_Snapshot = \<lparr>sn_Data = [], sn_ConfState = True, sn_Index = 0, sn_Term = 0\<rparr>, rd_Messages = [()],
      rd_CommittedEntries = [demo_entry 1 1 [], demo_entry 1 2 ''add node 7''], rd_SoftState = Some True\<rparr>"
  obtain rn' msgs where h: "handleReady hs_zero sn_zero (\<lambda>_. Some False) rd (NewRaftNode True) =
      Return (rn', msgs, [()])"
    by (auto simp: handleReady_def append_entries_def Let_def case_prod_unfold rd_def)
  have "msgs = [command_msg (demo_entry 1 2 ''add node 7'')]" "st_confState (rn_raftStorage rn')"
    "IsLeader rn'" "LeaderCh rn' = None"
    using handleReady_delivers [OF h]
    by (auto simp: rd_def sn_zero_def delivered_def demo_entry_def NewRaftNode_def NewMemoryStorage_def LeaderCh_def)
  with h show ?thesis unfolding rd_def by blast
qed

end
