(* ===== verification/Election.thy ===== *)
theory Election
  imports RaftStorage
begin

text \<open>
  The leader election manager: \<^verbatim>\<open>internal/metaserver/core/cluster/election/manager.go\<close>.

  The election itself is the raft library's; the manager builds the raft node, watches its channels
  and answers queries. The state holds the raft node of theory \<open>RaftStorage\<close>, the proposals
  waiting in its \<^verbatim>\<open>proposeC\<close>, and whether the manager's context is cancelled and the transport's
  \<^verbatim>\<open>receiveC\<close> closed. Readings of the clock and the random part of the election timeout are
  arguments. Starting the library (\<^verbatim>\<open>etcdraft.StartNode\<close>, which panics on a configuration it
  rejects) and encoding a configuration change are parameters.

  The lemmas show what a construction and a membership call return, how the manager follows the
  leader flag, and that the raft node of this program never sends one.
\<close>

section \<open>Reading unsigned numbers\<close>

text \<open>\<^verbatim>\<open>strconv.ParseUint(s, 10, 64)\<close>: digits only, and below \<open>2 ^ 64\<close>.\<close>

datatype parse_error = ErrSyntax | ErrRange

definition is_digit :: "char \<Rightarrow> bool" where
  "is_digit c \<longleftrightarrow> 48 \<le> (of_char c :: nat) \<and> (of_char c :: nat) \<le> 57"

fun parse_digits :: "nat \<Rightarrow> string \<Rightarrow> parse_error + nat" where
  "parse_digits n [] = Inr n"
| "parse_digits n (c # cs) =
     (if \<not> is_digit c then Inl ErrSyntax
      else let n' = n * 10 + (of_char c - 48)
           in if n' > 2 ^ 64 - 1 then Inl ErrRange else parse_digits n' cs)"

definition ParseUint :: "string \<Rightarrow> parse_error + uint64" where
  "ParseUint s =
     (if s = [] then Inl ErrSyntax
      else case parse_digits 0 s of Inl e \<Rightarrow> Inl e | Inr n \<Rightarrow> Inr (of_nat n))"

section \<open>State\<close>

datatype ElectionState = ElectionStateFollower | ElectionStateCandidate | ElectionStateLeader

record ElectionConfig =
  ec_NodeID :: NodeID
  ec_ElectionTimeout :: duration
  ec_HeartbeatTimeout :: duration
  ec_PeerList :: "string list"

record 'c election_manager =
  em_cfg :: ElectionConfig
  em_state :: ElectionState
  em_currentTerm :: uint64
  em_votedFor :: string
  em_currentLeader :: NodeID
  em_lastHeartbeat :: gotime
  em_lastElectionTime :: gotime
  em_electionTimer :: gotime
  em_leaderChangeCh :: "string list"
  em_isLeader :: bool
  em_raftNode :: "'c RaftNode"
  em_proposeC :: "bytes list"
  em_receiveC_closed :: bool
  em_cancelled :: bool

text \<open>The capacities of \<^verbatim>\<open>leaderChangeCh\<close> and, from the raft defaults, of \<^verbatim>\<open>proposeC\<close>.\<close>

definition leaderChange_cap :: nat where
  "leaderChange_cap = 10"

definition propose_cap :: nat where
  "propose_cap = nat (rc_SendBufferSize DefaultConfig)"

datatype election_error =
    NodeIDEmpty | ParseFailed parse_error | MarshalFailed string

section \<open>Operations\<close>

text \<open>
  A new deadline, \<open>rnd\<close> being what \<^verbatim>\<open>rand.Int63n\<close> returns; it panics unless its bound is
  positive.
\<close>

definition resetElectionTimer ::
  "gotime \<Rightarrow> int \<Rightarrow> 'c election_manager \<Rightarrow> 'c election_manager outcome" where
  "resetElectionTimer now rnd m =
     (let t = ec_ElectionTimeout (em_cfg m)
      in if t \<le> 0 then Panic ''invalid argument to Int63n''
         else Return (m\<lparr>em_electionTimer := now + (t + rnd)\<rparr>))"

text \<open>The peers that parse, in order; the others are logged and skipped.\<close>

definition parse_peers :: "string list \<Rightarrow> uint64 list" where
  "parse_peers ps = List.map_filter (\<lambda>p. case ParseUint p of Inl _ \<Rightarrow> None | Inr i \<Rightarrow> Some i) ps"

definition with_defaults :: "ElectionConfig \<Rightarrow> ElectionConfig" where
  "with_defaults cfg =
     (let cfg = (if ec_ElectionTimeout cfg = 0
                 then cfg\<lparr>ec_ElectionTimeout := 1000 * Millisecond\<rparr> else cfg)
      in if ec_HeartbeatTimeout cfg = 0 then cfg\<lparr>ec_HeartbeatTimeout := 500 * Millisecond\<rparr> else cfg)"

definition raft_config_of :: "ElectionConfig \<Rightarrow> uint64 \<Rightarrow> raft_Config" where
  "raft_config_of cfg nodeID =
     DefaultConfig\<lparr>rc_NodeID := nodeID,
       rc_ElectionTick := go_div (ec_ElectionTimeout cfg) (100 * Millisecond),
       rc_HeartbeatTick := go_div (ec_HeartbeatTimeout cfg) (100 * Millisecond),
       rc_Peers := parse_peers (ec_PeerList cfg)\<rparr>"

text \<open>
  \<open>start c ps\<close> is the library's start: None when the node starts, the message when it panics.
\<close>

definition Election_NewManager ::
  "(etcd_Config \<Rightarrow> uint64 list \<Rightarrow> string option) \<Rightarrow> 'c \<Rightarrow> gotime \<Rightarrow> int \<Rightarrow> ElectionConfig \<Rightarrow>
   (election_error + 'c election_manager) outcome" where
  "Election_NewManager start empty_conf now rnd cfg =
     (if ec_NodeID cfg = [] then Return (Inl NodeIDEmpty)
      else
        let cfg = with_defaults cfg;
            m = \<lparr>em_cfg = cfg, em_state = ElectionStateFollower, em_currentTerm = 0, em_votedFor = [],
                 em_currentLeader = [], em_lastHeartbeat = now, em_lastElectionTime = now,
                 em_electionTimer = 0, em_leaderChangeCh = [], em_isLeader = False,
                 em_raftNode = NewRaftNode empty_conf, em_proposeC = [], em_receiveC_closed = False,
                 em_cancelled = False\<rparr>
        in case resetElectionTimer now rnd m of
             Panic why \<Rightarrow> Panic why
           | Return m \<Rightarrow>
               (case ParseUint (ec_NodeID cfg) of
                  Inl e \<Rightarrow> Return (Inl (ParseFailed e))
                | Inr nodeID \<Rightarrow>
                    let rc = raft_config_of cfg nodeID
                    in case start (ToEtcdConfig rc) (rc_Peers rc) of
                         Some why \<Rightarrow> Panic why
                       | None \<Rightarrow> Return (Inr m)))"

text \<open>\<^verbatim>\<open>Stop\<close>: the second call closes a closed channel.\<close>

definition Election_Stop :: "'c election_manager \<Rightarrow> 'c election_manager outcome" where
  "Election_Stop m =
     (let m = m\<lparr>em_cancelled := True, em_raftNode := raft_Stop (em_raftNode m)\<rparr>
      in if em_receiveC_closed m then Panic ''close of closed channel''
         else Return (m\<lparr>em_receiveC_closed := True\<rparr>))"

definition Election_GetCurrentLeader :: "'c election_manager \<Rightarrow> string" where
  "Election_GetCurrentLeader m = em_currentLeader m"

definition Election_IsLeader :: "'c election_manager \<Rightarrow> bool" where
  "Election_IsLeader m = IsLeader (em_raftNode m)"

definition TriggerElection :: "gotime \<Rightarrow> int \<Rightarrow> 'c election_manager \<Rightarrow> 'c election_manager outcome" where
  "TriggerElection now rnd m = resetElectionTimer now rnd m"

text \<open>The branch of \<^verbatim>\<open>monitorRaftState\<close> for a value of the leader channel.\<close>

definition monitor_leader :: "gotime \<Rightarrow> bool \<Rightarrow> 'c election_manager \<Rightarrow> 'c election_manager" where
  "monitor_leader now isLeader m =
     (let oldIsLeader = em_isLeader m;
          m = m\<lparr>em_isLeader := isLeader\<rparr>
      in if isLeader then
           (let oldLeader = em_currentLeader m;
                m = m\<lparr>em_currentLeader := ec_NodeID (em_cfg m)\<rparr>
            in if oldLeader \<noteq> em_currentLeader m
               then m\<lparr>em_lastElectionTime := now,
                      em_leaderChangeCh :=
                        fst (try_send leaderChange_cap (em_currentLeader m) (em_leaderChangeCh m))\<rparr>
               else m)
         else if oldIsLeader then m\<lparr>em_currentLeader := []\<rparr>
         else m)"

text \<open>
  One turn of \<^verbatim>\<open>monitorRaftState\<close> on the leader channel: None when there is nothing to receive,
  in particular when the channel is nil.
\<close>

definition monitor_turn :: "gotime \<Rightarrow> 'c election_manager \<Rightarrow> 'c election_manager option" where
  "monitor_turn now m =
     (case LeaderCh (em_raftNode m) of
        None \<Rightarrow> None
      | Some [] \<Rightarrow> None
      | Some (b # rest) \<Rightarrow>
          Some (monitor_leader now b (m\<lparr>em_raftNode := (em_raftNode m)\<lparr>rn_leaderCh := Some rest\<rparr>\<rparr>)))"

text \<open>\<^verbatim>\<open>becomeFollower\<close> sends without a default case: None while the channel is full.\<close>

definition becomeFollower ::
  "gotime \<Rightarrow> uint64 \<Rightarrow> string \<Rightarrow> 'c election_manager \<Rightarrow> 'c election_manager option" where
  "becomeFollower now trm leaderId m =
     (let oldLeader = em_currentLeader m;
          m = m\<lparr>em_currentLeader := leaderId\<rparr>
      in if oldLeader \<noteq> leaderId
         then map_option (\<lambda>ch. m\<lparr>em_lastElectionTime := now, em_leaderChangeCh := ch\<rparr>)
                (block_send leaderChange_cap leaderId (em_leaderChangeCh m))
         else Some m)"

definition HandleRequestVote :: "string \<Rightarrow> uint64 \<Rightarrow> 'c election_manager \<Rightarrow> uint64 \<times> bool" where
  "HandleRequestVote candidateID trm m = (em_currentTerm m, False)"

definition HandleAppendEntries ::
  "gotime \<Rightarrow> int \<Rightarrow> string \<Rightarrow> uint64 \<Rightarrow> 'c election_manager \<Rightarrow> ('c election_manager \<times> uint64 \<times> bool) outcome" where
  "HandleAppendEntries now rnd leaderID trm m =
     (case resetElectionTimer now rnd (m\<lparr>em_lastHeartbeat := now\<rparr>) of
        Panic why \<Rightarrow> Panic why
      | Return m \<Rightarrow> Return (m, em_currentTerm m, True))"

definition GetState :: "'c election_manager \<Rightarrow> ElectionState \<times> uint64" where
  "GetState m =
     (if IsLeader (em_raftNode m) then (ElectionStateLeader, em_currentTerm m)
      else (ElectionStateFollower, em_currentTerm m))"

definition TransferLeadership :: "string \<Rightarrow> 'c election_manager \<Rightarrow> bool" where
  "TransferLeadership targetNodeID m = (if \<not> IsLeader (em_raftNode m) then False else True)"

text \<open>
  \<^verbatim>\<open>AddPeer\<close> and \<^verbatim>\<open>RemovePeer\<close>: the encoded change is proposed as an ordinary command. None
  means that the proposal waits. When the node has stopped, the error returned is the one of the
  encoding, which is nil.
\<close>

datatype ConfChangeType = ConfChangeAddNode | ConfChangeRemoveNode

definition propose_change ::
  "(ConfChangeType \<Rightarrow> uint64 \<Rightarrow> string + bytes) \<Rightarrow> bool \<Rightarrow> ConfChangeType \<Rightarrow> string \<Rightarrow> 'c election_manager \<Rightarrow>
   ('c election_manager \<times> election_error option) option" where
  "propose_change marshal choice typ peerID m =
     (case ParseUint peerID of
        Inl e \<Rightarrow> Some (m, Some (ParseFailed e))
      | Inr i \<Rightarrow>
          (case marshal typ i of
             Inl e \<Rightarrow> Some (m, Some (MarshalFailed e))
           | Inr data \<Rightarrow>
               (case raft_Propose choice propose_cap data (em_proposeC m) (em_raftNode m) of
                  None \<Rightarrow> None
                | Some (q, ok) \<Rightarrow> Some (m\<lparr>em_proposeC := q\<rparr>, None))))"

definition Election_AddPeer ::
  "(ConfChangeType \<Rightarrow> uint64 \<Rightarrow> string + bytes) \<Rightarrow> bool \<Rightarrow> string \<Rightarrow> 'c election_manager \<Rightarrow>
   ('c election_manager \<times> election_error option) option" where
  "Election_AddPeer marshal choice = propose_change marshal choice ConfChangeAddNode"

definition Election_RemovePeer ::
  "(ConfChangeType \<Rightarrow> uint64 \<Rightarrow> string + bytes) \<Rightarrow> bool \<Rightarrow> string \<Rightarrow> 'c election_manager \<Rightarrow>
   ('c election_manager \<times> election_error option) option" where
  "Election_RemovePeer marshal choice = propose_change marshal choice ConfChangeRemoveNode"

text \<open>The raft node's own goroutines: a \<^verbatim>\<open>Ready\<close> is handled, a proposal is handed to the library.\<close>

definition raft_ready ::
  "(HardState \<Rightarrow> bool) \<Rightarrow> ('c Snapshot \<Rightarrow> bool) \<Rightarrow> (Entry \<Rightarrow> 'c option) \<Rightarrow> ('c, 'msg) Ready \<Rightarrow>
   'c election_manager \<Rightarrow> 'c election_manager outcome" where
  "raft_ready eh emp ac rd m =
     (case handleReady eh emp ac rd (em_raftNode m) of
        Panic why \<Rightarrow> Panic why
      | Return (rn, msgs, out) \<Rightarrow> Return (m\<lparr>em_raftNode := rn\<rparr>))"

definition serveProposals :: "'c election_manager \<Rightarrow> ('c election_manager \<times> bytes) option" where
  "serveProposals m =
     (case em_proposeC m of [] \<Rightarrow> None | p # ps \<Rightarrow> Some (m\<lparr>em_proposeC := ps\<rparr>, p))"

section \<open>Lemmas\<close>

lemma undec_Cons_gen:
  "foldl (\<lambda>a c. a * 10 + (of_char c - 48)) n s = n * 10 ^ length s + undec s"
proof (induction s arbitrary: n)
  case (Cons c s)
  from Cons.IH [of "n * 10 + (of_char c - 48)"] Cons.IH [of "of_char c - 48"]
  show ?case by (simp add: undec_def algebra_simps)
qed (simp add: undec_def)

lemma foldl_ge: "n \<le> foldl (\<lambda>a c. a * 10 + (of_char c - 48)) (n :: nat) s"
proof -
  have "n * 1 \<le> n * 10 ^ length s" by (rule mult_le_mono2) simp
  then show ?thesis unfolding undec_Cons_gen by linarith
qed

lemma parse_digits_iff:
  "n < 2 ^ 64 \<Longrightarrow> parse_digits n s = Inr k \<longleftrightarrow>
     (\<forall>c \<in> set s. is_digit c) \<and> k = foldl (\<lambda>a c. a * 10 + (of_char c - 48)) n s \<and> k < 2 ^ 64"
proof (induction s arbitrary: n)
  case Nil
  then show ?case by auto
next
  case (Cons c s)
  let ?n = "n * 10 + (of_char c - 48)"
  show ?case
  proof (cases "?n < 2 ^ 64")
    case True
    with Cons.IH [OF True] show ?thesis by (auto simp: Let_def)
  next
    case False
    with foldl_ge [of ?n s] show ?thesis by (auto simp: Let_def)
  qed
qed

section \<open>Properties\<close>

text \<open>
  Node identifiers are read exactly: a text parses if and only if it is a non-empty sequence of
  digits whose value is below \<open>2 ^ 64\<close>, and the result is that value.
\<close>

theorem ParseUint_iff:
  "ParseUint s = Inr w \<longleftrightarrow>
     s \<noteq> [] \<and> (\<forall>c \<in> set s. is_digit c) \<and> undec s < 2 ^ 64 \<and> w = of_nat (undec s)"
proof -
  have k: "parse_digits 0 s = Inr k \<longleftrightarrow> (\<forall>c \<in> set s. is_digit c) \<and> k = undec s \<and> k < 2 ^ 64" for k
    using parse_digits_iff [of 0 s k] by (simp add: undec_def)
  show ?thesis
  proof (cases "parse_digits 0 s")
    case (Inl e)
    with k [of "undec s"] show ?thesis by (auto simp: ParseUint_def)
  next
    case (Inr n)
    with k [of n] show ?thesis by (auto simp: ParseUint_def)
  qed
qed

theorem ParseUint_iff_witness: "ParseUint ''42'' = Inr 42 \<and> (\<forall>w. ParseUint ''node-1'' \<noteq> Inr w)"
proof -
  have "ParseUint ''42'' = Inr 42" using ParseUint_iff [of "''42''" 42] by (simp add: is_digit_def undec_def)
  moreover have "ParseUint ''node-1'' \<noteq> Inr w" for w
    using ParseUint_iff [of "''node-1''" w] by (simp add: is_digit_def)
  ultimately show ?thesis by blast
qed

text \<open>How many times leadership is gained in a sequence of leader flags, from a given one.\<close>

fun rises :: "bool \<Rightarrow> bool list \<Rightarrow> nat" where
  "rises old [] = 0"
| "rises old (b # bs) = (if b \<and> \<not> old then 1 else 0) + rises b bs"

definition follows :: "'c election_manager \<Rightarrow> bool" where
  "follows m \<longleftrightarrow> ec_NodeID (em_cfg m) \<noteq> [] \<and>
     em_currentLeader m = (if em_isLeader m then ec_NodeID (em_cfg m) else [])"

lemma monitor_leader_step:
  assumes "follows m"
  shows "follows (monitor_leader now b m)" "em_isLeader (monitor_leader now b m) = b"
    "em_cfg (monitor_leader now b m) = em_cfg m"
    "em_leaderChangeCh (monitor_leader now b m) =
       (if b \<and> \<not> em_isLeader m then fst (try_send leaderChange_cap (ec_NodeID (em_cfg m)) (em_leaderChangeCh m))
        else em_leaderChangeCh m)"
  using assms by (auto simp: follows_def monitor_leader_def Let_def)

lemma monitor_run:
  assumes "follows m"
  shows "follows (fold (monitor_leader now) bs m)"
    "em_isLeader (fold (monitor_leader now) bs m) = (if bs = [] then em_isLeader m else last bs)"
    "em_cfg (fold (monitor_leader now) bs m) = em_cfg m"
    "em_leaderChangeCh (fold (monitor_leader now) bs m) = em_leaderChangeCh m @
       replicate (min (rises (em_isLeader m) bs) (leaderChange_cap - length (em_leaderChangeCh m))) (ec_NodeID (em_cfg m))"
  using assms
proof (induction bs arbitrary: m)
  case (Cons b bs)
  case 1
  show ?case using Cons.IH(1) monitor_leader_step(1) [OF 1] by simp
  case 2
  show ?case using Cons.IH(2) monitor_leader_step(1,2) [OF 2] by simp
  case 3
  show ?case using Cons.IH(3) monitor_leader_step(1,3) [OF 3] by simp
  case 4
  let ?m = "monitor_leader now b m"
  have *: "em_leaderChangeCh (fold (monitor_leader now) bs ?m) = em_leaderChangeCh ?m @
       replicate (min (rises b bs) (leaderChange_cap - length (em_leaderChangeCh ?m))) (ec_NodeID (em_cfg m))"
    using Cons.IH(4) [of ?m] monitor_leader_step [OF 4] by simp
  show ?case
    using * monitor_leader_step(4) [OF 4, of now b]
    by (auto simp: try_send_def replicate_add [symmetric] simp flip: replicate_Suc
        intro!: arg_cong [of _ _ "\<lambda>n. replicate n _"])
qed auto

text \<open>
  The manager follows the leader flags it receives: after any sequence of them it knows itself
  as leader exactly when the last flag says so, and knows no leader otherwise. It announces each gain
  of leadership, as long as the channel of ten has room, but never a loss: a reader of the channel
  goes on believing in the last leader announced.
\<close>

theorem monitor_follows_flags:
  assumes "follows m" "bs \<noteq> []" "m' = fold (monitor_leader now) bs m"
  shows "em_isLeader m' = last bs \<and>
    Election_GetCurrentLeader m' = (if last bs then ec_NodeID (em_cfg m) else []) \<and>
    em_leaderChangeCh m' = em_leaderChangeCh m @
      replicate (min (rises (em_isLeader m) bs) (leaderChange_cap - length (em_leaderChangeCh m)))
        (ec_NodeID (em_cfg m))"
  using monitor_run [OF assms(1), of now bs] assms(2,3)
  by (auto simp: follows_def Election_GetCurrentLeader_def)

definition demo_election :: "NodeID \<Rightarrow> unit election_manager" where
  "demo_election n =
     \<lparr>em_cfg = \<lparr>ec_NodeID = n, ec_ElectionTimeout = 1000 * Millisecond,
        ec_HeartbeatTimeout = 500 * Millisecond, ec_PeerList = [n]\<rparr>,
      em_state = ElectionStateFollower, em_currentTerm = 0, em_votedFor = [], em_currentLeader = [],
      em_lastHeartbeat = 5, em_lastElectionTime = 5, em_electionTimer = 5 + (1000 * Millisecond + 7),
      em_leaderChangeCh = [], em_isLeader = False, em_raftNode = NewRaftNode (), em_proposeC = [],
      em_receiveC_closed = False, em_cancelled = False\<rparr>"

theorem monitor_follows_flags_witness:
  "em_leaderChangeCh (fold (monitor_leader 9) [True, False] (demo_election ''1'')) = [''1''] \<and>
   Election_GetCurrentLeader (fold (monitor_leader 9) [True, False] (demo_election ''1'')) = []"
proof -
  have f: "follows (demo_election ''1'')" by (simp add: follows_def demo_election_def)
  from monitor_follows_flags [OF f, of "[True, False]" _ 9] show ?thesis
    by (simp add: demo_election_def leaderChange_cap_def)
qed

text \<open>
  Adding or removing a peer whose identifier parses always reports success when it returns: when
  the change was put, as a plain command, in the queue of proposals, and also when the node had been
  stopped and nothing was proposed. The call waits only while the queue is full and the node runs,
  and it changes nothing but the queue.
\<close>

theorem membership_change_outcome:
  assumes "ParseUint peerID = Inr i" "marshal typ i = Inr data"
  shows "propose_change marshal choice typ peerID m =
    (if length (em_proposeC m) < propose_cap \<and> (choice \<or> \<not> rn_stopped (em_raftNode m))
     then Some (m\<lparr>em_proposeC := em_proposeC m @ [data]\<rparr>, None)
     else if rn_stopped (em_raftNode m) then Some (m, None)
     else None)"
  using assms by (simp add: propose_change_def raft_Propose_def Let_def)

theorem membership_change_outcome_witness:
  "(\<exists>m. Election_Stop (demo_election ''1'') = Return m \<and>
     Election_AddPeer (\<lambda>_ _. Inr ''cc'') False ''7'' m = Some (m, None)) \<and>
   Election_AddPeer (\<lambda>_ _. Inr ''cc'') False ''7'' (demo_election ''1'') =
     Some ((demo_election ''1'')\<lparr>em_proposeC := [''cc'']\<rparr>, None)"
proof -
  have p: "ParseUint ''7'' = Inr 7" by (simp add: ParseUint_def is_digit_def)
  note mc = membership_change_outcome [OF p, of "\<lambda>_ _. Inr ''cc''" ConfChangeAddNode "''cc''" False, OF refl]
  have "rn_stopped (em_raftNode m) \<Longrightarrow> Election_AddPeer (\<lambda>_ _. Inr ''cc'') False ''7'' m = Some (m, None)" for m
    using mc [of m] by (simp add: Election_AddPeer_def)
  moreover have "\<exists>m. Election_Stop (demo_election ''1'') = Return m \<and> rn_stopped (em_raftNode m)"
    by (simp add: Election_Stop_def raft_Stop_def demo_election_def Let_def)
  ultimately show ?thesis
    using mc [of "demo_election ''1''"]
    by (auto simp: Election_AddPeer_def demo_election_def NewRaftNode_def propose_cap_def DefaultConfig_def)
qed

section \<open>The manager never learns who leads\<close>

text \<open>
  The steps of a running manager: its methods, the turns of its monitor, the timer, and the raft
  node's handling of arbitrary \<^verbatim>\<open>Ready\<close> values, whose messages to other nodes play no part
  here. \<^verbatim>\<open>becomeFollower\<close> is not called anywhere.
\<close>

inductive el_step :: "'c election_manager \<Rightarrow> 'c election_manager \<Rightarrow> bool" where
  el_ready: "raft_ready eh emp ac (rd :: ('c, unit) Ready) m = Return m' \<Longrightarrow> el_step m m'"
| el_monitor: "monitor_turn now m = Some m' \<Longrightarrow> el_step m m'"
| el_timer: "resetElectionTimer now rnd m = Return m' \<Longrightarrow> el_step m m'"
| el_append: "HandleAppendEntries now rnd l t m = Return (m', r) \<Longrightarrow> el_step m m'"
| el_change: "propose_change marshal choice typ p m = Some (m', e) \<Longrightarrow> el_step m m'"
| el_serve: "serveProposals m = Some (m', p) \<Longrightarrow> el_step m m'"
| el_stop: "Election_Stop m = Return m' \<Longrightarrow> el_step m m'"

definition el_blind :: "'c election_manager \<Rightarrow> bool" where
  "el_blind m \<longleftrightarrow> rn_leaderCh (em_raftNode m) = None \<and> em_currentLeader m = [] \<and>
     em_leaderChangeCh m = [] \<and> \<not> em_isLeader m \<and> em_currentTerm m = 0"

lemma handleReady_leaderCh:
  "handleReady eh emp ac rd rn = Return (rn', x) \<Longrightarrow> rn_leaderCh rn' = rn_leaderCh rn"
  by (auto simp: handleReady_def Let_def case_prod_unfold split: option.splits)

lemma el_blind_step:
  assumes "el_step m m'" "el_blind m"
  shows "el_blind m'"
  using assms
proof cases
  case (el_ready eh emp ac rd)
  with assms(2) show ?thesis
    by (auto simp: raft_ready_def el_blind_def handleReady_leaderCh split: outcome.splits)
next
  case (el_monitor t)
  with assms(2) show ?thesis by (simp add: monitor_turn_def LeaderCh_def el_blind_def)
next
  case (el_timer t rnd)
  with assms(2) show ?thesis by (auto simp: el_blind_def resetElectionTimer_def Let_def split: if_splits)
next
  case (el_append now rnd l t r)
  then obtain m1 where r: "resetElectionTimer now rnd (m\<lparr>em_lastHeartbeat := now\<rparr>) = Return m1" "m' = m1"
    by (auto simp: HandleAppendEntries_def split: outcome.splits)
  with assms(2) show ?thesis
    by (auto simp: el_blind_def resetElectionTimer_def Let_def split: if_splits)
next
  case (el_change ma ch ct p e)
  with assms(2) show ?thesis
    by (auto simp: propose_change_def el_blind_def split: sum.splits option.splits)
next
  case (el_serve p)
  with assms(2) show ?thesis by (auto simp: serveProposals_def el_blind_def split: list.splits)
next
  case el_stop
  with assms(2) show ?thesis
    by (auto simp: Election_Stop_def raft_Stop_def Let_def el_blind_def split: if_splits)
qed

lemma Election_NewManager_blind:
  "Election_NewManager start c0 now rnd cfg = Return (Inr m) \<Longrightarrow> el_blind m"
  by (auto simp: Election_NewManager_def Let_def resetElectionTimer_def el_blind_def NewRaftNode_def
      split: if_splits outcome.splits sum.splits option.splits)

inductive el_reachable :: "(etcd_Config \<Rightarrow> uint64 list \<Rightarrow> string option) \<Rightarrow> ElectionConfig \<Rightarrow>
    'c election_manager \<Rightarrow> bool" for start cfg where
  el_new: "Election_NewManager start c0 now rnd cfg = Return (Inr m) \<Longrightarrow> el_reachable start cfg m"
| el_next: "el_reachable start cfg m \<Longrightarrow> el_step m m' \<Longrightarrow> el_reachable start cfg m'"

text \<open>
  Whatever the raft library elects, the manager never learns it: in every reachable state no
  leader is known, nothing has been announced, the term it answers to a vote or append request is 0
  and a vote is never granted, although \<^verbatim>\<open>IsLeader\<close> follows the library.
\<close>

theorem election_never_learns_leader:
  assumes "el_reachable start cfg m"
  shows "Election_GetCurrentLeader m = [] \<and> em_leaderChangeCh m = [] \<and> snd (GetState m) = 0 \<and>
    HandleRequestVote c t m = (0, False) \<and> monitor_turn now m = None"
proof -
  have "el_blind m" using assms
    by (induction rule: el_reachable.induct) (auto intro: Election_NewManager_blind el_blind_step)
  then show ?thesis
    by (simp add: el_blind_def Election_GetCurrentLeader_def GetState_def HandleRequestVote_def
        monitor_turn_def LeaderCh_def)
qed

definition demo_cfg :: "NodeID \<Rightarrow> ElectionConfig" where
  "demo_cfg n = \<lparr>ec_NodeID = n, ec_ElectionTimeout = 0, ec_HeartbeatTimeout = 0, ec_PeerList = [n]\<rparr>"

lemma demo_election_new:
  "Election_NewManager (\<lambda>_ _. None) () 5 7 (demo_cfg ''1'') = Return (Inr (demo_election ''1''))"
  by (simp add: Election_NewManager_def demo_cfg_def with_defaults_def resetElectionTimer_def ParseUint_def
      is_digit_def demo_election_def Let_def not_le)

definition elected :: "(unit, unit) Ready" where
  "elected = (demo_ready [])\<lparr>rd_SoftState := Some True\<rparr>"

lemma demo_elected:
  "\<exists>m. raft_ready hs_zero sn_zero (\<lambda>_. None) elected (demo_election ''1'') = Return m \<and> Election_IsLeader m"
  by (auto simp: raft_ready_def elected_def demo_ready_def handleReady_def append_entries_def Let_def
      case_prod_unfold IsLeader_def Election_IsLeader_def)

theorem election_never_learns_leader_witness:
  "\<exists>m :: unit election_manager. el_reachable (\<lambda>_ _. None) (demo_cfg ''1'') m \<and> Election_IsLeader m \<and> Election_GetCurrentLeader m = []"
proof -
  obtain m where m: "raft_ready hs_zero sn_zero (\<lambda>_. None) elected (demo_election ''1'') = Return m"
    "Election_IsLeader m" using demo_elected by blast
  have r: "el_reachable (\<lambda>_ _. None) (demo_cfg ''1'') m"
    by (rule el_next [OF el_new [OF demo_election_new] el_ready [OF m(1)]])
  with election_never_learns_leader [OF r] m(2) show ?thesis by blast
qed

end
