(* ===== verification/ClusterMgr.thy ===== *)
theory ClusterMgr
  imports Election Heartbeat RebalanceMgr
begin

text \<open>
  The cluster manager, which owns the election, heartbeat and rebalance managers:
  \<^verbatim>\<open>internal/metaserver/core/cluster/manager.go\<close>.

  The state holds the three managers of the theories \<open>Election\<close>, \<open>Heartbeat\<close> and
  \<open>RebalanceMgr\<close>, the manager's view of the cluster (leader, last election, node table), the cache
  of node information, the channel of leader changes, and the goroutines started by
  \<^verbatim>\<open>onBecomeLeader\<close> that wait to trigger a rebalance. Every reading of the clock is an argument;
  a loop over the node states takes the visiting order with the readings of each iteration.

  The lemmas follow an event through the components: what the event loop does with a report of the
  heartbeat manager, when the cached answers agree with the components, that the leader never
  becomes known, and that the event loop and the heartbeat manager can wait for each other for ever.
\<close>

section \<open>State\<close>

record ClusterConfig =
  cc_NodeID :: string
  cc_Peers :: "string list"
  cc_ElectionTimeout :: duration
  cc_HeartbeatTimeout :: duration
  cc_HeartbeatInterval :: duration
  cc_SuspectTimeout :: duration
  cc_DeadTimeout :: duration
  cc_CleanupInterval :: duration
  cc_RebalanceEvaluationInterval :: duration
  cc_ImbalanceThreshold :: float64
  cc_MaxConcurrentMigrations :: int
  cc_MinMigrationInterval :: duration
  cc_MigrationTimeout :: duration

record 'c cluster_manager =
  cm_nodeID :: NodeID
  cm_isLeader :: bool
  cm_leaderChangeCh :: "string list"
  cm_leaderChangeCh_closed :: bool
  cm_nodes :: "NodeID \<rightharpoonup> NodeStatus"
  cm_leader :: string
  cm_lastElection :: gotime
  cm_nodeCache :: "NodeID \<rightharpoonup> NodeInfo \<times> gotime"
  cm_cacheTTL :: duration
  cm_electionMgr :: "'c election_manager"
  cm_heartbeatMgr :: hb_manager
  cm_rebalanceMgr :: rb_manager
  cm_cancelled :: bool
  cm_waiting :: "gotime list"

datatype cluster_error =
    ClusterNodeIDEmpty
  | ElectionSetup election_error
  | PeerRemoval election_error
  | PeerAddition election_error
  | Interrupted string
  | UnknownNode string
  | NoLeader

section \<open>Construction\<close>

definition election_cfg :: "ClusterConfig \<Rightarrow> ElectionConfig" where
  "election_cfg cfg =
     \<lparr>ec_NodeID = cc_NodeID cfg, ec_ElectionTimeout = cc_ElectionTimeout cfg,
      ec_HeartbeatTimeout = cc_HeartbeatTimeout cfg, ec_PeerList = cc_Peers cfg\<rparr>"

text \<open>The cleanup interval of the configuration is not handed on.\<close>

definition heartbeat_cfg :: "ClusterConfig \<Rightarrow> HeartbeatConfig" where
  "heartbeat_cfg cfg =
     \<lparr>hb_NodeID = cc_NodeID cfg, hb_HeartbeatInterval = cc_HeartbeatInterval cfg,
      hb_SuspectTimeout = cc_SuspectTimeout cfg, hb_DeadTimeout = cc_DeadTimeout cfg,
      hb_CleanupInterval = 0\<rparr>"

definition rebalance_cfg :: "ClusterConfig \<Rightarrow> LoadBalancerConfig" where
  "rebalance_cfg cfg =
     \<lparr>lb_EvaluationInterval = cc_RebalanceEvaluationInterval cfg,
      lb_ImbalanceThreshold = cc_ImbalanceThreshold cfg,
      lb_MaxConcurrentMigrations = cc_MaxConcurrentMigrations cfg,
      lb_MinMigrationInterval = cc_MinMigrationInterval cfg, lb_MigrationTimeout = cc_MigrationTimeout cfg\<rparr>"

definition Cluster_NewManager ::
  "(etcd_Config \<Rightarrow> 64 word list \<Rightarrow> string option) \<Rightarrow> 'c \<Rightarrow> gotime \<Rightarrow> int \<Rightarrow> ClusterConfig \<Rightarrow>
   (cluster_error + 'c cluster_manager) outcome" where
  "Cluster_NewManager start empty_conf now rnd cfg =
     (if cc_NodeID cfg = [] then Return (Inl ClusterNodeIDEmpty)
      else case Election_NewManager start empty_conf now rnd (election_cfg cfg) of
        Panic why \<Rightarrow> Panic why
      | Return (Inl e) \<Rightarrow> Return (Inl (ElectionSetup e))
      | Return (Inr electionMgr) \<Rightarrow>
          let heartbeatMgr = Heartbeat_NewManager (heartbeat_cfg cfg)
          in case Rebalance_NewManager (Some (rebalance_cfg cfg)) of
               Panic why \<Rightarrow> Panic why
             | Return rebalanceMgr \<Rightarrow>
                 Return (Inr
                   \<lparr>cm_nodeID = cc_NodeID cfg, cm_isLeader = False, cm_leaderChangeCh = [],
                    cm_leaderChangeCh_closed = False, cm_nodes = Map.empty, cm_leader = [],
                    cm_lastElection = zero_time, cm_nodeCache = Map.empty, cm_cacheTTL = 10 * Second,
                    cm_electionMgr = electionMgr, cm_heartbeatMgr = heartbeatMgr,
                    cm_rebalanceMgr = rebalanceMgr, cm_cancelled = False, cm_waiting = []\<rparr>))"

section \<open>Operations\<close>

definition Cluster_IsLeader :: "'c cluster_manager \<Rightarrow> bool" where
  "Cluster_IsLeader m = Election_IsLeader (cm_electionMgr m)"

definition Cluster_GetCurrentLeader :: "'c cluster_manager \<Rightarrow> string" where
  "Cluster_GetCurrentLeader m =
     (if cm_leader m \<noteq> [] then cm_leader m else Election_GetCurrentLeader (cm_electionMgr m))"

definition Cluster_RegisterNode :: "gotime \<Rightarrow> NodeID \<Rightarrow> 'c cluster_manager \<Rightarrow> 'c cluster_manager" where
  "Cluster_RegisterNode now nodeID m =
     m\<lparr>cm_heartbeatMgr := RegisterNode now nodeID (cm_heartbeatMgr m)\<rparr>"

definition Cluster_UnregisterNode :: "NodeID \<Rightarrow> 'c cluster_manager \<Rightarrow> 'c cluster_manager" where
  "Cluster_UnregisterNode nodeID m =
     m\<lparr>cm_heartbeatMgr := UnregisterNode nodeID (cm_heartbeatMgr m),
       cm_nodeCache := (cm_nodeCache m)(nodeID := None)\<rparr>"

text \<open>None: the call waits for room in the queue of proposals.\<close>

definition Cluster_AddPeer ::
  "(ConfChangeType \<Rightarrow> 64 word \<Rightarrow> string + bytes) \<Rightarrow> bool \<Rightarrow> NodeID \<Rightarrow> 'c cluster_manager \<Rightarrow>
   ('c cluster_manager \<times> cluster_error option) option" where
  "Cluster_AddPeer marshal choice peerID m =
     (case Election_AddPeer marshal choice peerID (cm_electionMgr m) of
        None \<Rightarrow> None
      | Some (e, err) \<Rightarrow> Some (m\<lparr>cm_electionMgr := e\<rparr>, map_option PeerAddition err))"

definition Cluster_RemovePeer ::
  "(ConfChangeType \<Rightarrow> 64 word \<Rightarrow> string + bytes) \<Rightarrow> bool \<Rightarrow> NodeID \<Rightarrow> 'c cluster_manager \<Rightarrow>
   ('c cluster_manager \<times> cluster_error option) option" where
  "Cluster_RemovePeer marshal choice peerID m =
     (case Election_RemovePeer marshal choice peerID (cm_electionMgr m) of
        None \<Rightarrow> None
      | Some (e, Some err) \<Rightarrow> Some (m\<lparr>cm_electionMgr := e\<rparr>, Some (PeerRemoval err))
      | Some (e, None) \<Rightarrow> Some (Cluster_UnregisterNode peerID (m\<lparr>cm_electionMgr := e\<rparr>), None))"

definition Cluster_TriggerRebalance :: "'c cluster_manager \<Rightarrow> 'c cluster_manager" where
  "Cluster_TriggerRebalance m =
     (if \<not> Cluster_IsLeader m then m
      else m\<lparr>cm_rebalanceMgr := TriggerRebalance (cm_rebalanceMgr m)\<rparr>)"

definition Cluster_UpdateNodeMetrics ::
  "NodeID \<Rightarrow> NodeMetrics \<Rightarrow> 'c cluster_manager \<Rightarrow> 'c cluster_manager" where
  "Cluster_UpdateNodeMetrics nodeID metrics m =
     m\<lparr>cm_rebalanceMgr := Rebalance_UpdateNodeMetrics nodeID metrics (cm_rebalanceMgr m),
       cm_nodeCache := (cm_nodeCache m)(nodeID := None)\<rparr>"

text \<open>\<^verbatim>\<open>onBecomeLeader\<close> starts a goroutine that waits five seconds; then \<open>become_leader_timer\<close> runs.\<close>

definition onBecomeLeader :: "gotime \<Rightarrow> 'c cluster_manager \<Rightarrow> 'c cluster_manager" where
  "onBecomeLeader now m = m\<lparr>cm_waiting := cm_waiting m @ [now + 5 * Second]\<rparr>"

definition become_leader_timer :: "'c cluster_manager \<Rightarrow> 'c cluster_manager option" where
  "become_leader_timer m =
     (case cm_waiting m of
        [] \<Rightarrow> None
      | _ # rest \<Rightarrow>
          let m = m\<lparr>cm_waiting := rest\<rparr>
          in Some (if Cluster_IsLeader m then Cluster_TriggerRebalance m else m))"

text \<open>
  \<^verbatim>\<open>handleLeaderChange\<close>; a send on a closed channel panics, also in a \<^verbatim>\<open>select\<close>. \<open>now2\<close> is
  the start of the goroutine.
\<close>

definition handleLeaderChange ::
  "gotime \<Rightarrow> gotime \<Rightarrow> string \<Rightarrow> 'c cluster_manager \<Rightarrow> 'c cluster_manager outcome" where
  "handleLeaderChange now now2 leaderID m =
     (let oldIsLeader = cm_isLeader m;
          m = m\<lparr>cm_isLeader := (leaderID = cm_nodeID m)\<rparr>;
          m = m\<lparr>cm_leader := leaderID, cm_lastElection := now\<rparr>
      in if cm_leaderChangeCh_closed m then Panic ''send on closed channel''
         else
           let m = m\<lparr>cm_leaderChangeCh := fst (try_send 10 leaderID (cm_leaderChangeCh m))\<rparr>;
               m = (if \<not> oldIsLeader \<and> cm_isLeader m then onBecomeLeader now2 m else m)
           in Return (m\<lparr>cm_nodeCache := Map.empty\<rparr>))"

definition isPeerActive :: "NodeID \<Rightarrow> 'c cluster_manager \<Rightarrow> bool" where
  "isPeerActive nodeID m = False"

definition handleNodeStateChange ::
  "(ConfChangeType \<Rightarrow> 64 word \<Rightarrow> string + bytes) \<Rightarrow> bool \<Rightarrow> StateChange \<Rightarrow> 'c cluster_manager \<Rightarrow>
   'c cluster_manager option" where
  "handleNodeStateChange marshal choice change m =
     (let m = m\<lparr>cm_nodes := (cm_nodes m)(sc_NodeID change \<mapsto> sc_State change)\<rparr>;
          m = m\<lparr>cm_nodeCache := (cm_nodeCache m)(sc_NodeID change := None)\<rparr>
      in case sc_State change of
           NodeStatusDead \<Rightarrow>
             (if Cluster_IsLeader m
              then map_option fst (Cluster_RemovePeer marshal choice (sc_NodeID change) m)
              else Some m)
         | NodeStatusHealthy \<Rightarrow>
             (if Cluster_IsLeader m \<and> \<not> isPeerActive (sc_NodeID change) m
              then map_option fst (Cluster_AddPeer marshal choice (sc_NodeID change) m)
              else Some m)
         | _ \<Rightarrow> Some m)"

text \<open>The turn of the event loop on the election manager's channel.\<close>

definition leader_turn :: "gotime \<Rightarrow> gotime \<Rightarrow> 'c cluster_manager \<Rightarrow> 'c cluster_manager outcome option" where
  "leader_turn now now2 m =
     (case em_leaderChangeCh (cm_electionMgr m) of
        [] \<Rightarrow> None
      | l # ls \<Rightarrow>
          Some (handleLeaderChange now now2 l
            (m\<lparr>cm_electionMgr := (cm_electionMgr m)\<lparr>em_leaderChangeCh := ls\<rparr>\<rparr>)))"

text \<open>\<^verbatim>\<open>Stop\<close>: whether the event loop has ended in time does not change what is closed.\<close>

definition Cluster_Stop :: "'c cluster_manager \<Rightarrow> 'c cluster_manager outcome" where
  "Cluster_Stop m =
     (let m = m\<lparr>cm_cancelled := True\<rparr>
      in if cm_leaderChangeCh_closed m then Panic ''close of closed channel''
         else
           let m = m\<lparr>cm_leaderChangeCh_closed := True\<rparr>
           in case Election_Stop (cm_electionMgr m) of
                Panic why \<Rightarrow> Panic why
              | Return e \<Rightarrow> Return (m\<lparr>cm_electionMgr := e\<rparr>))"

section \<open>Node information\<close>

definition getCachedNodeInfo :: "gotime \<Rightarrow> NodeID \<Rightarrow> 'c cluster_manager \<Rightarrow> NodeInfo option" where
  "getCachedNodeInfo now nodeID m =
     (case cm_nodeCache m nodeID of
        Some (info, timestamp) \<Rightarrow> if now - timestamp < cm_cacheTTL m then Some info else None
      | None \<Rightarrow> None)"

definition updateNodeInfoCache ::
  "gotime \<Rightarrow> NodeID \<Rightarrow> NodeInfo \<Rightarrow> 'c cluster_manager \<Rightarrow> 'c cluster_manager" where
  "updateNodeInfoCache now nodeID info m =
     m\<lparr>cm_nodeCache := (cm_nodeCache m)(nodeID \<mapsto> (info, now))\<rparr>"

definition buildNodeInfo :: "gotime \<Rightarrow> NodeID \<Rightarrow> NodeStatus \<Rightarrow> string \<Rightarrow> NodeInfo" where
  "buildNodeInfo now nodeID state leaderID =
     \<lparr>ni_NodeID = nodeID, ni_Address = nodeID, ni_Status = state, ni_IsLeader = (nodeID = leaderID),
      ni_JoinTime = 0, ni_LastSeen = now div Second, ni_Metrics = None\<rparr>"

definition addMetricsToNodeInfo :: "'c cluster_manager \<Rightarrow> NodeID \<Rightarrow> NodeInfo \<Rightarrow> NodeInfo" where
  "addMetricsToNodeInfo m nodeID info =
     (case Rebalance_GetNodeMetrics (cm_rebalanceMgr m) nodeID of
        None \<Rightarrow> info
      | Some metrics \<Rightarrow> info\<lparr>ni_Metrics := Some metrics\<rparr>)"

text \<open>
  The three readings of the clock: the age of the cached value, the time last seen, and the time
  of the new cached value.
\<close>

type_synonym readings = "gotime \<times> gotime \<times> gotime"

fun list_loop ::
  "(NodeID \<rightharpoonup> NodeStatus) \<Rightarrow> string \<Rightarrow> (NodeID \<times> readings) list \<Rightarrow> 'c cluster_manager \<Rightarrow>
   'c cluster_manager \<times> NodeInfo list" where
  "list_loop states leaderID [] m = (m, [])"
| "list_loop states leaderID ((n, t1, t2, t3) # ks) m =
     (case getCachedNodeInfo t1 n m of
        Some info \<Rightarrow> (let (m', nodes) = list_loop states leaderID ks m in (m', info # nodes))
      | None \<Rightarrow>
          let state = (case states n of Some s \<Rightarrow> s | None \<Rightarrow> NodeStatusUnknown);
              nodeInfo = addMetricsToNodeInfo m n (buildNodeInfo t2 n state leaderID);
              (m', nodes) = list_loop states leaderID ks (updateNodeInfoCache t3 n nodeInfo m)
          in (m', nodeInfo # nodes))"

definition ListNodes ::
  "string option \<Rightarrow> (NodeID \<times> readings) list \<Rightarrow> 'c cluster_manager \<Rightarrow>
   'c cluster_manager \<times> (cluster_error + NodeInfo list)" where
  "ListNodes ctx_err ks m =
     (case ctx_err of
        Some e \<Rightarrow> (m, Inl (Interrupted e))
      | None \<Rightarrow>
          let nodeStates = GetAllNodeStates (cm_heartbeatMgr m);
              leaderID = Cluster_GetCurrentLeader m;
              (m', nodes) = list_loop nodeStates leaderID ks m
          in (m', Inr nodes))"

definition GetNodeInfo ::
  "string option \<Rightarrow> readings \<Rightarrow> NodeID \<Rightarrow> 'c cluster_manager \<Rightarrow> 'c cluster_manager \<times> (cluster_error + NodeInfo)" where
  "GetNodeInfo ctx_err ts nodeID m =
     (case ts of (t1, t2, t3) \<Rightarrow>
      case ctx_err of
        Some e \<Rightarrow> (m, Inl (Interrupted e))
      | None \<Rightarrow>
          (case getCachedNodeInfo t1 nodeID m of
             Some info \<Rightarrow> (m, Inr info)
           | None \<Rightarrow>
               let leaderID = Cluster_GetCurrentLeader m;
                   nodeStatus = GetNodeState (cm_heartbeatMgr m) nodeID
               in if nodeStatus = NodeStatusUnknown then (m, Inl (UnknownNode nodeID))
                  else
                    let nodeInfo = addMetricsToNodeInfo m nodeID (buildNodeInfo t2 nodeID nodeStatus leaderID)
                    in (updateNodeInfoCache t3 nodeID nodeInfo m, Inr nodeInfo)))"

definition GetLeader ::
  "string option \<Rightarrow> readings \<Rightarrow> 'c cluster_manager \<Rightarrow> 'c cluster_manager \<times> (cluster_error + NodeInfo)" where
  "GetLeader ctx_err ts m =
     (let leaderID = Cluster_GetCurrentLeader m
      in if leaderID = [] then (m, Inl NoLeader) else GetNodeInfo ctx_err ts leaderID m)"

definition GetNodeCount :: "'c cluster_manager \<Rightarrow> nat" where
  "GetNodeCount m = card (dom (GetAllNodeStates (cm_heartbeatMgr m)))"

definition GetHealthyNodeCount :: "NodeID list \<Rightarrow> 'c cluster_manager \<Rightarrow> nat" where
  "GetHealthyNodeCount ks m =
     length (filter (\<lambda>n. GetAllNodeStates (cm_heartbeatMgr m) n = Some NodeStatusHealthy) ks)"

definition LastElectionTime :: "gotime \<Rightarrow> 'c cluster_manager \<Rightarrow> gotime" where
  "LastElectionTime now m = (if \<not> IsZero (cm_lastElection m) then cm_lastElection m else now)"

section \<open>The cache of node information\<close>

text \<open>Every cached entry is about its node and marks the leader as known now.\<close>

definition cache_ok :: "'c cluster_manager \<Rightarrow> bool" where
  "cache_ok m \<longleftrightarrow> (\<forall>n info t. cm_nodeCache m n = Some (info, t) \<longrightarrow>
     ni_NodeID info = n \<and> ni_IsLeader info = (n = Cluster_GetCurrentLeader m))"

lemma cache_okD:
  "cache_ok m \<Longrightarrow> cm_nodeCache m n = Some (info, t) \<Longrightarrow>
   ni_NodeID info = n \<and> ni_IsLeader info = (n = Cluster_GetCurrentLeader m)"
  unfolding cache_ok_def by blast

lemma cached_ok:
  "cache_ok m \<Longrightarrow> getCachedNodeInfo t n m = Some info \<Longrightarrow>
   ni_NodeID info = n \<and> ni_IsLeader info = (n = Cluster_GetCurrentLeader m) \<and>
   (\<exists>t0. cm_nodeCache m n = Some (info, t0) \<and> t - t0 < cm_cacheTTL m)"
  by (auto simp: getCachedNodeInfo_def cache_okD split: option.splits if_splits)

lemma addMetrics_frame [simp]:
  "ni_NodeID (addMetricsToNodeInfo m n i) = ni_NodeID i"
  "ni_IsLeader (addMetricsToNodeInfo m n i) = ni_IsLeader i"
  "ni_Status (addMetricsToNodeInfo m n i) = ni_Status i"
  by (simp_all add: addMetricsToNodeInfo_def split: option.split)

lemma build_fields [simp]:
  "ni_NodeID (buildNodeInfo t n st l) = n"
  "ni_IsLeader (buildNodeInfo t n st l) = (n = l)"
  "ni_Status (buildNodeInfo t n st l) = st"
  "ni_Metrics (buildNodeInfo t n st l) = None"
  by (simp_all add: buildNodeInfo_def)

lemma update_leader [simp]:
  "Cluster_GetCurrentLeader (updateNodeInfoCache t n i m) = Cluster_GetCurrentLeader m"
  by (simp add: updateNodeInfoCache_def Cluster_GetCurrentLeader_def)

lemma cache_ok_update:
  "cache_ok m \<Longrightarrow> ni_NodeID i = n \<Longrightarrow> ni_IsLeader i = (n = Cluster_GetCurrentLeader m) \<Longrightarrow>
   cache_ok (updateNodeInfoCache t n i m)"
  by (auto simp: cache_ok_def updateNodeInfoCache_def Cluster_GetCurrentLeader_def)

lemma cache_ok_forget:
  "cache_ok m \<Longrightarrow> cache_ok (m\<lparr>cm_nodeCache := (cm_nodeCache m)(n := None)\<rparr>)"
  by (auto simp: cache_ok_def Cluster_GetCurrentLeader_def)

lemma list_loop_frame:
  "list_loop states l ks m = (m', nodes) \<Longrightarrow> m' = m\<lparr>cm_nodeCache := cm_nodeCache m'\<rparr>"
proof (induction ks arbitrary: m nodes)
  case (Cons k ks)
  obtain n t1 t2 t3 where k: "k = (n, t1, t2, t3)" by (cases k)
  from Cons.prems Cons.IH show ?case
    by (fastforce simp: k Let_def updateNodeInfoCache_def split: option.splits prod.splits)
qed auto

lemma list_loop_spec:
  assumes "cache_ok m" "l = Cluster_GetCurrentLeader m" "list_loop states l ks m = (m', nodes)"
    and "distinct (map fst ks)"
  shows "cache_ok m' \<and> map ni_NodeID nodes = map fst ks \<and>
    (\<forall>info \<in> set nodes. ni_IsLeader info = (ni_NodeID info = l) \<and>
       ((\<exists>t0. cm_nodeCache m (ni_NodeID info) = Some (info, t0)) \<or>
        ni_Status info = (case states (ni_NodeID info) of Some s \<Rightarrow> s | None \<Rightarrow> NodeStatusUnknown)))"
  using assms
proof (induction ks arbitrary: m m' nodes)
  case (Cons k ks)
  obtain n t1 t2 t3 where k: "k = (n, t1, t2, t3)" by (cases k)
  show ?case
  proof (cases "getCachedNodeInfo t1 n m")
    case (Some info)
    then obtain ns where "list_loop states l ks m = (m', ns)" "nodes = info # ns"
      using Cons.prems(3) by (auto simp: k split: prod.splits)
    with Cons.IH [of m m' ns] Cons.prems cached_ok [OF Cons.prems(1) Some] show ?thesis
      by (auto simp: k)
  next
    case None
    define i where "i = addMetricsToNodeInfo m n
      (buildNodeInfo t2 n (case states n of Some s \<Rightarrow> s | None \<Rightarrow> NodeStatusUnknown) l)"
    let ?m = "updateNodeInfoCache t3 n i m"
    obtain ns where ns: "list_loop states l ks ?m = (m', ns)" "nodes = i # ns"
      using Cons.prems(3) None by (auto simp: k Let_def i_def split: prod.splits)
    have ok: "cache_ok ?m" by (rule cache_ok_update) (use Cons.prems(1,2) in \<open>simp_all add: i_def\<close>)
    have IH: "cache_ok m' \<and> map ni_NodeID ns = map fst ks \<and>
      (\<forall>info \<in> set ns. ni_IsLeader info = (ni_NodeID info = l) \<and>
       ((\<exists>t0. cm_nodeCache ?m (ni_NodeID info) = Some (info, t0)) \<or>
        ni_Status info = (case states (ni_NodeID info) of Some s \<Rightarrow> s | None \<Rightarrow> NodeStatusUnknown)))"
      using Cons.IH [OF ok _ ns(1)] Cons.prems(2,4) by (simp add: k)
    have notin: "ni_NodeID info \<noteq> n" if "info \<in> set ns" for info
    proof -
      have "ni_NodeID info \<in> set (map ni_NodeID ns)" using that by simp
      then have "ni_NodeID info \<in> set (map fst ks)" using IH by simp
      then show ?thesis using Cons.prems(4) by (auto simp: k)
    qed
    then show ?thesis using IH by (auto simp: ns(2) k i_def updateNodeInfoCache_def)
  qed
qed simp

text \<open>A cluster of nodes \<^verbatim>\<open>1\<close> (this one) and \<^verbatim>\<open>2\<close>, for concrete runs.\<close>

definition demo_ccfg :: ClusterConfig where
  "demo_ccfg = \<lparr>cc_NodeID = ''1'', cc_Peers = [''1''], cc_ElectionTimeout = 0, cc_HeartbeatTimeout = 0,
     cc_HeartbeatInterval = 0, cc_SuspectTimeout = 0, cc_DeadTimeout = 0, cc_CleanupInterval = 7,
     cc_RebalanceEvaluationInterval = 0, cc_ImbalanceThreshold = 20, cc_MaxConcurrentMigrations = 5,
     cc_MinMigrationInterval = 0, cc_MigrationTimeout = 0\<rparr>"

definition demo_rebalance :: rb_manager where
  "demo_rebalance = \<lparr>rm_cfg = (rebalance_cfg demo_ccfg)\<lparr>lb_EvaluationInterval := 30 * Second\<rparr>,
     rm_metricCollector = NewMetricCollector,
     rm_strategy = WeightedScore (NewWeightedScoreStrategy (4 / 10) (2 / 10) (2 / 10) (2 / 10)),
     rm_migrator = NewMigrator 5, rm_lastRebalance = zero_time, rm_isRebalancing = False,
     rm_triggerCh = [], rm_nodeMetrics = Map.empty\<rparr>"

definition cm_demo0 :: "unit cluster_manager" where
  "cm_demo0 =
     \<lparr>cm_nodeID = ''1'', cm_isLeader = False, cm_leaderChangeCh = [], cm_leaderChangeCh_closed = False,
      cm_nodes = Map.empty, cm_leader = [], cm_lastElection = zero_time, cm_nodeCache = Map.empty,
      cm_cacheTTL = 10 * Second, cm_electionMgr = demo_election ''1'',
      cm_heartbeatMgr = Heartbeat_NewManager (heartbeat_cfg demo_ccfg), cm_rebalanceMgr = demo_rebalance,
      cm_cancelled = False, cm_waiting = []\<rparr>"

lemma cm_demo_new:
  "Cluster_NewManager (\<lambda>_ _. None) () 5 7 demo_ccfg = Return (Inr cm_demo0)"
proof -
  have "election_cfg demo_ccfg = demo_cfg ''1''" by (simp add: election_cfg_def demo_ccfg_def demo_cfg_def)
  then have "Election_NewManager (\<lambda>_ _. None) () 5 7 (election_cfg demo_ccfg) = Return (Inr (demo_election ''1''))"
    by (simp add: demo_election_new)
  moreover have "Rebalance_NewManager (Some (rebalance_cfg demo_ccfg)) = Return demo_rebalance"
    by (simp add: Rebalance_NewManager_def demo_rebalance_def rebalance_cfg_def demo_ccfg_def Let_def)
  ultimately show ?thesis
    by (simp add: Cluster_NewManager_def cm_demo0_def Let_def) (simp add: demo_ccfg_def)
qed

definition cm_demo :: "unit cluster_manager" where
  "cm_demo = Cluster_RegisterNode 6 ''2'' cm_demo0"

lemma cm_demo_simps [simp]:
  "cm_nodeCache cm_demo = Map.empty" "\<not> cm_leaderChangeCh_closed cm_demo"
  "cm_nodeID cm_demo = ''1''" "cm_leaderChangeCh cm_demo = []" "\<not> cm_isLeader cm_demo"
  "cm_waiting cm_demo = []" "cm_electionMgr cm_demo = demo_election ''1''"
  "hm_nodeStates (cm_heartbeatMgr cm_demo) = [''2'' \<mapsto> fresh_node ''2'' 6]"
  by (simp_all add: cm_demo_def cm_demo0_def Cluster_RegisterNode_def RegisterNode_def
      Heartbeat_NewManager_def Let_def)

lemma cm_demo_cache: "cache_ok cm_demo"
  by (simp add: cache_ok_def)

section \<open>Properties\<close>

text \<open>
  Listing the nodes returns exactly the registered nodes, each once, in the order of the loop;
  exactly the node known as leader is marked, and a status is the one the heartbeat manager has now
  unless the entry comes from the cache. The cache keeps this agreement.
\<close>

theorem ListNodes_outcome:
  assumes "cache_ok m" "enumerates (map fst ks) (hm_nodeStates (cm_heartbeatMgr m))"
    and "ListNodes None ks m = (m', r)"
  shows "\<exists>nodes. r = Inr nodes \<and> map ni_NodeID nodes = map fst ks \<and> cache_ok m' \<and>
    set (map ni_NodeID nodes) = dom (hm_nodeStates (cm_heartbeatMgr m)) \<and>
    length nodes = GetNodeCount m \<and>
    (\<forall>info \<in> set nodes. ni_IsLeader info = (ni_NodeID info = Cluster_GetCurrentLeader m) \<and>
       (cm_nodeCache m (ni_NodeID info) = None \<longrightarrow>
        ni_Status info = GetNodeState (cm_heartbeatMgr m) (ni_NodeID info)))"
proof -
  let ?st = "GetAllNodeStates (cm_heartbeatMgr m)"
  obtain nodes where l: "list_loop ?st (Cluster_GetCurrentLeader m) ks m = (m', nodes)" "r = Inr nodes"
    using assms(3) by (auto simp: ListNodes_def Let_def split: prod.splits)
  note sp = list_loop_spec [OF assms(1) refl l(1) enumeratesD(1) [OF assms(2)]]
  have dom: "set (map fst ks) = dom (hm_nodeStates (cm_heartbeatMgr m))" by (rule enumeratesD(2) [OF assms(2)])
  have len: "length nodes = length (map fst ks)" using sp by (metis length_map)
  have cnt: "length (map fst ks) = GetNodeCount m"
    using enumerates_length [OF assms(2)] by (simp add: GetNodeCount_def GetAllNodeStates_def)
  have stat: "(case ?st n of Some s \<Rightarrow> s | None \<Rightarrow> NodeStatusUnknown) = GetNodeState (cm_heartbeatMgr m) n" for n
    by (simp add: GetAllNodeStates_def GetNodeState_def split: option.split)
  show ?thesis
    using sp l(2) dom len cnt by (intro exI [of _ nodes]) (auto simp: stat)
qed

theorem ListNodes_outcome_witness:
  "\<exists>nodes. snd (ListNodes None [(''2'', 7, 7, 7)] cm_demo) = Inr nodes \<and> map ni_NodeID nodes = [''2''] \<and>
     length nodes = GetNodeCount cm_demo"
proof -
  have e: "enumerates (map fst [(''2'', 7, 7, 7 :: gotime)]) (hm_nodeStates (cm_heartbeatMgr cm_demo))"
    by (simp add: enumerates_def)
  from ListNodes_outcome [OF cm_demo_cache e surjective_pairing] obtain nodes
    where "snd (ListNodes None [(''2'', 7, 7, 7)] cm_demo) = Inr nodes"
      "map ni_NodeID nodes = map fst [(''2'', 7 :: gotime, 7 :: gotime, 7 :: gotime)]"
      "length nodes = GetNodeCount cm_demo" by blast
  then show ?thesis by simp
qed

lemma GetNodeInfo_ok:
  assumes "cache_ok m" "GetNodeInfo c ts n m = (m', Inr info)"
  shows "cache_ok m' \<and> ni_NodeID info = n \<and> ni_IsLeader info = (n = Cluster_GetCurrentLeader m) \<and>
    m' = m\<lparr>cm_nodeCache := cm_nodeCache m'\<rparr> \<and>
    (m' = m \<and> (\<exists>t0. cm_nodeCache m n = Some (info, t0) \<and> fst ts - t0 < cm_cacheTTL m) \<or>
     ni_Status info = GetNodeState (cm_heartbeatMgr m) n \<and> ni_Status info \<noteq> NodeStatusUnknown)"
proof -
  obtain t1 t2 t3 where ts: "ts = (t1, t2, t3)" by (cases ts)
  show ?thesis
  proof (cases "getCachedNodeInfo t1 n m")
    case (Some i)
    with assms cached_ok [OF assms(1) Some] show ?thesis
      by (auto simp: GetNodeInfo_def ts split: option.splits)
  next
    case None
    let ?i = "addMetricsToNodeInfo m n (buildNodeInfo t2 n (GetNodeState (cm_heartbeatMgr m) n) (Cluster_GetCurrentLeader m))"
    have "m' = updateNodeInfoCache t3 n ?i m" "info = ?i" "GetNodeState (cm_heartbeatMgr m) n \<noteq> NodeStatusUnknown"
      using assms(2) None by (auto simp: GetNodeInfo_def ts Let_def split: option.splits if_splits)
    moreover have "cache_ok (updateNodeInfoCache t3 n ?i m)"
      by (rule cache_ok_update) (use assms(1) in simp_all)
    ultimately show ?thesis by (simp add: updateNodeInfoCache_def)
  qed
qed

text \<open>
  A leader change reaches every later answer: it is forwarded while the channel of ten has room,
  the rebalance is scheduled exactly when this node becomes leader, and the node information given
  out afterwards marks exactly the new leader.
\<close>

theorem leader_change_takes_effect:
  assumes "\<not> cm_leaderChangeCh_closed m" "l \<noteq> []"
  shows "\<exists>m'. handleLeaderChange now now2 l m = Return m' \<and> Cluster_GetCurrentLeader m' = l \<and>
    cm_leaderChangeCh m' = (if length (cm_leaderChangeCh m) < 10 then cm_leaderChangeCh m @ [l] else cm_leaderChangeCh m) \<and>
    cm_isLeader m' = (l = cm_nodeID m) \<and>
    cm_waiting m' = cm_waiting m @ (if l = cm_nodeID m \<and> \<not> cm_isLeader m then [now2 + 5 * Second] else []) \<and>
    (\<forall>c ts n m2 info. GetNodeInfo c ts n m' = (m2, Inr info) \<longrightarrow> ni_IsLeader info = (n = l))"
proof -
  obtain m' where h: "handleLeaderChange now now2 l m = Return m'" "cm_leader m' = l" "cm_nodeCache m' = Map.empty"
    "cm_leaderChangeCh m' = fst (try_send 10 l (cm_leaderChangeCh m))" "cm_isLeader m' = (l = cm_nodeID m)"
    "cm_waiting m' = cm_waiting m @ (if l = cm_nodeID m \<and> \<not> cm_isLeader m then [now2 + 5 * Second] else [])"
    using assms(1) by (simp add: handleLeaderChange_def Let_def onBecomeLeader_def)
  have f: "Cluster_GetCurrentLeader m' = l" "cache_ok m'"
    using h(2,3) assms(2) by (simp_all add: Cluster_GetCurrentLeader_def cache_ok_def)
  have "ni_IsLeader info = (n = l)" if "GetNodeInfo c ts n m' = (m2, Inr info)" for c ts n m2 info
    using GetNodeInfo_ok [OF f(2) that] f(1) by simp
  with h f(1) show ?thesis by (intro exI [of _ m']) (simp add: try_send_fst)
qed

theorem leader_change_takes_effect_witness:
  "\<exists>m'. handleLeaderChange 8 9 ''1'' cm_demo = Return m' \<and> cm_leaderChangeCh m' = [''1''] \<and>
     cm_waiting m' = [9 + 5 * Second]"
  using leader_change_takes_effect [of cm_demo "''1''" 8 9] by auto

text \<open>
  Stopping while the event loop is still at work: after \<^verbatim>\<open>Stop\<close> has closed the channel, which it
  does even when it gave up waiting for the event loop, a leader change still being handled panics,
  and so does a second \<^verbatim>\<open>Stop\<close>.
\<close>

theorem stop_races_with_event_loop:
  assumes "Cluster_Stop m = Return m'"
  shows "handleLeaderChange now now2 l m' = Panic ''send on closed channel'' \<and>
    Cluster_Stop m' = Panic ''close of closed channel''"
  using assms
  by (auto simp: Cluster_Stop_def handleLeaderChange_def Let_def split: if_splits outcome.splits)

theorem stop_races_with_event_loop_witness:
  "\<exists>m'. Cluster_Stop cm_demo = Return m' \<and> handleLeaderChange 8 9 ''1'' m' = Panic ''send on closed channel''"
proof -
  obtain m' where m': "Cluster_Stop cm_demo = Return m'"
    by (simp add: Cluster_Stop_def Election_Stop_def demo_election_def Let_def)
  from stop_races_with_event_loop [OF m', of 8 9 "''1''"] m' show ?thesis by blast
qed

text \<open>
  Losing a member: when this node leads and a node is reported dead, the node leaves the table of
  the heartbeat manager and the cache and its removal is proposed, provided its identifier is a
  number and the raft node runs with room for proposals. A node whose identifier is not a number
  stays registered. On a node that does not lead, only the view and the cache change.
\<close>

theorem dead_node_is_removed:
  assumes "sc_State change = NodeStatusDead" "sc_NodeID change = n"
    and "\<And>i. \<exists>data. marshal ConfChangeRemoveNode i = Inr data"
    and "\<not> rn_stopped (em_raftNode (cm_electionMgr m))" "length (em_proposeC (cm_electionMgr m)) < propose_cap"
  shows "\<exists>m'. handleNodeStateChange marshal choice change m = Some m' \<and>
    cm_nodes m' n = Some NodeStatusDead \<and> cm_nodeCache m' n = None \<and>
    GetNodeState (cm_heartbeatMgr m') n =
      (if Cluster_IsLeader m \<and> (\<exists>i. ParseUint n = Inr i) then NodeStatusUnknown
       else GetNodeState (cm_heartbeatMgr m) n) \<and>
    (\<exists>data. em_proposeC (cm_electionMgr m') = em_proposeC (cm_electionMgr m) @
       (if Cluster_IsLeader m \<and> (\<exists>i. ParseUint n = Inr i) then [data] else []))"
proof -
  let ?m = "m\<lparr>cm_nodes := (cm_nodes m)(n \<mapsto> NodeStatusDead), cm_nodeCache := (cm_nodeCache m)(n := None)\<rparr>"
  have red: "handleNodeStateChange marshal choice change m =
      (if Cluster_IsLeader m then map_option fst (Cluster_RemovePeer marshal choice n ?m) else Some ?m)"
    using assms(1,2) by (simp add: handleNodeStateChange_def Cluster_IsLeader_def Let_def)
  show ?thesis
  proof (cases "ParseUint n")
    case (Inl e)
    then show ?thesis
      by (simp add: red Cluster_RemovePeer_def Election_RemovePeer_def propose_change_def)
  next
    case (Inr i)
    obtain data where d: "marshal ConfChangeRemoveNode i = Inr data" using assms(3) by blast
    have "raft_Propose choice propose_cap data (em_proposeC (cm_electionMgr m)) (em_raftNode (cm_electionMgr m)) =
        Some (em_proposeC (cm_electionMgr m) @ [data], True)"
      using assms(4,5) by (simp add: raft_Propose_def)
    then show ?thesis using Inr d
      by (auto simp: red Cluster_RemovePeer_def Election_RemovePeer_def propose_change_def
          Cluster_UnregisterNode_def UnregisterNode_def GetNodeState_def)
  qed
qed

theorem dead_node_is_removed_witness:
  "\<exists>m'. handleNodeStateChange (\<lambda>_ _. Inr ''rm'') False \<lparr>sc_NodeID = ''2'', sc_State = NodeStatusDead\<rparr> cm_demo =
     Some m' \<and> cm_nodes m' ''2'' = Some NodeStatusDead"
  using dead_node_is_removed [of "\<lparr>sc_NodeID = ''2'', sc_State = NodeStatusDead\<rparr>" "''2''" "\<lambda>_ _. Inr ''rm''"
      cm_demo False]
  by (auto simp: demo_election_def NewRaftNode_def propose_cap_def DefaultConfig_def)

section \<open>The cluster manager never learns who leads\<close>

text \<open>
  The steps of a running cluster manager: its own operations and those of the managers it owns,
  in any order.
\<close>

inductive cl_step :: "'c cluster_manager \<Rightarrow> 'c cluster_manager \<Rightarrow> bool" where
  cl_election: "el_step (cm_electionMgr m) e \<Longrightarrow> cl_step m (m\<lparr>cm_electionMgr := e\<rparr>)"
| cl_heartbeat: "hb_step (cm_heartbeatMgr m) h \<Longrightarrow> cl_step m (m\<lparr>cm_heartbeatMgr := h\<rparr>)"
| cl_rebalance: "rb_step (cm_rebalanceMgr m) r \<Longrightarrow> cl_step m (m\<lparr>cm_rebalanceMgr := r\<rparr>)"
| cl_register: "cl_step m (Cluster_RegisterNode now n m)"
| cl_unregister: "cl_step m (Cluster_UnregisterNode n m)"
| cl_add: "Cluster_AddPeer marshal choice p m = Some (m', e) \<Longrightarrow> cl_step m m'"
| cl_remove: "Cluster_RemovePeer marshal choice p m = Some (m', e) \<Longrightarrow> cl_step m m'"
| cl_metrics: "cl_step m (Cluster_UpdateNodeMetrics n v m)"
| cl_trigger: "cl_step m (Cluster_TriggerRebalance m)"
| cl_timer: "become_leader_timer m = Some m' \<Longrightarrow> cl_step m m'"
| cl_leader: "leader_turn now now2 m = Some (Return m') \<Longrightarrow> cl_step m m'"
| cl_change: "handleNodeStateChange marshal choice change m = Some m' \<Longrightarrow> cl_step m m'"
| cl_list: "ListNodes c ks m = (m', r) \<Longrightarrow> cl_step m m'"
| cl_info: "GetNodeInfo c ts n m = (m', i) \<Longrightarrow> cl_step m m'"
| cl_stop: "Cluster_Stop m = Return m' \<Longrightarrow> cl_step m m'"

inductive cl_reachable :: "(etcd_Config \<Rightarrow> 64 word list \<Rightarrow> string option) \<Rightarrow> ClusterConfig \<Rightarrow>
    'c cluster_manager \<Rightarrow> bool" for start cfg where
  cl_new: "Cluster_NewManager start c0 now rnd cfg = Return (Inr m) \<Longrightarrow> cl_reachable start cfg m"
| cl_next: "cl_reachable start cfg m \<Longrightarrow> cl_step m m' \<Longrightarrow> cl_reachable start cfg m'"

definition cl_blind :: "'c cluster_manager \<Rightarrow> bool" where
  "cl_blind m \<longleftrightarrow> el_blind (cm_electionMgr m) \<and> cm_leader m = [] \<and> \<not> cm_isLeader m \<and> cm_waiting m = [] \<and>
     cm_leaderChangeCh m = [] \<and> IsZero (cm_lastElection m) \<and> rm_nodeMetrics (cm_rebalanceMgr m) = Map.empty"

lemma rb_step_nodeMetrics:
  "rb_step r r' \<Longrightarrow> rm_nodeMetrics r' = rm_nodeMetrics r"
  by (induction rule: rb_step.induct)
    (auto simp: Rebalance_UpdateNodeMetrics_def TriggerRebalance_def evaluation_round_def
      split: if_splits list.splits elim!: evaluate_cases)

lemma propose_change_blind:
  assumes "propose_change marshal choice typ p e = Some (e', x)" "el_blind e"
  shows "el_blind e'"
  by (rule el_blind_step [OF el_change [OF assms(1)] assms(2)])

lemma Cluster_Peer_blind:
  "Cluster_AddPeer marshal choice p m = Some (m', e) \<Longrightarrow> cl_blind m \<Longrightarrow> cl_blind m'"
  "Cluster_RemovePeer marshal choice p m = Some (m', e) \<Longrightarrow> cl_blind m \<Longrightarrow> cl_blind m'"
  by (auto simp: Cluster_AddPeer_def Election_AddPeer_def Cluster_RemovePeer_def Election_RemovePeer_def
      Cluster_UnregisterNode_def cl_blind_def dest!: propose_change_blind split: option.splits)

lemma cl_blind_step: "cl_step m m' \<Longrightarrow> cl_blind m \<Longrightarrow> cl_blind m'"
proof (induction rule: cl_step.induct)
  case (cl_change marshal choice change m m')
  let ?m = "m\<lparr>cm_nodes := (cm_nodes m)(sc_NodeID change \<mapsto> sc_State change),
    cm_nodeCache := (cm_nodeCache m)(sc_NodeID change := None)\<rparr>"
  have b: "cl_blind ?m" using cl_change.prems by (simp add: cl_blind_def)
  from cl_change.hyps consider "m' = ?m"
    | e where "Cluster_AddPeer marshal choice (sc_NodeID change) ?m = Some (m', e)"
    | e where "Cluster_RemovePeer marshal choice (sc_NodeID change) ?m = Some (m', e)"
    by (auto simp: handleNodeStateChange_def Let_def split: NodeStatus.splits if_splits)
  then show ?case using b by cases (auto intro: Cluster_Peer_blind)
next
  case (cl_list c ks m m' r)
  then have "m' = m\<lparr>cm_nodeCache := cm_nodeCache m'\<rparr>"
    by (auto simp: ListNodes_def Let_def dest!: list_loop_frame split: option.splits prod.splits)
  then obtain k where "m' = m\<lparr>cm_nodeCache := k\<rparr>" by blast
  with cl_list.prems show ?case by (simp add: cl_blind_def)
next
  case (cl_info c ts n m m' i)
  then have "m' = m\<lparr>cm_nodeCache := cm_nodeCache m'\<rparr>"
    by (cases ts) (auto simp: GetNodeInfo_def updateNodeInfoCache_def Let_def split: option.splits if_splits)
  then obtain k where "m' = m\<lparr>cm_nodeCache := k\<rparr>" by blast
  with cl_info.prems show ?case by (simp add: cl_blind_def)
next
  case (cl_election m e)
  then show ?case using el_blind_step [OF cl_election.hyps] by (simp add: cl_blind_def)
next
  case (cl_stop m m')
  then obtain e where e: "Election_Stop (cm_electionMgr m) = Return e" "m' = m\<lparr>cm_cancelled := True,
      cm_leaderChangeCh_closed := True, cm_electionMgr := e\<rparr>"
    by (auto simp: Cluster_Stop_def Let_def split: if_splits outcome.splits)
  with cl_stop.prems el_blind_step [OF el_stop [OF e(1)]] show ?case by (simp add: cl_blind_def)
next
  case (cl_add marshal choice p m m' e)
  then show ?case by (rule Cluster_Peer_blind(1))
next
  case (cl_remove marshal choice p m m' e)
  then show ?case by (rule Cluster_Peer_blind(2))
next
  case (cl_leader now now2 m m')
  then show ?case by (simp add: leader_turn_def cl_blind_def el_blind_def)
qed (auto simp: cl_blind_def rb_step_nodeMetrics Cluster_RegisterNode_def Cluster_UnregisterNode_def
    Cluster_UpdateNodeMetrics_def Rebalance_UpdateNodeMetrics_def Cluster_TriggerRebalance_def TriggerRebalance_def
    become_leader_timer_def)

lemma Cluster_NewManager_blind:
  "Cluster_NewManager start c0 now rnd cfg = Return (Inr m) \<Longrightarrow> cl_blind m"
  by (auto simp: Cluster_NewManager_def Let_def cl_blind_def Rebalance_NewManager_def
      dest: Election_NewManager_blind split: if_splits outcome.splits sum.splits)

lemma cl_reachable_blind: "cl_reachable start cfg m \<Longrightarrow> cl_blind m"
  by (induction rule: cl_reachable.induct) (auto intro: Cluster_NewManager_blind cl_blind_step)

text \<open>
  (C15) In every state a cluster manager can reach, asking for the leader is an error, no node is marked as
  leader, no leader change has been handled or forwarded and no rebalance is scheduled for a new
  leader, even when this node is the leader that the raft library elected.
\<close>

theorem cluster_never_learns_leader:
  assumes "cl_reachable start cfg m"
  shows "Cluster_GetCurrentLeader m = [] \<and> GetLeader c ts m = (m, Inl NoLeader) \<and>
    leader_turn now now2 m = None \<and> cm_leaderChangeCh m = [] \<and> \<not> cm_isLeader m \<and>
    become_leader_timer m = None"
  using cl_reachable_blind [OF assms]
  by (simp add: cl_blind_def el_blind_def Cluster_GetCurrentLeader_def GetLeader_def leader_turn_def
      Election_GetCurrentLeader_def become_leader_timer_def)

theorem cluster_never_learns_leader_witness:
  "\<exists>m :: unit cluster_manager. cl_reachable (\<lambda>_ _. None) demo_ccfg m \<and> Cluster_IsLeader m \<and>
     GetLeader None (1, 2, 3) m = (m, Inl NoLeader)"
proof -
  obtain e where e: "raft_ready hs_zero sn_zero (\<lambda>_. None) elected (demo_election ''1'') = Return e"
    "Election_IsLeader e" using demo_elected by blast
  have c: "el_step (cm_electionMgr cm_demo0) e"
    using el_ready [OF e(1)] by (simp add: cm_demo0_def)
  have r: "cl_reachable (\<lambda>_ _. None) demo_ccfg (cm_demo0\<lparr>cm_electionMgr := e\<rparr>)"
    by (rule cl_next [OF cl_new [OF cm_demo_new] cl_election [OF c]])
  have "Cluster_IsLeader (cm_demo0\<lparr>cm_electionMgr := e\<rparr>)" using e(2) by (simp add: Cluster_IsLeader_def)
  with cluster_never_learns_leader [OF r] r show ?thesis by blast
qed

text \<open>
  The information about a node never carries its metrics, whatever was reported for the node, in
  every state that starts from a new manager: the manager reads a map that the rebalance manager
  never writes.
\<close>

theorem node_info_has_no_metrics:
  assumes "cl_reachable start cfg m"
    and "GetNodeInfo None ts n (Cluster_UpdateNodeMetrics n v m) = (m', Inr info)"
  shows "ni_Metrics info = None \<and> GetNodeMetrics (rm_metricCollector (cm_rebalanceMgr m')) n = Some v"
proof -
  obtain t1 t2 t3 where ts: "ts = (t1, t2, t3)" by (cases ts)
  have "rm_nodeMetrics (cm_rebalanceMgr m) = Map.empty"
    using cl_reachable_blind [OF assms(1)] by (simp add: cl_blind_def)
  then show ?thesis using assms(2)
    by (auto simp: ts GetNodeInfo_def Cluster_UpdateNodeMetrics_def getCachedNodeInfo_def Let_def
        addMetricsToNodeInfo_def Rebalance_GetNodeMetrics_def Rebalance_UpdateNodeMetrics_def
        updateNodeInfoCache_def UpdateNodeMetrics_def GetNodeMetrics_def split: if_splits)
qed

theorem node_info_has_no_metrics_witness:
  "\<exists>m' info. GetNodeInfo None (7, 7, 7) ''2'' (Cluster_UpdateNodeMetrics ''2'' (demo_metrics ''2'' 1 2 3 4) cm_demo) =
     (m', Inr info) \<and> ni_Metrics info = None"
proof -
  let ?m = "Cluster_UpdateNodeMetrics ''2'' (demo_metrics ''2'' 1 2 3 4) cm_demo"
  have r: "cl_reachable (\<lambda>_ _. None) demo_ccfg cm_demo"
    unfolding cm_demo_def by (rule cl_next [OF cl_new [OF cm_demo_new] cl_register])
  have "GetNodeState (cm_heartbeatMgr ?m) ''2'' = NodeStatusHealthy"
    by (simp add: Cluster_UpdateNodeMetrics_def GetNodeState_def fresh_node_def)
  then obtain m' info where i: "GetNodeInfo None (7, 7, 7) ''2'' ?m = (m', Inr info)"
    by (simp add: GetNodeInfo_def getCachedNodeInfo_def Cluster_UpdateNodeMetrics_def Let_def)
  with node_info_has_no_metrics [OF r i] show ?thesis by blast
qed

section \<open>The event loop and the heartbeat manager\<close>

text \<open>
  The heartbeat manager of theory \<open>Heartbeat\<close> with its channel, and the event loop as its reader.
  The heartbeat manager keeps its mutex while it sends. On a leader, handling the death of a node
  with a numeric identifier calls \<^verbatim>\<open>UnregisterNode\<close> of the heartbeat manager, which needs that
  mutex: \<open>lc_waiting\<close> is the node the event loop has got to unregister. The event loop takes no
  further report meanwhile.
\<close>

record loop_conf =
  lc_hb :: hb_conf
  lc_waiting :: "NodeID option"

definition unregisters :: "bool \<Rightarrow> StateChange \<Rightarrow> bool" where
  "unregisters leads e \<longleftrightarrow> leads \<and> sc_State e = NodeStatusDead \<and> \<not> isl (ParseUint (sc_NodeID e))"

inductive loop_step :: "bool \<Rightarrow> loop_conf \<Rightarrow> loop_conf \<Rightarrow> bool" for leads where
  lp_manager:
    "hb_conf_step (lc_hb c) h \<Longrightarrow> hc_read h = hc_read (lc_hb c) \<Longrightarrow> loop_step leads c (c\<lparr>lc_hb := h\<rparr>)"
| lp_take:
    "lc_waiting c = None \<Longrightarrow> hc_chan (lc_hb c) = e # es \<Longrightarrow>
     loop_step leads c (c\<lparr>lc_hb := (lc_hb c)\<lparr>hc_chan := es, hc_read := hc_read (lc_hb c) @ [e]\<rparr>,
       lc_waiting := (if unregisters leads e then Some (sc_NodeID e) else None)\<rparr>)"
| lp_unregister:
    "lc_waiting c = Some n \<Longrightarrow> hc_sending (lc_hb c) = [] \<Longrightarrow>
     loop_step leads c (c\<lparr>lc_hb := (lc_hb c)\<lparr>hc_mgr := UnregisterNode n (hc_mgr (lc_hb c))\<rparr>, lc_waiting := None\<rparr>)"

definition loop_init :: "HeartbeatConfig \<Rightarrow> loop_conf" where
  "loop_init cfg = \<lparr>lc_hb = hb_conf_init cfg, lc_waiting = None\<rparr>"

text \<open>Nothing can move: the channel is full, a report waits to be sent, the event loop waits for the mutex.\<close>

lemma loop_stuck:
  assumes "lc_waiting c = Some n" "hc_sending (lc_hb c) \<noteq> []" "length (hc_chan (lc_hb c)) = stateChange_cap"
  shows "\<not> loop_step leads c c'"
proof
  assume "loop_step leads c c'"
  then show False
  proof cases
    case (lp_manager h)
    from lp_manager(2,3) assms(2,3) show False by (cases rule: hb_conf_step.cases) auto
  qed (use assms in auto)
qed

text \<open>A sequence of sends while there is room.\<close>

lemma loop_fill:
  assumes "hc_sending (lc_hb c) = ys @ zs" "length (hc_chan (lc_hb c)) + length ys \<le> stateChange_cap"
  shows "(loop_step leads)\<^sup>*\<^sup>* c (c\<lparr>lc_hb := (lc_hb c)\<lparr>hc_sending := zs, hc_chan := hc_chan (lc_hb c) @ ys\<rparr>\<rparr>)"
  using assms
proof (induction ys arbitrary: c)
  case Nil
  then have "c\<lparr>lc_hb := (lc_hb c)\<lparr>hc_sending := zs, hc_chan := hc_chan (lc_hb c) @ []\<rparr>\<rparr> = c"
    by (cases c; cases "lc_hb c") auto
  then show ?case by simp
next
  case (Cons y ys)
  let ?h = "(lc_hb c)\<lparr>hc_sending := ys @ zs, hc_chan := hc_chan (lc_hb c) @ [y]\<rparr>"
  have s: "loop_step leads c (c\<lparr>lc_hb := ?h\<rparr>)"
    by (rule lp_manager, rule hc_send) (use Cons.prems in simp_all)
  have "(loop_step leads)\<^sup>*\<^sup>* (c\<lparr>lc_hb := ?h\<rparr>) ((c\<lparr>lc_hb := ?h\<rparr>)\<lparr>lc_hb := (lc_hb (c\<lparr>lc_hb := ?h\<rparr>))
      \<lparr>hc_sending := zs, hc_chan := hc_chan (lc_hb (c\<lparr>lc_hb := ?h\<rparr>)) @ ys\<rparr>\<rparr>)"
    by (rule Cons.IH) (use Cons.prems in simp_all)
  with s show ?case by (simp add: converse_rtranclp_into_rtranclp)
qed

text \<open>Reports that need no mutex are sent and taken one by one.\<close>

lemma loop_drain:
  assumes "hc_sending (lc_hb c) = ys" "hc_chan (lc_hb c) = []" "lc_waiting c = None"
    and "\<And>y. y \<in> set ys \<Longrightarrow> \<not> unregisters leads y"
  shows "(loop_step leads)\<^sup>*\<^sup>* c (c\<lparr>lc_hb := (lc_hb c)\<lparr>hc_sending := [], hc_read := hc_read (lc_hb c) @ ys\<rparr>\<rparr>)"
  using assms
proof (induction ys arbitrary: c)
  case Nil
  then have "c\<lparr>lc_hb := (lc_hb c)\<lparr>hc_sending := [], hc_read := hc_read (lc_hb c) @ []\<rparr>\<rparr> = c"
    by (cases c; cases "lc_hb c") auto
  then show ?case by simp
next
  case (Cons y ys)
  let ?c1 = "c\<lparr>lc_hb := (lc_hb c)\<lparr>hc_sending := ys, hc_chan := [y]\<rparr>\<rparr>"
  let ?c2 = "c\<lparr>lc_hb := (lc_hb c)\<lparr>hc_sending := ys, hc_read := hc_read (lc_hb c) @ [y]\<rparr>\<rparr>"
  have 1: "(loop_step leads)\<^sup>*\<^sup>* c ?c1"
    using loop_fill [of c "[y]" ys leads] Cons.prems by (simp add: stateChange_cap_def)
  have "loop_step leads ?c1 (?c1\<lparr>lc_hb := (lc_hb ?c1)\<lparr>hc_chan := [], hc_read := hc_read (lc_hb ?c1) @ [y]\<rparr>,
       lc_waiting := (if unregisters leads y then Some (sc_NodeID y) else None)\<rparr>)"
    by (rule lp_take) (use Cons.prems in simp_all)
  moreover have "\<not> unregisters leads y" using Cons.prems(4) by simp
  ultimately have 2: "loop_step leads ?c1 ?c2"
    using Cons.prems(2,3) by (cases c; cases "lc_hb c") simp
  have 3: "(loop_step leads)\<^sup>*\<^sup>* ?c2 (?c2\<lparr>lc_hb := (lc_hb ?c2)\<lparr>hc_sending := [], hc_read := hc_read (lc_hb ?c2) @ ys\<rparr>\<rparr>)"
    by (rule Cons.IH) (use Cons.prems in simp_all)
  from 1 2 3 show ?case by (auto intro: rtranclp_trans)
qed

text \<open>Registering nodes, then two checks: all of them are reported suspect, then dead.\<close>

definition registered :: "HeartbeatConfig \<Rightarrow> NodeID list \<Rightarrow> hb_manager" where
  "registered cfg ns = fold (RegisterNode 0) ns (Heartbeat_NewManager cfg)"

lemma fold_register:
  "hm_cfg (fold (RegisterNode t) ns m) = hm_cfg m"
  "hm_nodeStates (fold (RegisterNode t) ns m) n = (if n \<in> set ns then Some (fresh_node n t) else hm_nodeStates m n)"
  by (induction ns arbitrary: m) (auto simp: RegisterNode_def)

lemma loop_register:
  assumes "hc_sending (lc_hb c) = []"
  shows "(loop_step leads)\<^sup>*\<^sup>* c (c\<lparr>lc_hb := (lc_hb c)\<lparr>hc_mgr := fold (RegisterNode t) ns (hc_mgr (lc_hb c))\<rparr>\<rparr>)"
  using assms
proof (induction ns arbitrary: c)
  case (Cons n ns)
  let ?c = "c\<lparr>lc_hb := (lc_hb c)\<lparr>hc_mgr := RegisterNode t n (hc_mgr (lc_hb c))\<rparr>\<rparr>"
  have "loop_step leads c ?c"
    by (rule lp_manager, rule hc_register) (use Cons.prems in simp_all)
  moreover have "(loop_step leads)\<^sup>*\<^sup>* ?c (?c\<lparr>lc_hb := (lc_hb ?c)\<lparr>hc_mgr := fold (RegisterNode t) ns (hc_mgr (lc_hb ?c))\<rparr>\<rparr>)"
    by (rule Cons.IH) (use Cons.prems in simp)
  ultimately show ?case by (simp add: converse_rtranclp_into_rtranclp)
qed simp

lemma concat_singletons: "concat (map (\<lambda>x. [f x]) xs) = map f xs"
  by (induction xs) auto

lemma split_ends:
  assumes "length xs > k + 1"
  shows "\<exists>x ys z zs. xs = x # ys @ z # zs \<and> length ys = k"
proof -
  obtain x xs' where x: "xs = x # xs'" "length xs' > k" using assms by (cases xs) auto
  have "xs' = take k xs' @ xs' ! k # drop (Suc k) xs'" by (rule id_take_nth_drop [OF x(2)])
  with x show ?thesis by (metis length_take min.absorb2 less_imp_le)
qed

lemma check_all:
  assumes "enumerates ns (hm_nodeStates m)" "\<And>n. n \<in> set ns \<Longrightarrow> n \<noteq> hb_NodeID (hm_cfg m)"
    and "\<And>n. n \<in> set ns \<Longrightarrow> \<exists>st. hm_nodeStates m n = Some st \<and> ns_State st = old \<and> ns_LastHeartbeat st = 0"
    and "(old, new, bnd) = (NodeStatusHealthy, NodeStatusSuspect, hb_SuspectTimeout (hm_cfg m)) \<or>
         (old, new, bnd) = (NodeStatusSuspect, NodeStatusDead, hb_DeadTimeout (hm_cfg m))"
    and "t > bnd" "checkHeartbeats ns t m = (m', evs)"
  shows "evs = map (\<lambda>n. \<lparr>sc_NodeID = n, sc_State = new\<rparr>) ns \<and> hm_cfg m' = hm_cfg m \<and>
    enumerates ns (hm_nodeStates m') \<and>
    (\<forall>n \<in> set ns. \<exists>st. hm_nodeStates m' n = Some st \<and> ns_State st = new \<and> ns_LastHeartbeat st = 0)"
proof -
  have one: "\<exists>st. hm_nodeStates m n = Some st \<and> snd (check_node (hm_cfg m) t n st) = [\<lparr>sc_NodeID = n, sc_State = new\<rparr>] \<and>
      ns_State (fst (check_node (hm_cfg m) t n st)) = new \<and> ns_LastHeartbeat (fst (check_node (hm_cfg m) t n st)) = 0"
    if "n \<in> set ns" for n
    using assms(2,3) [OF that] assms(4,5) by (auto simp: check_node_def)
  have "evs = concat (map (\<lambda>k. case hm_nodeStates m k of None \<Rightarrow> [] | Some st \<Rightarrow> snd (check_node (hm_cfg m) t k st)) ns)"
    using checkHeartbeats_events [OF enumeratesD(1) [OF assms(1)], of t m] assms(6) by simp
  also have "\<dots> = concat (map (\<lambda>n. [\<lparr>sc_NodeID = n, sc_State = new\<rparr>]) ns)"
    by (intro arg_cong [of _ _ concat] map_cong refl) (use one in fastforce)
  finally have "evs = map (\<lambda>n. \<lparr>sc_NodeID = n, sc_State = new\<rparr>) ns" by (simp add: concat_singletons)
  moreover have m': "m' = fst (checkHeartbeats ns t m)" using assms(6) by simp
  moreover have "\<exists>st. hm_nodeStates m' n = Some st \<and> ns_State st = new \<and> ns_LastHeartbeat st = 0"
    if "n \<in> set ns" for n
    using one [OF that] by (auto simp: m' check_node_all [OF assms(1)])
  ultimately show ?thesis using enumerates_check [OF assms(1)] by simp
qed

text \<open>A death is taken, then the channel fills up: a state without a next step.\<close>

lemma loop_jam:
  assumes "hc_sending (lc_hb c) = e # ys @ z # zs" "hc_chan (lc_hb c) = []" "lc_waiting c = None"
    and "unregisters leads e" "length ys = stateChange_cap"
  shows "\<exists>c'. (loop_step leads)\<^sup>*\<^sup>* c c' \<and> lc_waiting c' \<noteq> None \<and> (\<forall>c''. \<not> loop_step leads c' c'')"
proof -
  define c1 where "c1 = c\<lparr>lc_hb := (lc_hb c)\<lparr>hc_sending := ys @ z # zs, hc_chan := [e]\<rparr>\<rparr>"
  have 1: "(loop_step leads)\<^sup>*\<^sup>* c c1"
    using loop_fill [of c "[e]" "ys @ z # zs" leads] assms(1,2) by (simp add: stateChange_cap_def c1_def)
  define c2 where "c2 = c1\<lparr>lc_hb := (lc_hb c1)\<lparr>hc_chan := [], hc_read := hc_read (lc_hb c1) @ [e]\<rparr>,
    lc_waiting := Some (sc_NodeID e)\<rparr>"
  have 2: "loop_step leads c1 c2"
    using lp_take [of c1 e "[]" leads] assms(3,4) by (simp add: c2_def) (simp add: c1_def)
  have f2: "hc_sending (lc_hb c2) = ys @ z # zs" "hc_chan (lc_hb c2) = []" "lc_waiting c2 = Some (sc_NodeID e)"
    by (simp_all add: c2_def c1_def)
  define c3 where "c3 = c2\<lparr>lc_hb := (lc_hb c2)\<lparr>hc_sending := z # zs, hc_chan := ys\<rparr>\<rparr>"
  have 3: "(loop_step leads)\<^sup>*\<^sup>* c2 c3"
    using loop_fill [of c2 ys "z # zs" leads] f2 assms(5) by (simp add: c3_def)
  have "\<not> loop_step leads c3 c''" for c''
    by (rule loop_stuck [of _ "sc_NodeID e"]) (use assms(5) f2 in \<open>simp_all add: c3_def\<close>)
  moreover have "(loop_step leads)\<^sup>*\<^sup>* c c3"
    by (rule rtranclp_trans [OF rtranclp.rtrancl_into_rtrancl [OF 1 2] 3])
  moreover have "lc_waiting c3 \<noteq> None" using f2 by (simp add: c3_def)
  ultimately show ?thesis by blast
qed

text \<open>
  (C3) Mass failure stops the cluster manager: if more than 101 nodes with numeric identifiers die
  together, a leader can come to a state in which no step is possible any more. The heartbeat
  manager holds its mutex and waits for room in the channel of 100, and the event loop, its only
  reader, waits for that mutex to unregister the first of the dead.
\<close>

theorem mass_failure_deadlock:
  assumes "distinct ns" "length ns > 101" "\<forall>n \<in> set ns. n \<noteq> hb_NodeID cfg \<and> \<not> isl (ParseUint n)"
  shows "\<exists>c. (loop_step True)\<^sup>*\<^sup>* (loop_init cfg) c \<and> lc_waiting c \<noteq> None \<and> (\<forall>c'. \<not> loop_step True c c')"
proof -
  let ?m0 = "registered cfg ns"
  have cfg: "hb_NodeID (hm_cfg ?m0) = hb_NodeID cfg"
    by (simp add: registered_def fold_register Heartbeat_NewManager_def Let_def)
  have tab: "hm_nodeStates ?m0 n = (if n \<in> set ns then Some (fresh_node n 0) else None)" for n
    by (simp add: registered_def fold_register Heartbeat_NewManager_def Let_def)
  have en: "enumerates ns (hm_nodeStates ?m0)" using assms(1) by (auto simp: enumerates_def tab split: if_splits)
  let ?t1 = "hb_SuspectTimeout (hm_cfg ?m0) + 1" and ?t2 = "hb_DeadTimeout (hm_cfg ?m0) + 1"
  obtain m1 ev1 where c1: "checkHeartbeats ns ?t1 ?m0 = (m1, ev1)" by fastforce
  have s1: "ev1 = map (\<lambda>n. \<lparr>sc_NodeID = n, sc_State = NodeStatusSuspect\<rparr>) ns" "hm_cfg m1 = hm_cfg ?m0"
    "enumerates ns (hm_nodeStates m1)"
    "\<And>n. n \<in> set ns \<Longrightarrow> \<exists>st. hm_nodeStates m1 n = Some st \<and> ns_State st = NodeStatusSuspect \<and> ns_LastHeartbeat st = 0"
    using check_all [OF en _ _ _ _ c1, of NodeStatusHealthy NodeStatusSuspect "hb_SuspectTimeout (hm_cfg ?m0)"]
      assms(3) by (auto simp: cfg tab fresh_node_def)
  obtain m2 ev2 where c2: "checkHeartbeats ns ?t2 m1 = (m2, ev2)" by fastforce
  have s2: "ev2 = map (\<lambda>n. \<lparr>sc_NodeID = n, sc_State = NodeStatusDead\<rparr>) ns"
    using check_all [OF s1(3) _ s1(4) _ _ c2, of NodeStatusDead "hb_DeadTimeout (hm_cfg m1)"] assms(3)
    by (auto simp: cfg s1(2))
  define h0 where "h0 = \<lparr>hc_mgr = ?m0, hc_sending = [], hc_chan = [], hc_read = [], hc_log = []\<rparr>"
  define h1 where "h1 = \<lparr>hc_mgr = m1, hc_sending = ev1, hc_chan = [], hc_read = [], hc_log = ev1\<rparr>"
  define h2 where "h2 = \<lparr>hc_mgr = m1, hc_sending = [], hc_chan = [], hc_read = ev1, hc_log = ev1\<rparr>"
  define h3 where "h3 = \<lparr>hc_mgr = m2, hc_sending = ev2, hc_chan = [], hc_read = ev1, hc_log = ev1 @ ev2\<rparr>"
  have r0: "(loop_step True)\<^sup>*\<^sup>* (loop_init cfg) \<lparr>lc_hb = h0, lc_waiting = None\<rparr>"
    using loop_register [of "loop_init cfg" True 0 ns] by (simp add: loop_init_def hb_conf_init_def h0_def registered_def)
  have r1: "loop_step True \<lparr>lc_hb = h0, lc_waiting = None\<rparr> \<lparr>lc_hb = h1, lc_waiting = None\<rparr>"
    using lp_manager [of "\<lparr>lc_hb = h0, lc_waiting = None\<rparr>" h1 True] hc_check [of h0 ns ?t1 m1 ev1] en c1
    by (simp add: h0_def h1_def)
  have nu: "\<not> unregisters True y" if "y \<in> set ev1" for y
    using that by (auto simp: s1(1) unregisters_def)
  have r2: "(loop_step True)\<^sup>*\<^sup>* \<lparr>lc_hb = h1, lc_waiting = None\<rparr> \<lparr>lc_hb = h2, lc_waiting = None\<rparr>"
    using loop_drain [OF _ _ _ nu, of "\<lparr>lc_hb = h1, lc_waiting = None\<rparr>"] by (simp add: h1_def h2_def)
  have r3: "loop_step True \<lparr>lc_hb = h2, lc_waiting = None\<rparr> \<lparr>lc_hb = h3, lc_waiting = None\<rparr>"
    using lp_manager [of "\<lparr>lc_hb = h2, lc_waiting = None\<rparr>" h3 True] hc_check [of h2 ns ?t2 m2 ev2] s1(3) c2
    by (simp add: h2_def h3_def)
  have r: "(loop_step True)\<^sup>*\<^sup>* (loop_init cfg) \<lparr>lc_hb = h3, lc_waiting = None\<rparr>"
    using r0 r1 r2 r3 by (meson rtranclp.rtrancl_into_rtrancl rtranclp_trans)
  obtain n ns1 n' ns2 where ns: "ns = n # ns1 @ n' # ns2" "length ns1 = stateChange_cap"
    using split_ends [of stateChange_cap ns] assms(2) by (auto simp: stateChange_cap_def)
  have "unregisters True \<lparr>sc_NodeID = n, sc_State = NodeStatusDead\<rparr>"
    using assms(3) by (simp add: unregisters_def ns(1))
  with loop_jam [of "\<lparr>lc_hb = h3, lc_waiting = None\<rparr>" "\<lparr>sc_NodeID = n, sc_State = NodeStatusDead\<rparr>"
      "map (\<lambda>n. \<lparr>sc_NodeID = n, sc_State = NodeStatusDead\<rparr>) ns1"
      "\<lparr>sc_NodeID = n', sc_State = NodeStatusDead\<rparr>"
      "map (\<lambda>n. \<lparr>sc_NodeID = n, sc_State = NodeStatusDead\<rparr>) ns2" True] ns
  obtain c' where c': "(loop_step True)\<^sup>*\<^sup>* \<lparr>lc_hb = h3, lc_waiting = None\<rparr> c'" "lc_waiting c' \<noteq> None"
    "\<forall>c''. \<not> loop_step True c' c''"
    by (auto simp: h3_def s2)
  with rtranclp_trans [OF r c'(1)] show ?thesis by blast
qed

lemma dec_digits: "c \<in> set (dec n) \<Longrightarrow> is_digit c"
proof (induction n rule: dec.induct)
  case (1 n)
  then show ?case
    by (cases "n < 10") (auto simp: dec.simps [of n] is_digit_def of_char_digit)
qed

lemma ParseUint_dec: "n < 2 ^ 64 \<Longrightarrow> ParseUint (dec n) = Inr (of_nat n)"
proof -
  assume n: "n < 2 ^ 64"
  have "dec n \<noteq> []" by (subst dec.simps) simp
  moreover have "parse_digits 0 (dec n) = Inr n"
    using parse_digits_iff [of 0 "dec n" n] n dec_digits undec_dec [of n] by (simp add: undec_def)
  ultimately show ?thesis by (simp add: ParseUint_def)
qed

theorem mass_failure_deadlock_witness:
  "\<exists>c. (loop_step True)\<^sup>*\<^sup>* (loop_init (heartbeat_cfg demo_ccfg)) c \<and> (\<forall>c'. \<not> loop_step True c c')"
proof -
  let ?ns = "map dec [2..<104]"
  have "distinct ?ns" by (simp add: distinct_map inj_on_def)
  moreover have "\<forall>n \<in> set ?ns. n \<noteq> hb_NodeID (heartbeat_cfg demo_ccfg) \<and> \<not> isl (ParseUint n)"
  proof -
    have "dec 1 = ''1''" by code_simp
    then have "dec i \<noteq> ''1''" if "i \<noteq> 1" for i using that dec_inject [of i 1] by simp
    then show ?thesis by (auto simp: ParseUint_dec heartbeat_cfg_def demo_ccfg_def)
  qed
  ultimately show ?thesis using mass_failure_deadlock [of ?ns "heartbeat_cfg demo_ccfg"] by auto
qed

end
