(* ===== verification/FileApi.thy ===== *)
theory FileApi
  imports MemStore
begin

text \<open>
  The HTTP interface to the metadata store: \<^verbatim>\<open>server/api/types.go\<close>, \<^verbatim>\<open>server/api/v1/files.go\<close>
  and \<^verbatim>\<open>directories.go\<close>, \<^verbatim>\<open>common/network/http/response.go\<close> and \<^verbatim>\<open>common/utils/utils.go\<close>.

  A handler is a function from the store and a request to the new store and a response. A request
  has the value of the route's \<^verbatim>\<open>path\<close> variable (taken by the router), the declared length, the
  body as the JSON parser sees it, the query parameters and the request identifier. A response is
  the status and the struct that is encoded. The text of the JSON decoder's error and the encoding
  of an error's metadata are arguments.

  The lemmas show which status every situation gets, that paths are absolute and clean when they
  reach the store, what a request can and cannot change, and that the envelope of an error says
  \<^verbatim>\<open>success\<close>.
\<close>

section \<open>Requests\<close>

text \<open>A JSON document. A number literal is an integer or has a fraction or exponent.\<close>

datatype json =
    JNull
  | JBool bool
  | JInt int
  | JFrac real
  | JString string
  | JArray "json list"
  | JObject "(string \<times> json) list"

text \<open>What reading the body gives: a failure of the connection, nothing, text that is not JSON, a document.\<close>

datatype body = Unreadable | EmptyBody | NotJSON | Document json

record request =
  rq_path :: string
  rq_ContentLength :: int
  rq_body :: body
  rq_query :: "string \<rightharpoonup> string"
  rq_id :: string
  rq_decode_error :: string

section \<open>Responses\<close>

record ErrorInfo =
  ei_Code :: string
  ei_Message :: string
  ei_Details :: string

datatype payload =
    NoData
  | FileData FileInfo
  | DirData DirectoryInfo
  | Listing "DirectoryEntry list"
  | MapData "(string \<times> json) list"

datatype ResponseStatus = StatusSuccess | StatusError

record Response =
  rs_Status :: ResponseStatus
  rs_Data :: payload
  rs_Error :: "ErrorInfo option"
  rs_TraceID :: string

text \<open>The envelope of \<^verbatim>\<open>common/network/http\<close>: its data are whatever the caller passes.\<close>

record StandardResponse =
  sr_Success :: bool
  sr_Data :: "Response option"
  sr_Error :: "(string \<times> string) option"

text \<open>The dynamic type of the argument of \<^verbatim>\<open>RespondJSON\<close>: the envelope itself or something else.\<close>

datatype json_data = IsStandard StandardResponse | IsResponse Response

type_synonym http_response = "nat \<times> StandardResponse"

definition SuccessResponse :: "Response \<Rightarrow> StandardResponse" where
  "SuccessResponse data = \<lparr>sr_Success = True, sr_Data = Some data, sr_Error = None\<rparr>"

definition ErrorResponse :: "string \<Rightarrow> string \<Rightarrow> StandardResponse" where
  "ErrorResponse message code = \<lparr>sr_Success = False, sr_Data = None, sr_Error = Some (code, message)\<rparr>"

definition RespondJSON :: "nat \<Rightarrow> json_data \<Rightarrow> http_response" where
  "RespondJSON status data =
     (status, case data of IsStandard r \<Rightarrow> r | IsResponse r \<Rightarrow> SuccessResponse r)"

definition nethttp_RespondError :: "nat \<Rightarrow> string \<Rightarrow> http_response" where
  "nethttp_RespondError status message = (status, ErrorResponse message [])"

definition mapErrorCode :: "ErrorCode \<Rightarrow> string" where
  "mapErrorCode code =
     (if code = NotFound then ''resource_not_found''
      else if code = InvalidArgument then ''invalid_argument''
      else if code = PermissionDenied then ''permission_denied''
      else if code = AlreadyExists then ''resource_already_exists''
      else if code = ResourceExhausted then ''resource_exhausted''
      else if code = Internal then ''internal_server_error''
      else ''internal_error'')"

definition RespondSuccess :: "request \<Rightarrow> nat \<Rightarrow> payload \<Rightarrow> http_response" where
  "RespondSuccess r code data =
     RespondJSON code (IsResponse
       \<lparr>rs_Status = StatusSuccess, rs_Data = data, rs_Error = None, rs_TraceID = rq_id r\<rparr>)"

text \<open>\<open>md\<close> is the encoding of an error's metadata, None when it fails.\<close>

definition RespondError :: "(metadata_ref \<Rightarrow> string option) \<Rightarrow> request \<Rightarrow> nat \<Rightarrow> go_error \<Rightarrow> http_response" where
  "RespondError md r code err =
     (let errInfo =
        (case err of
           SysErr c m mdata cause \<Rightarrow>
             \<lparr>ei_Code = mapErrorCode c, ei_Message = m,
              ei_Details = (case mdata of None \<Rightarrow> [] | Some h \<Rightarrow> (case md h of None \<Rightarrow> [] | Some d \<Rightarrow> d))\<rparr>
         | _ \<Rightarrow> \<lparr>ei_Code = ''internal_error'', ei_Message = Error err, ei_Details = []\<rparr>)
      in RespondJSON code (IsResponse
           \<lparr>rs_Status = StatusError, rs_Data = NoData, rs_Error = Some errInfo, rs_TraceID = rq_id r\<rparr>))"

definition HandleAPIError :: "(metadata_ref \<Rightarrow> string option) \<Rightarrow> request \<Rightarrow> go_error \<Rightarrow> http_response" where
  "HandleAPIError md r err =
     (let statusCode =
        (if IsNotFound (Some err) then 404
         else if IsInvalidArgument (Some err) then 400
         else if IsPermissionDenied (Some err) then 403
         else if IsAlreadyExists (Some err) then 409
         else if IsUnauthenticated (Some err) then 401
         else if IsResourceExhausted (Some err) then 413
         else if IsInternal (Some err) then 500
         else 500)
      in RespondError md r statusCode err)"

section \<open>Parameters\<close>

definition ExtractPath :: "request \<Rightarrow> string" where
  "ExtractPath r =
     (let pathParam = rq_path r
      in if pathParam = [] then []
         else let pathParam = (if \<not> HasPrefix pathParam ''/'' then ''/'' @ pathParam else pathParam)
              in Clean pathParam)"

text \<open>\<^verbatim>\<open>strconv.ParseBool\<close>.\<close>

definition ParseBool :: "string \<Rightarrow> bool option" where
  "ParseBool s =
     (if List.member [''1'', ''t'', ''T'', ''TRUE'', ''true'', ''True''] s then Some True
      else if List.member [''0'', ''f'', ''F'', ''FALSE'', ''false'', ''False''] s then Some False
      else None)"

text \<open>\<^verbatim>\<open>strconv.Atoi\<close> on a 64-bit machine: an optional sign, digits, the range of \<^verbatim>\<open>int\<close>.\<close>

definition all_digits :: "string \<Rightarrow> bool" where
  "all_digits s \<longleftrightarrow> s \<noteq> [] \<and> list_all (\<lambda>c. 48 \<le> (of_char c :: nat) \<and> (of_char c :: nat) \<le> 57) s"

definition Atoi :: "string \<Rightarrow> int option" where
  "Atoi s =
     (let (neg, ds) = (case s of [] \<Rightarrow> (False, s)
        | c # cs \<Rightarrow> if c = CHR ''-'' then (True, cs) else if c = CHR ''+'' then (False, cs) else (False, s));
          n = (if neg then - int (undec ds) else int (undec ds))
      in if all_digits ds \<and> - (2 ^ 63) \<le> n \<and> n < 2 ^ 63 then Some n else None)"

definition query_get :: "request \<Rightarrow> string \<Rightarrow> string" where
  "query_get r name = (case rq_query r name of None \<Rightarrow> [] | Some v \<Rightarrow> v)"

definition ParseBoolParam :: "request \<Rightarrow> string \<Rightarrow> bool \<Rightarrow> go_error + bool" where
  "ParseBoolParam r name defaultValue =
     (let param = query_get r name
      in if param = [] then Inr defaultValue
         else case ParseBool param of
                None \<Rightarrow> Inl (New InvalidArgument (name @ '' must be a boolean''))
              | Some value \<Rightarrow> Inr value)"

definition ParseIntParam :: "request \<Rightarrow> string \<Rightarrow> int \<Rightarrow> int \<Rightarrow> int \<Rightarrow> go_error + int" where
  "ParseIntParam r name defaultValue minValue maxValue =
     (let param = query_get r name
      in if param = [] then Inr defaultValue
         else case Atoi param of
                None \<Rightarrow> Inl (New InvalidArgument (name @ '' must be an integer''))
              | Some value \<Rightarrow>
                  if value < minValue
                  then Inl (New InvalidArgument (name @ '' must not be below '' @ dec_int minValue))
                  else if maxValue > 0 \<and> value > maxValue then Inr maxValue
                  else Inr value)"

section \<open>Decoding bodies\<close>

text \<open>
  Decoding into the struct \<^verbatim>\<open>FileRequest\<close>: a key names a field up to case, the last occurrence
  counts, null leaves the field alone, and a value of the wrong kind is an error. The metadata are
  decoded but not used, so only their kind matters.
\<close>

record FileRequest =
  fr_Name :: string
  fr_Size :: int
  fr_MimeType :: string

definition lower :: "char \<Rightarrow> char" where
  "lower c = (if 65 \<le> (of_char c :: nat) \<and> (of_char c :: nat) \<le> 90 then char_of (of_char c + 32 :: nat) else c)"

definition values_at :: "string \<Rightarrow> (string \<times> json) list \<Rightarrow> json list" where
  "values_at name obj = map snd (filter (\<lambda>(k, v). map lower k = name \<and> v \<noteq> JNull) obj)"

definition decode_string :: "json list \<Rightarrow> string option" where
  "decode_string vs =
     (if list_all (\<lambda>v. case v of JString _ \<Rightarrow> True | _ \<Rightarrow> False) vs
      then Some (if vs = [] then [] else (case last vs of JString s \<Rightarrow> s | _ \<Rightarrow> []))
      else None)"

definition decode_int64 :: "json list \<Rightarrow> int option" where
  "decode_int64 vs =
     (if list_all (\<lambda>v. case v of JInt n \<Rightarrow> - (2 ^ 63) \<le> n \<and> n < 2 ^ 63 | _ \<Rightarrow> False) vs
      then Some (if vs = [] then 0 else (case last vs of JInt n \<Rightarrow> n | _ \<Rightarrow> 0))
      else None)"

definition decode_FileRequest :: "body \<Rightarrow> FileRequest option" where
  "decode_FileRequest b =
     (case b of
        Document JNull \<Rightarrow> Some \<lparr>fr_Name = [], fr_Size = 0, fr_MimeType = []\<rparr>
      | Document (JObject obj) \<Rightarrow>
          (case (decode_string (values_at ''name'' obj), decode_int64 (values_at ''size'' obj),
                 decode_string (values_at ''mime_type'' obj)) of
             (Some n, Some s, Some m) \<Rightarrow>
               if list_all (\<lambda>v. case v of JObject _ \<Rightarrow> True | _ \<Rightarrow> False) (values_at ''metadata'' obj)
               then Some \<lparr>fr_Name = n, fr_Size = s, fr_MimeType = m\<rparr> else None
           | _ \<Rightarrow> None)
      | _ \<Rightarrow> None)"

text \<open>Decoding into \<^verbatim>\<open>map[string]interface{}\<close>: every number is a \<^verbatim>\<open>float64\<close>.\<close>

fun any_of_json :: "json \<Rightarrow> any_value" where
  "any_of_json (JInt n) = AFloat64 (of_int n)"
| "any_of_json (JFrac x) = AFloat64 x"
| "any_of_json (JString s) = AString s"
| "any_of_json _ = AOther"

definition decode_map :: "body \<Rightarrow> (string \<rightharpoonup> any_value) option" where
  "decode_map b =
     (case b of
        Document JNull \<Rightarrow> Some Map.empty
      | Document (JObject obj) \<Rightarrow> Some (map_option any_of_json \<circ> map_of (rev obj))
      | _ \<Rightarrow> None)"

section \<open>Handlers for files\<close>

abbreviation err_bad_path :: go_error where
  "err_bad_path \<equiv> New InvalidArgument ''invalid file path''"

definition FilesAPI_GetFileInfo ::
  "(metadata_ref \<Rightarrow> string option) \<Rightarrow> MemoryStore \<Rightarrow> request \<Rightarrow> http_response" where
  "FilesAPI_GetFileInfo md s r =
     (let filePath = ExtractPath r
      in if filePath = [] then RespondError md r 400 err_bad_path
         else case GetFileInfo s filePath of
                Inl err \<Rightarrow> HandleAPIError md r err
              | Inr fileInfo \<Rightarrow> RespondSuccess r 200 (FileData fileInfo))"

definition zero_FileInfo :: FileInfo where
  "zero_FileInfo =
     \<lparr>bf_Name = [], bf_Path = [], bf_Owner = [], bf_Permissions = [], bf_CreatedAt = zero_time,
      bf_ModifiedAt = zero_time, bf_UpdatedAt = zero_time, bf_Metadata = None, fi_Type = [], fi_Size = 0,
      fi_MimeType = [], fi_ChunkSize = 0, fi_Chunks = [], fi_Replicas = 0\<rparr>"

definition FilesAPI_CreateFile ::
  "(metadata_ref \<Rightarrow> string option) \<Rightarrow> gotime \<Rightarrow> MemoryStore \<Rightarrow> request \<Rightarrow> MemoryStore \<times> http_response" where
  "FilesAPI_CreateFile md now s r =
     (let filePath = ExtractPath r
      in if filePath = [] then (s, RespondError md r 400 err_bad_path)
         else if rq_ContentLength r > 1024 * 1024
         then (s, RespondError md r 413 (New ResourceExhausted ''request body too large''))
         else case decode_FileRequest (rq_body r) of
                None \<Rightarrow> (s, RespondError md r 400
                          (New InvalidArgument (''invalid request body: '' @ rq_decode_error r)))
              | Some fileReq \<Rightarrow>
                  if fr_Size fileReq < 0
                  then (s, RespondError md r 400 (New InvalidArgument ''file size must not be negative''))
                  else
                    let fileInfo = zero_FileInfo\<lparr>bf_Path := filePath, fi_Size := fr_Size fileReq,
                          fi_MimeType := fr_MimeType fileReq\<rparr>
                    in case CreateFile now s fileInfo of
                         (s, Inl err) \<Rightarrow> (s, HandleAPIError md r err)
                       | (s, Inr result) \<Rightarrow> (s, RespondSuccess r 201 (FileData result)))"

definition FilesAPI_UpdateFile ::
  "(metadata_ref \<Rightarrow> string option) \<Rightarrow> string list \<Rightarrow> gotime \<Rightarrow> MemoryStore \<Rightarrow> request \<Rightarrow> MemoryStore \<times> http_response" where
  "FilesAPI_UpdateFile md ks now s r =
     (let filePath = ExtractPath r
      in if filePath = [] then (s, RespondError md r 400 err_bad_path)
         else case decode_map (rq_body r) of
                None \<Rightarrow> (s, RespondError md r 400 (New InvalidArgument ''invalid request body''))
              | Some updates \<Rightarrow>
                  (case UpdateFile ks now s filePath updates of
                     (s, Inl err) \<Rightarrow> (s, HandleAPIError md r err)
                   | (s, Inr result) \<Rightarrow> (s, RespondSuccess r 200 (FileData result))))"

definition FilesAPI_DeleteFile ::
  "(metadata_ref \<Rightarrow> string option) \<Rightarrow> MemoryStore \<Rightarrow> request \<Rightarrow> MemoryStore \<times> http_response" where
  "FilesAPI_DeleteFile md s r =
     (let filePath = ExtractPath r
      in if filePath = [] then (s, RespondError md r 400 err_bad_path)
         else case DeleteFile s filePath of
                (s, Some err) \<Rightarrow> (s, HandleAPIError md r err)
              | (s, None) \<Rightarrow> (s, RespondSuccess r 200 NoData))"

section \<open>Handlers for directories\<close>

abbreviation err_bad_dir :: go_error where
  "err_bad_dir \<equiv> New InvalidArgument ''invalid directory path''"

definition DirectoriesAPI_ListDirectory ::
  "(metadata_ref \<Rightarrow> string option) \<Rightarrow> string list \<Rightarrow> string list \<Rightarrow> MemoryStore \<Rightarrow> request \<Rightarrow> http_response" where
  "DirectoriesAPI_ListDirectory md dks fks s r =
     (let dirPath = ExtractPath r
      in if dirPath = [] then RespondError md r 400 err_bad_dir
         else case ParseBoolParam r ''recursive'' False of
                Inl err \<Rightarrow> RespondError md r 400 err
              | Inr recursive \<Rightarrow>
                  (case ParseIntParam r ''limit'' 100 0 1000 of
                     Inl err \<Rightarrow> RespondError md r 400 err
                   | Inr limit \<Rightarrow>
                       (case ListDirectory dks fks s dirPath recursive limit of
                          Inl err \<Rightarrow> HandleAPIError md r err
                        | Inr entries \<Rightarrow> RespondSuccess r 200 (Listing entries))))"

text \<open>\<open>decode\<close> is the decoding of a document into a \<^verbatim>\<open>DirectoryInfo\<close>, None when it fails.\<close>

definition DirectoriesAPI_CreateDirectory ::
  "(metadata_ref \<Rightarrow> string option) \<Rightarrow> (json \<Rightarrow> DirectoryInfo option) \<Rightarrow> gotime \<Rightarrow> MemoryStore \<Rightarrow> request \<Rightarrow>
   MemoryStore \<times> http_response" where
  "DirectoriesAPI_CreateDirectory md decode now s r =
     (let dirPath = ExtractPath r;
          create = (\<lambda>dirInfo.
            case CreateDirectory now s (dirInfo\<lparr>bf_Path := dirPath\<rparr>) of
              (s, Inl err) \<Rightarrow> (s, HandleAPIError md r err)
            | (s, Inr entries) \<Rightarrow> (s, RespondSuccess r 200 (DirData entries)));
          bad = RespondError md r 400 (New InvalidArgument ''invalid request body'')
      in if dirPath = [] then (s, nethttp_RespondError 400 ''invalid directory path'')
         else case rq_body r of
                Unreadable \<Rightarrow> (s, RespondError md r 400 (New Internal ''cannot read the request body''))
              | EmptyBody \<Rightarrow> create (empty_dir_info [] [] zero_time zero_time)
              | NotJSON \<Rightarrow> (s, bad)
              | Document d \<Rightarrow> (case decode d of None \<Rightarrow> (s, bad) | Some dirInfo \<Rightarrow> create dirInfo))"

definition DirectoriesAPI_DeleteDirectory ::
  "(metadata_ref \<Rightarrow> string option) \<Rightarrow> string list \<Rightarrow> string list \<Rightarrow> MemoryStore \<Rightarrow> request \<Rightarrow>
   MemoryStore \<times> http_response" where
  "DirectoriesAPI_DeleteDirectory md dks fks s r =
     (let dirPath = ExtractPath r
      in if dirPath = [] then (s, RespondError md r 400 err_bad_dir)
         else case ParseBoolParam r ''recursive'' False of
                Inl err \<Rightarrow> (s, RespondError md r 400 err)
              | Inr recursive \<Rightarrow>
                  (case DeleteDirectory dks fks s dirPath recursive of
                     (s, Some err) \<Rightarrow> (s, HandleAPIError md r err)
                   | (s, None) \<Rightarrow> (s, RespondSuccess r 200 NoData)))"

section \<open>Lemmas\<close>

lemma Clean_ExtractPath [simp]: "ExtractPath r \<noteq> [] \<Longrightarrow> Clean (ExtractPath r) = ExtractPath r"
  by (simp add: ExtractPath_def Let_def Clean_idem split: if_splits)

lemma ExtractPath_Nil [simp]: "ExtractPath r = [] \<longleftrightarrow> rq_path r = []"
  by (simp add: ExtractPath_def Let_def)

text \<open>The status an error of the store gets.\<close>

lemma status_of_error:
  "GetCode (Some e) = NotFound \<Longrightarrow> fst (HandleAPIError md r e) = 404"
  "GetCode (Some e) = AlreadyExists \<Longrightarrow> fst (HandleAPIError md r e) = 409"
  "GetCode (Some e) = Internal \<Longrightarrow> fst (HandleAPIError md r e) = 500"
  by (auto simp: HandleAPIError_def RespondError_def RespondJSON_def IsNotFound_def IsInvalidArgument_def
      IsPermissionDenied_def IsAlreadyExists_def IsUnauthenticated_def IsResourceExhausted_def IsErrorCode_def Let_def)

lemma status_simps [simp]:
  "fst (RespondError md r code e) = code"
  "fst (RespondSuccess r code d) = code"
  by (simp_all add: RespondError_def RespondSuccess_def RespondJSON_def Let_def)

text \<open>A response of the interface: the envelope says success, the inner status agrees with the code.\<close>

definition enveloped :: "http_response \<Rightarrow> bool" where
  "enveloped h \<longleftrightarrow> sr_Success (snd h) \<and> sr_Error (snd h) = None \<and>
     (\<exists>d. sr_Data (snd h) = Some d \<and> (rs_Status d = StatusError \<longleftrightarrow> 400 \<le> fst h) \<and>
        (rs_Error d \<noteq> None \<longleftrightarrow> 400 \<le> fst h))"

lemma enveloped_simps [simp]:
  "400 \<le> code \<Longrightarrow> enveloped (RespondError md r code e)"
  "code < 400 \<Longrightarrow> enveloped (RespondSuccess r code d)"
  "enveloped (HandleAPIError md r e)"
  by (simp_all add: enveloped_def RespondError_def RespondSuccess_def RespondJSON_def SuccessResponse_def
      HandleAPIError_def Let_def)

section \<open>Properties\<close>

text \<open>
  Every answer of the handlers says \<^verbatim>\<open>"success": true\<close> in its envelope, also when it reports
  an error: the error is only in the status code and inside the data.
\<close>

theorem errors_claim_success:
  "enveloped (FilesAPI_GetFileInfo md s r) \<and> enveloped (snd (FilesAPI_CreateFile md now s r)) \<and>
   enveloped (snd (FilesAPI_UpdateFile md ks now s r)) \<and> enveloped (snd (FilesAPI_DeleteFile md s r)) \<and>
   enveloped (DirectoriesAPI_ListDirectory md dks fks s r) \<and>
   enveloped (snd (DirectoriesAPI_DeleteDirectory md dks fks s r))"
proof (intro conjI)
  show "enveloped (FilesAPI_GetFileInfo md s r)"
    by (simp add: FilesAPI_GetFileInfo_def Let_def split: sum.split)
  show "enveloped (snd (FilesAPI_CreateFile md now s r))"
    by (simp add: FilesAPI_CreateFile_def Let_def split: sum.split option.split prod.split)
  show "enveloped (snd (FilesAPI_UpdateFile md ks now s r))"
    by (simp add: FilesAPI_UpdateFile_def Let_def split: sum.split option.split prod.split)
  show "enveloped (snd (FilesAPI_DeleteFile md s r))"
    by (simp add: FilesAPI_DeleteFile_def Let_def split: option.split prod.split)
  show "enveloped (DirectoriesAPI_ListDirectory md dks fks s r)"
    by (simp add: DirectoriesAPI_ListDirectory_def Let_def split: sum.split)
  show "enveloped (snd (DirectoriesAPI_DeleteDirectory md dks fks s r))"
    by (simp add: DirectoriesAPI_DeleteDirectory_def Let_def split: sum.split option.split prod.split)
qed

text \<open>
  A path taken from a request is empty, and then refused, or absolute and clean: its elements
  are names, without \<^verbatim>\<open>..\<close>, so no request leaves the root.
\<close>

theorem request_paths_are_safe:
  "(case ExtractPath r of
      [] \<Rightarrow> rq_path r = [] \<and> fst (FilesAPI_GetFileInfo md s r) = 400
    | _ \<Rightarrow> (\<exists>xs. names xs \<and> ExtractPath r = abs_path xs \<and> Clean (ExtractPath r) = ExtractPath r))"
proof (cases "rq_path r = []")
  case True
  then show ?thesis by (simp add: FilesAPI_GetFileInfo_def ExtractPath_def)
next
  case False
  define p where "p = (if \<not> HasPrefix (rq_path r) ''/'' then ''/'' @ rq_path r else rq_path r)"
  have "is_rooted p" using False by (cases "rq_path r") (auto simp: p_def is_rooted_def)
  then obtain xs where "names xs" "Clean p = abs_path xs" by (rule Clean_rooted)
  moreover have "ExtractPath r = Clean p" using False by (simp add: ExtractPath_def p_def)
  ultimately have "\<exists>xs. names xs \<and> ExtractPath r = abs_path xs \<and> Clean (ExtractPath r) = ExtractPath r"
    using Clean_idem by metis
  then show ?thesis using False by (cases "ExtractPath r") (auto simp del: Clean_ExtractPath)
qed

text \<open>
  (C24) The life of a file over HTTP, on every well-formed store: after a \<^verbatim>\<open>POST\<close> answered with 201, the
  \<^verbatim>\<open>GET\<close> of the same path answers 200 with the file, a second \<^verbatim>\<open>POST\<close> 409, a \<^verbatim>\<open>DELETE\<close> 200, and
  then \<^verbatim>\<open>GET\<close> and \<^verbatim>\<open>DELETE\<close> answer 404. The file has the size and type of the request, but its name
  is the last element of the path and it has no metadata, whatever the request says.
\<close>

theorem http_file_life:
  assumes "wf_store s" "FilesAPI_CreateFile md now s r = (s1, h)" "fst h = 201"
    and "rq_path r2 = rq_path r" "rq_ContentLength r2 \<le> 1024 * 1024"
    and "decode_FileRequest (rq_body r2) = Some q2" "0 \<le> fr_Size q2"
  shows "(\<exists>f q. FilesAPI_GetFileInfo md s1 r2 = RespondSuccess r2 200 (FileData f) \<and>
      decode_FileRequest (rq_body r) = Some q \<and> fi_Size f = fr_Size q \<and> fi_MimeType f = fr_MimeType q \<and>
      bf_Name f = Base (ExtractPath r) \<and> bf_Metadata f = None) \<and>
    fst (snd (FilesAPI_CreateFile md now2 s1 r2)) = 409 \<and>
    (\<exists>s2. FilesAPI_DeleteFile md s1 r2 = (s2, RespondSuccess r2 200 NoData) \<and>
       fst (FilesAPI_GetFileInfo md s2 r2) = 404 \<and> fst (snd (FilesAPI_DeleteFile md s2 r2)) = 404)"
proof -
  let ?p = "ExtractPath r"
  have p: "?p \<noteq> []" "rq_ContentLength r \<le> 1024 * 1024"
    using assms(2,3) by (auto simp: FilesAPI_CreateFile_def Let_def split: if_splits)
  then obtain q where q: "decode_FileRequest (rq_body r) = Some q" "0 \<le> fr_Size q"
    using assms(2,3) by (auto simp: FilesAPI_CreateFile_def Let_def split: option.splits if_splits)
  define f0 where "f0 = zero_FileInfo\<lparr>bf_Path := ?p, fi_Size := fr_Size q, fi_MimeType := fr_MimeType q\<rparr>"
  have p2: "ExtractPath r2 = ?p" using assms(4) by (simp add: ExtractPath_def)
  have post: "FilesAPI_CreateFile md now s r = (case CreateFile now s f0 of
      (s, Inl err) \<Rightarrow> (s, HandleAPIError md r err) | (s, Inr result) \<Rightarrow> (s, RespondSuccess r 201 (FileData result)))"
    using p q by (simp add: FilesAPI_CreateFile_def f0_def)
  have not201: "fst (HandleAPIError md r e) \<noteq> 201" for e
    by (simp add: HandleAPIError_def Let_def)
  obtain g where g: "CreateFile now s f0 = (s1, Inr g)"
    using post assms(2,3) not201 by (auto split: prod.splits sum.splits)
  have get: "GetFileInfo s1 ?p = Inr g"
    using mem.create_get [OF assms(1) g, of ?p] p(1) by (simp add: f0_def)
  have fields: "fi_Size g = fr_Size q" "fi_MimeType g = fr_MimeType q" "bf_Name g = Base ?p" "bf_Metadata g = None"
    using g p(1) by (auto simp: CreateFile_def Let_def f0_def zero_FileInfo_def cloneFileInfo_def split: if_splits)
  let ?f2 = "zero_FileInfo\<lparr>bf_Path := ?p, fi_Size := fr_Size q2, fi_MimeType := fr_MimeType q2\<rparr>"
  obtain e where e: "CreateFile now2 s1 ?f2 = (s1, Inl e)" "GetCode (Some e) = AlreadyExists"
    using mem.create_again [OF assms(1) g, of ?f2 now2] by (auto simp: f0_def)
  have again: "fst (snd (FilesAPI_CreateFile md now2 s1 r2)) = 409"
    using p p2 assms(5-7) e(1) status_of_error(2) [OF e(2)] by (simp add: FilesAPI_CreateFile_def)
  obtain s2 where s2: "DeleteFile s1 ?p = (s2, None)" using mem.delete_ok [OF get] by blast
  have wf: "wf_store s1" by (rule mem.create_inv [OF assms(1) g])
  obtain e1 where e1: "GetFileInfo s2 ?p = Inl e1" "GetCode (Some e1) = NotFound"
    using mem.delete_get [OF wf s2, of ?p] by auto
  obtain e2 where e2: "DeleteFile s2 ?p = (s2, Some e2)" "GetCode (Some e2) = NotFound"
    using mem.delete_again [OF wf s2] by blast
  have "FilesAPI_DeleteFile md s1 r2 = (s2, RespondSuccess r2 200 NoData)"
    "fst (FilesAPI_GetFileInfo md s2 r2) = 404" "fst (snd (FilesAPI_DeleteFile md s2 r2)) = 404"
    using p(1) s2 e1 e2 status_of_error(1) by (simp_all add: FilesAPI_DeleteFile_def FilesAPI_GetFileInfo_def p2)
  with get fields q(1) p(1) again show ?thesis by (auto simp: FilesAPI_GetFileInfo_def p2)
qed

definition demo_request :: "string \<Rightarrow> json \<Rightarrow> request" where
  "demo_request p b =
     \<lparr>rq_path = p, rq_ContentLength = 64, rq_body = Document b, rq_query = Map.empty, rq_id = ''r1'',
      rq_decode_error = []\<rparr>"

definition demo_post :: request where
  "demo_post = demo_request ''b''
     (JObject [(''Name'', JString ''my file''), (''size'', JInt 7), (''mime_type'', JString ''text/plain'')])"

lemma demo_post_decodes:
  "decode_FileRequest (rq_body demo_post) =
     Some \<lparr>fr_Name = ''my file'', fr_Size = 7, fr_MimeType = ''text/plain''\<rparr>"
proof -
  have "map lower ''Name'' = ''name''" "map lower ''size'' = ''size''" "map lower ''mime_type'' = ''mime_type''"
    by code_simp+
  then show ?thesis
    by (simp add: demo_post_def demo_request_def decode_FileRequest_def values_at_def decode_string_def
        decode_int64_def)
qed

lemma demo_post_path: "ExtractPath demo_post = ''/b''"
  by (simp add: demo_post_def demo_request_def ExtractPath_def path_eval)

lemma demo_post_created: "fst (snd (FilesAPI_CreateFile (\<lambda>_. None) 40 demo_store demo_post)) = 201"
proof -
  let ?f = "zero_FileInfo\<lparr>bf_Path := ''/b'', fi_Size := 7, fi_MimeType := ''text/plain''\<rparr>"
  have "\<exists>s g. CreateFile 40 demo_store ?f = (s, Inr g)"
    by (simp add: CreateFile_def demo_store_eq(1) demo_store_files path_eval)
  moreover have "rq_ContentLength demo_post = 64" by (simp add: demo_post_def demo_request_def)
  ultimately show ?thesis
    by (auto simp: FilesAPI_CreateFile_def demo_post_path demo_post_decodes)
qed

theorem http_file_life_witness:
  "\<exists>s1 h. FilesAPI_CreateFile (\<lambda>_. None) 40 demo_store demo_post = (s1, h) \<and> fst h = 201 \<and>
     (\<exists>f. FilesAPI_GetFileInfo (\<lambda>_. None) s1 demo_post = RespondSuccess demo_post 200 (FileData f) \<and>
        fi_Size f = 7 \<and> bf_Name f = Base ''/b'') \<and>
     fst (snd (FilesAPI_CreateFile (\<lambda>_. None) 50 s1 demo_post)) = 409"
proof -
  obtain s1 h where h: "FilesAPI_CreateFile (\<lambda>_. None) 40 demo_store demo_post = (s1, h)"
    by (cases "FilesAPI_CreateFile (\<lambda>_. None) 40 demo_store demo_post")
  have "fst h = 201" using demo_post_created h by simp
  moreover have "rq_ContentLength demo_post \<le> 1024 * 1024" by (simp add: demo_post_def demo_request_def)
  ultimately show ?thesis
    using http_file_life [OF conjunct1 [OF store_reachable_wf [OF demo_store_reachable]] h _ refl _ demo_post_decodes,
        of 50] h demo_post_path demo_post_decodes by auto
qed

text \<open>
  What a \<^verbatim>\<open>PUT\<close> can change: only the type, when the body gives a string for it, and the time of the
  update. The size, the chunks and the metadata stay as they are, whatever the body says, because
  the decoder makes numbers floats and objects generic maps; the answer is 200 all the same.
\<close>

theorem json_update_only_type:
  assumes "FilesAPI_UpdateFile md ks now s r = (s', h)" "ms_initialized s"
    and "ms_files s (ExtractPath r) = Some f" "rq_body r = Document (JObject obj)" "rq_path r \<noteq> []"
    and "set ks = fst ` set obj" "distinct ks"
  shows "fst h = 200 \<and>
    ms_files s' = (ms_files s)(ExtractPath r \<mapsto> f\<lparr>bf_UpdatedAt := now,
      fi_MimeType := (case map_of (rev obj) ''mime_type'' of Some (JString t) \<Rightarrow> t | _ \<Rightarrow> fi_MimeType f)\<rparr>)"
proof -
  let ?u = "map_option any_of_json \<circ> map_of (rev obj)"
  have en: "enumerates ks ?u"
    using assms(6,7) by (auto simp: enumerates_def dom_def map_of_eq_None_iff image_iff)
  have none: "upd_size (?u k) n = n" "upd_chunks (?u k) c = c" "upd_meta (?u k) m = m" for k n c m
    by (cases "map_of (rev obj) k"; simp add: upd_defs; cases "the (map_of (rev obj) k)"; simp)+
  have mime: "upd_mime (?u k) t0 = (case map_of (rev obj) k of Some (JString t) \<Rightarrow> t | _ \<Rightarrow> t0)" for k t0
    by (auto simp: upd_defs split: option.split json.split)
  have f': "apply_updates ks ?u f = f\<lparr>fi_MimeType :=
      (case map_of (rev obj) ''mime_type'' of Some (JString t) \<Rightarrow> t | _ \<Rightarrow> fi_MimeType f)\<rparr>"
    unfolding apply_updates_eq [OF en] none mime by (cases f) simp
  have "UpdateFile ks now s (ExtractPath r) ?u = (s\<lparr>ms_files := (ms_files s)(ExtractPath r \<mapsto>
      (apply_updates ks ?u f)\<lparr>bf_UpdatedAt := now\<rparr>)\<rparr>, Inr (cloneFileInfo ((apply_updates ks ?u f)\<lparr>bf_UpdatedAt := now\<rparr>)))"
    using assms(2,3,5) by (simp add: UpdateFile_def Let_def)
  then show ?thesis
    using assms(1,4,5) by (auto simp: FilesAPI_UpdateFile_def decode_map_def f')
qed

definition demo_put :: request where
  "demo_put = demo_request ''a'' (JObject [(''size'', JInt 99), (''mime_type'', JString ''image/png'')])"

theorem json_update_only_type_witness:
  "\<exists>s' h f. FilesAPI_UpdateFile (\<lambda>_. None) [''size'', ''mime_type''] 60 demo_store demo_put = (s', h) \<and>
     fst h = 200 \<and> ms_files s' ''/a'' = Some f \<and> fi_Size f = 5 \<and> fi_MimeType f = ''image/png''"
proof -
  obtain s' h where h: "FilesAPI_UpdateFile (\<lambda>_. None) [''size'', ''mime_type''] 60 demo_store demo_put = (s', h)"
    by (cases "FilesAPI_UpdateFile (\<lambda>_. None) [''size'', ''mime_type''] 60 demo_store demo_put")
  have p: "ExtractPath demo_put = ''/a''"
    by (simp add: demo_put_def demo_request_def ExtractPath_def path_eval)
  have "rq_body demo_put = Document (JObject [(''size'', JInt 99), (''mime_type'', JString ''image/png'')])"
    "rq_path demo_put \<noteq> []" by (simp_all add: demo_put_def demo_request_def)
  from json_update_only_type [OF h demo_store_eq(1) _ this] h p demo_store_eq(2)
  show ?thesis by (auto simp: demo_file_def cloneFileInfo_def)
qed

lemma ParseIntParam_range:
  assumes "ParseIntParam r name d lo hi = Inr n" "lo \<le> d" "d \<le> hi" "0 < hi"
  shows "lo \<le> n \<and> n \<le> hi"
  using assms by (auto simp: ParseIntParam_def Let_def split: if_splits option.splits)

text \<open>
  The number of entries in a listing: at most 100 when the request gives no limit, at most the
  limit, and at most 1000, when it gives a positive one; a limit of 0 is accepted and gives the
  complete listing, without any bound. A limit that is negative or not a number is refused with 400.
\<close>

theorem listing_limit:
  assumes "ms_initialized s" "rq_path r \<noteq> []" "query_get r ''recursive'' = []"
    and "ms_directories s (dir_key (ExtractPath r)) \<noteq> None \<or> dir_key (ExtractPath r) = ''/''"
  shows "let lim = query_get r ''limit''; all = listing dks fks s (ExtractPath r) False;
      resp = DirectoriesAPI_ListDirectory md dks fks s r
    in if lim = [] then resp = RespondSuccess r 200 (Listing (take 100 all))
       else case Atoi lim of
              None \<Rightarrow> fst resp = 400
            | Some n \<Rightarrow>
                if n < 0 then fst resp = 400
                else if n = 0 then resp = RespondSuccess r 200 (Listing all)
                else resp = RespondSuccess r 200 (Listing (take (nat (min n 1000)) all))"
proof -
  have b: "ParseBoolParam r ''recursive'' False = Inr False" using assms(3) by (simp add: ParseBoolParam_def)
  have l: "ListDirectory dks fks s (ExtractPath r) False n =
      Inr (if n \<le> 0 then listing dks fks s (ExtractPath r) False
           else take (nat n) (listing dks fks s (ExtractPath r) False))" for n
    using assms(4) by (auto simp: ListDirectory_eq [OF assms(1)])
  show ?thesis
    using assms(2)
    by (auto simp: DirectoriesAPI_ListDirectory_def b l ParseIntParam_def Let_def min_def split: option.split)
qed

theorem listing_limit_witness:
  "DirectoriesAPI_ListDirectory (\<lambda>_. None) [''/''] [''/a''] demo_store
     ((demo_request ''/'' JNull)\<lparr>rq_query := [''limit'' \<mapsto> ''0'']\<rparr>) =
   RespondSuccess ((demo_request ''/'' JNull)\<lparr>rq_query := [''limit'' \<mapsto> ''0'']\<rparr>) 200
     (Listing (listing [''/''] [''/a''] demo_store ''/'' False))"
proof -
  let ?r = "(demo_request ''/'' JNull)\<lparr>rq_query := [''limit'' \<mapsto> ''0'']\<rparr>"
  define r where "r = ?r"
  have p: "ExtractPath r = ''/''" by (simp add: r_def demo_request_def ExtractPath_def path_eval)
  have q: "rq_path r \<noteq> []" "query_get r ''recursive'' = []" "query_get r ''limit'' = ''0''"
    by (simp_all add: r_def demo_request_def query_get_def)
  have a: "Atoi ''0'' = Some 0" by code_simp
  have d: "ms_directories demo_store (dir_key (ExtractPath r)) \<noteq> None \<or> dir_key (ExtractPath r) = ''/''"
    by (simp add: p dir_key_def path_eval)
  from listing_limit [OF demo_store_eq(1) q(1,2) d, where dks = "[''/'']" and fks = "[''/a'']" and md = "\<lambda>_. None"]
  show ?thesis unfolding r_def [symmetric] by (simp add: p a q(3))
qed

end
