(* ===== verification/RateLimit.thy ===== *)
theory RateLimit
  imports FileApi
begin

text \<open>
  The rate limiter of the HTTP server, \<^verbatim>\<open>server/middleware/rate_limit.go\<close>: for every client
  address the times of its accepted requests, a request is refused when \<open>limit\<close> of them are
  younger than \<open>window\<close>, and a goroutine drops what is older.

  The lemmas relate the pruned table to the complete history of accepted requests: the limiter
  decides exactly as one that never forgets, so no address ever gets more than \<open>limit\<close> requests
  through in any window, and pruning refuses nobody. The address itself is taken from a header the
  client writes.
\<close>

section \<open>The address of a client\<close>

record client =
  cl_XForwardedFor :: string
  cl_XRealIP :: string
  cl_RemoteAddr :: string

text \<open>\<^verbatim>\<open>strings.TrimSpace\<close> on ASCII text.\<close>

definition is_space :: "char \<Rightarrow> bool" where
  "is_space c \<longleftrightarrow> of_char c = (32 :: nat) \<or> (9 \<le> (of_char c :: nat) \<and> (of_char c :: nat) \<le> 13)"

definition TrimSpace :: "string \<Rightarrow> string" where
  "TrimSpace s = rev (dropWhile is_space (rev (dropWhile is_space s)))"

text \<open>\<^verbatim>\<open>net.SplitHostPort\<close>: the host before the last colon, in brackets when it has colons; None on an error.\<close>

definition SplitHostPort :: "string \<Rightarrow> (string \<times> string) option" where
  "SplitHostPort hostport =
     (let port = rev (takeWhile (\<lambda>c. c \<noteq> CHR '':'') (rev hostport));
          before = take (length hostport - length port - 1) hostport
      in if CHR '':'' \<notin> set hostport then None
         else if hd hostport = CHR ''['' then
           (let inner = takeWhile (\<lambda>c. c \<noteq> CHR '']'') (tl hostport)
            in if before = CHR ''['' # inner @ '']'' \<and> CHR ''['' \<notin> set inner \<and>
                  CHR ''['' \<notin> set port \<and> CHR '']'' \<notin> set port
               then Some (inner, port) else None)
         else if CHR '':'' \<in> set before \<or> CHR ''['' \<in> set hostport \<or> CHR '']'' \<in> set hostport
         then None
         else Some (before, port))"

definition getClientIP :: "client \<Rightarrow> string" where
  "getClientIP r =
     (let ip = cl_XForwardedFor r
      in if ip \<noteq> [] then TrimSpace (takeWhile (\<lambda>c. c \<noteq> CHR '','') ip)
         else let ip = cl_XRealIP r
              in if ip \<noteq> [] then ip
                 else case SplitHostPort (cl_RemoteAddr r) of
                        None \<Rightarrow> cl_RemoteAddr r
                      | Some (ip, _) \<Rightarrow> ip)"

section \<open>The limiter\<close>

type_synonym rl_table = "string \<rightharpoonup> gotime list"

definition active_times :: "duration \<Rightarrow> gotime \<Rightarrow> gotime list \<Rightarrow> gotime list" where
  "active_times window now ts = filter (\<lambda>t. now - t < window) ts"

text \<open>One turn of the cleanup goroutine; \<open>ips\<close> is the order of its loop.\<close>

fun RateLimit_cleanup :: "duration \<Rightarrow> gotime \<Rightarrow> string list \<Rightarrow> rl_table \<Rightarrow> rl_table" where
  "RateLimit_cleanup window now [] requests = requests"
| "RateLimit_cleanup window now (ip # ips) requests =
     RateLimit_cleanup window now ips
       (case requests ip of
          None \<Rightarrow> requests
        | Some ts \<Rightarrow>
            let active = active_times window now ts
            in if length active = 0 then requests(ip := None) else requests(ip \<mapsto> active))"

text \<open>The part of a request under the mutex: the new table, and whether the request goes through.\<close>

definition RateLimit_admit :: "int \<Rightarrow> duration \<Rightarrow> gotime \<Rightarrow> rl_table \<Rightarrow> string \<Rightarrow> rl_table \<times> bool" where
  "RateLimit_admit limit window now requests ip =
     (let active = (case requests ip of None \<Rightarrow> [] | Some ts \<Rightarrow> active_times window now ts)
      in if int (length active) \<ge> limit then (requests, False)
         else (requests(ip \<mapsto> active @ [now]), True))"

text \<open>The middleware: the answer, and the header \<^verbatim>\<open>Retry-After\<close> when it sets it.\<close>

definition RateLimit ::
  "(metadata_ref \<Rightarrow> string option) \<Rightarrow> int \<Rightarrow> duration \<Rightarrow> gotime \<Rightarrow> ('s \<Rightarrow> request \<Rightarrow> 's \<times> http_response outcome) \<Rightarrow>
   rl_table \<times> 's \<Rightarrow> client \<Rightarrow> request \<Rightarrow> (rl_table \<times> 's) \<times> http_response outcome \<times> string option" where
  "RateLimit md limit window now serve_next state c r =
     (let ip = getClientIP c;
          (requests, admitted) = RateLimit_admit limit window now (fst state) ip
      in if \<not> admitted
         then ((requests, snd state),
               Return (RespondError md r 429 (New RateLimitExceeded ''request rate above the limit, try again later'')),
               Some (dec_int (go_div window Second)))
         else let (s, h) = serve_next (snd state) r in ((requests, s), h, None))"

section \<open>Runs and their histories\<close>

text \<open>
  A run of the limiter at times that never go back, with the history of the accepted requests.
\<close>

inductive rl_run :: "int \<Rightarrow> duration \<Rightarrow> gotime \<Rightarrow> rl_table \<Rightarrow> (string \<times> gotime) list \<Rightarrow> bool"
  for limit window where
  start: "rl_run limit window t Map.empty []"
| request: "rl_run limit window t m h \<Longrightarrow> t \<le> now \<Longrightarrow> RateLimit_admit limit window now m ip = (m', ok) \<Longrightarrow>
    rl_run limit window now m' (if ok then h @ [(ip, now)] else h)"
| cleanup: "rl_run limit window t m h \<Longrightarrow> t \<le> now \<Longrightarrow> enumerates ips m \<Longrightarrow>
    rl_run limit window now (RateLimit_cleanup window now ips m) h"

definition times_of :: "string \<Rightarrow> (string \<times> gotime) list \<Rightarrow> gotime list" where
  "times_of ip h = map snd (filter (\<lambda>e. fst e = ip) h)"

lemma times_of_simps [simp]:
  "times_of ip [] = []"
  "times_of ip (h @ [(ip', t)]) = times_of ip h @ (if ip' = ip then [t] else [])"
  by (simp_all add: times_of_def)

definition stored :: "rl_table \<Rightarrow> string \<Rightarrow> gotime list" where
  "stored m ip = (case m ip of None \<Rightarrow> [] | Some ts \<Rightarrow> ts)"

lemma stored_upd [simp]:
  "stored (m(ip \<mapsto> ts)) ip' = (if ip' = ip then ts else stored m ip')"
  "stored (m(ip := None)) ip' = (if ip' = ip then [] else stored m ip')"
  by (simp_all add: stored_def)

lemma active_active [simp]:
  "t \<le> now \<Longrightarrow> active_times w now (active_times w t ts) = active_times w now ts"
  unfolding active_times_def filter_filter by (rule filter_cong) auto

lemma length_filter_impl:
  "(\<And>x. x \<in> set xs \<Longrightarrow> P x \<Longrightarrow> Q x) \<Longrightarrow> length (filter P xs) \<le> length (filter Q xs)"
  by (induction xs) auto

lemma active_Nil [simp]: "active_times w now [] = []"
  by (simp add: active_times_def)

lemma active_append [simp]: "active_times w now (xs @ ys) = active_times w now xs @ active_times w now ys"
  by (simp add: active_times_def)

lemma admit_eq:
  "RateLimit_admit limit window now m ip =
     (if int (length (active_times window now (stored m ip))) \<ge> limit then (m, False)
      else (m(ip \<mapsto> active_times window now (stored m ip) @ [now]), True))"
  by (simp add: RateLimit_admit_def stored_def active_times_def Let_def split: option.split)

text \<open>What the cleanup does to an entry, whatever its order.\<close>

lemma cleanup_other: "ip \<notin> set ips \<Longrightarrow> RateLimit_cleanup w now ips m ip = m ip"
  by (induction ips arbitrary: m) (auto simp: Let_def split: option.split)

lemma cleanup_entry:
  assumes "enumerates ips m"
  shows "RateLimit_cleanup w now ips m ip =
    (case m ip of None \<Rightarrow> None
     | Some ts \<Rightarrow> if active_times w now ts = [] then None else Some (active_times w now ts))"
proof -
  have "distinct ips \<Longrightarrow> ip \<in> set ips \<Longrightarrow> RateLimit_cleanup w now ips m ip =
      (case m ip of None \<Rightarrow> None
       | Some ts \<Rightarrow> if active_times w now ts = [] then None else Some (active_times w now ts))" for m
    by (induction ips arbitrary: m) (auto simp: Let_def cleanup_other split: option.split)
  moreover have "ip \<notin> set ips \<Longrightarrow> m ip = None" using assms by (auto simp: enumerates_def)
  ultimately show ?thesis
    using assms by (cases "ip \<in> set ips") (auto simp: enumerates_def cleanup_other)
qed

lemma stored_cleanup:
  "enumerates ips m \<Longrightarrow> stored (RateLimit_cleanup w now ips m) ip = active_times w now (stored m ip)"
  by (simp add: stored_def cleanup_entry active_times_def split: option.split)

text \<open>The invariant: at the time of the last step, the table and the history agree on what is active.\<close>

lemma rl_run_agrees:
  assumes "rl_run limit window t m h"
  shows "active_times window t (stored m ip) = active_times window t (times_of ip h) \<and>
    list_all (\<lambda>e. snd e \<le> t) h"
  using assms
proof induction
  case (start t)
  then show ?case by (simp add: stored_def active_times_def)
next
  case (request t m h now ip' m' ok)
  have "active_times window now (stored m ip) = active_times window now (times_of ip h)"
    by (metis active_active request.IH request.hyps(2))
  moreover have "list_all (\<lambda>e. snd e \<le> now) h"
    using request.IH request.hyps(2) by (auto simp: list_all_iff)
  ultimately show ?case
    using request.hyps(3) by (auto simp: admit_eq split: if_splits)
next
  case (cleanup t m h now ips)
  have "active_times window now (stored m ip) = active_times window now (times_of ip h)"
    by (metis active_active cleanup.IH cleanup.hyps(2))
  moreover have "list_all (\<lambda>e. snd e \<le> now) h"
    using cleanup.IH cleanup.hyps(2) by (auto simp: list_all_iff)
  ultimately show ?case
    using cleanup.hyps(3) by (simp add: stored_cleanup)
qed

lemma rl_run_active:
  "rl_run limit window t m h \<Longrightarrow> t \<le> now \<Longrightarrow>
   active_times window now (stored m ip) = active_times window now (times_of ip h)"
  by (metis active_active rl_run_agrees)

text \<open>The accepted requests of an address in any span as long as the window.\<close>

lemma rl_run_bound:
  assumes "rl_run limit window t m h"
  shows "int (length (filter (\<lambda>s. start \<le> s \<and> s < start + window) (times_of ip h))) \<le> max 0 limit"
  using assms
proof induction
  case (request t m h now ip' m' ok)
  let ?in = "\<lambda>s. start \<le> s \<and> s < start + window"
  show ?case
  proof (cases "ok \<and> ip' = ip \<and> ?in now")
    case True
    have old: "list_all (\<lambda>e. snd e \<le> now) h"
      using rl_run_agrees [OF request.hyps(1), of ip] request.hyps(2) by (auto simp: list_all_iff)
    have "length (filter ?in (times_of ip h)) \<le> length (filter (\<lambda>s. now - s < window) (times_of ip h))"
      using True old by (intro length_filter_impl) (auto simp: times_of_def list_all_iff)
    moreover have "int (length (filter (\<lambda>s. now - s < window) (times_of ip h))) < limit"
      using request.hyps(3) True rl_run_active [OF request.hyps(1,2), of ip]
      by (auto simp: admit_eq active_times_def split: if_splits)
    ultimately show ?thesis using True by simp
  next
    case False
    then show ?thesis using request.IH by auto
  qed
qed simp_all

text \<open>
  (C17) The limiter decides as one that keeps the whole history: a request goes through exactly when
  fewer than \<open>limit\<close> accepted requests of its address are younger than the window. The
  accepted requests of an address in any span of that length are therefore at most \<open>limit\<close>,
  whatever requests and cleanups come between.
\<close>

theorem rate_limit_exact:
  assumes "rl_run limit window t m h" "t \<le> now"
  shows "(snd (RateLimit_admit limit window now m ip) \<longleftrightarrow>
      int (length (filter (\<lambda>s. now - s < window) (times_of ip h))) < limit) \<and>
    int (length (filter (\<lambda>s. start \<le> s \<and> s < start + window) (times_of ip h))) \<le> max 0 limit"
  using rl_run_active [OF assms, of ip] rl_run_bound [OF assms(1)] by (auto simp: admit_eq active_times_def)

definition demo_table :: rl_table where
  "demo_table = fst (RateLimit_admit 2 Second 5 (fst (RateLimit_admit 2 Second 3 Map.empty ''a'')) ''a'')"

lemma demo_run: "rl_run 2 Second 5 demo_table [(''a'', 3), (''a'', 5)]"
proof -
  let ?m = "fst (RateLimit_admit 2 Second 3 Map.empty ''a'')"
  have a: "RateLimit_admit 2 Second 3 Map.empty ''a'' = (?m, True)"
    by (simp add: RateLimit_admit_def)
  have b: "RateLimit_admit 2 Second 5 ?m ''a'' = (demo_table, True)"
    by (simp add: RateLimit_admit_def demo_table_def active_times_def durations)
  have "rl_run 2 Second 3 ?m (if True then [] @ [(''a'', 3)] else [])"
    by (rule rl_run.request [OF rl_run.start [of _ _ 0] _ a]) simp
  then have "rl_run 2 Second 5 demo_table (if True then ([(''a'', 3)] @ [(''a'', 5)]) else [(''a'', 3)])"
    by (intro rl_run.request [OF _ _ b, of 3]) simp_all
  then show ?thesis by simp
qed

theorem rate_limit_exact_witness:
  "\<not> snd (RateLimit_admit 2 Second 9 demo_table ''a'') \<and> snd (RateLimit_admit 2 Second 9 demo_table ''b'') \<and>
   length (filter (\<lambda>s. 3 \<le> s \<and> s < 3 + Second) (times_of ''a'' [(''a'', 3), (''a'', 5)])) \<le> 2"
  using rate_limit_exact [OF demo_run, where now = 9 and ip = "''a''" and start = 3]
    rate_limit_exact [OF demo_run, where now = 9 and ip = "''b''" and start = 3]
  by (simp add: times_of_def durations)

text \<open>
  Who is limited: the middleware hands a request on, and answers as the handler does, exactly when
  the limiter admits the address; a refused request reaches no handler, changes nothing and is
  answered with 429, the number of whole seconds to wait and the code of an internal error.
\<close>

theorem rate_limited_answer:
  assumes "RateLimit md limit window now serve_next (m, s) c r = ((m', s'), h, retry)"
  shows "if snd (RateLimit_admit limit window now m (getClientIP c))
    then (s', h) = serve_next s r \<and> retry = None \<and>
      m' = m(getClientIP c \<mapsto> active_times window now (stored m (getClientIP c)) @ [now])
    else s' = s \<and> m' = m \<and> retry = Some (dec_int (go_div window Second)) \<and>
      (\<exists>a d e. h = Return (429, a) \<and> sr_Data a = Some d \<and> rs_Error d = Some e \<and> ei_Code e = ''internal_error'')"
  using assms
  by (auto simp: RateLimit_def admit_eq RespondError_def RespondJSON_def SuccessResponse_def New_def mapErrorCode_def
      Let_def split: prod.splits if_splits)

theorem rate_limited_answer_witness:
  "\<exists>s' h. RateLimit (\<lambda>_. None) 2 Second 9 (\<lambda>s r. (Suc s, Return (RespondSuccess r 200 NoData))) (demo_table, 0)
      \<lparr>cl_XForwardedFor = ''a, b'', cl_XRealIP = [], cl_RemoteAddr = ''10.0.0.1:80''\<rparr> demo_post = ((demo_table, s'), h, Some ''1'') \<and>
     s' = 0 \<and> (\<exists>a. h = Return (429, a))"
proof -
  let ?c = "\<lparr>cl_XForwardedFor = ''a, b'', cl_XRealIP = [], cl_RemoteAddr = ''10.0.0.1:80''\<rparr>"
  let ?n = "\<lambda>(s :: nat) r. (Suc s, Return (RespondSuccess r 200 NoData))"
  obtain m' s' h retry where e: "RateLimit (\<lambda>_. None) 2 Second 9 ?n (demo_table, 0) ?c demo_post = ((m', s'), h, retry)"
    by (metis prod.exhaust)
  have c: "getClientIP ?c = ''a''" by code_simp
  have "\<not> snd (RateLimit_admit 2 Second 9 demo_table ''a'')"
    by (simp add: RateLimit_admit_def demo_table_def active_times_def durations)
  moreover have "dec_int (go_div Second Second) = ''1''"
    by code_simp
  ultimately show ?thesis using rate_limited_answer [OF e] e by (auto simp: c)
qed

text \<open>
  The address is the client's word: requests from one connection that give different names in
  \<^verbatim>\<open>X-Forwarded-For\<close> are different clients, so as many of them as one likes go through at the
  same moment, with any positive limit.
\<close>

fun admit_all :: "int \<Rightarrow> duration \<Rightarrow> gotime \<Rightarrow> rl_table \<Rightarrow> client list \<Rightarrow> bool list" where
  "admit_all limit window now m [] = []"
| "admit_all limit window now m (c # cs) =
     (case RateLimit_admit limit window now m (getClientIP c) of
        (m, ok) \<Rightarrow> ok # admit_all limit window now m cs)"

definition plain_name :: "string \<Rightarrow> bool" where
  "plain_name x \<longleftrightarrow> x \<noteq> [] \<and> list_all (\<lambda>c. c \<noteq> CHR '','' \<and> \<not> is_space c) x"

lemma TrimSpace_id: "list_all (\<lambda>c. \<not> is_space c) x \<Longrightarrow> TrimSpace x = x"
proof -
  have id: "dropWhile is_space y = y" if "list_all (\<lambda>c. \<not> is_space c) y" for y
    using that by (cases y) simp_all
  assume "list_all (\<lambda>c. \<not> is_space c) x"
  then show ?thesis by (simp add: TrimSpace_def id)
qed

lemma getClientIP_header: "plain_name x \<Longrightarrow> getClientIP \<lparr>cl_XForwardedFor = x, cl_XRealIP = y, cl_RemoteAddr = z\<rparr> = x"
proof -
  assume x: "plain_name x"
  then have "takeWhile (\<lambda>c. c \<noteq> CHR '','') x = x" "TrimSpace x = x"
    by (simp_all add: plain_name_def list_all_iff takeWhile_eq_all_conv TrimSpace_id)
  with x show ?thesis by (simp add: getClientIP_def plain_name_def del: takeWhile_eq_all_conv)
qed

theorem spoofed_clients_pass:
  assumes "0 < limit" "distinct xs" "list_all plain_name xs" "\<forall>x \<in> set xs. m x = None"
  shows "admit_all limit window now m
      (map (\<lambda>x. \<lparr>cl_XForwardedFor = x, cl_XRealIP = real_ip, cl_RemoteAddr = addr\<rparr>) xs) =
    replicate (length xs) True"
  using assms(2-4)
proof (induction xs arbitrary: m)
  case (Cons x xs)
  have "\<forall>y \<in> set xs. (m(x \<mapsto> [now])) y = None" using Cons.prems by auto
  then have "admit_all limit window now (m(x \<mapsto> [now]))
      (map (\<lambda>x. \<lparr>cl_XForwardedFor = x, cl_XRealIP = real_ip, cl_RemoteAddr = addr\<rparr>) xs) = replicate (length xs) True"
    using Cons.IH Cons.prems by (auto simp del: fun_upd_apply)
  then show ?case
    using Cons.prems assms(1) by (simp add: getClientIP_header RateLimit_admit_def)
qed simp

theorem spoofed_clients_pass_witness:
  "admit_all 1 Second 7 Map.empty
     [\<lparr>cl_XForwardedFor = ''x'', cl_XRealIP = [], cl_RemoteAddr = ''10.0.0.1:80''\<rparr>,
      \<lparr>cl_XForwardedFor = ''y'', cl_XRealIP = [], cl_RemoteAddr = ''10.0.0.1:80''\<rparr>] = [True, True] \<and>
   admit_all 1 Second 7 Map.empty
     [\<lparr>cl_XForwardedFor = [], cl_XRealIP = [], cl_RemoteAddr = ''10.0.0.1:80''\<rparr>,
      \<lparr>cl_XForwardedFor = [], cl_XRealIP = [], cl_RemoteAddr = ''10.0.0.1:81''\<rparr>] = [True, False]"
proof
  have p: "list_all plain_name [''x'', ''y'']" by code_simp
  show "admit_all 1 Second 7 Map.empty
     [\<lparr>cl_XForwardedFor = ''x'', cl_XRealIP = [], cl_RemoteAddr = ''10.0.0.1:80''\<rparr>,
      \<lparr>cl_XForwardedFor = ''y'', cl_XRealIP = [], cl_RemoteAddr = ''10.0.0.1:80''\<rparr>] = [True, True]"
    using spoofed_clients_pass [OF _ _ p, where limit = 1 and m = Map.empty and window = Second and now = 7
        and real_ip = "[]" and addr = "''10.0.0.1:80''"] by (simp add: numeral_2_eq_2)
  have "getClientIP \<lparr>cl_XForwardedFor = [], cl_XRealIP = [], cl_RemoteAddr = ''10.0.0.1:80''\<rparr> = ''10.0.0.1''"
    "getClientIP \<lparr>cl_XForwardedFor = [], cl_XRealIP = [], cl_RemoteAddr = ''10.0.0.1:81''\<rparr> = ''10.0.0.1''"
    by code_simp+
  then show "admit_all 1 Second 7 Map.empty
     [\<lparr>cl_XForwardedFor = [], cl_XRealIP = [], cl_RemoteAddr = ''10.0.0.1:80''\<rparr>,
      \<lparr>cl_XForwardedFor = [], cl_XRealIP = [], cl_RemoteAddr = ''10.0.0.1:81''\<rparr>] = [True, False]"
    by (simp add: RateLimit_admit_def active_times_def durations)
qed

text \<open>
  What the cleanup leaves: no address without an active request, nothing that is not active, and
  everything that is; so it never changes a later decision.
\<close>

theorem cleanup_keeps_decisions:
  assumes "enumerates ips m" "now \<le> later"
  shows "(\<forall>ip ts. RateLimit_cleanup window now ips m ip = Some ts \<longrightarrow>
      ts \<noteq> [] \<and> (\<forall>t \<in> set ts. now - t < window)) \<and>
    snd (RateLimit_admit limit window later (RateLimit_cleanup window now ips m) ip) =
    snd (RateLimit_admit limit window later m ip)"
proof
  show "\<forall>ip ts. RateLimit_cleanup window now ips m ip = Some ts \<longrightarrow>
      ts \<noteq> [] \<and> (\<forall>t \<in> set ts. now - t < window)"
    using assms(1) by (auto simp: cleanup_entry active_times_def split: option.splits if_splits)
  show "snd (RateLimit_admit limit window later (RateLimit_cleanup window now ips m) ip) =
    snd (RateLimit_admit limit window later m ip)"
    using assms by (simp add: admit_eq stored_cleanup)
qed

theorem cleanup_keeps_decisions_witness:
  "snd (RateLimit_admit 2 Second 9 (RateLimit_cleanup Second 6 [''a''] demo_table) ''a'') =
   snd (RateLimit_admit 2 Second 9 demo_table ''a'')"
proof -
  have "enumerates [''a''] demo_table"
    by (auto simp: enumerates_def demo_table_def RateLimit_admit_def active_times_def durations)
  from cleanup_keeps_decisions [OF this, of 6 9 Second 2] show ?thesis by simp
qed

end
