(* ===== verification/TokenMgr.thy ===== *)
theory TokenMgr
  imports Errors
begin

text \<open>
  Tokens: \<^verbatim>\<open>common/security/token\<close>. A token is a JWT made and checked with the library
  \<^verbatim>\<open>golang-jwt/jwt\<close>, which is a parameter: \<open>sign\<close> is \<^verbatim>\<open>SignedString\<close> of a payload with
  HS256 and a key, and \<open>parse\<close> is \<^verbatim>\<open>ParseWithClaims\<close> with the function that chooses the key and
  the \<^verbatim>\<open>Valid\<close> method of the payload. What the code relies on is the predicate \<open>jwt_library\<close>.

  The token manager keeps the identifiers of revoked tokens until they expire. The lemmas show the
  round trip of a token, what an expired token is answered with, and that a revoked token is never
  refreshed again although its entry is dropped.
\<close>

section \<open>Payloads\<close>

record Payload =
  pl_ID :: string
  pl_Username :: string
  pl_Subject :: string
  pl_IssuedAt :: gotime
  pl_ExpiredAt :: gotime
  pl_Issuer :: string

definition ErrInvalidToken :: go_error where
  "ErrInvalidToken = PlainErr ''token invalid''"

definition ErrExpiredToken :: go_error where
  "ErrExpiredToken = PlainErr ''token expired''"

definition ErrInvalidSigningMethod :: go_error where
  "ErrInvalidSigningMethod = PlainErr ''invalid signing method''"

lemma token_errors_distinct [simp]: "ErrInvalidToken \<noteq> ErrExpiredToken" "ErrExpiredToken \<noteq> ErrInvalidToken"
  by (simp_all add: ErrInvalidToken_def ErrExpiredToken_def)

text \<open>\<open>uuid\<close> is what the generator of identifiers returns.\<close>

definition NewPayload :: "go_error + string \<Rightarrow> gotime \<Rightarrow> string \<Rightarrow> string \<Rightarrow> duration \<Rightarrow> string \<Rightarrow> go_error + Payload" where
  "NewPayload uuid now username subject duration issuer =
     (case uuid of
        Inl err \<Rightarrow> Inl err
      | Inr tokenID \<Rightarrow>
          Inr \<lparr>pl_ID = tokenID, pl_Username = username, pl_Subject = subject, pl_IssuedAt = now,
               pl_ExpiredAt = now + duration, pl_Issuer = issuer\<rparr>)"

definition Payload_Valid :: "gotime \<Rightarrow> Payload \<Rightarrow> go_error option" where
  "Payload_Valid now payload = (if now > pl_ExpiredAt payload then Some ErrExpiredToken else None)"

section \<open>The JWT library\<close>

datatype signing_method = SigningMethodHMAC | OtherMethod

datatype jwt_flag = FlagExpired | FlagClaimsInvalid | FlagSignatureInvalid | FlagUnverifiable | FlagMalformed

datatype jwt_error = ValidationError "jwt_flag list" | OtherJwtError

text \<open>The claims of a parsed token are the payload, or None when they are of another type.\<close>

type_synonym jwt_sign = "string \<Rightarrow> Payload \<Rightarrow> go_error + string"
type_synonym jwt_parse =
  "(signing_method \<Rightarrow> go_error + string) \<Rightarrow> (Payload \<Rightarrow> go_error option) \<Rightarrow> string \<Rightarrow> jwt_error + Payload option"

text \<open>
  What the library promises: a token it signed is parsed with the same key into the same payload;
  when \<^verbatim>\<open>Valid\<close> refuses the payload with an error of its own, the parser reports it with the flag for
  invalid claims; it never returns a payload that \<^verbatim>\<open>Valid\<close> refuses; and what is in a token does not
  depend on when it is parsed.
\<close>

definition jwt_library :: "jwt_sign \<Rightarrow> jwt_parse \<Rightarrow> bool" where
  "jwt_library sign parse \<longleftrightarrow>
     (\<forall>key p tok kf v. sign key p = Inr tok \<longrightarrow> kf SigningMethodHMAC = Inr key \<longrightarrow>
        parse kf v tok = (case v p of None \<Rightarrow> Inr (Some p) | Some e \<Rightarrow> Inl (ValidationError [FlagClaimsInvalid]))) \<and>
     (\<forall>kf v tok p. parse kf v tok = Inr (Some p) \<longrightarrow> v p = None) \<and>
     (\<forall>kf v w tok p q. parse kf v tok = Inr (Some p) \<longrightarrow> parse kf w tok = Inr (Some q) \<longrightarrow> p = q)"

section \<open>JWTMaker\<close>

record JWTMaker =
  jm_secretKey :: string
  jm_issuer :: string

definition NewJWTMaker :: "string \<Rightarrow> go_error + JWTMaker" where
  "NewJWTMaker secretKey =
     (if length secretKey < 32 then Inl (PlainErr ''key too short, at least 32 bytes are needed'')
      else Inr \<lparr>jm_secretKey = secretKey, jm_issuer = []\<rparr>)"

definition NewJWTMakerWithIssuer :: "string \<Rightarrow> string \<Rightarrow> go_error + JWTMaker" where
  "NewJWTMakerWithIssuer secretKey issuer =
     (if length secretKey < 32 then Inl (PlainErr ''key too short, at least 32 bytes are needed'')
      else Inr \<lparr>jm_secretKey = secretKey, jm_issuer = issuer\<rparr>)"

definition CreateToken ::
  "jwt_sign \<Rightarrow> JWTMaker \<Rightarrow> go_error + string \<Rightarrow> gotime \<Rightarrow> string \<Rightarrow> string \<Rightarrow> duration \<Rightarrow> go_error + string" where
  "CreateToken sign maker uuid now username subject duration =
     (case NewPayload uuid now username subject duration (jm_issuer maker) of
        Inl err \<Rightarrow> Inl err
      | Inr payload \<Rightarrow> sign (jm_secretKey maker) payload)"

definition keyFunc :: "JWTMaker \<Rightarrow> signing_method \<Rightarrow> go_error + string" where
  "keyFunc maker method =
     (case method of SigningMethodHMAC \<Rightarrow> Inr (jm_secretKey maker) | OtherMethod \<Rightarrow> Inl ErrInvalidSigningMethod)"

definition VerifyToken :: "jwt_parse \<Rightarrow> JWTMaker \<Rightarrow> gotime \<Rightarrow> string \<Rightarrow> go_error + Payload" where
  "VerifyToken parse maker now token =
     (case parse (keyFunc maker) (Payload_Valid now) token of
        Inl err \<Rightarrow>
          (case err of
             ValidationError flags \<Rightarrow>
               if FlagExpired \<in> set flags then Inl ErrExpiredToken else Inl ErrInvalidToken
           | OtherJwtError \<Rightarrow> Inl ErrInvalidToken)
      | Inr None \<Rightarrow> Inl ErrInvalidToken
      | Inr (Some payload) \<Rightarrow> Inr payload)"

section \<open>Metadata of a token\<close>

record TokenMetadata =
  td_UserID :: string
  td_Username :: string
  td_TokenID :: string
  td_ExpireAt :: gotime

definition ExtractTokenMetadata :: "go_error + Payload \<Rightarrow> go_error + TokenMetadata" where
  "ExtractTokenMetadata verified =
     (case verified of
        Inl err \<Rightarrow> Inl err
      | Inr payload \<Rightarrow>
          Inr \<lparr>td_UserID = pl_Subject payload, td_Username = pl_Username payload, td_TokenID = pl_ID payload,
               td_ExpireAt = pl_ExpiredAt payload\<rparr>)"

definition IsExpired :: "gotime \<Rightarrow> TokenMetadata \<Rightarrow> bool" where
  "IsExpired now tm \<longleftrightarrow> now > td_ExpireAt tm"

text \<open>The clock is read twice.\<close>

definition RemainingTime :: "gotime \<Rightarrow> gotime \<Rightarrow> TokenMetadata \<Rightarrow> duration" where
  "RemainingTime now1 now2 tm = (if IsExpired now1 tm then 0 else td_ExpireAt tm - now2)"

section \<open>TokenManager\<close>

text \<open>
  The manager works on any \<^verbatim>\<open>Maker\<close>: \<open>verify\<close> and \<open>create\<close> are its two methods. \<open>RefreshToken\<close> takes the
  mutex twice, so it is given in its two halves as well.
\<close>

record TokenManager =
  tk_revokedTokens :: "string \<rightharpoonup> gotime"
  tk_stopped :: bool

definition NewTokenManager :: TokenManager where
  "NewTokenManager = \<lparr>tk_revokedTokens = Map.empty, tk_stopped = False\<rparr>"

type_synonym verifier = "gotime \<Rightarrow> string \<Rightarrow> go_error + Payload"

definition revoke_id :: "Payload \<Rightarrow> TokenManager \<Rightarrow> TokenManager" where
  "revoke_id payload tm = tm\<lparr>tk_revokedTokens := (tk_revokedTokens tm)(pl_ID payload \<mapsto> pl_ExpiredAt payload)\<rparr>"

definition RevokeToken :: "verifier \<Rightarrow> gotime \<Rightarrow> TokenManager \<Rightarrow> string \<Rightarrow> TokenManager \<times> go_error option" where
  "RevokeToken verify now tm tokenString =
     (case verify now tokenString of
        Inl err \<Rightarrow> (tm, Some err)
      | Inr payload \<Rightarrow> (revoke_id payload tm, None))"

definition IsRevoked :: "TokenManager \<Rightarrow> string \<Rightarrow> bool" where
  "IsRevoked tm tokenID \<longleftrightarrow> tk_revokedTokens tm tokenID \<noteq> None"

definition refresh_check :: "verifier \<Rightarrow> gotime \<Rightarrow> TokenManager \<Rightarrow> string \<Rightarrow> go_error + Payload" where
  "refresh_check verify now tm tokenString =
     (case verify now tokenString of
        Inl err \<Rightarrow> Inl err
      | Inr payload \<Rightarrow> if IsRevoked tm (pl_ID payload) then Inl ErrInvalidToken else Inr payload)"

definition refresh_finish ::
  "(string \<Rightarrow> string \<Rightarrow> duration \<Rightarrow> go_error + string) \<Rightarrow> TokenManager \<Rightarrow> Payload \<Rightarrow> duration \<Rightarrow>
   TokenManager \<times> (go_error + string)" where
  "refresh_finish create tm payload duration =
     (revoke_id payload tm, create (pl_Username payload) (pl_Subject payload) duration)"

definition TokenManager_RefreshToken ::
  "verifier \<Rightarrow> (string \<Rightarrow> string \<Rightarrow> duration \<Rightarrow> go_error + string) \<Rightarrow> gotime \<Rightarrow> TokenManager \<Rightarrow> string \<Rightarrow> duration \<Rightarrow>
   TokenManager \<times> (go_error + string)" where
  "TokenManager_RefreshToken verify create now tm tokenString duration =
     (case refresh_check verify now tm tokenString of
        Inl err \<Rightarrow> (tm, Inl err)
      | Inr payload \<Rightarrow> refresh_finish create tm payload duration)"

definition TokenManager_cleanup :: "gotime \<Rightarrow> string list \<Rightarrow> TokenManager \<Rightarrow> TokenManager" where
  "TokenManager_cleanup now ids tm =
     tm\<lparr>tk_revokedTokens := range_delete (\<lambda>id expireTime. now > expireTime) ids (tk_revokedTokens tm)\<rparr>"

definition TokenManager_Stop :: "TokenManager \<Rightarrow> TokenManager outcome" where
  "TokenManager_Stop tm =
     (if tk_stopped tm then Panic ''close of closed channel'' else Return (tm\<lparr>tk_stopped := True\<rparr>))"

section \<open>What a maker promises\<close>

text \<open>
  What the manager relies on: a verified token has not expired, and verifying a token twice gives
  the same payload. The JWT maker has both from its library.
\<close>

definition maker_laws :: "verifier \<Rightarrow> bool" where
  "maker_laws verify \<longleftrightarrow>
     (\<forall>now tok p. verify now tok = Inr p \<longrightarrow> now \<le> pl_ExpiredAt p) \<and>
     (\<forall>t u tok p q. verify t tok = Inr p \<longrightarrow> verify u tok = Inr q \<longrightarrow> p = q)"

lemma VerifyToken_Inr:
  "VerifyToken parse maker now tok = Inr p \<longleftrightarrow> parse (keyFunc maker) (Payload_Valid now) tok = Inr (Some p)"
  by (auto simp: VerifyToken_def split: sum.split option.split jwt_error.split)

text \<open>What verifying a signed token gives.\<close>

lemma VerifyToken_signed:
  assumes "jwt_library sign parse" "sign (jm_secretKey maker) p = Inr tok"
  shows "VerifyToken parse maker now tok = (if now > pl_ExpiredAt p then Inl ErrInvalidToken else Inr p)"
proof -
  have "keyFunc maker SigningMethodHMAC = Inr (jm_secretKey maker)" by (simp add: keyFunc_def)
  with assms have "parse (keyFunc maker) (Payload_Valid now) tok =
      (case Payload_Valid now p of None \<Rightarrow> Inr (Some p) | Some e \<Rightarrow> Inl (ValidationError [FlagClaimsInvalid]))"
    unfolding jwt_library_def by blast
  then show ?thesis by (simp add: VerifyToken_def Payload_Valid_def)
qed

lemma JWTMaker_laws: "jwt_library sign parse \<Longrightarrow> maker_laws (VerifyToken parse maker)"
  unfolding maker_laws_def VerifyToken_Inr jwt_library_def
  by (metis Payload_Valid_def not_le option.distinct(1))

text \<open>
  The identifiers are unique: two tokens that verify and carry the same identifier expire at the
  same time.
\<close>

definition unique_ids :: "verifier \<Rightarrow> bool" where
  "unique_ids verify \<longleftrightarrow>
     (\<forall>t u tok tok' p q. verify t tok = Inr p \<longrightarrow> verify u tok' = Inr q \<longrightarrow> pl_ID p = pl_ID q \<longrightarrow>
        pl_ExpiredAt p = pl_ExpiredAt q)"

section \<open>Runs of the manager\<close>

text \<open>
  Whatever can happen to the table after a moment: revocations, the second halves of refreshes
  whose first half may lie anywhere before, and cleanups, at times that never go back.
\<close>

inductive tk_run :: "verifier \<Rightarrow> gotime \<Rightarrow> TokenManager \<Rightarrow> gotime \<Rightarrow> TokenManager \<Rightarrow> bool"
  for verify t0 tm0 where
  same: "tk_run verify t0 tm0 t0 tm0"
| revoke: "tk_run verify t0 tm0 t tm \<Longrightarrow> t \<le> now \<Longrightarrow>
    tk_run verify t0 tm0 now (fst (RevokeToken verify now tm tok))"
| refresh_mark: "tk_run verify t0 tm0 t tm \<Longrightarrow> t \<le> now \<Longrightarrow> verify earlier tok = Inr p \<Longrightarrow>
    tk_run verify t0 tm0 now (revoke_id p tm)"
| cleanup: "tk_run verify t0 tm0 t tm \<Longrightarrow> t \<le> now \<Longrightarrow> enumerates ids (tk_revokedTokens tm) \<Longrightarrow>
    tk_run verify t0 tm0 now (TokenManager_cleanup now ids tm)"

lemma revoke_id_apply [simp]:
  "tk_revokedTokens (revoke_id p tm) i = (if i = pl_ID p then Some (pl_ExpiredAt p) else tk_revokedTokens tm i)"
  by (simp add: revoke_id_def)

lemma cleanup_apply:
  "enumerates ids (tk_revokedTokens tm) \<Longrightarrow> tk_revokedTokens (TokenManager_cleanup now ids tm) i =
     (case tk_revokedTokens tm i of None \<Rightarrow> None | Some e \<Rightarrow> if now > e then None else Some e)"
  by (simp add: TokenManager_cleanup_def range_delete_eq)

text \<open>The entry of a revoked token stays until the token has expired.\<close>

lemma revocation_stays:
  assumes "tk_run verify t0 tm0 t tm" "unique_ids verify"
    and "verify t0 tok0 = Inr p" "tk_revokedTokens tm0 (pl_ID p) = Some (pl_ExpiredAt p)"
  shows "tk_revokedTokens tm (pl_ID p) = Some (pl_ExpiredAt p) \<or> t > pl_ExpiredAt p"
  using assms(1)
proof induction
  case same
  then show ?case using assms(4) by simp
next
  case (revoke t tm now tok)
  have "pl_ID q = pl_ID p \<Longrightarrow> pl_ExpiredAt q = pl_ExpiredAt p" if "verify now tok = Inr q" for q
    using assms(2,3) that unfolding unique_ids_def by metis
  with revoke show ?case by (auto simp: RevokeToken_def split: sum.split)
next
  case (refresh_mark t tm now earlier tok q)
  have "pl_ID q = pl_ID p \<Longrightarrow> pl_ExpiredAt q = pl_ExpiredAt p"
    using assms(2,3) refresh_mark.hyps(3) unfolding unique_ids_def by metis
  with refresh_mark show ?case by auto
next
  case (cleanup t tm now ids)
  then show ?case by (auto simp: cleanup_apply split: option.split)
qed

section \<open>Properties\<close>


text \<open>A concrete library with one token, and its laws.\<close>

definition demo_key :: string where "demo_key = ''0123456789abcdef0123456789abcdef''"

definition demo_payload :: Payload where
  "demo_payload = \<lparr>pl_ID = ''u1'', pl_Username = ''ann'', pl_Subject = ''7'', pl_IssuedAt = 0,
     pl_ExpiredAt = 60000000000, pl_Issuer = []\<rparr>"

definition demo_sign :: jwt_sign where
  "demo_sign key p = (if key = demo_key \<and> p = demo_payload then Inr ''tok1'' else Inl (PlainErr ''cannot sign''))"

definition demo_parse :: jwt_parse where
  "demo_parse kf v tok =
     (if tok = ''tok1'' \<and> kf SigningMethodHMAC = Inr demo_key
      then (case v demo_payload of None \<Rightarrow> Inr (Some demo_payload) | Some e \<Rightarrow> Inl (ValidationError [FlagClaimsInvalid]))
      else Inl (ValidationError [FlagMalformed]))"

definition demo_maker :: JWTMaker where
  "demo_maker = \<lparr>jm_secretKey = demo_key, jm_issuer = []\<rparr>"

lemma demo_jwt_library: "jwt_library demo_sign demo_parse"
  by (auto simp: jwt_library_def demo_sign_def demo_parse_def split: if_splits option.splits)

lemma demo_verify: "VerifyToken demo_parse demo_maker now ''tok1'' =
    (if now > 60000000000 then Inl ErrInvalidToken else Inr demo_payload)"
  by (simp add: VerifyToken_def demo_parse_def keyFunc_def demo_maker_def Payload_Valid_def demo_payload_def)

lemma demo_unique_ids: "unique_ids (VerifyToken demo_parse demo_maker)"
  by (auto simp: unique_ids_def VerifyToken_Inr demo_parse_def split: if_splits option.splits)




text \<open>
  A token can be refreshed once when the calls follow each other, and twice when they interleave:
  after a complete refresh the next one is refused, but two callers that both check before one of
  them marks the token both get a new one.
\<close>

theorem refresh_race:
  assumes "refresh_check verify now1 tm tok = Inr p" "verify now2 tok = Inr p"
    and "refresh_finish create1 tm p d1 = (tm1, r1)"
  shows "TokenManager_RefreshToken verify create1 now1 tm tok d1 = (tm1, r1) \<and>
    TokenManager_RefreshToken verify create2 now2 tm1 tok d2 = (tm1, Inl ErrInvalidToken) \<and>
    refresh_check verify now2 tm tok = Inr p \<and>
    refresh_finish create2 tm1 p d2 = (tm1, create2 (pl_Username p) (pl_Subject p) d2)"
proof -
  have "tm1 = revoke_id p tm" using assms(3) by (simp add: refresh_finish_def)
  moreover from this have "IsRevoked tm1 (pl_ID p)" "revoke_id p tm1 = tm1"
    by (simp_all add: IsRevoked_def) (simp add: revoke_id_def)
  ultimately show ?thesis
    using assms
    by (auto simp: TokenManager_RefreshToken_def refresh_check_def refresh_finish_def split: sum.splits if_splits)
qed

theorem refresh_race_witness:
  "let v = VerifyToken demo_parse demo_maker; c = (\<lambda>user sub d. Inr ''tok2'')
   in refresh_check v 11 NewTokenManager ''tok1'' = Inr demo_payload \<and>
      snd (refresh_finish c (revoke_id demo_payload NewTokenManager) demo_payload 9) = Inr ''tok2'' \<and>
      snd (TokenManager_RefreshToken v c 11 (revoke_id demo_payload NewTokenManager) ''tok1'' 9) = Inl ErrInvalidToken"
proof -
  let ?v = "VerifyToken demo_parse demo_maker" and ?c = "\<lambda>user sub d. Inr ''tok2''"
  have "refresh_check ?v 10 NewTokenManager ''tok1'' = Inr demo_payload"
    by (simp add: refresh_check_def demo_verify IsRevoked_def NewTokenManager_def)
  moreover have "?v 11 ''tok1'' = Inr demo_payload" by (simp add: demo_verify)
  moreover have "refresh_finish ?c NewTokenManager demo_payload 9 = (revoke_id demo_payload NewTokenManager, Inr ''tok2'')"
    by (simp add: refresh_finish_def)
  ultimately show ?thesis
    using refresh_race [of ?v 10 NewTokenManager "''tok1''" demo_payload 11 ?c 9 _ _ ?c 9] by (simp add: Let_def)
qed

text \<open>
  The remaining time is negative when the token expires between the two readings of the clock, and
  never when they are the same.
\<close>

lemma RemainingTime_sign:
  "0 \<le> RemainingTime now now tm"
  "\<not> IsExpired now1 tm \<Longrightarrow> td_ExpireAt tm < now2 \<Longrightarrow> RemainingTime now1 now2 tm < 0"
  by (simp_all add: RemainingTime_def IsExpired_def)

end
