(* ===== verification/AuthSvc.thy ===== *)
theory AuthSvc
  imports FileApi TokenMgr
begin

text \<open>
  Authentication and permissions: \<^verbatim>\<open>common/security/auth\<close> (users, providers, the default
  authenticator, the rule-based permission checker, the HTTP middleware of the package) and
  \<^verbatim>\<open>server/middleware/auth.go\<close>, the middleware of the metadata server.

  A \<^verbatim>\<open>*User\<close> is shared between its creator and the user manager, so users are objects of a heap.
  Passwords are checked by an implementation of \<^verbatim>\<open>UserManager\<close> that the repository does not have; its
  answer is an argument. A request is the part of it that the middleware reads.

  The lemmas characterise who gets through the middleware, show that the checker is a first-match
  rule list, and that the users the default authenticator makes from tokens have no roles, so the
  two together let nobody in.
\<close>

section \<open>Users\<close>

type_synonym Role = string

abbreviation (input) RoleAdmin :: Role where "RoleAdmin \<equiv> ''admin''"
abbreviation (input) RoleSystem :: Role where "RoleSystem \<equiv> ''system''"

text \<open>The extra data are a reference to a map.\<close>

record UserInfo =
  ui_UserID :: string
  ui_Username :: string
  ui_Roles :: "Role list"
  ui_ExtraData :: "nat option"

record User =
  us_ID :: string
  us_Username :: string
  us_PasswordHash :: string
  us_Roles :: "Role list"
  us_CreatedAt :: gotime
  us_UpdatedAt :: gotime
  us_LastLogin :: gotime
  us_Active :: bool
  us_ExtraData :: "nat option"

text \<open>
  The sentinels of the package. Its \<^verbatim>\<open>ErrExpiredToken\<close> has the text of that of the package
  \<^verbatim>\<open>token\<close> but is another value, and \<^verbatim>\<open>errors.Is\<close> compares values; the model's texts differ.
\<close>

definition ErrInvalidCredentials :: go_error where
  "ErrInvalidCredentials = PlainErr ''auth: invalid credentials''"

definition auth_ErrExpiredToken :: go_error where
  "auth_ErrExpiredToken = PlainErr ''auth: token expired''"

definition ErrNoAuthProvider :: go_error where
  "ErrNoAuthProvider = PlainErr ''auth: no provider configured''"

definition err_no_user :: go_error where
  "err_no_user = PlainErr ''user does not exist''"

record InMemoryUserManager =
  um_users :: "string \<rightharpoonup> nat"
  um_byName :: "string \<rightharpoonup> string"
  um_heap :: "nat \<Rightarrow> User"

definition NewInMemoryUserManager :: "(nat \<Rightarrow> User) \<Rightarrow> InMemoryUserManager" where
  "NewInMemoryUserManager heap = \<lparr>um_users = Map.empty, um_byName = Map.empty, um_heap = heap\<rparr>"

definition GetUser :: "InMemoryUserManager \<Rightarrow> string \<Rightarrow> go_error + nat" where
  "GetUser m userID = (case um_users m userID of Some user \<Rightarrow> Inr user | None \<Rightarrow> Inl err_no_user)"

text \<open>None is the nil pointer, which the map lookup gives for a missing identifier.\<close>

definition GetUserByUsername :: "InMemoryUserManager \<Rightarrow> string \<Rightarrow> go_error + nat option" where
  "GetUserByUsername m username =
     (case um_byName m username of None \<Rightarrow> Inl err_no_user | Some userID \<Rightarrow> Inr (um_users m userID))"

definition CreateUser :: "gotime \<Rightarrow> gotime \<Rightarrow> InMemoryUserManager \<Rightarrow> nat \<Rightarrow> InMemoryUserManager \<times> go_error option" where
  "CreateUser now1 now2 m user =
     (let u = um_heap m user
      in if um_byName m (us_Username u) \<noteq> None then (m, Some (PlainErr ''user name already exists''))
         else
           let u = (if IsZero (us_CreatedAt u) then u\<lparr>us_CreatedAt := now1\<rparr> else u);
               u = u\<lparr>us_UpdatedAt := now2\<rparr>
           in (m\<lparr>um_heap := (um_heap m)(user := u),
                 um_users := (um_users m)(us_ID u \<mapsto> user),
                 um_byName := (um_byName m)(us_Username u \<mapsto> us_ID u)\<rparr>, None))"

section \<open>Providers and the default authenticator\<close>

text \<open>The dynamic type of the credentials: a pointer to basic ones, which may be nil, or something else.\<close>

datatype credentials = BasicCredentials "(string \<times> string) option" | OtherCredentials

definition BasicAuthProvider_Authenticate ::
  "(string \<Rightarrow> string \<Rightarrow> go_error + bool \<times> User option) \<Rightarrow> credentials \<Rightarrow> (go_error + UserInfo) outcome" where
  "BasicAuthProvider_Authenticate verifyPassword creds =
     (case creds of
        OtherCredentials \<Rightarrow> Return (Inl (PlainErr ''invalid type of credentials''))
      | BasicCredentials None \<Rightarrow> Panic ''nil pointer dereference''
      | BasicCredentials (Some (username, password)) \<Rightarrow>
          (case verifyPassword username password of
             Inl err \<Rightarrow> Return (Inl err)
           | Inr (valid, user) \<Rightarrow>
               if \<not> valid then Return (Inl ErrInvalidCredentials)
               else case user of
                      None \<Rightarrow> Panic ''nil pointer dereference''
                    | Some u \<Rightarrow>
                        if \<not> us_Active u then Return (Inl ErrInvalidCredentials)
                        else Return (Inr \<lparr>ui_UserID = us_ID u, ui_Username = us_Username u, ui_Roles = us_Roles u,
                               ui_ExtraData = us_ExtraData u\<rparr>)))"

record TokenConfig =
  tc_Secret :: string
  tc_Issuer :: string
  tc_ExpirationMin :: int

record DefaultAuthenticator =
  da_provider :: "(credentials \<Rightarrow> (go_error + UserInfo) outcome) option"
  da_tokenMaker :: JWTMaker
  da_tokenConfig :: TokenConfig

definition NewDefaultAuthenticator ::
  "(credentials \<Rightarrow> (go_error + UserInfo) outcome) option \<Rightarrow> TokenConfig \<Rightarrow> go_error + DefaultAuthenticator" where
  "NewDefaultAuthenticator provider tokenConfig =
     (case NewJWTMaker (tc_Secret tokenConfig) of
        Inl err \<Rightarrow> Inl err
      | Inr tokenMaker \<Rightarrow>
          Inr \<lparr>da_provider = provider, da_tokenMaker = tokenMaker, da_tokenConfig = tokenConfig\<rparr>)"

definition Authenticate :: "DefaultAuthenticator \<Rightarrow> credentials \<Rightarrow> (go_error + UserInfo) outcome" where
  "Authenticate a creds =
     (case da_provider a of None \<Rightarrow> Return (Inl ErrNoAuthProvider) | Some p \<Rightarrow> p creds)"

definition DefaultAuthenticator_VerifyToken :: "jwt_parse \<Rightarrow> DefaultAuthenticator \<Rightarrow> gotime \<Rightarrow> string \<Rightarrow> go_error + UserInfo" where
  "DefaultAuthenticator_VerifyToken parse a now tokenStr =
     (case VerifyToken parse (da_tokenMaker a) now tokenStr of
        Inl err \<Rightarrow> Inl err
      | Inr payload \<Rightarrow>
          Inr \<lparr>ui_UserID = pl_Subject payload, ui_Username = pl_Username payload, ui_Roles = [], ui_ExtraData = None\<rparr>)"

definition GenerateToken :: "jwt_sign \<Rightarrow> DefaultAuthenticator \<Rightarrow> go_error + string \<Rightarrow> gotime \<Rightarrow> UserInfo \<Rightarrow> go_error + string" where
  "GenerateToken sign a uuid now user =
     (let duration = tc_ExpirationMin (da_tokenConfig a) * Minute
      in case CreateToken sign (da_tokenMaker a) uuid now (ui_Username user) (ui_UserID user) duration of
           Inl err \<Rightarrow> Inl err
         | Inr tokenStr \<Rightarrow> Inr tokenStr)"

definition DefaultAuthenticator_RefreshToken ::
  "jwt_sign \<Rightarrow> jwt_parse \<Rightarrow> DefaultAuthenticator \<Rightarrow> go_error + string \<Rightarrow> gotime \<Rightarrow> gotime \<Rightarrow> string \<Rightarrow> go_error + string" where
  "DefaultAuthenticator_RefreshToken sign parse a uuid now1 now2 tokenStr =
     (case DefaultAuthenticator_VerifyToken parse a now1 tokenStr of
        Inl err \<Rightarrow> Inl err
      | Inr userInfo \<Rightarrow> GenerateToken sign a uuid now2 userInfo)"

definition Logout :: "DefaultAuthenticator \<Rightarrow> string \<Rightarrow> DefaultAuthenticator \<times> go_error option" where
  "Logout a tokenStr = (a, None)"

section \<open>Permissions\<close>

record PermissionRule =
  pr_Role :: Role
  pr_Pattern :: string
  pr_Actions :: "string list"
  pr_Allow :: bool

definition MatchResourcePattern :: "string \<Rightarrow> string \<Rightarrow> bool" where
  "MatchResourcePattern resource pattern =
     (if pattern = ''*'' then True
      else if HasSuffix pattern ''/*''
      then HasPrefix resource (TrimSuffix pattern ''/*'')
      else resource = pattern)"

fun check_rules :: "PermissionRule list \<Rightarrow> UserInfo \<Rightarrow> string \<Rightarrow> string \<Rightarrow> bool" where
  "check_rules [] user resource action = False"
| "check_rules (rule # rules) user resource action =
     (let roleMatch = list_ex (\<lambda>userRole. userRole = pr_Role rule) (ui_Roles user)
      in if \<not> roleMatch then check_rules rules user resource action
         else if MatchResourcePattern resource (pr_Pattern rule) \<and>
                 list_ex (\<lambda>allowedAction. allowedAction = ''*'' \<or> allowedAction = action) (pr_Actions rule)
         then pr_Allow rule
         else check_rules rules user resource action)"

definition HasPermission :: "PermissionRule list \<Rightarrow> UserInfo option \<Rightarrow> string \<Rightarrow> string \<Rightarrow> bool" where
  "HasPermission rules user resource action =
     (case user of
        None \<Rightarrow> False
      | Some user \<Rightarrow>
          if list_ex (\<lambda>role. role = RoleAdmin \<or> role = RoleSystem) (ui_Roles user) then True
          else check_rules rules user resource action)"

definition GetActionFromMethod :: "string \<Rightarrow> string" where
  "GetActionFromMethod method =
     (if method = ''GET'' then ''read''
      else if method = ''POST'' then ''create''
      else if method = ''PUT'' \<or> method = ''PATCH'' then ''update''
      else if method = ''DELETE'' then ''delete''
      else ''read'')"

section \<open>Taking the token from a request\<close>

record auth_request =
  ar_Authorization :: string
  ar_cookie :: "string option"
  ar_query_token :: string
  ar_Path :: string
  ar_Method :: string

text \<open>Of the package \<^verbatim>\<open>token\<close>, used by the server, and of the package \<^verbatim>\<open>auth\<close>.\<close>

definition ExtractTokenFromRequest :: "auth_request \<Rightarrow> string" where
  "ExtractTokenFromRequest r =
     (let authHeader = ar_Authorization r
      in if authHeader \<noteq> []
         then (if HasPrefix authHeader ''Bearer '' then TrimPrefix authHeader ''Bearer '' else authHeader)
         else case ar_cookie r of Some v \<Rightarrow> v | None \<Rightarrow> ar_query_token r)"

definition auth_extractTokenFromRequest :: "auth_request \<Rightarrow> string" where
  "auth_extractTokenFromRequest r =
     (let auth = ar_Authorization r
      in if length auth > 7 \<and> take 7 auth = ''Bearer '' then drop 7 auth
         else case ar_cookie r of Some v \<Rightarrow> v | None \<Rightarrow> ar_query_token r)"

section \<open>The middleware\<close>

text \<open>
  The middleware of the package answers with a plain text (\<open>Inl\<close>) or hands the request on with the
  user in its context (\<open>Inr\<close>).
\<close>

definition AuthMiddleware :: "(string \<Rightarrow> go_error + UserInfo) \<Rightarrow> auth_request \<Rightarrow> (nat \<times> string) + UserInfo" where
  "AuthMiddleware verifyToken r =
     (let token = auth_extractTokenFromRequest r
      in if token = [] then Inl (401, ''no token given'')
         else case verifyToken token of
                Inl err \<Rightarrow>
                  if errors_Is err auth_ErrExpiredToken then Inl (401, ''token expired'')
                  else Inl (401, ''invalid token'')
              | Inr userInfo \<Rightarrow> Inr userInfo)"

text \<open>
  The values that a context holds under the keys of the package, whose type no other package can name:
  a pointer to a user, which may be nil. The second result is whether there is one at all.
\<close>

type_synonym contextKey = int
type_synonym user_context = "contextKey \<rightharpoonup> UserInfo option"

definition userContextKey :: contextKey where
  "userContextKey = 0"

definition GetUserFromContext :: "user_context \<Rightarrow> UserInfo option \<times> bool" where
  "GetUserFromContext ctx = (case ctx userContextKey of Some user \<Rightarrow> (user, True) | None \<Rightarrow> (None, False))"

definition WithUserContext :: "user_context \<Rightarrow> UserInfo option \<Rightarrow> user_context" where
  "WithUserContext ctx user = ctx(userContextKey \<mapsto> user)"

definition publicPaths :: "string list" where
  "publicPaths = [''/health'', ''/metrics'', ''/api/v1/auth/login'', ''/api/v1/auth/register'']"

definition isPublicPath :: "string \<Rightarrow> bool" where
  "isPublicPath path = list_ex (\<lambda>publicPath. HasPrefix path publicPath) publicPaths"

text \<open>The service is its two methods; the handler gets the user of the context, None when there is none.\<close>

definition Auth ::
  "(metadata_ref \<Rightarrow> string option) \<Rightarrow> (string \<Rightarrow> go_error + UserInfo option) \<Rightarrow> (UserInfo option \<Rightarrow> string \<Rightarrow> string \<Rightarrow> bool) \<Rightarrow>
   ('s \<Rightarrow> UserInfo option \<Rightarrow> request \<Rightarrow> 's \<times> http_response) \<Rightarrow> 's \<Rightarrow> auth_request \<Rightarrow> request \<Rightarrow> 's \<times> http_response" where
  "Auth md verifyToken hasPermission serve_next s r req =
     (if isPublicPath (ar_Path r) then serve_next s None req
      else
        let token = ExtractTokenFromRequest r
        in if token = [] then (s, RespondError md req 401 (New Unauthenticated ''no token given''))
           else case verifyToken token of
                  Inl err \<Rightarrow>
                    (s, RespondError md req 401 (New Unauthenticated (''invalid token: '' @ Error err)))
                | Inr user \<Rightarrow>
                    let resource = ar_Path r; action = GetActionFromMethod (ar_Method r)
                    in if \<not> hasPermission user resource action
                       then (s, RespondError md req 403 (New PermissionDenied ''no access to this resource''))
                       else serve_next s user req)"

section \<open>Properties\<close>

text \<open>
  The middleware of the server, on every branch: the handler runs exactly for a public path, without
  a user, and for a request whose token is verified and whose user may act on the path, with that
  user; otherwise nothing changes and the answer is 401 when the token is missing or refused, 403
  when the permission is.
\<close>

lemma auth_gate:
  "let tok = ExtractTokenFromRequest r; (s', h) = Auth md verifyToken hasPermission serve_next s r req
   in if isPublicPath (ar_Path r) then (s', h) = serve_next s None req
      else if tok = [] \<or> isl (verifyToken tok) then s' = s \<and> fst h = 401
      else let user = projr (verifyToken tok)
           in if hasPermission user (ar_Path r) (GetActionFromMethod (ar_Method r)) then (s', h) = serve_next s user req
              else s' = s \<and> fst h = 403"
  by (cases "verifyToken (ExtractTokenFromRequest r)") (auto simp: Auth_def Let_def split: prod.split)

text \<open>
  The user of a context is the last one put there; a nil user counts as present, so a handler that
  looks at the second result only takes it for a user.
\<close>

lemma user_of_context:
  "GetUserFromContext (WithUserContext ctx user) = (user, True)"
  "GetUserFromContext Map.empty = (None, False)"
  "WithUserContext (WithUserContext ctx user) user' = WithUserContext ctx user'"
  by (simp_all add: GetUserFromContext_def WithUserContext_def)

text \<open>A path is public when it begins with a public one, so every longer name is public too.\<close>

lemma isPublicPath_prefix: "isPublicPath p \<Longrightarrow> isPublicPath (p @ q)"
  by (auto simp: isPublicPath_def list_ex_iff intro: prefix_prefix)

text \<open>The rule that decides: the first one for a role of the user that covers the resource and the action.\<close>

definition rule_applies :: "UserInfo \<Rightarrow> string \<Rightarrow> string \<Rightarrow> PermissionRule \<Rightarrow> bool" where
  "rule_applies user resource action rule \<longleftrightarrow>
     pr_Role rule \<in> set (ui_Roles user) \<and> MatchResourcePattern resource (pr_Pattern rule) \<and>
     (''*'' \<in> set (pr_Actions rule) \<or> action \<in> set (pr_Actions rule))"

lemma check_rules_find:
  "check_rules rules user resource action =
     (case find (rule_applies user resource action) rules of None \<Rightarrow> False | Some rule \<Rightarrow> pr_Allow rule)"
  by (induction rules) (auto simp: rule_applies_def list_ex_iff Let_def)

text \<open>
  The permission checker is a first-match rule list: administrators and the system may do
  everything, for everybody else the first rule that applies decides and without one the answer is
  no. A pattern that ends in \<^verbatim>\<open>/*\<close> covers every resource that begins with what is before, so it
  covers more than the directory: also its own name and its namesakes with a longer name.
\<close>

theorem HasPermission_first_match:
  "HasPermission rules (Some user) resource action \<longleftrightarrow>
     RoleAdmin \<in> set (ui_Roles user) \<or> RoleSystem \<in> set (ui_Roles user) \<or>
     (case find (rule_applies user resource action) rules of None \<Rightarrow> False | Some rule \<Rightarrow> pr_Allow rule)"
  by (auto simp: HasPermission_def list_ex_iff check_rules_find)

lemma pattern_covers_namesakes:
  "pattern \<noteq> ''*'' \<Longrightarrow> pattern = dir @ ''/*'' \<Longrightarrow> MatchResourcePattern (dir @ anything) pattern"
  by (auto simp: MatchResourcePattern_def TrimSuffix_def suffix_def)

text \<open>
  The default authenticator and the permission checker together let nobody in: a user made from a
  token has no roles, whatever roles the user had when the token was made, so for a path that is not
  public the handler never runs and the answer is 401 or 403, with every set of rules, every token
  and every key.
\<close>

theorem default_service_admits_nobody:
  assumes "\<not> isPublicPath (ar_Path r)"
    and "verify = (\<lambda>tok. map_sum (\<lambda>e. e) Some (DefaultAuthenticator_VerifyToken parse a now tok))"
  shows "fst (Auth md verify (HasPermission rules) serve_next s r req) = s \<and>
    fst (snd (Auth md verify (HasPermission rules) serve_next s r req)) \<in> {401, 403}"
proof -
  have "\<not> HasPermission rules user res act" if v: "verify tok = Inr user" for tok user res act
  proof -
    obtain u where "user = Some u" "ui_Roles u = []"
      using v [unfolded assms(2) DefaultAuthenticator_VerifyToken_def]
      by (cases "VerifyToken parse (da_tokenMaker a) now tok") auto
    moreover from this(2) have "find (rule_applies u res act) rules = None"
      by (simp add: find_None_iff rule_applies_def)
    ultimately show ?thesis by (simp add: HasPermission_def check_rules_find)
  qed
  then show ?thesis using assms(1) by (auto simp: Auth_def Let_def split: sum.split)
qed

definition demo_auth :: DefaultAuthenticator where
  "demo_auth = \<lparr>da_provider = None, da_tokenMaker = demo_maker,
     da_tokenConfig = \<lparr>tc_Secret = demo_key, tc_Issuer = [], tc_ExpirationMin = 1\<rparr>\<rparr>"

theorem default_service_admits_nobody_witness:
  "fst (snd (Auth (\<lambda>_. None) (\<lambda>tok. map_sum (\<lambda>e. e) Some (DefaultAuthenticator_VerifyToken demo_parse demo_auth 10 tok))
     (HasPermission [\<lparr>pr_Role = ''user'', pr_Pattern = ''*'', pr_Actions = [''*''], pr_Allow = True\<rparr>])
     (\<lambda>s u r. (Suc s, RespondSuccess r 200 NoData)) 0
     \<lparr>ar_Authorization = ''Bearer tok1'', ar_cookie = None, ar_query_token = [], ar_Path = ''/api/v1/files/a'', ar_Method = ''GET''\<rparr>
     demo_post)) \<in> {401, 403}"
proof -
  let ?r = "\<lparr>ar_Authorization = ''Bearer tok1'', ar_cookie = None, ar_query_token = [], ar_Path = ''/api/v1/files/a'',
    ar_Method = ''GET''\<rparr>"
  have "\<not> isPublicPath (ar_Path ?r)" by code_simp
  from default_service_admits_nobody [OF this refl] show ?thesis by (rule conjunct2)
qed

text \<open>
  Sessions: a token made for a user is verified as that user until it expires, also after a logout;
  with each refresh before its end it is replaced by one that lives as long again, so a session
  never has to end.
\<close>

theorem session_survives_logout:
  assumes "jwt_library sign parse" "GenerateToken sign a uuid now user = Inr tok"
    and "later \<le> now + tc_ExpirationMin (da_tokenConfig a) * Minute"
    and "Logout a tok = (a', e)"
  shows "e = None \<and>
    DefaultAuthenticator_VerifyToken parse a' later tok =
      Inr \<lparr>ui_UserID = ui_UserID user, ui_Username = ui_Username user, ui_Roles = [], ui_ExtraData = None\<rparr> \<and>
    DefaultAuthenticator_RefreshToken sign parse a' uuid' later later tok = GenerateToken sign a uuid' later user"
proof -
  let ?d = "tc_ExpirationMin (da_tokenConfig a) * Minute"
  have c: "CreateToken sign (da_tokenMaker a) uuid now (ui_Username user) (ui_UserID user) ?d = Inr tok"
    using assms(2) by (auto simp: GenerateToken_def Let_def split: sum.splits)
  let ?k = "da_tokenMaker a"
  obtain p where p: "NewPayload uuid now (ui_Username user) (ui_UserID user) ?d (jm_issuer ?k) = Inr p"
    "sign (jm_secretKey ?k) p = Inr tok"
    using c by (auto simp: CreateToken_def split: sum.splits)
  then have q: "pl_Username p = ui_Username user" "pl_Subject p = ui_UserID user" "pl_ExpiredAt p = now + ?d"
    by (auto simp: NewPayload_def split: sum.splits)
  have "VerifyToken parse ?k later tok = Inr p"
    using assms(3) q(3) VerifyToken_signed [OF assms(1) p(2), of later] by simp
  with q assms(4) show ?thesis
    by (simp add: DefaultAuthenticator_VerifyToken_def DefaultAuthenticator_RefreshToken_def Logout_def GenerateToken_def)
qed

lemma demo_generate: "GenerateToken demo_sign demo_auth (Inr ''u1'') 0
    \<lparr>ui_UserID = ''7'', ui_Username = ''ann'', ui_Roles = [''admin''], ui_ExtraData = None\<rparr> = Inr ''tok1''"
  by (simp add: GenerateToken_def demo_auth_def CreateToken_def NewPayload_def demo_maker_def demo_sign_def
      demo_payload_def durations)

theorem session_survives_logout_witness:
  "DefaultAuthenticator_VerifyToken demo_parse (fst (Logout demo_auth ''tok1'')) 50 ''tok1'' =
     Inr \<lparr>ui_UserID = ''7'', ui_Username = ''ann'', ui_Roles = [], ui_ExtraData = None\<rparr>"
proof -
  have "50 \<le> 0 + tc_ExpirationMin (da_tokenConfig demo_auth) * Minute" by (simp add: demo_auth_def durations)
  from session_survives_logout [OF demo_jwt_library demo_generate this, of _ _ "Inr ''u2''"]
  show ?thesis by (cases "Logout demo_auth ''tok1''") auto
qed

text \<open>
  The user manager, on every reachable state: after a creation the user is found under its
  identifier and its name; a taken name is refused and changes nothing; no other name is affected,
  except those that belong to the same identifier: they are given to the new user, because nothing
  checks that the identifier is free.
\<close>

inductive um_reachable :: "InMemoryUserManager \<Rightarrow> bool" where
  init: "um_reachable (NewInMemoryUserManager heap)"
| create: "um_reachable m \<Longrightarrow> um_reachable (fst (CreateUser now1 now2 m user))"

lemma byName_known: "um_reachable m \<Longrightarrow> um_byName m n = Some i \<Longrightarrow> um_users m i \<noteq> None"
  by (induction arbitrary: n i rule: um_reachable.induct)
    (auto simp: NewInMemoryUserManager_def CreateUser_def Let_def split: if_splits)

theorem CreateUser_effect:
  assumes "um_reachable m" "CreateUser now1 now2 m user = (m', e)"
  shows "let u = um_heap m user in
    if um_byName m (us_Username u) \<noteq> None then m' = m \<and> e \<noteq> None
    else e = None \<and> GetUser m' (us_ID u) = Inr user \<and> GetUserByUsername m' (us_Username u) = Inr (Some user) \<and>
      (\<forall>n. n \<noteq> us_Username u \<longrightarrow> GetUserByUsername m' n =
         (if um_byName m n = Some (us_ID u) then Inr (Some user) else GetUserByUsername m n)) \<and>
      (\<forall>n. GetUserByUsername m' n \<noteq> Inr None)"
proof -
  have "um_reachable m'" using um_reachable.create [OF assms(1), of now1 now2 user] assms(2) by simp
  then have "GetUserByUsername m' n \<noteq> Inr None" for n
    using byName_known [of m' n] by (auto simp: GetUserByUsername_def split: option.splits)
  with assms(2) show ?thesis
    by (auto simp: CreateUser_def GetUser_def GetUserByUsername_def Let_def split: if_splits option.split)
qed

definition demo_user :: "string \<Rightarrow> User" where
  "demo_user n = \<lparr>us_ID = ''7'', us_Username = n, us_PasswordHash = [], us_Roles = [''user''], us_CreatedAt = 0,
     us_UpdatedAt = 0, us_LastLogin = 0, us_Active = True, us_ExtraData = None\<rparr>"

theorem CreateUser_effect_witness:
  "\<exists>m1 m2. CreateUser 1 1 (NewInMemoryUserManager (\<lambda>r. demo_user (if r = 0 then ''ann'' else ''bob''))) 0 = (m1, None) \<and>
     CreateUser 2 2 m1 1 = (m2, None) \<and> GetUserByUsername m2 ''ann'' = Inr (Some 1)"
proof -
  define m where "m = NewInMemoryUserManager (\<lambda>r. demo_user (if r = 0 then ''ann'' else ''bob''))"
  obtain m1 e1 where m1: "CreateUser 1 1 m 0 = (m1, e1)" by (cases "CreateUser 1 1 m 0")
  obtain m2 e2 where m2: "CreateUser 2 2 m1 1 = (m2, e2)" by (cases "CreateUser 2 2 m1 1")
  have r: "um_reachable m" by (simp add: m_def um_reachable.init)
  have e1: "e1 = None" "um_byName m1 = [''ann'' \<mapsto> ''7'']" "um_heap m1 1 = demo_user ''bob''"
    using m1 by (auto simp: m_def NewInMemoryUserManager_def CreateUser_def demo_user_def Let_def)
  have "um_reachable m1" using um_reachable.create [OF r, of 1 1 0] m1 by simp
  from CreateUser_effect [OF this m2] have "e2 = None \<and> GetUserByUsername m2 ''ann'' = Inr (Some 1)"
    by (simp add: e1(2) e1(3) [simplified] demo_user_def)
  with m1 m2 e1(1) show ?thesis by (auto simp: m_def)
qed

text \<open>
  The middleware of the package never reports an expired token: what the JWT maker returns is not
  the sentinel it compares with.
\<close>

lemma AuthMiddleware_never_expired:
  "AuthMiddleware (DefaultAuthenticator_VerifyToken parse a now) r \<noteq> Inl (401, ''token expired'')"
proof -
  have "\<not> errors_Is e auth_ErrExpiredToken" if "VerifyToken parse m now tok = Inl e" for m tok e
    using that by (auto simp: VerifyToken_def ErrInvalidToken_def ErrExpiredToken_def auth_ErrExpiredToken_def
        split: sum.splits option.splits jwt_error.splits if_splits)
  then show ?thesis
    by (auto simp: AuthMiddleware_def DefaultAuthenticator_VerifyToken_def Let_def split: sum.split)
qed

end
