(* ===== verification/ConfigLoader.thy ===== *)
theory ConfigLoader
  imports FileApi Election
begin

text \<open>
  Loading a configuration: \<^verbatim>\<open>common/config\<close> with its packages \<^verbatim>\<open>internal/reflection\<close> and
  \<^verbatim>\<open>internal/validation\<close>, and \<^verbatim>\<open>internal/metaserver/config\<close>. The code walks over arbitrary structs by
  reflection, so a configuration is a value with its struct fields, their names, their tags and the
  kinds of their contents, and the structs of the repository are concrete values of that type.

  Reading a file, the environment and the clock are arguments, and so are the decoders of the three
  formats, the validator library and \<^verbatim>\<open>strconv.ParseFloat\<close>. A function that writes through its pointer
  returns the configuration as it leaves it, also when it fails.

  The lemmas say where each field of a loaded configuration comes from, that kinds and integer
  ranges are kept, and what a loaded configuration satisfies; and that a default for a duration is
  never applied.
\<close>

section \<open>Values with their kinds\<close>

datatype int_kind = KInt | KInt8 | KInt16 | KInt32 | KInt64

fun width :: "int_kind \<Rightarrow> nat" where
  "width KInt = 64"
| "width KInt8 = 8"
| "width KInt16 = 16"
| "width KInt32 = 32"
| "width KInt64 = 64"

record field_info =
  fd_Name :: string
  fd_env :: string
  fd_default :: string
  fd_Anonymous :: bool

text \<open>Strings and structs carry the name of their type. A slice or map is its length.\<close>

datatype go_value =
    VString string string
  | VInt int_kind int
  | VUint int_kind nat
  | VFloat real
  | VBool bool
  | VSlice nat
  | VMap nat
  | VStruct string "(field_info \<times> go_value) list"

type_synonym go_fields = "(field_info \<times> go_value) list"

fun is_struct :: "go_value \<Rightarrow> bool" where
  "is_struct (VStruct _ _) = True"
| "is_struct _ = False"

section \<open>Package reflection\<close>

fun IsZeroValue :: "go_value \<Rightarrow> bool" where
  "IsZeroValue (VString _ s) = (s = [])"
| "IsZeroValue (VInt _ n) = (n = 0)"
| "IsZeroValue (VUint _ n) = (n = 0)"
| "IsZeroValue (VFloat x) = (x = 0)"
| "IsZeroValue (VBool b) = (\<not> b)"
| "IsZeroValue (VSlice n) = (n = 0)"
| "IsZeroValue (VMap n) = (n = 0)"
| "IsZeroValue (VStruct _ _) = False"

text \<open>\<^verbatim>\<open>SetInt\<close> keeps the low bits for a narrower kind.\<close>

definition wrap_int :: "int_kind \<Rightarrow> int \<Rightarrow> int" where
  "wrap_int k n = (n + 2 ^ (width k - 1)) mod 2 ^ width k - 2 ^ (width k - 1)"

fun SetFieldFromString :: "(string \<Rightarrow> real option) \<Rightarrow> go_value \<Rightarrow> string \<Rightarrow> go_error + go_value" where
  "SetFieldFromString pf (VString t _) s = Inr (VString t s)"
| "SetFieldFromString pf (VInt k _) s =
     (case Atoi s of Some n \<Rightarrow> Inr (VInt k (wrap_int k n)) | None \<Rightarrow> Inl (PlainErr ''not an integer''))"
| "SetFieldFromString pf (VUint k _) s =
     (case ParseUint s of
        Inr n \<Rightarrow> Inr (VUint k (unat n mod 2 ^ width k))
      | Inl _ \<Rightarrow> Inl (PlainErr ''not an unsigned integer''))"
| "SetFieldFromString pf (VFloat _) s =
     (case pf s of Some x \<Rightarrow> Inr (VFloat x) | None \<Rightarrow> Inl (PlainErr ''not a number''))"
| "SetFieldFromString pf (VBool _) s =
     (case ParseBool s of Some b \<Rightarrow> Inr (VBool b) | None \<Rightarrow> Inl (PlainErr ''not a boolean''))"
| "SetFieldFromString pf _ s = Inl (PlainErr ''unsupported type of field'')"

section \<open>Defaults and environment\<close>

definition default_leaf :: "(string \<Rightarrow> real option) \<Rightarrow> field_info \<Rightarrow> go_value \<Rightarrow> go_value" where
  "default_leaf pf i v =
     (if fd_default i = [] then v
      else if IsZeroValue v
      then (case SetFieldFromString pf v (fd_default i) of Inl _ \<Rightarrow> v | Inr v \<Rightarrow> v)
      else v)"

fun ApplyDefaults :: "(string \<Rightarrow> real option) \<Rightarrow> go_value \<Rightarrow> go_value"
  and default_fields :: "(string \<Rightarrow> real option) \<Rightarrow> go_fields \<Rightarrow> go_fields" where
  "ApplyDefaults pf (VStruct t fs) = VStruct t (default_fields pf fs)"
| "ApplyDefaults pf v = v"
| "default_fields pf [] = []"
| "default_fields pf ((i, v) # fs) =
     (i, if is_struct v then ApplyDefaults pf v else default_leaf pf i v) # default_fields pf fs"

definition env_leaf ::
  "(string \<Rightarrow> real option) \<Rightarrow> (string \<Rightarrow> string) \<Rightarrow> field_info \<Rightarrow> go_value \<Rightarrow> go_value \<times> go_error option" where
  "env_leaf pf env i v =
     (let envTag = fd_env i
      in if envTag = [] then (v, None)
         else let envValue = env envTag
              in if envValue = [] then (v, None)
                 else case SetFieldFromString pf v envValue of
                        Inl err \<Rightarrow> (v, Some (Errorf_w (''cannot set field '' @ fd_Name i) err))
                      | Inr v \<Rightarrow> (v, None))"

fun env_struct :: "(string \<Rightarrow> real option) \<Rightarrow> (string \<Rightarrow> string) \<Rightarrow> go_value \<Rightarrow> go_value \<times> go_error option"
  and env_fields :: "(string \<Rightarrow> real option) \<Rightarrow> (string \<Rightarrow> string) \<Rightarrow> go_fields \<Rightarrow> go_fields \<times> go_error option" where
  "env_struct pf env (VStruct t fs) = (case env_fields pf env fs of (fs, e) \<Rightarrow> (VStruct t fs, e))"
| "env_struct pf env v = (v, Some (PlainErr ''config must be a pointer to a struct''))"
| "env_fields pf env [] = ([], None)"
| "env_fields pf env ((i, v) # fs) =
     (case (if is_struct v then env_struct pf env v else env_leaf pf env i v) of
        (v, Some e) \<Rightarrow> ((i, v) # fs, Some e)
      | (v, None) \<Rightarrow> (case env_fields pf env fs of (fs, e) \<Rightarrow> ((i, v) # fs, e)))"

text \<open>\<open>skip\<close> is the variable \<^verbatim>\<open>skipEnvOverrideForTests\<close>.\<close>

definition ApplyEnvironmentVariables ::
  "(string \<Rightarrow> real option) \<Rightarrow> bool \<Rightarrow> (string \<Rightarrow> string) \<Rightarrow> go_value \<Rightarrow> go_value \<times> go_error option" where
  "ApplyEnvironmentVariables pf skip env config = (if skip then (config, None) else env_struct pf env config)"

section \<open>FieldByName\<close>

text \<open>
  \<^verbatim>\<open>reflect.Value.FieldByName\<close>: the field of that name in the struct, else in the structs embedded in
  it, level by level; a name that occurs twice on its level is not found.
\<close>

definition embedded :: "go_fields \<Rightarrow> go_fields list" where
  "embedded fs =
     concat (map (\<lambda>(i, v). if fd_Anonymous i then (case v of VStruct _ gs \<Rightarrow> [gs] | _ \<Rightarrow> []) else []) fs)"

function field_level :: "string \<Rightarrow> go_fields list \<Rightarrow> go_value option" where
  "field_level n level =
     (case filter (\<lambda>(i, v). fd_Name i = n) (concat level) of
        [(i, v)] \<Rightarrow> Some v
      | [] \<Rightarrow> (let deeper = concat (map embedded level) in if deeper = [] then None else field_level n deeper)
      | _ \<Rightarrow> None)"
  by pat_completeness auto

fun vsize :: "go_value \<Rightarrow> nat" and fsize :: "go_fields \<Rightarrow> nat" where
  "vsize (VStruct _ fs) = Suc (fsize fs)"
| "vsize _ = 0"
| "fsize [] = 0"
| "fsize ((i, v) # fs) = vsize v + fsize fs"

lemma embedded_simps [simp]:
  "embedded [] = []"
  "embedded ((i, v) # fs) = (if fd_Anonymous i then (case v of VStruct _ gs \<Rightarrow> [gs] | _ \<Rightarrow> []) else []) @ embedded fs"
  by (simp_all add: embedded_def)

lemma embedded_size: "sum_list (map fsize (embedded fs)) + length (embedded fs) \<le> fsize fs"
  by (induction fs) (auto split: go_value.split)

lemma levels_size:
  "sum_list (map fsize (concat (map embedded level))) + length (concat (map embedded level)) \<le> sum_list (map fsize level)"
proof (induction level)
  case (Cons fs level)
  then show ?case using embedded_size [of fs] by simp
qed simp

termination field_level
proof (relation "measure (\<lambda>(n, level). sum_list (map fsize level))", goal_cases)
  case (2 n level deeper)
  have "0 < length deeper" using 2 by simp
  then have "sum_list (map fsize deeper) < sum_list (map fsize level)"
    using levels_size [of level] unfolding 2(2) [symmetric] by linarith
  then show ?case by simp
qed simp

definition FieldByName :: "go_fields \<Rightarrow> string \<Rightarrow> go_value option" where
  "FieldByName fs n = field_level n [fs]"

section \<open>Validation\<close>

text \<open>\<open>validate\<close> is the validator library on the struct tags.\<close>

definition ValidateConfig :: "(go_value \<Rightarrow> go_error option) \<Rightarrow> go_value \<Rightarrow> go_error option" where
  "ValidateConfig validate config =
     (case validate config of
        Some err \<Rightarrow> Some (PlainErr (''config validation failed: '' @ Error err))
      | None \<Rightarrow>
          (case config of
             VStruct _ fs \<Rightarrow>
               if (case FieldByName fs ''NodeID'' of Some (VString _ s) \<Rightarrow> s = [] | _ \<Rightarrow> False)
               then Some (PlainErr ''node id must not be empty'')
               else if (case FieldByName fs ''ChunkSize'' of Some (VInt KInt n) \<Rightarrow> n < 512 | _ \<Rightarrow> False)
               then Some (PlainErr ''chunk size must not be below 512 bytes'')
               else if (case FieldByName fs ''Replicas'' of Some (VInt KInt n) \<Rightarrow> n < 1 | _ \<Rightarrow> False)
               then Some (PlainErr ''number of replicas must not be below 1'')
               else None
           | _ \<Rightarrow> Some (PlainErr ''config must be a struct or a pointer to one'')))"

text \<open>The type assertion on the field \<^verbatim>\<open>ID\<close> asks for the type \<^verbatim>\<open>NodeID\<close>.\<close>

definition processConfig :: "go_value \<Rightarrow> go_error option" where
  "processConfig cfg =
     (case cfg of
        VStruct t fs \<Rightarrow>
          if t = ''SystemConfig''
          then (case FieldByName fs ''NodeID'' of
                  Some (VString _ s) \<Rightarrow> if s = [] then Some (PlainErr ''node id must not be empty'') else None
                | _ \<Rightarrow> None)
          else (case FieldByName fs ''Node'' of
                  Some (VStruct _ gs) \<Rightarrow>
                    (case FieldByName gs ''ID'' of
                       Some (VString t s) \<Rightarrow>
                         if t = ''NodeID'' \<and> s = [] then Some (PlainErr ''node id must not be empty'') else None
                     | _ \<Rightarrow> None)
                | _ \<Rightarrow> None)
      | _ \<Rightarrow> None)"

section \<open>Loading\<close>

datatype file_state = NoFile | StatFails go_error | ReadFails go_error | FileContent string

text \<open>\<^verbatim>\<open>filepath.Ext\<close>: from the last dot of the last element.\<close>

definition Ext :: "string \<Rightarrow> string" where
  "Ext path =
     (let e = rev (takeWhile (\<lambda>c. c \<noteq> CHR ''/'') (rev path))
      in if CHR ''.'' \<in> set e then CHR ''.'' # rev (takeWhile (\<lambda>c. c \<noteq> CHR ''.'') (rev e)) else [])"

text \<open>\<open>unmarshal\<close> is the decoder of a format, applied to the text and the configuration it fills.\<close>

type_synonym decoder = "string \<Rightarrow> string \<Rightarrow> go_value \<Rightarrow> go_value \<times> go_error option"

definition decode_with :: "decoder \<Rightarrow> string \<Rightarrow> string \<Rightarrow> go_value \<Rightarrow> go_value \<times> go_error option" where
  "decode_with unmarshal fmt data config =
     (case unmarshal fmt data config of
        (config, Some err) \<Rightarrow> (config, Some (Errorf_w (''cannot parse '' @ fmt @ '' config'') err))
      | (config, None) \<Rightarrow> (config, None))"

definition parseConfigData :: "decoder \<Rightarrow> string \<Rightarrow> go_value \<Rightarrow> string \<Rightarrow> go_value \<times> go_error option" where
  "parseConfigData unmarshal data config ext =
     (if ext = ''.json'' then decode_with unmarshal ''JSON'' data config
      else if ext = ''.yaml'' \<or> ext = ''.yml'' then decode_with unmarshal ''YAML'' data config
      else if ext = ''.toml'' then decode_with unmarshal ''TOML'' data config
      else (config, Some (PlainErr (''unsupported config format: '' @ ext))))"

text \<open>What the loader takes from its surroundings.\<close>

record loader_env =
  le_ParseFloat :: "string \<Rightarrow> real option"
  le_skip :: bool
  le_Getenv :: "string \<Rightarrow> string"
  le_unmarshal :: decoder
  le_validate :: "go_value \<Rightarrow> go_error option"

definition LoadConfig :: "loader_env \<Rightarrow> file_state \<Rightarrow> string \<Rightarrow> go_value \<Rightarrow> go_value \<times> go_error option" where
  "LoadConfig w file path config =
     (let config = ApplyDefaults (le_ParseFloat w) config;
          parsed = (case file of
             NoFile \<Rightarrow> (config, None)
           | StatFails err \<Rightarrow> (config, Some (Errorf_w ''cannot check the config file'' err))
           | ReadFails err \<Rightarrow> (config, Some (Errorf_w ''cannot read the config file'' err))
           | FileContent data \<Rightarrow> parseConfigData (le_unmarshal w) data config (Ext path))
      in case parsed of
           (config, Some err) \<Rightarrow> (config, Some err)
         | (config, None) \<Rightarrow>
             (case ApplyEnvironmentVariables (le_ParseFloat w) (le_skip w) (le_Getenv w) config of
                (config, Some err) \<Rightarrow> (config, Some err)
              | (config, None) \<Rightarrow>
                  (case ValidateConfig (le_validate w) config of
                     Some err \<Rightarrow> (config, Some err)
                   | None \<Rightarrow>
                       (case processConfig config of Some err \<Rightarrow> (config, Some err) | None \<Rightarrow> (config, None)))))"

section \<open>The structs of the repository\<close>

definition fld :: "string \<Rightarrow> string \<Rightarrow> string \<Rightarrow> go_value \<Rightarrow> field_info \<times> go_value" where
  "fld name env tag v = (\<lparr>fd_Name = name, fd_env = env, fd_default = tag, fd_Anonymous = False\<rparr>, v)"

abbreviation str0 :: go_value where "str0 \<equiv> VString ''string'' []"
abbreviation int0 :: go_value where "int0 \<equiv> VInt KInt 0"
abbreviation dur0 :: go_value where "dur0 \<equiv> VInt KInt64 0"

definition NodeIdentity :: go_value where
  "NodeIdentity = VStruct ''NodeIdentity''
     [fld ''NodeID'' ''NODE_ID'' [] (VString ''NodeID'' []),
      fld ''Role'' ''NODE_ROLE'' ''member'' str0,
      fld ''DataDir'' ''DATA_DIR'' ''./data'' str0]"

definition LoggingConfig :: go_value where
  "LoggingConfig = VStruct ''LoggingConfig''
     [fld ''Level'' ''LOG_LEVEL'' ''info'' str0,
      fld ''Console'' ''LOG_CONSOLE'' ''true'' (VBool False),
      fld ''File'' ''LOG_FILE'' ''logs/app.log'' str0]"

definition BaseServerConfig :: go_value where
  "BaseServerConfig = VStruct ''BaseServerConfig''
     [fld ''Host'' ''SERVER_HOST'' ''0.0.0.0'' str0,
      fld ''Port'' ''SERVER_PORT'' ''8080'' int0,
      fld ''ReadTimeout'' [] ''30s'' dur0,
      fld ''WriteTimeout'' [] ''30s'' dur0,
      fld ''EnableCORS'' [] ''false'' (VBool False),
      fld ''AllowOrigins'' [] [] (VSlice 0)]"

definition ConsensusConfig :: go_value where
  "ConsensusConfig = VStruct ''ConsensusConfig''
     [fld ''Protocol'' [] ''raft'' str0,
      fld ''DataDir'' [] [] str0,
      fld ''SnapshotThreshold'' [] ''10000'' int0,
      fld ''CompactionInterval'' [] ''24h'' dur0]"

definition BaseConfig :: go_value where
  "BaseConfig = VStruct ''BaseConfig''
     [fld ''Node'' [] [] NodeIdentity, fld ''Logging'' [] [] LoggingConfig,
      fld ''Server'' [] [] BaseServerConfig, fld ''Consensus'' [] [] ConsensusConfig]"

definition ServerConfig :: go_value where
  "ServerConfig = VStruct ''ServerConfig''
     [fld ''Host'' ''SERVER_HOST'' ''0.0.0.0'' str0,
      fld ''Port'' ''SERVER_PORT'' ''8080'' int0,
      fld ''ReadTimeout'' [] ''30s'' dur0,
      fld ''WriteTimeout'' [] ''30s'' dur0]"

definition SystemConfig :: go_value where
  "SystemConfig = VStruct ''SystemConfig''
     [fld ''NodeID'' ''NODE_ID'' [] (VString ''NodeID'' []),
      fld ''MetaServer'' ''META_ADDR'' ''localhost:8080'' str0,
      fld ''DataDir'' ''DATA_DIR'' ''./data'' str0,
      fld ''ChunkSize'' ''CHUNK_SIZE'' ''1024'' int0,
      fld ''Replicas'' ''REPLICAS'' ''2'' int0,
      fld ''Logging'' [] [] LoggingConfig,
      fld ''Server'' [] [] ServerConfig]"

definition DatabaseConfig :: go_value where
  "DatabaseConfig = VStruct ''DatabaseConfig''
     [fld ''Type'' [] [] str0, fld ''Host'' [] [] str0, fld ''Port'' [] [] int0, fld ''User'' [] [] str0,
      fld ''Password'' [] [] str0, fld ''Database'' [] [] str0, fld ''MaxOpenConns'' [] ''20'' int0,
      fld ''MaxIdleConns'' [] ''10'' int0, fld ''ConnMaxLifetime'' [] ''3600'' int0, fld ''DSN'' [] [] str0]"

definition ClusterConfig_struct :: go_value where
  "ClusterConfig_struct = VStruct ''ClusterConfig''
     [fld ''NodeID'' [] [] str0, fld ''NodeAddress'' [] [] str0, fld ''Peers'' [] [] (VSlice 0),
      fld ''PeerAddresses'' [] [] (VSlice 0), fld ''PeerMap'' [] [] (VMap 0),
      fld ''ElectionTimeout'' [] ''2s'' dur0, fld ''HeartbeatTimeout'' [] ''500ms'' dur0,
      fld ''HeartbeatInterval'' [] ''1s'' dur0, fld ''SuspectTimeout'' [] ''3s'' dur0,
      fld ''DeadTimeout'' [] ''10s'' dur0, fld ''CleanupInterval'' [] ''30s'' dur0,
      fld ''RebalanceEvaluationInterval'' [] ''5m'' dur0, fld ''ImbalanceThreshold'' [] ''20.0'' (VFloat 0),
      fld ''MaxConcurrentMigrations'' [] ''5'' int0, fld ''MinMigrationInterval'' [] ''30m'' dur0,
      fld ''MigrationTimeout'' [] ''2h'' dur0]"

definition SecurityConfig :: go_value where
  "SecurityConfig = VStruct ''SecurityConfig''
     [fld ''EnableTLS'' [] ''false'' (VBool False), fld ''CertFile'' [] [] str0, fld ''KeyFile'' [] [] str0,
      fld ''EnableAuth'' [] ''false'' (VBool False), fld ''TokenExpiry'' [] ''24h'' dur0, fld ''JWTSecret'' [] [] str0]"

text \<open>The configuration of the metadata server, with the embedded base and the fixed shutdown time.\<close>

definition MetaConfig :: go_value where
  "MetaConfig = VStruct ''Config''
     [(\<lparr>fd_Name = ''BaseConfig'', fd_env = [], fd_default = [], fd_Anonymous = True\<rparr>, BaseConfig),
      fld ''Database'' [] [] DatabaseConfig, fld ''Cluster'' [] [] ClusterConfig_struct,
      fld ''Security'' [] [] SecurityConfig, fld ''ShutdownTimeout'' [] [] (VInt KInt64 (10 * Second))]"

definition LoadSystemConfig :: "loader_env \<Rightarrow> file_state \<Rightarrow> string \<Rightarrow> go_error + go_value" where
  "LoadSystemConfig w file path =
     (case LoadConfig w file path SystemConfig of (_, Some err) \<Rightarrow> Inl err | (config, None) \<Rightarrow> Inr config)"

text \<open>The functions for the three formats have the same body.\<close>

definition LoadConfigAuto :: "loader_env \<Rightarrow> file_state \<Rightarrow> string \<Rightarrow> go_error + go_value" where
  "LoadConfigAuto w file path =
     (let ext = Ext path
      in if ext = ''.json'' \<or> ext = ''.yaml'' \<or> ext = ''.yml'' \<or> ext = ''.toml''
         then LoadSystemConfig w file path
         else Inl (PlainErr (''unsupported config format: '' @ ext)))"

definition LoadMetaServerConfig :: "loader_env \<Rightarrow> file_state \<Rightarrow> string \<Rightarrow> go_error + go_value" where
  "LoadMetaServerConfig w file path =
     (case LoadConfig w file path MetaConfig of (_, Some err) \<Rightarrow> Inl err | (config, None) \<Rightarrow> Inr config)"

section \<open>Validator with rules\<close>

record ValidationRule =
  vr_Required :: bool
  vr_Validator :: "(go_value \<Rightarrow> go_error option) option"

type_synonym DefaultValidator = "string \<rightharpoonup> ValidationRule"

definition NewValidator :: DefaultValidator where
  "NewValidator = Map.empty"

definition AddRule :: "DefaultValidator \<Rightarrow> string \<Rightarrow> bool \<Rightarrow> (go_value \<Rightarrow> go_error option) option \<Rightarrow> DefaultValidator" where
  "AddRule v field required validator = v(field \<mapsto> \<lparr>vr_Required = required, vr_Validator = validator\<rparr>)"

fun validate_fields :: "DefaultValidator \<Rightarrow> go_fields \<Rightarrow> go_error option" where
  "validate_fields v [] = None"
| "validate_fields v ((i, x) # fs) =
     (case v (fd_Name i) of
        None \<Rightarrow> validate_fields v fs
      | Some rule \<Rightarrow>
          if vr_Required rule \<and> IsZeroValue x
          then Some (PlainErr (''field '' @ fd_Name i @ '' is required''))
          else case (case vr_Validator rule of None \<Rightarrow> None | Some check \<Rightarrow> check x) of
                 Some err \<Rightarrow> Some (Errorf_w (''field '' @ fd_Name i @ '' is not valid'') err)
               | None \<Rightarrow> validate_fields v fs)"

definition Validate :: "DefaultValidator \<Rightarrow> go_value \<Rightarrow> go_error option" where
  "Validate v config =
     (case config of
        VStruct _ fs \<Rightarrow> validate_fields v fs
      | _ \<Rightarrow> Some (PlainErr ''config must be a struct''))"

section \<open>Watching a file\<close>

text \<open>The calls of the callback are collected; a watcher without one is not modelled further.\<close>

record ConfigWatcher =
  cw_lastMod :: gotime
  cw_callbacks :: "go_value list"

definition NewConfigWatcher :: "go_error + gotime \<Rightarrow> go_error + ConfigWatcher" where
  "NewConfigWatcher stat =
     (case stat of
        Inl err \<Rightarrow> Inl (Errorf_w ''cannot get information on the config file'' err)
      | Inr modTime \<Rightarrow> Inr \<lparr>cw_lastMod = modTime, cw_callbacks = []\<rparr>)"

definition ForceReload :: "go_error + gotime \<Rightarrow> go_error + go_value \<Rightarrow> ConfigWatcher \<Rightarrow> ConfigWatcher \<times> go_error option" where
  "ForceReload stat loaded cw =
     (case stat of
        Inl err \<Rightarrow> (cw, Some (Errorf_w ''cannot check the config file'' err))
      | Inr modTime \<Rightarrow>
          (case loaded of
             Inl err \<Rightarrow> (cw, Some (Errorf_w ''cannot reload the config'' err))
           | Inr newConfig \<Rightarrow>
               (cw\<lparr>cw_lastMod := modTime, cw_callbacks := cw_callbacks cw @ [newConfig]\<rparr>, None)))"

text \<open>The state of the file is read twice, the second time in \<open>ForceReload\<close>.\<close>

definition checkAndReload ::
  "go_error + gotime \<Rightarrow> go_error + gotime \<Rightarrow> go_error + go_value \<Rightarrow> ConfigWatcher \<Rightarrow> ConfigWatcher \<times> go_error option" where
  "checkAndReload stat1 stat2 loaded cw =
     (case stat1 of
        Inl err \<Rightarrow> (cw, Some err)
      | Inr modTime \<Rightarrow> if \<not> modTime > cw_lastMod cw then (cw, None) else ForceReload stat2 loaded cw)"

section \<open>Kinds and ranges are kept\<close>

fun wf_value :: "go_value \<Rightarrow> bool" and wf_fields :: "go_fields \<Rightarrow> bool" where
  "wf_value (VInt k n) = (- (2 ^ (width k - 1)) \<le> n \<and> n < 2 ^ (width k - 1))"
| "wf_value (VUint k n) = (n < 2 ^ width k)"
| "wf_value (VStruct _ fs) = wf_fields fs"
| "wf_value _ = True"
| "wf_fields [] = True"
| "wf_fields ((i, v) # fs) = (wf_value v \<and> wf_fields fs)"

text \<open>The struct with its contents blanked: names, tags, types and kinds.\<close>

fun shape :: "go_value \<Rightarrow> go_value" and shapes :: "go_fields \<Rightarrow> go_fields" where
  "shape (VString t _) = VString t []"
| "shape (VInt k _) = VInt k 0"
| "shape (VUint k _) = VUint k 0"
| "shape (VFloat _) = VFloat 0"
| "shape (VBool _) = VBool False"
| "shape (VSlice _) = VSlice 0"
| "shape (VMap _) = VMap 0"
| "shape (VStruct t fs) = VStruct t (shapes fs)"
| "shapes [] = []"
| "shapes ((i, v) # fs) = (i, shape v) # shapes fs"

lemma width_pos [simp]: "0 < width k"
  by (cases k) simp_all

lemma wrap_int_range: "- (2 ^ (width k - 1)) \<le> wrap_int k n \<and> wrap_int k n < 2 ^ (width k - 1)"
proof -
  have "(2 :: int) ^ width k = 2 * 2 ^ (width k - 1)" by (cases k) simp_all
  moreover have "0 \<le> (n + 2 ^ (width k - 1)) mod 2 ^ width k" "(n + 2 ^ (width k - 1)) mod 2 ^ width k < 2 ^ width k"
    by simp_all
  ultimately show ?thesis unfolding wrap_int_def by linarith
qed

lemma SetFieldFromString_keeps:
  "SetFieldFromString pf v s = Inr v' \<Longrightarrow> wf_value v' \<and> shape v' = shape v \<and> \<not> is_struct v"
  using wrap_int_range by (cases v) (auto split: option.splits sum.splits)

lemma default_leaf_keeps:
  "wf_value v \<Longrightarrow> wf_value (default_leaf pf i v)"
  "shape (default_leaf pf i v) = shape v"
  by (auto simp: default_leaf_def split: sum.split dest: SetFieldFromString_keeps)

lemma env_leaf_keeps:
  "env_leaf pf env i v = (v', e) \<Longrightarrow> wf_value v \<Longrightarrow> wf_value v'"
  "env_leaf pf env i v = (v', e) \<Longrightarrow> shape v' = shape v"
  by (auto simp: env_leaf_def Let_def split: sum.splits if_splits dest: SetFieldFromString_keeps)

lemma ApplyDefaults_wf:
  "wf_value v \<Longrightarrow> wf_value (ApplyDefaults pf v)"
  "wf_fields fs \<Longrightarrow> wf_fields (default_fields pf fs)"
  by (induction v and fs rule: wf_value_wf_fields.induct) (auto intro: default_leaf_keeps)

lemma ApplyDefaults_shape:
  "shape (ApplyDefaults pf v) = shape v"
  "shapes (default_fields pf fs) = shapes fs"
  by (induction v and fs rule: shape_shapes.induct) (auto simp: default_leaf_keeps)

lemma env_wf:
  "wf_value v \<Longrightarrow> wf_value (fst (env_struct pf env v))"
  "wf_fields fs \<Longrightarrow> wf_fields (fst (env_fields pf env fs))"
  by (induction v and fs rule: wf_value_wf_fields.induct)
    (auto split: prod.splits option.splits dest: env_leaf_keeps)

lemma env_shape:
  "shape (fst (env_struct pf env v)) = shape v"
  "shapes (fst (env_fields pf env fs)) = shapes fs"
  by (induction v and fs rule: shape_shapes.induct)
    (auto split: prod.splits option.splits dest: env_leaf_keeps)

section \<open>Where a field comes from\<close>

definition named_field :: "string \<Rightarrow> go_fields \<Rightarrow> (field_info \<times> go_value) option" where
  "named_field n fs = find (\<lambda>(i, v). fd_Name i = n) fs"

text \<open>The field at the end of a path of names, which is not a struct itself.\<close>

fun leaf_at :: "go_value \<Rightarrow> string list \<Rightarrow> (field_info \<times> go_value) option" where
  "leaf_at (VStruct t fs) [n] =
     (case named_field n fs of Some (i, v) \<Rightarrow> if is_struct v then None else Some (i, v) | None \<Rightarrow> None)"
| "leaf_at (VStruct t fs) (n # m # ns) =
     (case named_field n fs of Some (i, v) \<Rightarrow> leaf_at v (m # ns) | None \<Rightarrow> None)"
| "leaf_at _ _ = None"

lemma named_field_default:
  "named_field n (default_fields pf fs) =
     map_option (\<lambda>(i, v). (i, if is_struct v then ApplyDefaults pf v else default_leaf pf i v)) (named_field n fs)"
  by (induction fs) (auto simp: named_field_def)

lemma is_struct_shape: "shape v = shape w \<Longrightarrow> is_struct v = is_struct w"
  by (cases v; cases w) auto

lemma is_struct_default [simp]:
  "is_struct (ApplyDefaults pf v) = is_struct v" "is_struct (default_leaf pf i v) = is_struct v"
  using is_struct_shape ApplyDefaults_shape(1) default_leaf_keeps(2) by blast+

lemma is_struct_env [simp]:
  "is_struct (fst (env_struct pf env v)) = is_struct v" "is_struct (fst (env_leaf pf env i v)) = is_struct v"
  by (rule is_struct_shape, rule env_shape(1))
    (rule is_struct_shape, rule env_leaf_keeps(2) [OF prod.collapse [symmetric]])

lemma leaf_at_not_struct: "\<not> is_struct v \<Longrightarrow> leaf_at v p = None"
  by (cases "(v, p)" rule: leaf_at.cases) auto

lemma leaf_at_defaults:
  "leaf_at (ApplyDefaults pf v) p = map_option (\<lambda>(i, x). (i, default_leaf pf i x)) (leaf_at v p)"
proof (induction v p rule: leaf_at.induct)
  case (1 t fs n)
  then show ?case by (auto simp: named_field_default split: option.split)
next
  case (2 t fs n m ns)
  show ?case
  proof (cases "named_field n fs")
    case (Some a)
    obtain i v where a: "a = (i, v)" by (cases a)
    have "leaf_at (ApplyDefaults pf v) (m # ns) = map_option (\<lambda>(i, x). (i, default_leaf pf i x)) (leaf_at v (m # ns))"
      using 2 [OF Some a [symmetric]] .
    then show ?thesis
      using Some a by (cases "is_struct v") (simp_all add: named_field_default leaf_at_not_struct)
  qed (simp add: named_field_default)
qed auto

lemma named_field_env:
  assumes "env_fields pf env fs = (fs', None)"
  shows "named_field n fs' =
    map_option (\<lambda>(i, v). (i, fst (if is_struct v then env_struct pf env v else env_leaf pf env i v))) (named_field n fs) \<and>
    (\<forall>i v. named_field n fs = Some (i, v) \<longrightarrow> is_struct v \<longrightarrow> snd (env_struct pf env v) = None)"
  using assms
proof (induction fs arbitrary: fs')
  case (Cons a fs)
  obtain i v where a: "a = (i, v)" by (cases a)
  obtain v1 where v1: "(if is_struct v then env_struct pf env v else env_leaf pf env i v) = (v1, None)"
    using Cons.prems a by (auto split: prod.splits option.splits)
  obtain fs1 where fs1: "env_fields pf env fs = (fs1, None)" "fs' = (i, v1) # fs1"
    using Cons.prems a v1 by (auto split: prod.splits)
  from Cons.IH [OF fs1(1)] show ?case
    using v1 by (auto simp: a fs1(2) named_field_def split: if_splits)
qed (simp add: named_field_def)

lemma leaf_at_env:
  "env_struct pf env v = (v', None) \<Longrightarrow>
   leaf_at v' p = map_option (\<lambda>(i, x). (i, fst (env_leaf pf env i x))) (leaf_at v p)"
proof (induction v p arbitrary: v' rule: leaf_at.induct)
  case (1 t fs n)
  then obtain fs' where fs': "env_fields pf env fs = (fs', None)" "v' = VStruct t fs'"
    by (auto split: prod.splits)
  show ?case
    using named_field_env [OF fs'(1), of n] by (auto simp: fs'(2) split: option.split)
next
  case (2 t fs n m ns)
  obtain fs' where fs': "env_fields pf env fs = (fs', None)" "v' = VStruct t fs'"
    using 2 by (auto split: prod.splits)
  show ?case
  proof (cases "named_field n fs")
    case (Some a)
    obtain i v where a: "a = (i, v)" by (cases a)
    show ?thesis
    proof (cases "is_struct v")
      case True
      with named_field_env [OF fs'(1), of n] Some a have e: "env_struct pf env v = (fst (env_struct pf env v), None)"
        by (simp add: prod_eq_iff)
      from 2(1) [OF Some a [symmetric] e] show ?thesis
        using named_field_env [OF fs'(1), of n] Some a True by (simp add: fs'(2))
    next
      case False
      then show ?thesis
        using named_field_env [OF fs'(1), of n] Some a by (simp add: fs'(2) leaf_at_not_struct)
    qed
  next
    case None
    then show ?thesis using named_field_env [OF fs'(1), of n] by (simp add: fs'(2))
  qed
qed auto

lemma env_fields_ok:
  "env_fields pf env fs = (fs', None) \<Longrightarrow> named_field n fs = Some (i, v) \<Longrightarrow> \<not> is_struct v \<Longrightarrow>
   snd (env_leaf pf env i v) = None"
  by (induction fs arbitrary: fs') (auto simp: named_field_def split: prod.splits option.splits if_splits)

lemma env_leaf_ok:
  "env_struct pf env v = (v', None) \<Longrightarrow> leaf_at v p = Some (i, x) \<Longrightarrow> snd (env_leaf pf env i x) = None"
proof (induction v p arbitrary: v' rule: leaf_at.induct)
  case (1 t fs n)
  then show ?case by (auto split: prod.splits option.splits if_splits intro: env_fields_ok)
next
  case (2 t fs n m ns)
  obtain fs' where fs': "env_fields pf env fs = (fs', None)" using 2 by (auto split: prod.splits)
  obtain j v where v: "named_field n fs = Some (j, v)" "leaf_at v (m # ns) = Some (i, x)"
    using 2 by (auto split: option.splits)
  then have "is_struct v" using leaf_at_not_struct by fastforce
  with named_field_env [OF fs', of n] v(1) have e: "env_struct pf env v = (fst (env_struct pf env v), None)"
    by (simp add: prod_eq_iff)
  from 2(1) [OF v(1) refl e v(2)] show ?case .
qed auto

section \<open>Properties\<close>

text \<open>
  (C18) Where each field of a loaded configuration comes from. First the defaults, for fields that are
  zero; over them what the decoder makes of the file, when there is one; over that the environment:
  a field with an \<^verbatim>\<open>env\<close> tag whose variable is set has the value of the variable. Loading succeeds
  only if every such variable can be converted to the kind of its field, and it changes neither
  kinds nor field names when the decoder does not.
\<close>

theorem LoadConfig_layers:
  assumes "LoadConfig w file path config = (config', None)" "\<not> le_skip w"
  shows "\<exists>c. (case file of
        NoFile \<Rightarrow> c = ApplyDefaults (le_ParseFloat w) config
      | FileContent data \<Rightarrow>
          \<exists>fmt. le_unmarshal w fmt data (ApplyDefaults (le_ParseFloat w) config) = (c, None)
      | _ \<Rightarrow> False) \<and>
    shape config' = shape c \<and>
    (\<forall>p i x. leaf_at c p = Some (i, x) \<longrightarrow>
       (if fd_env i = [] \<or> le_Getenv w (fd_env i) = [] then leaf_at config' p = Some (i, x)
        else \<exists>y. SetFieldFromString (le_ParseFloat w) x (le_Getenv w (fd_env i)) = Inr y \<and>
               leaf_at config' p = Some (i, y))) \<and>
    (\<forall>p i x. leaf_at config p = Some (i, x) \<longrightarrow>
       leaf_at (ApplyDefaults (le_ParseFloat w) config) p = Some (i, default_leaf (le_ParseFloat w) i x))"
proof -
  obtain c where c: "case file of NoFile \<Rightarrow> c = ApplyDefaults (le_ParseFloat w) config
      | FileContent data \<Rightarrow> \<exists>fmt. le_unmarshal w fmt data (ApplyDefaults (le_ParseFloat w) config) = (c, None)
      | _ \<Rightarrow> False"
    "env_struct (le_ParseFloat w) (le_Getenv w) c = (config', None)"
    using assms
    by (auto simp: LoadConfig_def Let_def ApplyEnvironmentVariables_def parseConfigData_def decode_with_def
        split: file_state.splits prod.splits option.splits if_splits)
  have ok: "snd (env_leaf (le_ParseFloat w) (le_Getenv w) i x) = None" if "leaf_at c p = Some (i, x)" for p i x
    using env_leaf_ok [OF c(2) that] .
  have "shape config' = shape c" using env_shape(1) [of "le_ParseFloat w" "le_Getenv w" c] c(2) by simp
  moreover have "if fd_env i = [] \<or> le_Getenv w (fd_env i) = [] then leaf_at config' p = Some (i, x)
        else \<exists>y. SetFieldFromString (le_ParseFloat w) x (le_Getenv w (fd_env i)) = Inr y \<and> leaf_at config' p = Some (i, y)"
    if "leaf_at c p = Some (i, x)" for p i x
    using leaf_at_env [OF c(2), of p] that ok [OF that]
    by (auto simp: env_leaf_def Let_def split: sum.splits if_splits)
  ultimately show ?thesis using c(1) by (intro exI [of _ c]) (auto simp: leaf_at_defaults)
qed

definition demo_world :: loader_env where
  "demo_world = \<lparr>le_ParseFloat = (\<lambda>_. None), le_skip = False,
     le_Getenv = (\<lambda>k. if k = ''NODE_ID'' then ''n1'' else if k = ''CHUNK_SIZE'' then ''4096'' else []),
     le_unmarshal = (\<lambda>_ _ v. (v, None)), le_validate = (\<lambda>_. None)\<rparr>"

lemmas structs = SystemConfig_def LoggingConfig_def ServerConfig_def fld_def

lemma numerals_read:
  "Atoi ''4096'' = Some 4096" "Atoi ''1024'' = Some 1024" "Atoi ''2'' = Some 2" "Atoi ''8080'' = Some 8080"
  "Atoi ''30s'' = None" "ParseBool ''true'' = Some True" "ParseBool ''false'' = Some False"
  by code_simp+

lemma wrap_KInt [simp]: "- (2 ^ 63) \<le> n \<Longrightarrow> n < 2 ^ 63 \<Longrightarrow> wrap_int KInt n = n"
  by (simp add: wrap_int_def)

definition demo_loaded :: go_value where
  "demo_loaded = fst (LoadConfig demo_world NoFile ''system.json'' SystemConfig)"

lemma demo_loads: "LoadConfig demo_world NoFile ''system.json'' SystemConfig = (demo_loaded, None)"
proof -
  have "snd (LoadConfig demo_world NoFile ''system.json'' SystemConfig) = None"
    by (simp add: LoadConfig_def demo_world_def structs default_leaf_def env_leaf_def numerals_read
        ApplyEnvironmentVariables_def ValidateConfig_def processConfig_def FieldByName_def Let_def)
  then show ?thesis by (simp add: demo_loaded_def prod_eq_iff)
qed

theorem LoadConfig_layers_witness:
  "map_option snd (leaf_at demo_loaded [''ChunkSize'']) = Some (VInt KInt 4096) \<and>
   map_option snd (leaf_at demo_loaded [''Server'', ''Port'']) = Some (VInt KInt 8080)"
proof -
  let ?d = "ApplyDefaults (\<lambda>_. None) SystemConfig"
  have d: "leaf_at ?d [''ChunkSize''] = Some (fst (fld ''ChunkSize'' ''CHUNK_SIZE'' ''1024'' int0), VInt KInt 1024)"
    "leaf_at ?d [''Server'', ''Port''] = Some (fst (fld ''Port'' ''SERVER_PORT'' ''8080'' int0), VInt KInt 8080)"
    by (simp_all add: structs named_field_def default_leaf_def numerals_read)
  have pf: "le_ParseFloat demo_world = (\<lambda>_. None)" by (simp add: demo_world_def)
  have "\<not> le_skip demo_world" by (simp add: demo_world_def)
  from LoadConfig_layers [OF demo_loads this] obtain c where c: "c = ?d"
    and layer: "\<And>p i x. leaf_at c p = Some (i, x) \<Longrightarrow>
       (if fd_env i = [] \<or> le_Getenv demo_world (fd_env i) = [] then leaf_at demo_loaded p = Some (i, x)
        else \<exists>y. SetFieldFromString (\<lambda>_. None) x (le_Getenv demo_world (fd_env i)) = Inr y \<and>
               leaf_at demo_loaded p = Some (i, y))"
    unfolding pf by auto
  show ?thesis
    using layer [unfolded c, OF d(1)] layer [unfolded c, OF d(2)]
    by (auto simp: demo_world_def fld_def numerals_read)
qed

text \<open>The fields of a value with a known shape.\<close>

lemma shapes_Nil: "shapes fs = [] \<longleftrightarrow> fs = []"
  by (cases fs) auto

lemma shapes_Cons: "shapes fs = (i, y) # ys \<longleftrightarrow> (\<exists>v gs. fs = (i, v) # gs \<and> shape v = y \<and> shapes gs = ys)"
  by (cases fs) auto

lemma shape_VInt: "shape v = VInt k m \<longleftrightarrow> (\<exists>n. v = VInt k n) \<and> m = 0"
  by (cases v) auto

lemma shape_VString: "shape v = VString t m \<longleftrightarrow> (\<exists>s. v = VString t s) \<and> m = []"
  by (cases v) auto

lemma shape_VStruct: "shape v = VStruct t gs \<longleftrightarrow> (\<exists>fs. v = VStruct t fs \<and> shapes fs = gs)"
  by (cases v) auto

definition decoder_keeps_shape :: "decoder \<Rightarrow> bool" where
  "decoder_keeps_shape um \<longleftrightarrow> (\<forall>fmt data v v' e. um fmt data v = (v', e) \<longrightarrow> shape v' = shape v)"

lemma LoadConfig_shape:
  assumes "LoadConfig w file path config = (config', e)" "decoder_keeps_shape (le_unmarshal w)"
  shows "shape config' = shape config"
proof -
  let ?d = "ApplyDefaults (le_ParseFloat w) config"
  have p: "shape v = shape ?d" if "parseConfigData (le_unmarshal w) data ?d ext = (v, e)" for data ext v e
  proof -
    have um: "shape (fst (le_unmarshal w fmt data ?d)) = shape ?d" for fmt
      using assms(2) unfolding decoder_keeps_shape_def by (metis prod.collapse)
    have "fst (decode_with (le_unmarshal w) fmt data ?d) = fst (le_unmarshal w fmt data ?d)" for fmt
      by (simp add: decode_with_def split: prod.split option.split)
    then have "shape (fst (parseConfigData (le_unmarshal w) data ?d ext)) = shape ?d"
      by (simp add: parseConfigData_def um)
    with that show ?thesis by simp
  qed
  have v: "shape v' = shape v" if "ApplyEnvironmentVariables pf skip env v = (v', e)" for pf skip env v v' e
    using that env_shape(1) [of pf env v] by (auto simp: ApplyEnvironmentVariables_def split: if_splits)
  show ?thesis
    using assms(1) ApplyDefaults_shape(1) [of "le_ParseFloat w" config]
    by (auto simp: LoadConfig_def Let_def split: file_state.splits prod.splits option.splits dest!: p v)
qed

text \<open>
  What a loaded system configuration satisfies, whatever the file and the environment say: the node
  has an identifier, chunks have at least 512 bytes and there is at least one replica. The decoder
  must fill the struct it is given.
\<close>

theorem SystemConfig_bounds:
  assumes "LoadSystemConfig w file path = Inr c" "decoder_keeps_shape (le_unmarshal w)"
  shows "\<exists>node chunk replicas i j k.
    leaf_at c [''NodeID''] = Some (i, VString ''NodeID'' node) \<and> node \<noteq> [] \<and>
    leaf_at c [''ChunkSize''] = Some (j, VInt KInt chunk) \<and> 512 \<le> chunk \<and>
    leaf_at c [''Replicas''] = Some (k, VInt KInt replicas) \<and> 1 \<le> replicas"
proof -
  have l: "LoadConfig w file path SystemConfig = (c, None)"
    using assms(1) by (auto simp: LoadSystemConfig_def split: prod.splits option.splits)
  have sh: "shape c = shape SystemConfig" by (rule LoadConfig_shape [OF l assms(2)])
  obtain node ms dd chunk replicas lg sv where c: "c = VStruct ''SystemConfig''
     [fld ''NodeID'' ''NODE_ID'' [] (VString ''NodeID'' node), fld ''MetaServer'' ''META_ADDR'' ''localhost:8080'' ms,
      fld ''DataDir'' ''DATA_DIR'' ''./data'' dd, fld ''ChunkSize'' ''CHUNK_SIZE'' ''1024'' (VInt KInt chunk),
      fld ''Replicas'' ''REPLICAS'' ''2'' (VInt KInt replicas), fld ''Logging'' [] [] lg, fld ''Server'' [] [] sv]"
    using sh by (auto simp: SystemConfig_def fld_def shape_VStruct shapes_Cons shapes_Nil shape_VInt shape_VString)
  have v: "ValidateConfig (le_validate w) c = None" "processConfig c = None"
    using l by (auto simp: LoadConfig_def Let_def split: file_state.splits prod.splits option.splits)
  have f: "FieldByName [fld ''NodeID'' ''NODE_ID'' [] (VString ''NodeID'' node), fld ''MetaServer'' ''META_ADDR'' ''localhost:8080'' ms,
      fld ''DataDir'' ''DATA_DIR'' ''./data'' dd, fld ''ChunkSize'' ''CHUNK_SIZE'' ''1024'' (VInt KInt chunk),
      fld ''Replicas'' ''REPLICAS'' ''2'' (VInt KInt replicas), fld ''Logging'' [] [] lg, fld ''Server'' [] [] sv] n =
      (if n = ''NodeID'' then Some (VString ''NodeID'' node) else if n = ''ChunkSize'' then Some (VInt KInt chunk)
       else Some (VInt KInt replicas))" if "n = ''NodeID'' \<or> n = ''ChunkSize'' \<or> n = ''Replicas''" for n
    using that by (elim disjE) (simp_all add: FieldByName_def fld_def)
  have "node \<noteq> []" "512 \<le> chunk" "1 \<le> replicas"
    using v(1) by (auto simp: c ValidateConfig_def f split: option.splits if_splits)
  then show ?thesis by (simp add: c fld_def named_field_def)
qed

theorem SystemConfig_bounds_witness:
  "\<exists>node i. leaf_at demo_loaded [''NodeID''] = Some (i, VString ''NodeID'' node) \<and> node \<noteq> []"
proof -
  have l: "LoadSystemConfig demo_world NoFile ''system.json'' = Inr demo_loaded"
    by (simp add: LoadSystemConfig_def demo_loads)
  have "decoder_keeps_shape (le_unmarshal demo_world)" by (simp add: decoder_keeps_shape_def demo_world_def)
  from SystemConfig_bounds [OF l this] show ?thesis by blast
qed

text \<open>
  A default that is not a decimal number is never applied to an integer field, and a duration is an
  integer field.
\<close>

lemma default_not_decimal: "Atoi (fd_default i) = None \<Longrightarrow> default_leaf pf i (VInt k n) = VInt k n"
  by (simp add: default_leaf_def)

definition timeout_paths :: "string list list" where
  "timeout_paths =
     map (\<lambda>n. [''BaseConfig'', ''Server'', n]) [''ReadTimeout'', ''WriteTimeout''] @
     [[''BaseConfig'', ''Consensus'', ''CompactionInterval''], [''Security'', ''TokenExpiry'']] @
     map (\<lambda>n. [''Cluster'', n])
       [''ElectionTimeout'', ''HeartbeatTimeout'', ''HeartbeatInterval'', ''SuspectTimeout'', ''DeadTimeout'',
        ''CleanupInterval'', ''RebalanceEvaluationInterval'', ''MinMigrationInterval'', ''MigrationTimeout'']"

lemma durations_unread:
  "Atoi ''30s'' = None" "Atoi ''24h'' = None" "Atoi ''2s'' = None" "Atoi ''500ms'' = None" "Atoi ''1s'' = None"
  "Atoi ''3s'' = None" "Atoi ''10s'' = None" "Atoi ''5m'' = None" "Atoi ''30m'' = None" "Atoi ''2h'' = None"
  by code_simp+

lemma env_unset:
  "is_struct v \<longrightarrow> env_struct pf (\<lambda>_. []) v = (v, None)"
  "env_fields pf (\<lambda>_. []) fs = (fs, None)"
  by (induction v and fs rule: shape_shapes.induct) (auto simp: env_leaf_def)

text \<open>
  A metadata server without a configuration file and environment is configured all the same: loading
  succeeds although the node has no identifier, because the two checks look for fields that the
  struct does not have, and every timeout and interval is zero, because none of their defaults can
  be read.
\<close>

theorem unconfigured_metaserver_loads:
  assumes "\<not> le_skip w" "le_Getenv w = (\<lambda>_. [])" "le_validate w = (\<lambda>_. None)"
  shows "\<exists>c. LoadMetaServerConfig w NoFile path = Inr c \<and>
    map_option snd (leaf_at c [''BaseConfig'', ''Node'', ''NodeID'']) = Some (VString ''NodeID'' []) \<and>
    (\<forall>p \<in> set timeout_paths. map_option snd (leaf_at c p) = Some (VInt KInt64 0))"
proof -
  define c where "c = ApplyDefaults (le_ParseFloat w) MetaConfig"
  note shapes = MetaConfig_def BaseConfig_def NodeIdentity_def LoggingConfig_def BaseServerConfig_def ConsensusConfig_def
    DatabaseConfig_def ClusterConfig_struct_def SecurityConfig_def fld_def
  have nodeless: "FieldByName (default_fields pf fs) n = None"
    if "MetaConfig = VStruct t fs" "n = ''NodeID'' \<or> n = ''ChunkSize'' \<or> n = ''Replicas''" for pf fs t n
    using that by (elim disjE) (auto simp: shapes FieldByName_def)
  have node: "FieldByName (default_fields pf fs) ''Node'' = Some (ApplyDefaults pf NodeIdentity)"
    if "MetaConfig = VStruct t fs" for pf fs t
    using that by (auto simp: shapes FieldByName_def)
  have noid: "FieldByName (default_fields pf fs) ''ID'' = None" if "NodeIdentity = VStruct t fs" for pf fs t
    using that by (auto simp: shapes FieldByName_def)
  obtain fs where fs: "MetaConfig = VStruct ''Config'' fs" by (simp add: MetaConfig_def)
  obtain ni where ni: "NodeIdentity = VStruct ''NodeIdentity'' ni" by (simp add: NodeIdentity_def)
  have "ValidateConfig (le_validate w) c = None"
    by (simp add: c_def fs ValidateConfig_def assms(3) nodeless [OF fs])
  moreover have "processConfig c = None"
    by (simp add: c_def fs processConfig_def node [OF fs]) (simp add: ni noid [OF ni])
  moreover have "ApplyEnvironmentVariables (le_ParseFloat w) (le_skip w) (le_Getenv w) c = (c, None)"
    using assms(1,2) by (simp add: ApplyEnvironmentVariables_def env_unset(2) c_def fs)
  ultimately have "LoadMetaServerConfig w NoFile path = Inr c"
    by (simp add: LoadMetaServerConfig_def LoadConfig_def c_def)
  moreover have "map_option snd (leaf_at c [''BaseConfig'', ''Node'', ''NodeID'']) = Some (VString ''NodeID'' [])"
    unfolding c_def leaf_at_defaults by (simp add: shapes named_field_def default_leaf_def)
  moreover have "map_option snd (leaf_at c p) = Some (VInt KInt64 0)" if "p \<in> set timeout_paths" for p
    using that unfolding c_def leaf_at_defaults timeout_paths_def
    by (auto simp: shapes named_field_def default_not_decimal durations_unread)
  ultimately show ?thesis by blast
qed

theorem unconfigured_metaserver_loads_witness:
  "\<exists>c. LoadMetaServerConfig (demo_world\<lparr>le_Getenv := (\<lambda>_. [])\<rparr>) NoFile ''meta.json'' = Inr c \<and>
     map_option snd (leaf_at c [''Cluster'', ''ElectionTimeout'']) = Some (VInt KInt64 0)"
proof -
  let ?w = "demo_world\<lparr>le_Getenv := (\<lambda>_. [])\<rparr>"
  have w: "\<not> le_skip ?w" "le_Getenv ?w = (\<lambda>_. [])" "le_validate ?w = (\<lambda>_. None)"
    by (simp_all add: demo_world_def)
  have "[''Cluster'', ''ElectionTimeout''] \<in> set timeout_paths" by (simp add: timeout_paths_def)
  with unconfigured_metaserver_loads [OF w] show ?thesis by blast
qed

lemma SetFieldFromString_shape: "shape v = shape w \<Longrightarrow> SetFieldFromString pf v s = SetFieldFromString pf w s"
  by (cases v; cases w) auto

lemma default_leaf_idem: "default_leaf pf i (default_leaf pf i v) = default_leaf pf i v"
proof (cases "fd_default i = [] \<or> \<not> IsZeroValue v")
  case False
  show ?thesis
  proof (cases "SetFieldFromString pf v (fd_default i)")
    case (Inr v')
    then have "SetFieldFromString pf v' (fd_default i) = Inr v'"
      using SetFieldFromString_shape [of v' v] SetFieldFromString_keeps by metis
    with False Inr show ?thesis by (simp add: default_leaf_def)
  qed (use False in \<open>simp add: default_leaf_def\<close>)
qed (auto simp: default_leaf_def)

lemma ApplyDefaults_idem:
  "ApplyDefaults pf (ApplyDefaults pf v) = ApplyDefaults pf v"
  "default_fields pf (default_fields pf fs) = default_fields pf fs"
  by (induction v and fs rule: shape_shapes.induct) (auto simp: default_leaf_idem)



text \<open>The rule-based validator accepts exactly the structs whose fields satisfy their rules.\<close>

definition field_ok :: "DefaultValidator \<Rightarrow> field_info \<times> go_value \<Rightarrow> bool" where
  "field_ok v f = (case v (fd_Name (fst f)) of
      None \<Rightarrow> True
    | Some rule \<Rightarrow> (vr_Required rule \<longrightarrow> \<not> IsZeroValue (snd f)) \<and>
        (case vr_Validator rule of None \<Rightarrow> True | Some check \<Rightarrow> check (snd f) = None))"

lemma Validate_accepts: "Validate v (VStruct t fs) = None \<longleftrightarrow> list_all (field_ok v) fs"
proof -
  have "validate_fields v ((i, x) # fs) = None \<longleftrightarrow> field_ok v (i, x) \<and> validate_fields v fs = None" for i x fs
    by (auto simp: field_ok_def split: option.splits)
  then have "validate_fields v fs = None \<longleftrightarrow> list_all (field_ok v) fs"
    by (induction fs) (auto simp del: validate_fields.simps(2))
  then show ?thesis by (simp add: Validate_def)
qed

text \<open>
  The watcher calls back exactly when the file is newer than the last one it loaded and can be
  loaded; a failed reload is tried again at the next check, because the time is not moved.
\<close>

lemma checkAndReload_effect:
  assumes "checkAndReload (Inr t1) (Inr t2) loaded cw = (cw', e)"
  shows "if t1 \<le> cw_lastMod cw then cw' = cw \<and> e = None
    else case loaded of
      Inl err \<Rightarrow> cw' = cw \<and> e \<noteq> None
    | Inr c \<Rightarrow> e = None \<and> cw_callbacks cw' = cw_callbacks cw @ [c] \<and> cw_lastMod cw' = t2"
  using assms by (auto simp: checkAndReload_def ForceReload_def split: sum.splits if_splits)

section \<open>Comparing two configurations\<close>

text \<open>A nil pointer is None. The section of the server is not compared.\<close>

definition compared_fields :: "string list list" where
  "compared_fields =
     [[''NodeID''], [''MetaServer''], [''DataDir''], [''ChunkSize''], [''Replicas''],
      [''Logging'', ''Level''], [''Logging'', ''Console''], [''Logging'', ''File'']]"

definition configEquals :: "go_value option \<Rightarrow> go_value option \<Rightarrow> bool" where
  "configEquals a b =
     (case (a, b) of
        (Some x, Some y) \<Rightarrow>
          \<not> list_ex (\<lambda>p. map_option snd (leaf_at x p) \<noteq> map_option snd (leaf_at y p)) compared_fields
      | _ \<Rightarrow> a = None \<and> b = None)"

text \<open>
  It is an equivalence, coarser than equality: two configurations that listen on different ports are
  equal for it.
\<close>

lemma configEquals_equivalence: "equivp configEquals"
  by (rule equivpI; rule reflpI sympI transpI)
     (auto simp: configEquals_def list_ex_iff split: option.splits)

lemma configEquals_ignores_server:
  "configEquals (Some (VStruct t (fs @ [fld ''Server'' [] [] v]))) (Some (VStruct t (fs @ [fld ''Server'' [] [] w])))"
proof -
  have "named_field n (fs @ [fld ''Server'' [] [] v]) = named_field n (fs @ [fld ''Server'' [] [] w])" if "n \<noteq> ''Server''" for n
    using that by (induction fs) (auto simp: named_field_def fld_def)
  then show ?thesis
    by (simp add: configEquals_def list_ex_iff compared_fields_def)
qed

end
