(* ===== verification/Database.thy ===== *)
theory Database
  imports FileApi TxMgr
begin

text \<open>
  The database layer, \<^verbatim>\<open>internal/metaserver/core/database\<close>: the query builder, the reflective
  repository, transactions, migrations and the schema, with the structs of \<^verbatim>\<open>core/models\<close> that are
  stored. The database server and its driver are outside: an operation is the statement it sends
  with its arguments, or a function of what the driver answers. Of \<^verbatim>\<open>database/sql\<close> the model has what
  the code uses: \<^verbatim>\<open>Scan\<close> wants as many destinations as there are columns and refuses one that is
  not a pointer.

  The lemmas show that statements have as many placeholders as arguments, that a migration is
  applied once and completely or not at all, how a transaction ends in every case, and which of the
  stored structs fit the tables at all.
\<close>

section \<open>The query builder\<close>

record 'v QueryBuilder =
  qb_table :: string
  qb_columns :: "string list"
  qb_where :: "string list"
  qb_whereArgs :: "'v list"
  qb_orderBy :: string
  qb_limit :: int
  qb_offset :: int

type_synonym 'v statement = "string \<times> 'v list"

definition NewQueryBuilder :: "string \<Rightarrow> 'v QueryBuilder" where
  "NewQueryBuilder table =
     \<lparr>qb_table = table, qb_columns = [''*''], qb_where = [], qb_whereArgs = [], qb_orderBy = [], qb_limit = -1, qb_offset = -1\<rparr>"

definition Select :: "string list \<Rightarrow> 'v QueryBuilder \<Rightarrow> 'v QueryBuilder" where
  "Select columns qb = qb\<lparr>qb_columns := columns\<rparr>"

definition Where :: "string \<Rightarrow> 'v list \<Rightarrow> 'v QueryBuilder \<Rightarrow> 'v QueryBuilder" where
  "Where condition args qb =
     qb\<lparr>qb_where := qb_where qb @ [condition], qb_whereArgs := qb_whereArgs qb @ args\<rparr>"

definition OrderBy :: "string \<Rightarrow> 'v QueryBuilder \<Rightarrow> 'v QueryBuilder" where
  "OrderBy orderBy qb = qb\<lparr>qb_orderBy := orderBy\<rparr>"

definition Limit :: "int \<Rightarrow> 'v QueryBuilder \<Rightarrow> 'v QueryBuilder" where
  "Limit limit qb = qb\<lparr>qb_limit := limit\<rparr>"

definition Offset :: "int \<Rightarrow> 'v QueryBuilder \<Rightarrow> 'v QueryBuilder" where
  "Offset offset qb = qb\<lparr>qb_offset := offset\<rparr>"

definition where_part :: "'v QueryBuilder \<Rightarrow> string" where
  "where_part qb = (if length (qb_where qb) > 0 then '' WHERE '' @ join_with '' AND '' (qb_where qb) else [])"

definition BuildSelect :: "'v QueryBuilder \<Rightarrow> 'v statement" where
  "BuildSelect qb =
     (let query = ''SELECT '' @ join_with '', '' (qb_columns qb) @ '' FROM '' @ qb_table qb;
          query = query @ where_part qb;
          query = (if qb_orderBy qb \<noteq> [] then query @ '' ORDER BY '' @ qb_orderBy qb else query);
          query = (if qb_limit qb \<ge> 0 then query @ '' LIMIT '' @ dec_int (qb_limit qb) else query);
          query = (if qb_offset qb \<ge> 0 then query @ '' OFFSET '' @ dec_int (qb_offset qb) else query)
      in (query, qb_whereArgs qb))"

definition BuildCount :: "'v QueryBuilder \<Rightarrow> 'v statement" where
  "BuildCount qb = (''SELECT COUNT(*) FROM '' @ qb_table qb @ where_part qb, qb_whereArgs qb)"

definition BuildDelete :: "'v QueryBuilder \<Rightarrow> 'v statement" where
  "BuildDelete qb = (''DELETE FROM '' @ qb_table qb @ where_part qb, qb_whereArgs qb)"

section \<open>The repository: statements\<close>

text \<open>A struct with exported fields: name, \<^verbatim>\<open>db\<close> tag (empty when there is none), value.\<close>

datatype 'v entity =
    EStruct "(string \<times> string \<times> 'v) list"
  | EPtr "'v entity option"
  | EOther

definition column_name :: "string \<times> string \<times> 'v \<Rightarrow> string" where
  "column_name f = (case f of (name, tag, _) \<Rightarrow> if tag = [] then map lower name else tag)"

fun insert_fields :: "(string \<times> string \<times> 'v) list \<Rightarrow> string list \<times> 'v list" where
  "insert_fields [] = ([], [])"
| "insert_fields (f # fs) =
     (let colName = column_name f; (cs, vs) = insert_fields fs
      in if colName = ''-'' \<or> colName = ''id'' then (cs, vs) else (colName # cs, snd (snd f) # vs))"

definition extractInsertValues :: "'v entity \<Rightarrow> go_error + string list \<times> 'v list" where
  "extractInsertValues e =
     (case (case e of EPtr (Some x) \<Rightarrow> x | EPtr None \<Rightarrow> EOther | _ \<Rightarrow> e) of
        EStruct fs \<Rightarrow> Inr (insert_fields fs)
      | _ \<Rightarrow> Inl (PlainErr ''entity must be a struct or a pointer to one''))"

definition Repository_FindByID :: "string \<Rightarrow> 'v \<Rightarrow> 'v statement" where
  "Repository_FindByID table i = BuildSelect (Where ''id = ?'' [i] (NewQueryBuilder table))"

definition Repository_FindOne :: "string \<Rightarrow> string \<Rightarrow> 'v list \<Rightarrow> 'v statement" where
  "Repository_FindOne table cond args =
     (let qb = Where cond [] (NewQueryBuilder table)
      in BuildSelect (qb\<lparr>qb_whereArgs := qb_whereArgs qb @ args\<rparr>))"

definition optional_where :: "string \<Rightarrow> string \<Rightarrow> 'v list \<Rightarrow> 'v QueryBuilder" where
  "optional_where table cond args =
     (let qb = NewQueryBuilder table
      in if cond \<noteq> [] then let qb = Where cond [] qb in qb\<lparr>qb_whereArgs := qb_whereArgs qb @ args\<rparr> else qb)"

definition Repository_FindAll :: "string \<Rightarrow> string \<Rightarrow> 'v list \<Rightarrow> 'v statement" where
  "Repository_FindAll table cond args = BuildSelect (optional_where table cond args)"

definition Repository_Count :: "string \<Rightarrow> string \<Rightarrow> 'v list \<Rightarrow> 'v statement" where
  "Repository_Count table cond args = BuildCount (optional_where table cond args)"

definition Repository_Delete :: "string \<Rightarrow> string \<Rightarrow> 'v list \<Rightarrow> go_error + 'v statement" where
  "Repository_Delete table cond args =
     (if cond \<noteq> [] then Inr (BuildDelete (optional_where table cond args))
      else Inl (PlainErr ''a deletion needs a condition''))"

definition Repository_Insert :: "string \<Rightarrow> 'v entity \<Rightarrow> go_error + 'v statement" where
  "Repository_Insert table e =
     (case extractInsertValues e of
        Inl err \<Rightarrow> Inl err
      | Inr (columns, vals) \<Rightarrow>
          Inr (''INSERT INTO '' @ table @ '' ('' @ join_with '', '' columns @ '') VALUES ('' @
               join_with '', '' (replicate (length columns) ''?'') @ '')'', vals))"

definition Repository_Update :: "string \<Rightarrow> 'v entity \<Rightarrow> string \<Rightarrow> 'v list \<Rightarrow> go_error + 'v statement" where
  "Repository_Update table e cond args =
     (case extractInsertValues e of
        Inl err \<Rightarrow> Inl err
      | Inr (columns, vals) \<Rightarrow>
          let setParts = map (\<lambda>col. col @ '' = ?'') columns
          in Inr (''UPDATE '' @ table @ '' SET '' @ join_with '', '' setParts @ '' WHERE '' @ cond, vals @ args))"

section \<open>Scanning results\<close>

text \<open>
  A destination: a pointer to a struct or to a slice of structs with these field names, or something
  else. \<open>conv\<close> is the conversion of a column's value to the type of the destination.
\<close>

datatype dest = PtrStruct "string list" | PtrSlice "string list" | OtherDest

definition scan_count_error :: "nat \<Rightarrow> nat \<Rightarrow> go_error" where
  "scan_count_error cols dests =
     PlainErr (''sql: expected '' @ dec cols @ '' destination arguments in Scan, not '' @ dec dests)"

fun convert_all :: "('v \<Rightarrow> go_error + 'w) \<Rightarrow> 'v list \<Rightarrow> go_error + 'w list" where
  "convert_all conv [] = Inr []"
| "convert_all conv (v # vs) =
     (case conv v of
        Inl e \<Rightarrow> Inl e
      | Inr w \<Rightarrow> (case convert_all conv vs of Inl e \<Rightarrow> Inl e | Inr ws \<Rightarrow> Inr (w # ws)))"

text \<open>A row is the error of the query, or the values of its columns.\<close>

definition scanStruct :: "('v \<Rightarrow> go_error + 'w) \<Rightarrow> go_error + 'v list \<Rightarrow> dest \<Rightarrow> go_error + 'w list" where
  "scanStruct conv row dest =
     (case dest of
        PtrStruct fs \<Rightarrow>
          (case row of
             Inl err \<Rightarrow> Inl err
           | Inr vals \<Rightarrow>
               if length vals \<noteq> length fs then Inl (scan_count_error (length vals) (length fs))
               else convert_all conv vals)
      | _ \<Rightarrow> Inl (PlainErr ''destination must be a pointer to a struct''))"

fun scan_columns :: "('v \<Rightarrow> go_error + 'w) \<Rightarrow> string list \<Rightarrow> string list \<Rightarrow> 'v list \<Rightarrow> go_error + (string \<rightharpoonup> 'w)" where
  "scan_columns conv fs (c # cs) (v # vs) =
     (if \<not> List.member fs c then Inl (PlainErr (''sql: Scan error on column '' @ c @ '': destination not a pointer''))
      else case conv v of
             Inl e \<Rightarrow> Inl e
           | Inr w \<Rightarrow> (case scan_columns conv fs cs vs of Inl e \<Rightarrow> Inl e | Inr m \<Rightarrow> Inr (m(c \<mapsto> w))))"
| "scan_columns conv fs _ _ = Inr Map.empty"

fun scan_all :: "('v \<Rightarrow> go_error + 'w) \<Rightarrow> string list \<Rightarrow> string list \<Rightarrow> 'v list list \<Rightarrow> go_error + (string \<rightharpoonup> 'w) list" where
  "scan_all conv fs cols [] = Inr []"
| "scan_all conv fs cols (r # rs) =
     (case scan_columns conv fs cols r of
        Inl e \<Rightarrow> Inl e
      | Inr m \<Rightarrow> (case scan_all conv fs cols rs of Inl e \<Rightarrow> Inl e | Inr ms \<Rightarrow> Inr (m # ms)))"

text \<open>\<open>rows_err\<close> is what \<^verbatim>\<open>rows.Err\<close> returns at the end.\<close>

definition ScanRows ::
  "('v \<Rightarrow> go_error + 'w) \<Rightarrow> go_error + string list \<Rightarrow> 'v list list \<Rightarrow> go_error option \<Rightarrow> dest \<Rightarrow> go_error + (string \<rightharpoonup> 'w) list" where
  "ScanRows conv columns rows rows_err dest =
     (case dest of
        PtrSlice fs \<Rightarrow>
          (case columns of
             Inl err \<Rightarrow> Inl err
           | Inr cols \<Rightarrow>
               (case scan_all conv fs cols rows of
                  Inl err \<Rightarrow> Inl err
                | Inr elems \<Rightarrow> (case rows_err of Some err \<Rightarrow> Inl err | None \<Rightarrow> Inr elems)))
      | _ \<Rightarrow> Inl (PlainErr ''destination must be a pointer to a slice''))"

section \<open>The manager and transactions\<close>

record DbConfig =
  dc_Type :: string
  dc_Host :: string
  dc_Port :: int
  dc_User :: string
  dc_Password :: string
  dc_Database :: string

definition data_source :: "DbConfig \<Rightarrow> go_error + string \<times> string" where
  "data_source c =
     (if dc_Type c = ''mysql'' then
        Inr (''mysql'', dc_User c @ '':'' @ dc_Password c @ ''@tcp('' @ dc_Host c @ '':'' @ dec_int (dc_Port c) @ '')/'' @
             dc_Database c @ ''?charset=utf8mb4&parseTime=true&loc=Local'')
      else if dc_Type c = ''postgres'' \<or> dc_Type c = ''postgresql'' then
        Inr (''postgres'', ''host='' @ dc_Host c @ '' port='' @ dec_int (dc_Port c) @ '' user='' @ dc_User c @
             '' password='' @ dc_Password c @ '' dbname='' @ dc_Database c @ '' sslmode=disable'')
      else if dc_Type c = ''sqlite'' \<or> dc_Type c = ''sqlite3'' then Inr (''sqlite3'', dc_Database c)
      else Inl (PlainErr (''unsupported type of database: '' @ dc_Type c)))"

datatype db_handle = NilDB | OpenDB | ClosedDB

text \<open>\<open>opened\<close>, \<open>ping\<close> and \<open>init\<close> are the answers of the driver and of the schema.\<close>

definition Database_Start ::
  "go_error option \<Rightarrow> go_error option \<Rightarrow> go_error option \<Rightarrow> DbConfig \<Rightarrow> db_handle \<Rightarrow> db_handle \<times> go_error option" where
  "Database_Start opened ping init c db =
     (case data_source c of
        Inl err \<Rightarrow> (db, Some err)
      | Inr _ \<Rightarrow>
          (case opened of
             Some err \<Rightarrow> (NilDB, Some (Errorf_w ''cannot connect to the database'' err))
           | None \<Rightarrow>
               (case ping of
                  Some err \<Rightarrow> (ClosedDB, Some (Errorf_w ''connection test failed'' err))
                | None \<Rightarrow>
                    (case init of
                       Some err \<Rightarrow> (ClosedDB, Some (Errorf_w ''initialisation of the schema failed'' err))
                     | None \<Rightarrow> (OpenDB, None)))))"

definition Database_Stop :: "go_error option \<Rightarrow> db_handle \<Rightarrow> db_handle \<times> go_error option" where
  "Database_Stop close_err db =
     (case db of
        NilDB \<Rightarrow> (NilDB, None)
      | _ \<Rightarrow> (ClosedDB, map_option (Errorf_w ''error while closing the database'') close_err))"

definition err_no_db :: go_error where
  "err_no_db = PlainErr ''database connection not initialised''"

definition GetTx :: "go_error option \<Rightarrow> db_handle \<Rightarrow> go_error + sql_status" where
  "GetTx begin_err db =
     (if db = NilDB then Inl err_no_db
      else case begin_err of
             Some err \<Rightarrow> Inl (Errorf_w ''cannot begin a transaction'' err)
           | None \<Rightarrow> Inr SqlOpen)"

definition ExecContext :: "db_handle \<Rightarrow> go_error + 'r \<Rightarrow> go_error + 'r" where
  "ExecContext db answer =
     (if db = NilDB then Inl err_no_db
      else case answer of Inl err \<Rightarrow> Inl (Errorf_w ''execution of SQL failed'' err) | Inr r \<Rightarrow> Inr r)"

definition QueryContext :: "db_handle \<Rightarrow> go_error + 'r \<Rightarrow> go_error + 'r" where
  "QueryContext db answer =
     (if db = NilDB then Inl err_no_db
      else case answer of Inl err \<Rightarrow> Inl (Errorf_w ''execution of the query failed'' err) | Inr r \<Rightarrow> Inr r)"

definition QueryRowContext :: "db_handle \<Rightarrow> 'r \<Rightarrow> 'r outcome" where
  "QueryRowContext db answer =
     (if db = NilDB then Panic ''database connection not initialised'' else Return answer)"

text \<open>
  The callback gets the transaction and leaves it in some state, open unless it ends it itself; it
  panics or returns. The result is the transaction at the end and what the caller sees.
\<close>

definition db_WithTransaction ::
  "go_error option \<Rightarrow> go_error option \<Rightarrow> go_error + sql_status \<Rightarrow> (sql_status \<Rightarrow> sql_status \<times> go_error option outcome) \<Rightarrow>
   sql_status option \<times> go_error option outcome" where
  "db_WithTransaction rollback_drv commit_drv tx callback =
     (case tx of
        Inl err \<Rightarrow> (None, Return (Some err))
      | Inr st \<Rightarrow>
          (case callback st of
             (st, Panic p) \<Rightarrow> (Some (fst (sql_Rollback rollback_drv st)), Panic p)
           | (st, Return (Some err)) \<Rightarrow> (Some (fst (sql_Rollback rollback_drv st)), Return (Some err))
           | (st, Return None) \<Rightarrow>
               (case sql_Commit commit_drv st of
                  (st, Some err) \<Rightarrow> (Some st, Return (Some (Errorf_w ''commit of the transaction failed'' err)))
                | (st, None) \<Rightarrow> (Some st, Return None))))"

definition DoInTransaction ::
  "go_error option \<Rightarrow> go_error option \<Rightarrow> go_error + sql_status \<Rightarrow> (sql_status \<Rightarrow> sql_status \<times> go_error option outcome) \<Rightarrow>
   sql_status option \<times> go_error option outcome" where
  "DoInTransaction rollback_drv commit_drv tx callback =
     (case tx of
        Inl err \<Rightarrow> (None, Return (Some err))
      | Inr st \<Rightarrow>
          (case callback st of
             (st, Panic p) \<Rightarrow> (Some st, Panic p)
           | (st, Return (Some err)) \<Rightarrow> (Some (fst (sql_Rollback rollback_drv st)), Return (Some err))
           | (st, Return None) \<Rightarrow> (case sql_Commit commit_drv st of (st, e) \<Rightarrow> (Some st, Return e))))"

section \<open>Migrations\<close>

record Migration =
  mi_Version :: int
  mi_Description :: string
  mi_SQL :: string

text \<open>
  The database as far as migrations see it: the table \<^verbatim>\<open>schema_migrations\<close>, whose primary key is the
  version, and everything else. \<open>exec\<close> is the effect of a migration's SQL on the rest, or its error or
  that of beginning the transaction, and \<open>commit\<close> an error of the driver after it; what a transaction
  did that fails is undone.
\<close>

record 'd mig_db =
  md_applied :: "int \<rightharpoonup> string"
  md_data :: 'd

definition apply_migration ::
  "(string \<Rightarrow> 'd \<Rightarrow> go_error + 'd) \<Rightarrow> (Migration \<Rightarrow> go_error option) \<Rightarrow> Migration \<Rightarrow> 'd mig_db \<Rightarrow> 'd mig_db \<times> go_error option" where
  "apply_migration exec commit mi db =
     (case exec (mi_SQL mi) (md_data db) of
        Inl err \<Rightarrow> (db, Some err)
      | Inr d \<Rightarrow>
          if md_applied db (mi_Version mi) \<noteq> None then (db, Some (PlainErr ''duplicate key''))
          else case commit mi of
                 Some err \<Rightarrow> (db, Some err)
               | None \<Rightarrow>
                   (\<lparr>md_applied = (md_applied db)(mi_Version mi \<mapsto> mi_Description mi), md_data = d\<rparr>, None))"

fun migrate_loop ::
  "(string \<Rightarrow> 'd \<Rightarrow> go_error + 'd) \<Rightarrow> (Migration \<Rightarrow> go_error option) \<Rightarrow> (int \<rightharpoonup> string) \<Rightarrow> Migration list \<Rightarrow> 'd mig_db \<Rightarrow>
   'd mig_db \<times> go_error option" where
  "migrate_loop exec commit applied [] db = (db, None)"
| "migrate_loop exec commit applied (mi # mis) db =
     (if applied (mi_Version mi) \<noteq> None then migrate_loop exec commit applied mis db
      else case apply_migration exec commit mi db of
             (db, Some err) \<Rightarrow> (db, Some (Errorf_w (''migration '' @ dec_int (mi_Version mi) @ '' failed'') err))
           | (db, None) \<Rightarrow> migrate_loop exec commit applied mis db)"

text \<open>\<open>table_err\<close> and \<open>query_err\<close> are errors of creating and of reading the table of migrations.\<close>

definition GetAppliedMigrations :: "go_error option \<Rightarrow> go_error option \<Rightarrow> 'd mig_db \<Rightarrow> go_error + (int \<rightharpoonup> string)" where
  "GetAppliedMigrations table_err query_err db =
     (case table_err of
        Some err \<Rightarrow> Inl err
      | None \<Rightarrow> (case query_err of Some err \<Rightarrow> Inl err | None \<Rightarrow> Inr (md_applied db)))"

definition ApplyMigrations ::
  "go_error option \<Rightarrow> go_error option \<Rightarrow> (string \<Rightarrow> 'd \<Rightarrow> go_error + 'd) \<Rightarrow> (Migration \<Rightarrow> go_error option) \<Rightarrow> Migration list \<Rightarrow>
   'd mig_db \<Rightarrow> 'd mig_db \<times> go_error option" where
  "ApplyMigrations table_err query_err exec commit migrations db =
     (case GetAppliedMigrations table_err query_err db of
        Inl err \<Rightarrow> (db, Some err)
      | Inr applied \<Rightarrow> migrate_loop exec commit applied migrations db)"

section \<open>The schema\<close>

text \<open>A statement that creates a table: whether it says \<^verbatim>\<open>IF NOT EXISTS\<close>, the table, its columns.\<close>

definition createTableStatements :: "(bool \<times> string \<times> string list) list" where
  "createTableStatements =
     [(True, ''directories'', [''dir_id'', ''parent_id'', ''name'', ''owner_id'', ''created_at'', ''modified_at'', ''is_deleted'', ''mode'']),
      (True, ''files'', [''file_id'', ''parent_dir_id'', ''name'', ''size'', ''owner_id'', ''created_at'', ''modified_at'',
         ''accessed_at'', ''version'', ''is_deleted'', ''checksum'', ''mode'']),
      (True, ''chunks'', [''chunk_id'', ''file_id'', ''chunk_index'', ''size'', ''checksum'']),
      (False, ''datanodes'', [''node_id'', ''address'', ''port'', ''status'', ''capacity_total'', ''capacity_used'',
         ''last_heartbeat'', ''rack_id'']),
      (False, ''replicas'', [''replica_id'', ''chunk_id'', ''node_id'', ''status'', ''created_at'']),
      (False, ''users'', [''user_id'', ''username'', ''password_hash'', ''salt'', ''created_at'', ''status'']),
      (False, ''permissions'', [''permission_id'', ''object_id'', ''object_type'', ''user_id'', ''permission_type''])]"

definition createIndexStatements :: "(bool \<times> string) list" where
  "createIndexStatements =
     [(True, ''idx_dirs_parent''), (True, ''idx_files_parent''), (True, ''idx_chunks_file''), (True, ''idx_replicas_chunk''),
      (True, ''idx_replicas_node''), (False, ''idx_users_username''), (False, ''idx_permissions_object''),
      (False, ''idx_permissions_user'')]"

text \<open>
  The database under the schema is a parameter: how it executes the two kinds of statements, the
  creation of the migration table and the two initial rows.
\<close>

record 'db schema_ops =
  so_migration_table :: "'db \<Rightarrow> 'db \<times> go_error option"
  so_create_table :: "bool \<times> string \<times> string list \<Rightarrow> 'db \<Rightarrow> 'db \<times> go_error option"
  so_create_index :: "bool \<times> string \<Rightarrow> 'db \<Rightarrow> 'db \<times> go_error option"
  so_count_roots :: "'db \<Rightarrow> go_error + nat"
  so_insert_root :: "'db \<Rightarrow> 'db \<times> go_error option"
  so_count_system :: "'db \<Rightarrow> go_error + nat"
  so_insert_system :: "'db \<Rightarrow> 'db \<times> go_error option"

fun run_statements :: "('st \<Rightarrow> 'db \<Rightarrow> 'db \<times> go_error option) \<Rightarrow> 'st list \<Rightarrow> 'db \<Rightarrow> 'db \<times> go_error option" where
  "run_statements ex [] db = (db, None)"
| "run_statements ex (st # sts) db =
     (case ex st db of (db, Some err) \<Rightarrow> (db, Some err) | (db, None) \<Rightarrow> run_statements ex sts db)"

definition init_row :: "('db \<Rightarrow> go_error + nat) \<Rightarrow> ('db \<Rightarrow> 'db \<times> go_error option) \<Rightarrow> 'db \<Rightarrow> 'db \<times> go_error option" where
  "init_row count ins db =
     (case count db of
        Inl err \<Rightarrow> (db, Some err)
      | Inr n \<Rightarrow> if n = 0 then ins db else (db, None))"

definition initRootDirectory :: "'db schema_ops \<Rightarrow> 'db \<Rightarrow> 'db \<times> go_error option" where
  "initRootDirectory so db = init_row (so_count_roots so) (so_insert_root so) db"

definition initSystemUser :: "'db schema_ops \<Rightarrow> 'db \<Rightarrow> 'db \<times> go_error option" where
  "initSystemUser so db = init_row (so_count_system so) (so_insert_system so) db"

definition step_or_fail :: "string \<Rightarrow> ('db \<Rightarrow> 'db \<times> go_error option) \<Rightarrow> 'db \<times> go_error option \<Rightarrow> 'db \<times> go_error option" where
  "step_or_fail msg f r =
     (case r of
        (db, Some err) \<Rightarrow> (db, Some err)
      | (db, None) \<Rightarrow> (case f db of (db, Some err) \<Rightarrow> (db, Some (Errorf_w msg err)) | (db, None) \<Rightarrow> (db, None)))"

definition Schema_Initialize :: "'db schema_ops \<Rightarrow> 'db \<Rightarrow> 'db \<times> go_error option" where
  "Schema_Initialize so db =
     step_or_fail ''initialisation of the system user failed'' (initSystemUser so)
      (step_or_fail ''initialisation of the root directory failed'' (initRootDirectory so)
        (step_or_fail ''creation of an index failed'' (run_statements (so_create_index so) createIndexStatements)
          (step_or_fail ''creation of a table failed'' (run_statements (so_create_table so) createTableStatements)
            (step_or_fail ''creation of the migration table failed'' (so_migration_table so) (db, None)))))"

section \<open>The stored structs\<close>

text \<open>Field names and \<^verbatim>\<open>db\<close> tags of \<^verbatim>\<open>core/models\<close>.\<close>

definition FileMetadata_fields :: "(string \<times> string) list" where
  "FileMetadata_fields =
     [(''FileID'', ''file_id''), (''DirID'', ''dir_id''), (''Name'', ''name''), (''Path'', ''path''), (''Size'', ''size''),
      (''Checksum'', ''checksum''), (''Owner'', ''owner''), (''Group'', ''group''), (''Mode'', ''mode''), (''MimeType'', ''mime_type''),
      (''Blocks'', ''blocks''), (''CreateTime'', ''create_time''), (''ModifyTime'', ''modify_time''), (''AccessTime'', ''access_time'')]"

definition DirectoryMetadata_fields :: "(string \<times> string) list" where
  "DirectoryMetadata_fields =
     [(''DirID'', ''dir_id''), (''ParentID'', ''parent_id''), (''Name'', ''name''), (''Path'', ''path''), (''Owner'', ''owner''),
      (''Group'', ''group''), (''Mode'', ''mode''), (''CreateTime'', ''create_time''), (''ModifyTime'', ''modify_time''),
      (''AccessTime'', ''access_time'')]"

definition ChunkMetadata_fields :: "(string \<times> string) list" where
  "ChunkMetadata_fields =
     [(''ChunkID'', ''chunk_id''), (''FileID'', ''file_id''), (''ChunkIndex'', ''chunk_index''), (''Size'', ''size''), (''Checksum'', ''checksum'')]"

definition ReplicaMetadata_fields :: "(string \<times> string) list" where
  "ReplicaMetadata_fields =
     [(''ReplicaID'', ''replica_id''), (''ChunkID'', ''chunk_id''), (''NodeID'', ''node_id''), (''Status'', ''status''), (''CreatedAt'', ''created_at'')]"

definition entity_of :: "(string \<times> string) list \<Rightarrow> 'v list \<Rightarrow> 'v entity" where
  "entity_of fs vs = EStruct (map (\<lambda>((n, t), v). (n, t, v)) (zip fs vs))"

definition columns_of :: "string \<Rightarrow> string list" where
  "columns_of table = (case find (\<lambda>(_, t, _). t = table) createTableStatements of None \<Rightarrow> [] | Some (_, _, cs) \<Rightarrow> cs)"

section \<open>Placeholders\<close>

definition qmarks :: "string \<Rightarrow> nat" where
  "qmarks s = count_list s (CHR ''?'')"

lemma qmarks_simps [simp]:
  "qmarks [] = 0"
  "qmarks (c # s) = (if c = CHR ''?'' then Suc (qmarks s) else qmarks s)"
  "qmarks (s @ t) = qmarks s + qmarks t"
  by (simp_all add: qmarks_def)

lemma qmarks_join: "qmarks sep = 0 \<Longrightarrow> qmarks (join_with sep xs) = sum_list (map qmarks xs)"
  by (induction sep xs rule: join_with.induct) simp_all

lemma digit_not_qmark: "d < 10 \<Longrightarrow> digit d \<noteq> CHR ''?''"
proof
  assume "d < 10" "digit d = CHR ''?''"
  then have "(of_char (CHR ''?'') :: nat) = 48 + d" using of_char_digit by metis
  with \<open>d < 10\<close> show False by simp
qed

lemma qmarks_dec [simp]: "qmarks (dec n) = 0"
proof (induction n rule: dec.induct)
  case (1 n)
  then show ?case by (subst dec.simps) (simp add: digit_not_qmark)
qed

lemma qmarks_dec_int [simp]: "qmarks (dec_int i) = 0"
  by (simp add: dec_int_def)

lemma qmarks_where_part: "qmarks (where_part qb) = sum_list (map qmarks (qb_where qb))"
  by (cases "qb_where qb") (simp_all add: where_part_def qmarks_join)

lemma insert_fields_lengths: "length (snd (insert_fields fs)) = length (fst (insert_fields fs))"
  by (induction fs) (auto simp: Let_def split: prod.splits)

lemma extract_lengths: "extractInsertValues e = Inr (cs, vs) \<Longrightarrow> length vs = length cs"
proof -
  assume "extractInsertValues e = Inr (cs, vs)"
  then obtain fs where "insert_fields fs = (cs, vs)"
    by (auto simp: extractInsertValues_def split: entity.splits option.splits)
  then show ?thesis using insert_fields_lengths [of fs] by simp
qed

lemma sum_qmarks_columns: "list_all (\<lambda>c. qmarks c = 0) cs \<Longrightarrow> sum_list (map qmarks cs) = 0"
  by (induction cs) auto

lemma sum_qmarks_set: "list_all (\<lambda>c. qmarks c = 0) cs \<Longrightarrow> sum_list (map (\<lambda>col. qmarks (col @ '' = ?'')) cs) = length cs"
  by (induction cs) auto

lemma qmarks_optional_where:
  "qmarks cond = length args \<Longrightarrow>
   qmarks (where_part (optional_where table cond args)) = length (qb_whereArgs (optional_where table cond args))"
  by (cases "cond = []") (simp_all add: qmarks_where_part optional_where_def Where_def NewQueryBuilder_def Let_def)

lemma optional_where_simps [simp]:
  "qb_table (optional_where table cond args) = table"
  "qb_columns (optional_where table cond args) = [''*'']"
  "qb_orderBy (optional_where table cond args) = []"
  "qb_limit (optional_where table cond args) = -1"
  "qb_offset (optional_where table cond args) = -1"
  by (simp_all add: optional_where_def NewQueryBuilder_def Where_def Let_def)

section \<open>Properties\<close>

definition balanced :: "'v statement \<Rightarrow> bool" where
  "balanced st \<longleftrightarrow> qmarks (fst st) = length (snd st)"

text \<open>
  Every statement of the repository has exactly as many placeholders as arguments, when the
  condition the caller gives has, and the names of the table and the columns contain none; values
  never get into the text. A deletion without a condition is refused.
\<close>

theorem statements_balanced:
  assumes "qmarks table = 0" "qmarks cond = length args"
    and "\<forall>cs vs. extractInsertValues e = Inr (cs, vs) \<longrightarrow> list_all (\<lambda>c. qmarks c = 0) cs"
  shows "balanced (Repository_FindByID table i) \<and> balanced (Repository_FindOne table cond args) \<and>
    balanced (Repository_FindAll table cond args) \<and> balanced (Repository_Count table cond args) \<and>
    (case Repository_Delete table cond args of Inl _ \<Rightarrow> cond = [] | Inr st \<Rightarrow> cond \<noteq> [] \<and> balanced st) \<and>
    (case Repository_Insert table e of Inl _ \<Rightarrow> isl (extractInsertValues e) | Inr st \<Rightarrow> balanced st) \<and>
    (case Repository_Update table e cond args of Inl _ \<Rightarrow> isl (extractInsertValues e) | Inr st \<Rightarrow> balanced st)"
proof (intro conjI)
  show "balanced (Repository_FindByID table i)"
    using assms(1) by (simp add: balanced_def Repository_FindByID_def BuildSelect_def NewQueryBuilder_def Where_def where_part_def Let_def)
  show "balanced (Repository_FindOne table cond args)"
    using assms(1,2) by (simp add: balanced_def Repository_FindOne_def BuildSelect_def NewQueryBuilder_def Where_def where_part_def Let_def)
  show "balanced (Repository_FindAll table cond args)" "balanced (Repository_Count table cond args)"
    using assms(1) qmarks_optional_where [OF assms(2), of table]
    by (simp_all add: balanced_def Repository_FindAll_def Repository_Count_def BuildSelect_def BuildCount_def Let_def)
  show "case Repository_Delete table cond args of Inl _ \<Rightarrow> cond = [] | Inr st \<Rightarrow> cond \<noteq> [] \<and> balanced st"
    using assms(1) qmarks_optional_where [OF assms(2), of table]
    by (simp add: balanced_def Repository_Delete_def BuildDelete_def)
  show "case Repository_Insert table e of Inl _ \<Rightarrow> isl (extractInsertValues e) | Inr st \<Rightarrow> balanced st"
  proof (cases "extractInsertValues e")
    case (Inr a)
    obtain cs vs where a: "a = (cs, vs)" by (cases a)
    have "sum_list (map qmarks (replicate n ''?'')) = n" for n by (induction n) auto
    with Inr a assms(1,3) show ?thesis
      by (simp add: Repository_Insert_def balanced_def qmarks_join sum_qmarks_columns extract_lengths)
  qed (simp add: Repository_Insert_def)
  show "case Repository_Update table e cond args of Inl _ \<Rightarrow> isl (extractInsertValues e) | Inr st \<Rightarrow> balanced st"
  proof (cases "extractInsertValues e")
    case (Inr a)
    obtain cs vs where a: "a = (cs, vs)" by (cases a)
    have "qmarks (join_with '', '' (map (\<lambda>col. col @ '' = ?'') cs)) = length cs"
      using sum_qmarks_set [OF assms(3) [rule_format, OF Inr [unfolded a]]] by (simp add: qmarks_join o_def)
    with Inr a assms(1,2) show ?thesis by (simp add: Repository_Update_def balanced_def extract_lengths Let_def)
  qed (simp add: Repository_Update_def)
qed

theorem statements_balanced_witness:
  "balanced (Repository_FindOne ''files'' ''parent_dir_id = ? AND name = ?'' [(7 :: int), 8]) \<and>
   (case Repository_Insert ''chunks'' (entity_of ChunkMetadata_fields [1, 2, 3, 4, 5 :: int]) of
      Inl _ \<Rightarrow> False
    | Inr st \<Rightarrow> st = (''INSERT INTO chunks (chunk_id, file_id, chunk_index, size, checksum) VALUES (?, ?, ?, ?, ?)'', [1, 2, 3, 4, 5]) \<and> balanced st)"
proof -
  let ?e = "entity_of ChunkMetadata_fields [1, 2, 3, 4, 5 :: int]"
  have x: "extractInsertValues ?e = Inr ([''chunk_id'', ''file_id'', ''chunk_index'', ''size'', ''checksum''], [1, 2, 3, 4, 5])"
    by code_simp
  have q: "qmarks ''files'' = 0" "qmarks ''chunks'' = 0" "qmarks ''parent_dir_id = ? AND name = ?'' = length [7 :: int, 8]" by simp_all
  have c: "\<forall>cs vs. extractInsertValues ?e = Inr (cs, vs) \<longrightarrow> list_all (\<lambda>c. qmarks c = 0) cs"
    using x by auto
  have "balanced (Repository_FindOne ''files'' ''parent_dir_id = ? AND name = ?'' [(7 :: int), 8])"
    using statements_balanced [of "''files''" _ _ ?e 0, OF q(1,3) c] by (elim conjE)
  moreover have "case Repository_Insert ''chunks'' ?e of Inl _ \<Rightarrow> isl (extractInsertValues ?e) | Inr st \<Rightarrow> balanced st"
    using statements_balanced [of "''chunks''" _ _ ?e 0, OF q(2,3) c] by (elim conjE)
  ultimately show ?thesis by (simp add: Repository_Insert_def x)
qed

text \<open>
  How a transaction ends: it is committed exactly when the callback returns without an error, has
  not ended it itself and the driver commits, and then and only then no error is returned; after an
  error it is rolled back. When the callback panics, \<open>WithTransaction\<close> rolls back and panics again,
  \<open>DoInTransaction\<close> leaves the transaction open.
\<close>

theorem db_transaction_outcome:
  assumes "callback SqlOpen = (st, out)" "st = SqlOpen"
  shows "(case out of
      Panic p \<Rightarrow>
        db_WithTransaction None cdrv (Inr SqlOpen) callback = (Some SqlRolledBack, Panic p) \<and>
        DoInTransaction None cdrv (Inr SqlOpen) callback = (Some SqlOpen, Panic p)
    | Return (Some e) \<Rightarrow>
        db_WithTransaction None cdrv (Inr SqlOpen) callback = (Some SqlRolledBack, Return (Some e)) \<and>
        DoInTransaction None cdrv (Inr SqlOpen) callback = (Some SqlRolledBack, Return (Some e))
    | Return None \<Rightarrow>
        (case cdrv of
           None \<Rightarrow> db_WithTransaction None cdrv (Inr SqlOpen) callback = (Some SqlCommitted, Return None) \<and>
             DoInTransaction None cdrv (Inr SqlOpen) callback = (Some SqlCommitted, Return None)
         | Some d \<Rightarrow> (\<exists>e. db_WithTransaction None cdrv (Inr SqlOpen) callback = (Some SqlBroken, Return (Some e))) \<and>
             DoInTransaction None cdrv (Inr SqlOpen) callback = (Some SqlBroken, Return (Some d))))"
  using assms
  by (auto simp: db_WithTransaction_def DoInTransaction_def sql_Commit_def sql_Rollback_def split: outcome.split option.split)

theorem db_transaction_outcome_witness:
  "DoInTransaction None None (Inr SqlOpen) (\<lambda>st. (st, Panic ''boom'')) = (Some SqlOpen, Panic ''boom'')"
  using db_transaction_outcome [of "\<lambda>st. (st, Panic ''boom'')" SqlOpen "Panic ''boom''" None] by simp

text \<open>What a run of migrations does to the table of versions: it only grows.\<close>

lemma apply_migration_cases:
  "apply_migration exec commit mi db = (db', e) \<Longrightarrow>
   (e = None \<and> md_applied db (mi_Version mi) = None \<and> md_applied db' = (md_applied db)(mi_Version mi \<mapsto> mi_Description mi) \<and>
      exec (mi_SQL mi) (md_data db) = Inr (md_data db')) \<or> (e \<noteq> None \<and> db' = db)"
  by (auto simp: apply_migration_def split: sum.splits if_splits option.splits)

text \<open>The reference: the migrations whose version is not known yet, executed in order.\<close>

fun exec_list :: "(string \<Rightarrow> 'd \<Rightarrow> go_error + 'd) \<Rightarrow> Migration list \<Rightarrow> 'd \<Rightarrow> 'd option" where
  "exec_list exec [] d = Some d"
| "exec_list exec (mi # mis) d = (case exec (mi_SQL mi) d of Inl _ \<Rightarrow> None | Inr d \<Rightarrow> exec_list exec mis d)"

fun record_versions :: "Migration list \<Rightarrow> (int \<rightharpoonup> string) \<Rightarrow> (int \<rightharpoonup> string)" where
  "record_versions [] m = m"
| "record_versions (mi # mis) m = record_versions mis (m(mi_Version mi \<mapsto> mi_Description mi))"

lemma record_versions_dom: "record_versions mis m v \<noteq> None \<longleftrightarrow> v \<in> mi_Version ` set mis \<or> m v \<noteq> None"
  by (induction mis arbitrary: m) (auto simp del: not_None_eq)

lemmas applied_defs = ApplyMigrations_def GetAppliedMigrations_def

lemma migrate_loop_prefix:
  assumes "migrate_loop exec commit applied mis db = (db', e)"
    and "\<forall>v. md_applied db v = None \<longrightarrow> applied v = None"
  shows "\<exists>done rest. filter (\<lambda>mi. applied (mi_Version mi) = None) mis = done @ rest \<and>
    distinct (map mi_Version done) \<and> (\<forall>mi \<in> set done. md_applied db (mi_Version mi) = None) \<and>
    exec_list exec done (md_data db) = Some (md_data db') \<and> md_applied db' = record_versions done (md_applied db) \<and>
    (e = None \<longleftrightarrow> rest = [])"
  using assms
proof (induction mis arbitrary: db)
  case Nil
  then show ?case by auto
next
  case (Cons mi mis)
  show ?case
  proof (cases "applied (mi_Version mi)")
    case (Some d)
    with Cons.prems Cons.IH [of db] show ?thesis by simp
  next
    case None
    obtain db1 e1 where s: "apply_migration exec commit mi db = (db1, e1)" by (cases "apply_migration exec commit mi db")
    show ?thesis
    proof (cases e1)
      case (Some err)
      with None s Cons.prems apply_migration_cases [OF s]
      have "e \<noteq> None" "db' = db" by auto
      with None show ?thesis
        by (intro exI [of _ "[]"] exI [of _ "filter (\<lambda>mi. applied (mi_Version mi) = None) (mi # mis)"]) auto
    next
      case None': None
      from apply_migration_cases [OF s] None' have a: "md_applied db (mi_Version mi) = None"
        "md_applied db1 = (md_applied db)(mi_Version mi \<mapsto> mi_Description mi)" "exec (mi_SQL mi) (md_data db) = Inr (md_data db1)"
        by auto
      have l: "migrate_loop exec commit applied mis db1 = (db', e)" using Cons.prems(1) None None' s by simp
      have "\<forall>v. md_applied db1 v = None \<longrightarrow> applied v = None" using Cons.prems(2) a(2) by auto
      from Cons.IH [OF l this] obtain ds rest where ds:
        "filter (\<lambda>mi. applied (mi_Version mi) = None) mis = ds @ rest" "distinct (map mi_Version ds)"
        "\<forall>mi \<in> set ds. md_applied db1 (mi_Version mi) = None" "exec_list exec ds (md_data db1) = Some (md_data db')"
        "md_applied db' = record_versions ds (md_applied db1)" "e = None \<longleftrightarrow> rest = []"
        by blast
      have "mi_Version mi \<notin> mi_Version ` set ds" using ds(3) a(2) by auto
      with None a ds show ?thesis
        by (intro exI [of _ "mi # ds"] exI [of _ rest]) (auto split: if_splits)
    qed
  qed
qed

text \<open>
  (C19) Migrations are applied once: after a run without an error, exactly the migrations whose versions
  were missing have been executed, in the order of the list, and recorded; running the list again
  changes nothing. A run that fails has executed and recorded exactly those before the failing one,
  and a version that occurs twice in the list is such a failure.
\<close>

theorem migrations_once:
  assumes "ApplyMigrations None None exec commit mis db = (db', e)"
  shows "\<exists>executed rest. filter (\<lambda>mi. md_applied db (mi_Version mi) = None) mis = executed @ rest \<and>
    distinct (map mi_Version executed) \<and>
    exec_list exec executed (md_data db) = Some (md_data db') \<and> md_applied db' = record_versions executed (md_applied db) \<and>
    (e = None \<longleftrightarrow> rest = []) \<and> (e = None \<longrightarrow> ApplyMigrations None None exec commit' mis db' = (db', None))"
proof -
  have loop: "migrate_loop exec commit (md_applied db) mis db = (db', e)" using assms by (simp add: applied_defs)
  from migrate_loop_prefix [OF loop] obtain ds rest where ds:
    "filter (\<lambda>mi. md_applied db (mi_Version mi) = None) mis = ds @ rest" "distinct (map mi_Version ds)"
    "exec_list exec ds (md_data db) = Some (md_data db')" "md_applied db' = record_versions ds (md_applied db)"
    "e = None \<longleftrightarrow> rest = []"
    by auto
  have "ApplyMigrations None None exec commit' mis db' = (db', None)" if "e = None"
  proof -
    have known: "md_applied db' (mi_Version mi) \<noteq> None" if "mi \<in> set mis" for mi
    proof (cases "md_applied db (mi_Version mi)")
      case None
      with that have "mi \<in> set (filter (\<lambda>mi. md_applied db (mi_Version mi) = None) mis)" by simp
      with ds(1,5) \<open>e = None\<close> have "mi \<in> set ds" by simp
      then show ?thesis unfolding ds(4) record_versions_dom by blast
    next
      case (Some d)
      then show ?thesis unfolding ds(4) record_versions_dom by simp
    qed
    have "migrate_loop exec commit' a ms d = (d, None)" if "\<forall>mi \<in> set ms. a (mi_Version mi) \<noteq> None" for a ms d
      using that by (induction ms) auto
    with known show ?thesis by (simp add: applied_defs)
  qed
  with ds show ?thesis by blast
qed

theorem migrations_once_witness:
  "let m1 = \<lparr>mi_Version = 1, mi_Description = ''a'', mi_SQL = ''x''\<rparr>; m2 = \<lparr>mi_Version = 2, mi_Description = ''b'', mi_SQL = ''y''\<rparr>;
       exec = (\<lambda>q d. Inr (d @ [q])); db = \<lparr>md_applied = [1 \<mapsto> ''a''], md_data = [''x'']\<rparr>
   in \<exists>db'. ApplyMigrations None None exec (\<lambda>_. None) [m1, m2] db = (db', None) \<and> md_data db' = [''x'', ''y''] \<and>
        ApplyMigrations None None exec (\<lambda>_. None) [m1, m2] db' = (db', None)"
proof -
  let ?m1 = "\<lparr>mi_Version = 1, mi_Description = ''a'', mi_SQL = ''x''\<rparr>"
  let ?m2 = "\<lparr>mi_Version = 2, mi_Description = ''b'', mi_SQL = ''y''\<rparr>"
  let ?exec = "\<lambda>q d. Inr (d @ [q])" and ?db = "\<lparr>md_applied = [1 \<mapsto> ''a''], md_data = [''x'']\<rparr>"
  obtain db' e where r: "ApplyMigrations None None ?exec (\<lambda>_. None) [?m1, ?m2] ?db = (db', e)" by (metis prod.exhaust)
  have "e = None" "md_data db' = [''x'', ''y'']"
    using r by (auto simp: applied_defs apply_migration_def)
  with migrations_once [OF r, of "\<lambda>_. None"] r show ?thesis by (auto simp: Let_def)
qed

text \<open>
  What the schema relies on: a table that was created is there and stays there, and creating it
  again without \<^verbatim>\<open>IF NOT EXISTS\<close> is an error.
\<close>

definition table_laws :: "'db schema_ops \<Rightarrow> (string \<Rightarrow> 'db \<Rightarrow> bool) \<Rightarrow> bool" where
  "table_laws so has \<longleftrightarrow>
     (\<forall>ine t cs db db'. so_create_table so (ine, t, cs) db = (db', None) \<longrightarrow> has t db') \<and>
     (\<forall>t cs db. has t db \<longrightarrow> snd (so_create_table so (False, t, cs) db) \<noteq> None) \<and>
     (\<forall>t st db. has t db \<longrightarrow> has t (fst (so_create_table so st db))) \<and>
     (\<forall>t st db. has t db \<longrightarrow> has t (fst (so_create_index so st db))) \<and>
     (\<forall>t db. has t db \<longrightarrow> has t (fst (so_migration_table so db)) \<and> has t (fst (so_insert_root so db)) \<and>
        has t (fst (so_insert_system so db)))"

lemma run_statements_keeps:
  "(\<And>st db. P db \<Longrightarrow> P (fst (ex st db))) \<Longrightarrow> P db \<Longrightarrow> P (fst (run_statements ex sts db))"
proof (induction sts arbitrary: db)
  case (Cons st sts)
  obtain d e where d: "ex st db = (d, e)" by (cases "ex st db")
  have "P d" using Cons.prems(1) [OF Cons.prems(2), of st] d by simp
  then show ?case using Cons.IH [OF Cons.prems(1), of d] by (simp add: d split: option.split)
qed simp

lemma run_statements_append:
  "run_statements ex (xs @ ys) db =
     (case run_statements ex xs db of (db, Some e) \<Rightarrow> (db, Some e) | (db, None) \<Rightarrow> run_statements ex ys db)"
  by (induction xs arbitrary: db) (auto split: prod.splits option.splits)

lemma step_or_fail_None:
  "step_or_fail msg f r = (db', None) \<longleftrightarrow> (\<exists>db. r = (db, None) \<and> f db = (db', None))"
  by (auto simp: step_or_fail_def split: prod.splits option.splits)

lemma createTable_split:
  "\<exists>cs xs ys. createTableStatements = xs @ (False, ''datanodes'', cs) # ys"
  unfolding createTableStatements_def
  by (intro exI [of _ "[''node_id'', ''address'', ''port'', ''status'', ''capacity_total'', ''capacity_used'', ''last_heartbeat'', ''rack_id'']"]
      exI [of _ "take 3 createTableStatements"] exI [of _ "drop 4 createTableStatements"])
    (simp add: createTableStatements_def)

lemma create_tables_outcome:
  assumes "table_laws so has" "run_statements (so_create_table so) createTableStatements db = (db', None)"
  shows "\<not> has ''datanodes'' db \<and> has ''datanodes'' db'"
proof -
  obtain cs xs ys where sp: "createTableStatements = xs @ (False, ''datanodes'', cs) # ys" using createTable_split by blast
  let ?c = "so_create_table so"
  have keeps: "has t d \<Longrightarrow> has t (fst (?c st d))" for t st d using assms(1) unfolding table_laws_def by blast
  obtain d1 d2 where d: "run_statements ?c xs db = (d1, None)" "?c (False, ''datanodes'', cs) d1 = (d2, None)"
    "run_statements ?c ys d2 = (db', None)"
    using assms(2) unfolding sp by (auto simp: run_statements_append split: prod.splits option.splits)
  have "has ''datanodes'' db'"
    using run_statements_keeps [of "has ''datanodes''" ?c d2 ys] keeps d(2,3) assms(1) unfolding table_laws_def
    by (metis fst_conv)
  moreover have "\<not> has ''datanodes'' db"
  proof
    assume "has ''datanodes'' db"
    then have "has ''datanodes'' d1" using run_statements_keeps [of "has ''datanodes''" ?c db xs] keeps d(1) by simp
    with assms(1) have "snd (?c (False, ''datanodes'', cs) d1) \<noteq> None" unfolding table_laws_def by blast
    with d(2) show False by simp
  qed
  ultimately show ?thesis by blast
qed

text \<open>
  A database can be initialised once: after a successful start the next one on the same database
  fails, because four of the tables are created without \<^verbatim>\<open>IF NOT EXISTS\<close>. So a metadata server whose
  database outlives it does not start a second time.
\<close>

theorem second_initialisation_fails:
  assumes "table_laws so has" "Schema_Initialize so db = (db1, None)"
  shows "snd (Schema_Initialize so db1) \<noteq> None"
proof
  assume "snd (Schema_Initialize so db1) = None"
  then obtain db2 where again: "Schema_Initialize so db1 = (db2, None)" by (metis prod.collapse)
  obtain a b c d where first: "run_statements (so_create_table so) createTableStatements a = (b, None)"
    "run_statements (so_create_index so) createIndexStatements b = (c, None)"
    "initRootDirectory so c = (d, None)" "initSystemUser so d = (db1, None)"
    using assms(2) by (auto simp: Schema_Initialize_def step_or_fail_None)
  obtain a2 b2 where second: "so_migration_table so db1 = (a2, None)"
    "run_statements (so_create_table so) createTableStatements a2 = (b2, None)"
    using again by (auto simp: Schema_Initialize_def step_or_fail_None)
  have "has ''datanodes'' b" using create_tables_outcome [OF assms(1) first(1)] by blast
  then have "has ''datanodes'' c"
    using run_statements_keeps [of "has ''datanodes''" "so_create_index so" b createIndexStatements] first(2) assms(1)
    unfolding table_laws_def by (metis fst_conv)
  then have "has ''datanodes'' d"
    using first(3) assms(1) unfolding table_laws_def initRootDirectory_def init_row_def
    by (auto split: sum.splits if_splits) (metis fst_conv)
  then have "has ''datanodes'' db1"
    using first(4) assms(1) unfolding table_laws_def initSystemUser_def init_row_def
    by (auto split: sum.splits if_splits) (metis fst_conv)
  then have "has ''datanodes'' a2" using second(1) assms(1) unfolding table_laws_def by (metis fst_conv)
  with create_tables_outcome [OF assms(1) second(2)] show False by blast
qed

definition demo_schema :: "string list schema_ops" where
  "demo_schema = \<lparr>so_migration_table = (\<lambda>db. (db, None)),
     so_create_table = (\<lambda>(ine, t, cs) db. if List.member db t then (db, if ine then None else Some (PlainErr ''table exists''))
       else (t # db, None)),
     so_create_index = (\<lambda>st db. (db, None)), so_count_roots = (\<lambda>db. Inr 1), so_insert_root = (\<lambda>db. (db, None)),
     so_count_system = (\<lambda>db. Inr 1), so_insert_system = (\<lambda>db. (db, None))\<rparr>"

lemma demo_schema_laws: "table_laws demo_schema (\<lambda>t db. t \<in> set db)"
  by (auto simp: table_laws_def demo_schema_def split: if_splits)

theorem second_initialisation_fails_witness:
  "\<exists>db1. Schema_Initialize demo_schema [] = (db1, None) \<and> snd (Schema_Initialize demo_schema db1) \<noteq> None"
proof -
  have "snd (Schema_Initialize demo_schema []) = None" by code_simp
  then obtain db1 where "Schema_Initialize demo_schema [] = (db1, None)" by (metis prod.collapse)
  with second_initialisation_fails [OF demo_schema_laws this] show ?thesis by blast
qed

text \<open>
  Which of the stored structs fit the tables. Chunks and replicas do: their tags are the columns, in
  order, so scanning and inserting is right. Files and directories do not: the struct and the table
  have different numbers of fields, so scanning a row is always an error, and inserting one names
  columns the table does not have. No table has a column \<^verbatim>\<open>id\<close>, by which the repository looks rows up,
  and no column is a field name, by which the scan of several rows looks fields up.
\<close>

theorem stored_structs_fit:
  "map snd ChunkMetadata_fields = columns_of ''chunks'' \<and> map snd ReplicaMetadata_fields = columns_of ''replicas'' \<and>
   length FileMetadata_fields \<noteq> length (columns_of ''files'') \<and>
   length DirectoryMetadata_fields \<noteq> length (columns_of ''directories'') \<and>
   \<not> set (map snd FileMetadata_fields) \<subseteq> set (columns_of ''files'') \<and>
   \<not> set (map snd DirectoryMetadata_fields) \<subseteq> set (columns_of ''directories'') \<and>
   list_all (\<lambda>(_, _, cs). \<not> List.member cs ''id'') createTableStatements \<and>
   (length vals = length (columns_of ''files'') \<longrightarrow>
      isl (scanStruct conv (Inr vals) (PtrStruct (map fst FileMetadata_fields)))) \<and>
   (length vals = length (columns_of ''directories'') \<longrightarrow>
      isl (scanStruct conv (Inr vals) (PtrStruct (map fst DirectoryMetadata_fields)))) \<and>
   (length row = length (columns_of ''files'') \<longrightarrow>
      isl (ScanRows conv (Inr (columns_of ''files'')) (row # rows) None (PtrSlice (map fst FileMetadata_fields))))"
proof -
  have l: "length FileMetadata_fields = 14" "length DirectoryMetadata_fields = 10" "length (columns_of ''files'') = 12"
    "length (columns_of ''directories'') = 8" by code_simp+
  have c: "map snd ChunkMetadata_fields = columns_of ''chunks''" "map snd ReplicaMetadata_fields = columns_of ''replicas''"
    "\<not> set (map snd FileMetadata_fields) \<subseteq> set (columns_of ''files'')"
    "\<not> set (map snd DirectoryMetadata_fields) \<subseteq> set (columns_of ''directories'')"
    "list_all (\<lambda>(_, _, cs). \<not> List.member cs ''id'') createTableStatements"
    by code_simp+
  obtain cs where cs: "columns_of ''files'' = ''file_id'' # cs" by (simp add: columns_of_def createTableStatements_def)
  have m: "\<not> List.member (map fst FileMetadata_fields) ''file_id''" by code_simp
  have "isl (ScanRows conv (Inr (columns_of ''files'')) (row # rows) None (PtrSlice (map fst FileMetadata_fields)))"
    if "length row = length (columns_of ''files'')"
    using that m by (cases row) (simp_all add: ScanRows_def cs)
  then show ?thesis using l c by (simp add: scanStruct_def)
qed

theorem stored_structs_fit_witness:
  "isl (scanStruct (\<lambda>v. Inr v) (Inr (replicate 8 (0 :: int))) (PtrStruct (map fst DirectoryMetadata_fields)))"
proof -
  have "length (replicate 8 (0 :: int)) = length (columns_of ''directories'')"
    by (simp add: columns_of_def createTableStatements_def)
  with stored_structs_fit [of "replicate 8 (0 :: int)"] show ?thesis by blast
qed

end
