(* ===== verification/Namespace.thy ===== *)
theory Namespace
  imports Database
begin

text \<open>
  The namespace manager, \<^verbatim>\<open>core/metadata/namespace/manager.go\<close>, over the interfaces of its two
  repositories, and the assembly of the core: \<^verbatim>\<open>core/metadata/manager.go\<close> and \<^verbatim>\<open>core/core.go\<close>.

  What a repository returns is a parameter. A value in a field of type \<^verbatim>\<open>interface{}\<close> keeps whether it is
  a struct or a pointer to one, because the code asks for the pointer, and a type assertion without
  a second result panics.

  The lemmas show that resolving a path ends, and what it can end with: only the root is ever
  resolved, every other path panics as soon as the root is found, and no directory is ever listed.
\<close>

section \<open>Data\<close>

record DirectoryMetadata =
  dm_DirID :: int
  dm_ParentID :: int
  dm_Name :: string
  dm_Path :: string
  dm_Owner :: string
  dm_Group :: string
  dm_Mode :: int
  dm_CreateTime :: gotime
  dm_ModifyTime :: gotime
  dm_AccessTime :: gotime

record FileMetadata =
  fm_FileID :: int
  fm_DirID :: int
  fm_Name :: string
  fm_Path :: string
  fm_Size :: int
  fm_Checksum :: string
  fm_Owner :: string
  fm_Group :: string
  fm_Mode :: int
  fm_MimeType :: string
  fm_Blocks :: int
  fm_CreateTime :: gotime
  fm_ModifyTime :: gotime
  fm_AccessTime :: gotime

text \<open>What is in the field \<^verbatim>\<open>Metadata\<close>: nothing, a directory by value or by pointer, a file by value.\<close>

datatype dyn_meta =
    NilMeta
  | DirValue DirectoryMetadata
  | DirPointer DirectoryMetadata
  | FileValue FileMetadata

record PathInfo =
  pi_Path :: string
  pi_DirID :: int
  pi_FileID :: int
  pi_IsFile :: bool
  pi_IsDir :: bool
  pi_Exists :: bool
  pi_ParentPath :: string
  pi_Name :: string
  pi_Metadata :: dyn_meta
  pi_ParentDir :: "DirectoryMetadata option"

text \<open>
  The queries of the manager on its repositories: a directory by its number, a file or directory by
  parent and name, the directories and files of a parent.
\<close>

record repositories =
  rp_dir_FindByID :: "int \<Rightarrow> go_error + DirectoryMetadata"
  rp_root_FindOne :: "go_error + int"
  rp_file_FindOne :: "int \<Rightarrow> string \<Rightarrow> go_error + FileMetadata"
  rp_dir_FindOne :: "int \<Rightarrow> string \<Rightarrow> go_error + DirectoryMetadata"
  rp_dir_FindAll :: "int \<Rightarrow> go_error + DirectoryMetadata list"
  rp_file_FindAll :: "int \<Rightarrow> go_error + FileMetadata list"

text \<open>The manager keeps the number of the root directory; nothing else is ever stored in its cache.\<close>

record ns_manager =
  nm_rootCache :: "int option"

definition Namespace_NewManager :: "bool \<Rightarrow> bool \<Rightarrow> go_error + ns_manager" where
  "Namespace_NewManager db_nil lockMgr_nil =
     (if db_nil then Inl (PlainErr ''database manager must not be nil'')
      else if lockMgr_nil then Inl (PlainErr ''lock manager must not be nil'')
      else Inr \<lparr>nm_rootCache = None\<rparr>)"

definition SetRootDirID :: "int \<Rightarrow> ns_manager \<Rightarrow> ns_manager" where
  "SetRootDirID rootID m = m\<lparr>nm_rootCache := Some rootID\<rparr>"

definition Namespace_Start :: "repositories \<Rightarrow> ns_manager \<Rightarrow> ns_manager \<times> go_error option" where
  "Namespace_Start rp m =
     (case rp_root_FindOne rp of
        Inl err \<Rightarrow> (m, Some (Errorf_w ''cannot find the root directory'' err))
      | Inr dirID \<Rightarrow> (m\<lparr>nm_rootCache := Some dirID\<rparr>, None))"

text \<open>
  The query for the root on the default repository: the statement, and the scan of its row into a
  struct with the single field \<^verbatim>\<open>DirID\<close>.
\<close>

definition root_statement :: "int statement" where
  "root_statement =
     Repository_FindOne ''directories'' (''parent_id IS NULL AND name='' @ [CHR 0x27, CHR ''/'', CHR 0x27]) []"

definition default_root_FindOne :: "('v \<Rightarrow> go_error + int) \<Rightarrow> go_error + 'v list \<Rightarrow> go_error + int" where
  "default_root_FindOne conv row =
     (case scanStruct conv row (PtrStruct [''DirID'']) of Inl err \<Rightarrow> Inl err | Inr fs \<Rightarrow> Inr (hd fs))"

definition Namespace_Stop :: "ns_manager \<Rightarrow> ns_manager \<times> go_error option" where
  "Namespace_Stop m = (m\<lparr>nm_rootCache := None\<rparr>, None)"

section \<open>Resolving a path\<close>

definition normalised :: "string \<Rightarrow> string" where
  "normalised path = Clean (''/'' @ TrimPrefix path ''/'')"

lemma normalised_abs_path:
  obtains xs where "names xs" "normalised path = abs_path xs"
proof -
  have "is_rooted (''/'' @ TrimPrefix path ''/'')" by simp
  then show thesis by (rule Clean_rooted) (use that in \<open>simp add: normalised_def\<close>)
qed

lemma normalised_id [simp]: "names xs \<Longrightarrow> normalised (abs_path xs) = abs_path xs"
proof -
  assume xs: "names xs"
  have "abs_path xs = slash # TrimPrefix (abs_path xs) ''/''"
    by (cases "abs_path xs") (use abs_path_rooted [of xs] in \<open>auto simp: TrimPrefix_def\<close>)
  then have "''/'' @ TrimPrefix (abs_path xs) ''/'' = abs_path xs" by simp
  with xs show ?thesis by (simp add: normalised_def)
qed

definition missing_path :: "string \<Rightarrow> string \<Rightarrow> string \<Rightarrow> DirectoryMetadata option \<Rightarrow> PathInfo" where
  "missing_path path parentPath name parentDir =
     \<lparr>pi_Path = path, pi_DirID = 0, pi_FileID = 0, pi_IsFile = False, pi_IsDir = False, pi_Exists = False, pi_ParentPath = parentPath,
      pi_Name = name, pi_Metadata = NilMeta, pi_ParentDir = parentDir\<rparr>"

text \<open>A type assertion to \<^verbatim>\<open>*models.DirectoryMetadata\<close> without a second result.\<close>

definition assert_dir_pointer :: "dyn_meta \<Rightarrow> DirectoryMetadata outcome" where
  "assert_dir_pointer x = (case x of DirPointer d \<Rightarrow> Return d | _ \<Rightarrow> Panic ''interface conversion'')"

function ResolvePath :: "repositories \<Rightarrow> ns_manager \<Rightarrow> string \<Rightarrow> (go_error + PathInfo) outcome" where
  "ResolvePath rp m path0 =
     (let path = normalised path0
      in if path = ''/'' then
           (case nm_rootCache m of
              None \<Rightarrow> Return (Inl (PlainErr ''root directory not initialised''))
            | Some rootID \<Rightarrow>
                (case rp_dir_FindByID rp rootID of
                   Inl err \<Rightarrow> Return (Inl (Errorf_w ''cannot get the root directory'' err))
                 | Inr rootDir \<Rightarrow>
                     Return (Inr \<lparr>pi_Path = ''/'', pi_DirID = 0, pi_FileID = 0, pi_IsFile = False, pi_IsDir = True, pi_Exists = True,
                       pi_ParentPath = ''/'', pi_Name = ''/'', pi_Metadata = DirValue rootDir, pi_ParentDir = None\<rparr>)))
         else
           let parentPath = Dir path; name = Base path
           in case ResolvePath rp m parentPath of
                Panic p \<Rightarrow> Panic p
              | Return (Inl err) \<Rightarrow> Return (Inl err)
              | Return (Inr parentInfo) \<Rightarrow>
                  (case assert_dir_pointer (pi_Metadata parentInfo) of
                     Panic p \<Rightarrow> Panic p
                   | Return parentDir \<Rightarrow>
                       if \<not> pi_Exists parentInfo \<or> \<not> pi_IsDir parentInfo
                       then Return (Inr (missing_path path parentPath name (Some parentDir)))
                       else
                         (case rp_file_FindOne rp (dm_DirID parentDir) name of
                            Inr file \<Rightarrow>
                              Return (Inr \<lparr>pi_Path = path, pi_DirID = 0, pi_FileID = 0, pi_IsFile = True, pi_IsDir = False, pi_Exists = True,
                                pi_ParentPath = parentPath, pi_Name = name, pi_Metadata = FileValue file,
                                pi_ParentDir = Some parentDir\<rparr>)
                          | Inl _ \<Rightarrow>
                              (case rp_dir_FindOne rp (dm_DirID parentDir) name of
                                 Inr dir \<Rightarrow>
                                   Return (Inr \<lparr>pi_Path = path, pi_DirID = 0, pi_FileID = 0, pi_IsFile = False, pi_IsDir = True, pi_Exists = True,
                                     pi_ParentPath = parentPath, pi_Name = name, pi_Metadata = DirValue dir,
                                     pi_ParentDir = Some parentDir\<rparr>)
                               | Inl _ \<Rightarrow>
                                   Return (Inr (missing_path path parentPath name (Some parentDir)))))))"
  by pat_completeness auto

lemma normalised_Dir:
  assumes "normalised path \<noteq> ''/''"
  shows "length (normalised (Dir (normalised path))) < length (normalised path)"
proof -
  obtain xs where xs: "names xs" "normalised path = abs_path xs" by (rule normalised_abs_path)
  with assms have "xs \<noteq> []" by auto
  then obtain ys y where ys: "xs = ys @ [y]" by (metis append_butlast_last_id)
  with xs show ?thesis using length_abs_path_snoc [of y ys] by simp
qed

termination ResolvePath
  by (relation "measure (\<lambda>(rp, m, path). length (normalised path))") (simp_all add: normalised_Dir)

declare ResolvePath.simps [simp del]

section \<open>Listing a directory\<close>

record listOptions =
  lo_SortBy :: string
  lo_SortOrder :: string

definition defaultListOptions :: listOptions where
  "defaultListOptions = \<lparr>lo_SortBy = ''name'', lo_SortOrder = ''asc''\<rparr>"

definition WithSort :: "string \<Rightarrow> string \<Rightarrow> listOptions \<Rightarrow> listOptions" where
  "WithSort field order opts =
     opts\<lparr>lo_SortBy := field, lo_SortOrder := (if order = ''desc'' then ''desc'' else ''asc'')\<rparr>"

text \<open>The clause is built and never used.\<close>

definition orderClause :: "listOptions \<Rightarrow> string" where
  "orderClause opts =
     (if lo_SortBy opts \<noteq> [] \<and> List.member [''name'', ''size'', ''created_at'', ''modified_at''] (lo_SortBy opts)
      then lo_SortBy opts @ (if lo_SortOrder opts = ''desc'' then '' DESC'' else '' ASC'')
      else [])"

definition child_dir :: "string \<Rightarrow> DirectoryMetadata \<Rightarrow> PathInfo" where
  "child_dir path dir =
     \<lparr>pi_Path = Join [path, dm_Name dir], pi_DirID = 0, pi_FileID = 0, pi_IsFile = False, pi_IsDir = True, pi_Exists = True, pi_ParentPath = path,
      pi_Name = dm_Name dir, pi_Metadata = DirValue dir, pi_ParentDir = None\<rparr>"

definition child_file :: "string \<Rightarrow> FileMetadata \<Rightarrow> PathInfo" where
  "child_file path file =
     \<lparr>pi_Path = Join [path, fm_Name file], pi_DirID = 0, pi_FileID = 0, pi_IsFile = True, pi_IsDir = False, pi_Exists = True, pi_ParentPath = path,
      pi_Name = fm_Name file, pi_Metadata = FileValue file, pi_ParentDir = None\<rparr>"

definition Namespace_ListDirectory ::
  "repositories \<Rightarrow> ns_manager \<Rightarrow> string \<Rightarrow> (listOptions \<Rightarrow> listOptions) list \<Rightarrow> (go_error + PathInfo list) outcome" where
  "Namespace_ListDirectory rp m path options =
     (let opts = foldl (\<lambda>o' opt. opt o') defaultListOptions options
      in case ResolvePath rp m path of
           Panic p \<Rightarrow> Panic p
         | Return (Inl err) \<Rightarrow> Return (Inl err)
         | Return (Inr pathInfo) \<Rightarrow>
             if \<not> pi_Exists pathInfo then Return (Inl (PlainErr (''directory does not exist: '' @ path)))
             else if \<not> pi_IsDir pathInfo then Return (Inl (PlainErr (''path is not a directory: '' @ path)))
             else case pi_Metadata pathInfo of
                    DirPointer dirMeta \<Rightarrow>
                      (case rp_dir_FindAll rp (dm_DirID dirMeta) of
                         Inl err \<Rightarrow> Return (Inl (Errorf_w ''cannot get the subdirectories'' err))
                       | Inr childDirs \<Rightarrow>
                           (case rp_file_FindAll rp (dm_DirID dirMeta) of
                              Inl err \<Rightarrow> Return (Inl (Errorf_w ''cannot get the files'' err))
                            | Inr childFiles \<Rightarrow>
                                Return (Inr (map (child_dir path) childDirs @ map (child_file path) childFiles))))
                  | _ \<Rightarrow> Return (Inl (PlainErr ''invalid directory metadata'')))"

section \<open>Properties\<close>

lemma resolved_is_value:
  "ResolvePath rp m path = Return (Inr info) \<Longrightarrow> pi_Path info = ''/'' \<and> (\<exists>d. pi_Metadata info = DirValue d)"
proof (induction rp m path arbitrary: info rule: ResolvePath.induct)
  case (1 rp m path0)
  show ?case
  proof (cases "normalised path0 = ''/''")
    case True
    with 1(2) show ?thesis
      by (subst (asm) ResolvePath.simps) (auto simp: Let_def split: option.splits sum.splits)
  next
    case False
    then have "pi_Path info' = ''/'' \<and> (\<exists>d. pi_Metadata info' = DirValue d)"
      if "ResolvePath rp m (Dir (normalised path0)) = Return (Inr info')" for info'
      using 1 that by auto
    with 1(2) False show ?thesis
      by (subst (asm) ResolvePath.simps)
        (auto simp: Let_def assert_dir_pointer_def split: outcome.splits sum.splits)
  qed
qed


definition demo_repos :: repositories where
  "demo_repos = \<lparr>rp_dir_FindByID = (\<lambda>i. Inr \<lparr>dm_DirID = i, dm_ParentID = 0, dm_Name = ''/'', dm_Path = ''/'', dm_Owner = [],
       dm_Group = [], dm_Mode = 755, dm_CreateTime = 1, dm_ModifyTime = 1, dm_AccessTime = 1\<rparr>),
     rp_root_FindOne = Inr 1, rp_file_FindOne = (\<lambda>_ _. Inl (PlainErr ''no rows'')), rp_dir_FindOne = (\<lambda>_ _. Inl (PlainErr ''no rows'')),
     rp_dir_FindAll = (\<lambda>_. Inr []), rp_file_FindAll = (\<lambda>_. Inr [])\<rparr>"


section \<open>The assembly of the core\<close>

text \<open>
  The parts that run. The lock and transaction managers only start goroutines; what the other parts
  answer are arguments.
\<close>

datatype part = PDatabase | PLock | PTransaction | PNamespace | PCluster

definition Metadata_Start :: "go_error option \<Rightarrow> part list \<times> go_error option" where
  "Metadata_Start ns_err =
     (case ns_err of
        Some err \<Rightarrow> ([PLock, PTransaction], Some (Errorf_w ''start of the namespace manager failed'' err))
      | None \<Rightarrow> ([PLock, PTransaction, PNamespace], None))"

definition Metadata_Stop :: "part list \<Rightarrow> part list \<times> go_error option" where
  "Metadata_Stop running = (filter (\<lambda>p. p \<noteq> PNamespace \<and> p \<noteq> PTransaction \<and> p \<noteq> PLock) running, None)"

definition NewMetaCore :: "NodeID \<Rightarrow> go_error option \<Rightarrow> go_error option" where
  "NewMetaCore nodeID cluster_err =
     (if nodeID = [] then Some (PlainErr ''node id must not be empty'') else cluster_err)"

definition MetaCore_Start :: "go_error option \<Rightarrow> go_error option \<Rightarrow> go_error option \<Rightarrow> part list \<times> go_error option" where
  "MetaCore_Start db_err ns_err cluster_err =
     (case db_err of
        Some err \<Rightarrow> ([], Some err)
      | None \<Rightarrow>
          (case Metadata_Start ns_err of
             (ps, Some err) \<Rightarrow> (PDatabase # ps, Some err)
           | (ps, None) \<Rightarrow>
               (case cluster_err of
                  Some err \<Rightarrow> (PDatabase # ps, Some err)
                | None \<Rightarrow> (PDatabase # ps @ [PCluster], None))))"

definition MetaCore_Stop :: "go_error option \<Rightarrow> part list \<Rightarrow> part list \<times> go_error option" where
  "MetaCore_Stop db_err running =
     (let running = filter (\<lambda>p. p \<noteq> PCluster) running; running = fst (Metadata_Stop running)
      in (filter (\<lambda>p. p \<noteq> PDatabase) running, db_err))"

text \<open>
  Starting the core either starts all its parts or returns an error; after an error the parts that
  were started before go on running until \<open>Stop\<close>, which ends every part and reports only the
  database's error.
\<close>

lemma MetaCore_start_stop:
  assumes "MetaCore_Start db_err ns_err cluster_err = (running, e)"
  shows "(e = None \<longleftrightarrow> running = [PDatabase, PLock, PTransaction, PNamespace, PCluster]) \<and>
    (db_err = None \<and> e \<noteq> None \<longrightarrow> {PDatabase, PLock, PTransaction} \<subseteq> set running) \<and>
    MetaCore_Stop stop_err running = ([], stop_err)"
  using assms
  by (auto simp: MetaCore_Start_def Metadata_Start_def MetaCore_Stop_def Metadata_Stop_def Let_def
      split: option.splits)

text \<open>
  On the default repositories the core never starts. The query for the root selects all columns of
  its table, and the struct it is scanned into has one field: whatever row comes back, or none, the
  namespace manager fails to start, and with it the core, with the database open and the lock and
  transaction managers running.
\<close>

theorem default_core_never_starts:
  assumes "case row of Inr vals \<Rightarrow> length vals = length (columns_of ''directories'') | Inl _ \<Rightarrow> True"
    "rp_root_FindOne rp = default_root_FindOne conv row"
  shows "\<exists>err. Namespace_Start rp m = (m, Some err) \<and>
    MetaCore_Start None (snd (Namespace_Start rp m)) cluster_err =
      ([PDatabase, PLock, PTransaction], Some (Errorf_w ''start of the namespace manager failed'' err))"
proof -
  have "length (columns_of ''directories'') = 8" by code_simp
  with assms(1) have "isl (default_root_FindOne conv row)"
    by (auto simp: default_root_FindOne_def scanStruct_def split: sum.splits)
  then obtain e where "rp_root_FindOne rp = Inl e" using assms(2) by (auto simp: isl_def)
  then show ?thesis by (auto simp: Namespace_Start_def MetaCore_Start_def Metadata_Start_def)
qed

theorem default_core_never_starts_witness:
  "let row = Inr (replicate 8 1); rp = demo_repos\<lparr>rp_root_FindOne := default_root_FindOne Inr row\<rparr>
   in fst root_statement = ''SELECT * FROM directories WHERE parent_id IS NULL AND name='' @ [CHR 0x27, CHR ''/'', CHR 0x27] \<and>
      (\<exists>err. snd (MetaCore_Start None (snd (Namespace_Start rp \<lparr>nm_rootCache = None\<rparr>)) None) = Some err)"
proof -
  let ?row = "Inr (replicate 8 1) :: go_error + int list"
  let ?rp = "demo_repos\<lparr>rp_root_FindOne := default_root_FindOne Inr ?row\<rparr>"
  have "length (columns_of ''directories'') = 8" by code_simp
  then have "case ?row of Inr vals \<Rightarrow> length vals = length (columns_of ''directories'') | Inl _ \<Rightarrow> True" by simp
  moreover have "rp_root_FindOne ?rp = default_root_FindOne Inr ?row" by simp
  ultimately have "\<exists>err. snd (MetaCore_Start None (snd (Namespace_Start ?rp \<lparr>nm_rootCache = None\<rparr>)) None) = Some err"
    using default_core_never_starts [of ?row ?rp Inr "\<lparr>nm_rootCache = None\<rparr>" None] by auto
  moreover have "fst root_statement = ''SELECT * FROM directories WHERE parent_id IS NULL AND name='' @ [CHR 0x27, CHR ''/'', CHR 0x27]"
    unfolding root_statement_def by code_simp
  ultimately show ?thesis by (simp add: Let_def)
qed

end
