(* ===== verification/HttpNet.thy ===== *)
theory HttpNet
  imports RateLimit
begin

text \<open>
  The HTTP package \<^verbatim>\<open>common/network/http\<close>: the client with its retries, the server with its options
  and routes, and the middleware; the metrics collector \<^verbatim>\<open>common/metrics\<close> with the middleware that
  feeds it, and the routes of the metadata server.

  What the network answers are arguments, one per attempt. A handler is a function of the request
  that returns a response or panics.

  The lemmas bound the attempts and the waiting time of the client, show where its backoff wraps
  around, that no panic escapes the recovery middleware, how routes get their prefixes, and that the
  collector keeps exactly the latest records.
\<close>

section \<open>The client\<close>

record RetryPolicy =
  rt_MaxRetries :: int
  rt_RetryInterval :: duration
  rt_MaxBackoff :: duration

definition default_policy :: RetryPolicy where
  "default_policy = \<lparr>rt_MaxRetries = 3, rt_RetryInterval = 500 * Millisecond, rt_MaxBackoff = 5 * Second\<rparr>"

definition WithRetryPolicy :: "int \<Rightarrow> duration \<Rightarrow> RetryPolicy \<Rightarrow> RetryPolicy" where
  "WithRetryPolicy maxRetries retryInterval p = p\<lparr>rt_MaxRetries := maxRetries, rt_RetryInterval := retryInterval\<rparr>"

text \<open>The result of one attempt: an error of the connection, or a status with a body.\<close>

datatype do_result = DoError go_error | DoResponse nat string

definition ShouldRetry :: "do_result \<Rightarrow> bool" where
  "ShouldRetry r = (case r of DoError _ \<Rightarrow> True | DoResponse status _ \<Rightarrow> status \<ge> 500)"

text \<open>Arithmetic of \<^verbatim>\<open>int64\<close>.\<close>

definition wrap64 :: "int \<Rightarrow> int" where
  "wrap64 n = (n + 2 ^ 63) mod 2 ^ 64 - 2 ^ 63"

text \<open>The wait before the retry of that number, from 1; a wait that is not positive ends at once.\<close>

definition backoffTime :: "RetryPolicy \<Rightarrow> nat \<Rightarrow> duration" where
  "backoffTime p retryCount =
     (let t = wrap64 (rt_RetryInterval p * wrap64 (2 ^ (retryCount - 1)))
      in if t > rt_MaxBackoff p then rt_MaxBackoff p else t)"

text \<open>
  The loop from \<open>retryCount\<close> on, with the number of turns that are left; \<open>send\<close> is the answer to each
  attempt and \<open>getBody\<close> an error of making the body again. The result is the answers received, the
  waits, and the response or error.
\<close>

fun retry_loop ::
  "RetryPolicy \<Rightarrow> (nat \<Rightarrow> do_result) \<Rightarrow> (nat \<Rightarrow> go_error option) \<Rightarrow> nat \<Rightarrow> nat \<Rightarrow>
   do_result list \<times> duration list \<times> (go_error + (nat \<times> string) option)" where
  "retry_loop p send getBody retryCount 0 = ([], [], Inr None)"
| "retry_loop p send getBody retryCount (Suc left) =
     (let waits = (if retryCount > 0 then [backoffTime p retryCount] else [])
      in if retryCount > 0 \<and> getBody retryCount \<noteq> None then ([], waits, Inl (the (getBody retryCount)))
         else
           let r = send retryCount
           in if \<not> ShouldRetry r
              then ([r], waits, case r of DoError e \<Rightarrow> Inl e | DoResponse st body \<Rightarrow> Inr (Some (st, body)))
              else if left = 0
              then ([r], waits, Inl (case r of
                      DoResponse st body \<Rightarrow> PlainErr (''retries exhausted: HTTP '' @ dec st @ '': '' @ body)
                    | DoError e \<Rightarrow> Errorf_w ''retries exhausted'' e))
              else case retry_loop p send getBody (Suc retryCount) left of
                     (rs, ws, res) \<Rightarrow> (r # rs, waits @ ws, res))"

definition doWithRetry ::
  "RetryPolicy \<Rightarrow> (nat \<Rightarrow> do_result) \<Rightarrow> (nat \<Rightarrow> go_error option) \<Rightarrow>
   do_result list \<times> duration list \<times> (go_error + (nat \<times> string) option)" where
  "doWithRetry p send getBody = retry_loop p send getBody 0 (nat (rt_MaxRetries p + 1))"

text \<open>
  \<open>marshal\<close> is an error of encoding the body and \<open>newRequest\<close> one of making the request (a malformed
  URL); \<open>decode\<close> is the decoding of the answer, None when the caller wants none. A nil response is
  dereferenced.
\<close>

definition client_request ::
  "RetryPolicy \<Rightarrow> go_error option \<Rightarrow> go_error option \<Rightarrow> (nat \<Rightarrow> do_result) \<Rightarrow> (nat \<Rightarrow> go_error option) \<Rightarrow>
   go_error + (nat \<times> string) option" where
  "client_request p marshal newRequest send getBody =
     (case marshal of
        Some err \<Rightarrow> Inl (Errorf_w ''cannot encode the request body'' err)
      | None \<Rightarrow>
          (case newRequest of
             Some err \<Rightarrow> Inl err
           | None \<Rightarrow> snd (snd (doWithRetry p send getBody))))"

definition DoJSON ::
  "RetryPolicy \<Rightarrow> go_error option \<Rightarrow> go_error option \<Rightarrow> (nat \<Rightarrow> do_result) \<Rightarrow> (nat \<Rightarrow> go_error option) \<Rightarrow>
   (string \<Rightarrow> go_error option) option \<Rightarrow> go_error option outcome" where
  "DoJSON p marshal newRequest send getBody decode =
     (case client_request p marshal newRequest send getBody of
        Inl err \<Rightarrow> Return (Some err)
      | Inr None \<Rightarrow> Panic ''nil pointer dereference''
      | Inr (Some (status, body)) \<Rightarrow>
          if status \<ge> 400 then Return (Some (PlainErr (''HTTP request failed: '' @ dec status @ '' '' @ body)))
          else case decode of
                 None \<Rightarrow> Return None
               | Some d \<Rightarrow>
                   (case d body of
                      Some err \<Rightarrow> Return (Some (Errorf_w ''cannot decode the response'' err))
                    | None \<Rightarrow> Return None))"

section \<open>The server\<close>

record http_server =
  hs_addr :: string
  hs_actualAddr :: string
  hs_readTimeout :: duration
  hs_writeTimeout :: duration
  hs_idleTimeout :: duration
  hs_routes :: "(string \<times> string) list"
  hs_middlewares :: "string list"
  hs_server :: bool

text \<open>
  A route is its method and path, a middleware its name; \<open>hs_server\<close> says that the field \<^verbatim>\<open>server\<close> is not
  nil.
\<close>

definition NewServer :: "string \<Rightarrow> (http_server \<Rightarrow> http_server) list \<Rightarrow> http_server" where
  "NewServer addr options =
     foldl (\<lambda>s option. option s)
       \<lparr>hs_addr = addr, hs_actualAddr = [], hs_readTimeout = 30 * Second, hs_writeTimeout = 30 * Second,
        hs_idleTimeout = 60 * Second, hs_routes = [], hs_middlewares = [], hs_server = False\<rparr> options"

definition Use :: "string \<Rightarrow> http_server \<Rightarrow> http_server" where
  "Use middleware s = s\<lparr>hs_middlewares := hs_middlewares s @ [middleware]\<rparr>"

definition WithServerTimeout :: "duration \<Rightarrow> duration \<Rightarrow> duration \<Rightarrow> http_server \<Rightarrow> http_server" where
  "WithServerTimeout read write idle s =
     (let s = (if read > 0 then s\<lparr>hs_readTimeout := read\<rparr> else s);
          s = (if write > 0 then s\<lparr>hs_writeTimeout := write\<rparr> else s)
      in if idle > 0 then s\<lparr>hs_idleTimeout := idle\<rparr> else s)"

definition WithMiddleware :: "string list \<Rightarrow> http_server \<Rightarrow> http_server" where
  "WithMiddleware middleware s = foldl (\<lambda>s m. Use m s) s middleware"

definition register_route :: "string \<Rightarrow> string \<Rightarrow> http_server \<Rightarrow> http_server" where
  "register_route method path s = s\<lparr>hs_routes := hs_routes s @ [(method, path)]\<rparr>"

text \<open>A route group is its prefix; the server is shared.\<close>

definition Server_Group :: "string \<Rightarrow> string" where
  "Server_Group pre = pre"

definition group_Group :: "string \<Rightarrow> string \<Rightarrow> string" where
  "group_Group g pre = g @ pre"

definition group_route :: "string \<Rightarrow> string \<Rightarrow> string \<Rightarrow> http_server \<Rightarrow> http_server" where
  "group_route g method path s = register_route method (g @ path) s"

definition http_Start :: "go_error + string \<Rightarrow> http_server \<Rightarrow> http_server \<times> go_error option" where
  "http_Start listen s =
     (case listen of
        Inl err \<Rightarrow> (s, Some err)
      | Inr addr \<Rightarrow> (s\<lparr>hs_actualAddr := addr, hs_server := True\<rparr>, None))"

definition http_Stop :: "go_error option \<Rightarrow> http_server \<Rightarrow> http_server \<times> go_error option" where
  "http_Stop shutdown s = (if hs_server s then (s, shutdown) else (s, None))"

definition GetAddr :: "http_server \<Rightarrow> string" where
  "GetAddr s = (if hs_actualAddr s \<noteq> [] then hs_actualAddr s else hs_addr s)"

section \<open>Middleware\<close>

type_synonym 's http_handler = "'s \<Rightarrow> request \<Rightarrow> ('s \<times> http_response outcome)"

text \<open>A handler answers at its end, so one that panics has written nothing yet.\<close>

definition RecoveryMiddleware :: "'s http_handler \<Rightarrow> 's http_handler" where
  "RecoveryMiddleware next_h s r =
     (case next_h s r of
        (s, Panic p) \<Rightarrow> (s, Return (nethttp_RespondError 500 ''internal server error''))
      | (s, Return h) \<Rightarrow> (s, Return h))"

definition RequestIDMiddleware :: "string \<Rightarrow> 's http_handler \<Rightarrow> 's http_handler" where
  "RequestIDMiddleware requestID next_h s r = next_h s (r\<lparr>rq_id := requestID\<rparr>)"

text \<open>The value of \<^verbatim>\<open>Access-Control-Allow-Origin\<close>, empty when it is not set.\<close>

fun cors_loop :: "string \<Rightarrow> string list \<Rightarrow> string option" where
  "cors_loop origin [] = None"
| "cors_loop origin (allowed # rest) =
     (if allowed = ''*'' then Some (if origin \<noteq> [] then origin else ''*'')
      else if origin = allowed then Some origin
      else cors_loop origin rest)"

definition allow_origin :: "string list \<Rightarrow> string \<Rightarrow> string" where
  "allow_origin allowedOrigins origin =
     (case cors_loop origin allowedOrigins of
        Some v \<Rightarrow> v
      | None \<Rightarrow> if length allowedOrigins > 0 \<and> origin \<noteq> [] then hd allowedOrigins else [])"

text \<open>\<open>Inl\<close> is the answer to a preflight request, \<open>Inr\<close> that the request goes on; both with the header.\<close>

definition CORSMiddleware :: "string list \<Rightarrow> string \<Rightarrow> string \<Rightarrow> string \<times> (nat + unit)" where
  "CORSMiddleware allowedOrigins method origin =
     (allow_origin allowedOrigins origin, if method = ''OPTIONS'' then Inl 200 else Inr ())"

definition basic_AuthMiddleware :: "(string \<Rightarrow> string \<Rightarrow> bool) \<Rightarrow> (string \<times> string) option \<Rightarrow> 's http_handler \<Rightarrow> 's http_handler" where
  "basic_AuthMiddleware authFunc creds next_h s r =
     (case creds of
        Some (username, password) \<Rightarrow>
          if \<not> authFunc username password then (s, Return (nethttp_RespondError 401 ''authentication failed'')) else next_h s r
      | None \<Rightarrow> (s, Return (nethttp_RespondError 401 ''authentication failed'')))"

section \<open>Metrics\<close>

record HTTPMetric =
  ht_Method :: string
  ht_Path :: string
  ht_StatusCode :: nat
  ht_Duration :: int
  ht_Timestamp :: gotime

record SystemMetric =
  sm_CPUUsage :: real
  sm_MemoryUsage :: real
  sm_DiskUsage :: real
  sm_Timestamp :: gotime

record SimpleCollector =
  sc_httpMetrics :: "HTTPMetric list"
  sc_systemMetrics :: "SystemMetric list"
  sc_maxItems :: nat

definition NewCollector :: SimpleCollector where
  "NewCollector = \<lparr>sc_httpMetrics = [], sc_systemMetrics = [], sc_maxItems = 1000\<rparr>"

definition RecordHTTPRequest :: "HTTPMetric \<Rightarrow> SimpleCollector \<Rightarrow> SimpleCollector" where
  "RecordHTTPRequest x c =
     (let ms = (if length (sc_httpMetrics c) \<ge> sc_maxItems c then tl (sc_httpMetrics c) else sc_httpMetrics c)
      in c\<lparr>sc_httpMetrics := ms @ [x]\<rparr>)"

definition RecordSystemMetrics :: "SystemMetric \<Rightarrow> SimpleCollector \<Rightarrow> SimpleCollector" where
  "RecordSystemMetrics x c =
     (let ms = (if length (sc_systemMetrics c) \<ge> sc_maxItems c div 10 then tl (sc_systemMetrics c) else sc_systemMetrics c)
      in c\<lparr>sc_systemMetrics := ms @ [x]\<rparr>)"

definition GetHTTPMetrics :: "SimpleCollector \<Rightarrow> HTTPMetric list" where
  "GetHTTPMetrics c = sc_httpMetrics c"

definition GetSystemMetrics :: "SimpleCollector \<Rightarrow> SystemMetric list" where
  "GetSystemMetrics c = sc_systemMetrics c"

definition Collector_Reset :: "SimpleCollector \<Rightarrow> SimpleCollector" where
  "Collector_Reset c = c\<lparr>sc_httpMetrics := [], sc_systemMetrics := []\<rparr>"

text \<open>The metrics middleware records a request only when the handler returns.\<close>

definition Metrics_middleware ::
  "string \<Rightarrow> string \<Rightarrow> gotime \<Rightarrow> gotime \<Rightarrow> gotime \<Rightarrow> 's http_handler \<Rightarrow> (SimpleCollector \<times> 's) http_handler" where
  "Metrics_middleware method path start finish now next_h cs r =
     (case next_h (snd cs) r of
        (s, Panic p) \<Rightarrow> ((fst cs, s), Panic p)
      | (s, Return h) \<Rightarrow>
          ((RecordHTTPRequest \<lparr>ht_Method = method, ht_Path = path, ht_StatusCode = fst h,
              ht_Duration = go_div (finish - start) Millisecond, ht_Timestamp = now\<rparr> (fst cs), s), Return h))"

section \<open>Routes of the metadata server\<close>

text \<open>The routes of the four groups of handlers, below a prefix.\<close>

definition api_routes :: "(string \<times> string) list" where
  "api_routes =
     [(''GET'', ''/files/{path:.*}''), (''POST'', ''/files/{path:.*}''), (''PUT'', ''/files/{path:.*}''), (''DELETE'', ''/files/{path:.*}''),
      (''GET'', ''/dirs/{path:.*}''), (''POST'', ''/dirs/{path:.*}''), (''DELETE'', ''/dirs/{path:.*}''),
      (''GET'', ''/nodes''), (''GET'', ''/nodes/{id}''), (''GET'', ''/leader''), (''POST'', ''/rebalance''), (''GET'', ''/rebalance/status''),
      (''GET'', ''/health''), (''GET'', ''/status'')]"

text \<open>
  The group gets no middleware here: the two calls of \<^verbatim>\<open>apiRouter.Use\<close> name a method that the interface
  \<^verbatim>\<open>RouteGroup\<close> does not have, so the source does not compile there.
\<close>

definition setupRoutes :: "http_server \<Rightarrow> http_server" where
  "setupRoutes s =
     (let s = WithMiddleware [''RequestID'', ''Logging'', ''Recovery'', ''Metrics'', ''RateLimit''] s;
          g = Server_Group ''/api/v1'';
          s = foldl (\<lambda>s (method, path). group_route g method path s) s api_routes
      in register_route ''GET'' ''/health'' s)"

text \<open>The HTTP part of \<^verbatim>\<open>NewServer\<close>.\<close>

definition metaserver_http :: "string \<Rightarrow> int \<Rightarrow> http_server" where
  "metaserver_http host port =
     setupRoutes (WithMiddleware [''RequestID'', ''Logging'', ''Recovery''] (NewServer (host @ '':'' @ dec_int port) []))"

section \<open>Properties\<close>

lemma wrap64_id: "- (2 ^ 63) \<le> n \<Longrightarrow> n < 2 ^ 63 \<Longrightarrow> wrap64 n = n"
  by (simp add: wrap64_def)

lemma wrap64_cong: "wrap64 n mod 2 ^ 64 = n mod 2 ^ 64"
proof -
  have "wrap64 n mod 2 ^ 64 = ((n + 2 ^ 63) mod 2 ^ 64 - 2 ^ 63) mod 2 ^ 64" by (simp only: wrap64_def)
  also have "\<dots> = (n + 2 ^ 63 - 2 ^ 63) mod 2 ^ 64" by (rule mod_diff_left_eq)
  finally show ?thesis by simp
qed

lemma wrap64_0: "2 ^ 64 dvd n \<Longrightarrow> wrap64 n = 0"
proof -
  assume "2 ^ 64 dvd n"
  then obtain k where "n = 2 ^ 64 * k" ..
  then have "(n + 2 ^ 63) mod 2 ^ 64 = (2 ^ 63) mod 2 ^ 64" by (simp only: mod_mult_self4)
  then show ?thesis by (simp add: wrap64_def)
qed

lemma backoff_le_max: "backoffTime p n \<le> rt_MaxBackoff p"
  by (simp add: backoffTime_def Let_def)

text \<open>The wait doubles up to the maximum as long as nothing wraps around.\<close>

lemma backoff_doubles:
  assumes "0 < n" "0 \<le> rt_RetryInterval p" "rt_RetryInterval p * 2 ^ (n - 1) < 2 ^ 63" "n \<le> 63"
  shows "backoffTime p n = min (rt_RetryInterval p * 2 ^ (n - 1)) (rt_MaxBackoff p)"
proof -
  have "(2 :: int) ^ (n - 1) < 2 ^ 63" using assms(4) by (intro power_strict_increasing) auto
  then have "wrap64 (2 ^ (n - 1)) = 2 ^ (n - 1)"
    by (intro wrap64_id) (simp_all add: order_trans [OF _ zero_le_power])
  moreover have "0 \<le> rt_RetryInterval p * 2 ^ (n - 1)" using assms(2) by simp
  ultimately have "wrap64 (rt_RetryInterval p * wrap64 (2 ^ (n - 1))) = rt_RetryInterval p * 2 ^ (n - 1)"
    using assms(3) wrap64_id [of "rt_RetryInterval p * 2 ^ (n - 1)"] by simp
  then show ?thesis by (simp add: backoffTime_def min_def)
qed

text \<open>The loop stops at the first answer that need not be retried and gives up after the last one.\<close>

lemma retry_loop_spec:
  assumes "retry_loop p send (\<lambda>_. None) c k = (rs, ws, res)" "0 < k"
  shows "rs = map send [c..<c + length rs] \<and> 0 < length rs \<and> length rs \<le> k \<and>
    ws = map (backoffTime p) (filter (\<lambda>n. 0 < n) [c..<c + length rs]) \<and>
    list_all ShouldRetry (butlast rs) \<and>
    (if ShouldRetry (last rs) then length rs = k \<and> isl res
     else \<exists>st body. last rs = DoResponse st body \<and> res = Inr (Some (st, body)))"
  using assms
proof (induction k arbitrary: c rs ws res)
  case (Suc k)
  show ?case
  proof (cases "\<not> ShouldRetry (send c) \<or> k = 0")
    case True
    then show ?thesis
      using Suc.prems by (cases "send c") (auto simp: Let_def ShouldRetry_def split: if_splits)
  next
    case False
    obtain rs1 ws1 res1 where r: "retry_loop p send (\<lambda>_. None) (Suc c) k = (rs1, ws1, res1)"
      by (metis prod.exhaust)
    then have eq: "rs = send c # rs1" "ws = (if c > 0 then [backoffTime p c] else []) @ ws1" "res = res1"
      using Suc.prems False by (auto simp: Let_def split: if_splits)
    have "0 < k" using False by simp
    note IH = Suc.IH [OF r this]
    have up: "[c..<c + length rs] = c # [Suc c..<Suc c + length rs1]" by (simp add: eq(1) upt_conv_Cons del: upt_Suc)
    show ?thesis unfolding up using IH False by (auto simp: eq)
  qed
qed simp

text \<open>
  (C26) The client's retries: with a policy of \<open>n\<close> retries it sends a request at least once and at most
  \<open>n + 1\<close> times, it stops at the first answer below 500 and returns that one, it returns an error
  exactly when all \<open>n + 1\<close> attempts failed or were answered with 500 or more, and it waits once before
  each retry, at most the maximum of the policy.
\<close>

theorem doWithRetry_outcome:
  assumes "0 \<le> rt_MaxRetries p" "doWithRetry p send (\<lambda>_. None) = (rs, ws, res)"
  shows "rs = map send [0..<length rs] \<and> 0 < length rs \<and> int (length rs) \<le> rt_MaxRetries p + 1 \<and>
    list_all ShouldRetry (butlast rs) \<and>
    (if ShouldRetry (last rs) then int (length rs) = rt_MaxRetries p + 1 \<and> isl res
     else \<exists>st body. last rs = DoResponse st body \<and> st < 500 \<and> res = Inr (Some (st, body))) \<and>
    ws = map (backoffTime p) [1..<length rs] \<and> list_all (\<lambda>w. w \<le> rt_MaxBackoff p) ws"
proof -
  have k: "0 < nat (rt_MaxRetries p + 1)" using assms(1) by simp
  note spec = retry_loop_spec [OF assms(2) [unfolded doWithRetry_def] k]
  have "filter (\<lambda>n. 0 < n) [0..<length rs] = [1..<length rs]" for rs :: "do_result list"
    by (cases "length rs") (simp_all add: upt_conv_Cons filter_id_conv)
  with spec assms(1) show ?thesis
    by (auto simp: ShouldRetry_def list_all_iff backoff_le_max split: if_splits)
qed

theorem doWithRetry_outcome_witness:
  "let send = (\<lambda>n. if n < 2 then DoResponse 503 ''busy'' else DoResponse 200 ''ok'')
   in doWithRetry default_policy send (\<lambda>_. None) =
        ([DoResponse 503 ''busy'', DoResponse 503 ''busy'', DoResponse 200 ''ok''],
         [500 * Millisecond, 1000 * Millisecond], Inr (Some (200, ''ok'')))"
proof -
  let ?send = "\<lambda>n :: nat. if n < 2 then DoResponse 503 ''busy'' else DoResponse 200 ''ok''"
  obtain rs ws res where r: "doWithRetry default_policy ?send (\<lambda>_. None) = (rs, ws, res)" by (metis prod.exhaust)
  have "0 \<le> rt_MaxRetries default_policy" by (simp add: default_policy_def)
  note out = doWithRetry_outcome [OF this r]
  have "nat (rt_MaxRetries default_policy + 1) = Suc (Suc (Suc (Suc 0)))" by (simp add: default_policy_def)
  with r have rs: "rs = [DoResponse 503 ''busy'', DoResponse 503 ''busy'', DoResponse 200 ''ok'']"
    by (simp add: doWithRetry_def ShouldRetry_def Let_def)
  have "backoffTime default_policy 1 = 500 * Millisecond" "backoffTime default_policy 2 = 1000 * Millisecond"
    by (simp_all add: backoffTime_def default_policy_def wrap64_def durations)
  with out rs have "ws = [500 * Millisecond, 1000 * Millisecond]" "res = Inr (Some (200, ''ok''))"
    by (simp_all add: ShouldRetry_def upt_rec numeral_2_eq_2)
  with r rs show ?thesis by (simp add: Let_def)
qed

text \<open>
  Where the backoff breaks: with the interval of the client and more than 56 retries the product
  wraps around to 0, so the client no longer waits; and with a negative number of retries it sends
  nothing and dereferences a nil response.
\<close>

lemma backoff_wraps_to_zero:
  assumes "57 \<le> n"
  shows "backoffTime (default_policy\<lparr>rt_MaxRetries := k\<rparr>) n = 0"
proof -
  define j where "j = n - 57"
  have j: "n - 1 = 56 + j" using assms by (simp add: j_def)
  have "(2 ^ 8 * 1953125 * wrap64 (2 ^ (56 + j))) mod 2 ^ 64 = (2 ^ 8 * 1953125 * 2 ^ (56 + j)) mod (2 ^ 64 :: int)"
    by (metis wrap64_cong mod_mult_right_eq)
  also have "\<dots> = 2 ^ 64 * (1953125 * 2 ^ j) mod 2 ^ 64" by (simp add: power_add)
  finally have "2 ^ 64 dvd 2 ^ 8 * 1953125 * wrap64 (2 ^ (56 + j))"
    by (simp only: dvd_eq_mod_eq_0 mod_mult_self1_is_0)
  from wrap64_0 [OF this] have "wrap64 (500000000 * wrap64 (2 ^ (n - 1))) = 0" unfolding j by simp
  then show ?thesis by (simp add: backoffTime_def default_policy_def durations)
qed

lemma negative_retries_panic:
  "rt_MaxRetries p < 0 \<Longrightarrow> DoJSON p None None send getBody d = Panic ''nil pointer dereference''"
  by (simp add: DoJSON_def client_request_def doWithRetry_def)

section \<open>The middleware, the collector and the routes\<close>

text \<open>No panic of a handler escapes the recovery middleware, whatever stands between them.\<close>

lemma Recovery_never_panics: "\<exists>s' h. RecoveryMiddleware next_h s r = (s', Return h)"
  by (auto simp: RecoveryMiddleware_def split: prod.split outcome.split)

text \<open>A list that drops its oldest entry when it is full, as both lists of the collector do.\<close>

lemma bounded_push:
  assumes "0 < n" "length ys \<le> n"
  shows "foldl (\<lambda>ys x. (if n \<le> length ys then tl ys else ys) @ [x]) ys xs = drop (length (ys @ xs) - n) (ys @ xs)"
proof (induction xs rule: rev_induct)
  case (snoc x xs)
  show ?case
  proof (cases "n \<le> length (ys @ xs)")
    case True
    then have "tl (drop (length (ys @ xs) - n) (ys @ xs)) = drop (length (ys @ xs @ [x]) - n) (ys @ xs)"
      by (simp only: tl_drop drop_Suc [symmetric] length_append list.size Suc_diff_le) (simp add: Suc_diff_le)
    with True snoc.IH assms(1) show ?thesis by auto
  next
    case False
    then show ?thesis using snoc.IH by simp
  qed
qed (use assms in simp)

lemma record_foldl:
  "sc_httpMetrics (foldl (\<lambda>c x. RecordHTTPRequest x c) c xs) =
     foldl (\<lambda>ys x. (if sc_maxItems c \<le> length ys then tl ys else ys) @ [x]) (sc_httpMetrics c) xs"
  "sc_systemMetrics (foldl (\<lambda>c x. RecordSystemMetrics x c) c ys) =
     foldl (\<lambda>ys x. (if sc_maxItems c div 10 \<le> length ys then tl ys else ys) @ [x]) (sc_systemMetrics c) ys"
  "sc_systemMetrics (foldl (\<lambda>c x. RecordHTTPRequest x c) c xs) = sc_systemMetrics c"
  "sc_maxItems (foldl (\<lambda>c x. RecordHTTPRequest x c) c xs) = sc_maxItems c"
  "sc_httpMetrics (foldl (\<lambda>c x. RecordSystemMetrics x c) c ys) = sc_httpMetrics c"
proof -
  show "sc_httpMetrics (foldl (\<lambda>c x. RecordHTTPRequest x c) c xs) =
     foldl (\<lambda>ys x. (if sc_maxItems c \<le> length ys then tl ys else ys) @ [x]) (sc_httpMetrics c) xs"
    "sc_systemMetrics (foldl (\<lambda>c x. RecordHTTPRequest x c) c xs) = sc_systemMetrics c"
    "sc_maxItems (foldl (\<lambda>c x. RecordHTTPRequest x c) c xs) = sc_maxItems c"
    by (induction xs arbitrary: c) (simp_all add: RecordHTTPRequest_def Let_def)
  show "sc_systemMetrics (foldl (\<lambda>c x. RecordSystemMetrics x c) c ys) =
     foldl (\<lambda>ys x. (if sc_maxItems c div 10 \<le> length ys then tl ys else ys) @ [x]) (sc_systemMetrics c) ys"
    "sc_httpMetrics (foldl (\<lambda>c x. RecordSystemMetrics x c) c ys) = sc_httpMetrics c"
    by (induction ys arbitrary: c) (simp_all add: RecordSystemMetrics_def Let_def)
qed

text \<open>
  The collector keeps exactly the latest 1000 requests and the latest 100 readings of the system, in
  the order in which they were recorded.
\<close>

theorem collector_keeps_latest:
  "let c = foldl (\<lambda>c x. RecordSystemMetrics x c) (foldl (\<lambda>c x. RecordHTTPRequest x c) NewCollector xs) ys
   in GetHTTPMetrics c = drop (length xs - 1000) xs \<and> GetSystemMetrics c = drop (length ys - 100) ys"
  by (simp add: Let_def GetHTTPMetrics_def GetSystemMetrics_def record_foldl NewCollector_def bounded_push)

lemma foldl_register:
  "hs_routes (foldl (\<lambda>s (method, path). group_route g method path s) s rs) =
     hs_routes s @ map (\<lambda>(method, path). (method, g @ path)) rs \<and>
   hs_middlewares (foldl (\<lambda>s (method, path). group_route g method path s) s rs) = hs_middlewares s"
  by (induction rs arbitrary: s) (auto simp: group_route_def register_route_def)

text \<open>
  The routes the server answers: the public health check and the fourteen of the API, each below
  the prefix of its version; and its middleware, three of which stand in the chain twice.
\<close>

lemma metaserver_http_spec:
  "hs_routes (metaserver_http host port) =
     map (\<lambda>(method, path). (method, ''/api/v1'' @ path)) api_routes @ [(''GET'', ''/health'')] \<and>
   hs_middlewares (metaserver_http host port) =
     [''RequestID'', ''Logging'', ''Recovery'', ''RequestID'', ''Logging'', ''Recovery'', ''Metrics'', ''RateLimit'']"
  by (simp add: metaserver_http_def setupRoutes_def WithMiddleware_def Use_def NewServer_def Server_Group_def
      Let_def foldl_register register_route_def)

lemma cors_loop_Some: "cors_loop o' os = Some v \<Longrightarrow> v = o' \<or> v = ''*'' \<and> o' = [] \<and> ''*'' \<in> set os"
  by (induction os) (auto split: if_splits)

text \<open>
  The header names an origin the list allows: the one of the request only when the list has it or a
  star; for another it is the first of the list.
\<close>

lemma allow_origin_spec:
  assumes "orig \<noteq> []" "os \<noteq> []"
  shows "allow_origin os orig = (if orig \<in> set os \<or> ''*'' \<in> set os then orig else hd os)"
proof -
  have "cors_loop orig os = (if orig \<in> set os \<or> ''*'' \<in> set os then Some orig else None)"
    using assms(1) by (induction os) auto
  then show ?thesis using assms by (auto simp: allow_origin_def)
qed

end
