(* ===== verification/Logging.thy ===== *)
theory Logging
  imports FileApi "HOL-Library.Finite_Map"
begin

text \<open>
  The logging package, \<^verbatim>\<open>common/logging\<close>: levels and their names, the options, the logger on top of the
  zap library, the test logger, the cache of named loggers with the global operations, contexts and
  the two formatters; and the context key of \<^verbatim>\<open>common/network/http/context.go\<close>.

  A logger is a pointer, and a logger made from another one shares its level and its configuration,
  so loggers, levels and configurations live in a heap. A logger of the library is the term of the
  calls that built it; an entry is what is handed to the library. Messages and field values are
  already formatted, and fields are a map: their order, that of a loop over a map, is left out.

  The lemmas show that names and levels are inverse to each other, that the level a logger reads is
  always the one of its configuration, what a change of level reaches, and what gets lost when the
  output of a logger is changed.
\<close>

section \<open>Levels\<close>

type_synonym LogLevel = int

text \<open>Fields, tags and contexts.\<close>

type_synonym fieldmap = "(string, string) fmap"

abbreviation LevelDebug :: LogLevel where "LevelDebug \<equiv> 0"
abbreviation LevelInfo :: LogLevel where "LevelInfo \<equiv> 1"
abbreviation LevelWarn :: LogLevel where "LevelWarn \<equiv> 2"
abbreviation LevelError :: LogLevel where "LevelError \<equiv> 3"
abbreviation LevelFatal :: LogLevel where "LevelFatal \<equiv> 4"

definition levelNames :: "(LogLevel \<times> string) list" where
  "levelNames = [(LevelDebug, ''DEBUG''), (LevelInfo, ''INFO''), (LevelWarn, ''WARN''), (LevelError, ''ERROR''), (LevelFatal, ''FATAL'')]"

definition levelValues :: "(string \<times> LogLevel) list" where
  "levelValues =
     [(''DEBUG'', LevelDebug), (''INFO'', LevelInfo), (''WARN'', LevelWarn), (''ERROR'', LevelError), (''FATAL'', LevelFatal),
      (''debug'', LevelDebug), (''info'', LevelInfo), (''warn'', LevelWarn), (''error'', LevelError), (''fatal'', LevelFatal),
      (''warning'', LevelWarn), (''WARNING'', LevelWarn)]"

definition LevelToString :: "LogLevel \<Rightarrow> string" where
  "LevelToString level = (case map_of levelNames level of Some name \<Rightarrow> name | None \<Rightarrow> ''UNKNOWN'')"

definition StringToLevel :: "string \<Rightarrow> LogLevel" where
  "StringToLevel s =
     (case map_of levelValues s of
        Some level \<Rightarrow> level
      | None \<Rightarrow>
          let lowerS = map lower s
          in if HasPrefix lowerS ''debug'' then LevelDebug
             else if HasPrefix lowerS ''info'' then LevelInfo
             else if HasPrefix lowerS ''warn'' then LevelWarn
             else if HasPrefix lowerS ''error'' then LevelError
             else if HasPrefix lowerS ''fatal'' \<or> HasPrefix lowerS ''crit'' then LevelFatal
             else case Atoi s of
                    Some val \<Rightarrow> if LevelDebug \<le> val \<and> val \<le> LevelFatal then val else LevelInfo
                  | None \<Rightarrow> LevelInfo)"

section \<open>Options\<close>

text \<open>A writer is its identity, a formatter its name.\<close>

record LogConfig =
  lc_Name :: string
  lc_Level :: LogLevel
  lc_Output :: "nat option"
  lc_Formatter :: "string option"
  lc_UseJSON :: bool
  lc_TimeFormat :: string
  lc_Colors :: bool
  lc_AddCaller :: bool
  lc_CallerSkip :: int
  lc_FilePath :: string
  lc_MaxSize :: int
  lc_MaxBackups :: int
  lc_MaxAge :: int
  lc_Compress :: bool
  lc_LocalTime :: bool
  lc_DefaultTags :: fieldmap
  lc_NodeID :: NodeID

type_synonym log_option = "LogConfig \<Rightarrow> LogConfig"

definition NewLogConfig :: LogConfig where
  "NewLogConfig =
     \<lparr>lc_Name = [], lc_Level = LevelInfo, lc_Output = None, lc_Formatter = None, lc_UseJSON = False,
      lc_TimeFormat = ''2006-01-02 15:04:05.000'', lc_Colors = True, lc_AddCaller = True, lc_CallerSkip = 1,
      lc_FilePath = [], lc_MaxSize = 100, lc_MaxBackups = 5, lc_MaxAge = 30, lc_Compress = True, lc_LocalTime = True,
      lc_DefaultTags = fmempty, lc_NodeID = []\<rparr>"

definition WithLevel :: "LogLevel \<Rightarrow> log_option" where
  "WithLevel level cfg = cfg\<lparr>lc_Level := level\<rparr>"

definition WithOutput :: "nat option \<Rightarrow> log_option" where
  "WithOutput w cfg = cfg\<lparr>lc_Output := w\<rparr>"

definition WithFormatter :: "string option \<Rightarrow> log_option" where
  "WithFormatter formatter cfg = cfg\<lparr>lc_Formatter := formatter\<rparr>"

definition WithJSONFormat :: log_option where
  "WithJSONFormat cfg = cfg\<lparr>lc_UseJSON := True\<rparr>"

definition WithConsoleFormat :: log_option where
  "WithConsoleFormat cfg = cfg\<lparr>lc_UseJSON := False\<rparr>"

definition WithTimeFormat :: "string \<Rightarrow> log_option" where
  "WithTimeFormat fmt cfg = cfg\<lparr>lc_TimeFormat := fmt\<rparr>"

definition WithColors :: "bool \<Rightarrow> log_option" where
  "WithColors enabled cfg = cfg\<lparr>lc_Colors := enabled\<rparr>"

definition WithCaller :: "bool \<Rightarrow> log_option" where
  "WithCaller enabled cfg = cfg\<lparr>lc_AddCaller := enabled\<rparr>"

definition WithCallerSkip :: "int \<Rightarrow> log_option" where
  "WithCallerSkip skip cfg = cfg\<lparr>lc_CallerSkip := skip\<rparr>"

definition WithFilePath :: "string \<Rightarrow> log_option" where
  "WithFilePath path cfg = cfg\<lparr>lc_FilePath := path\<rparr>"

definition WithMaxSize :: "int \<Rightarrow> log_option" where
  "WithMaxSize mb cfg = cfg\<lparr>lc_MaxSize := mb\<rparr>"

definition WithMaxBackups :: "int \<Rightarrow> log_option" where
  "WithMaxBackups count cfg = cfg\<lparr>lc_MaxBackups := count\<rparr>"

definition WithMaxAge :: "int \<Rightarrow> log_option" where
  "WithMaxAge days cfg = cfg\<lparr>lc_MaxAge := days\<rparr>"

definition WithCompression :: "bool \<Rightarrow> log_option" where
  "WithCompression compress cfg = cfg\<lparr>lc_Compress := compress\<rparr>"

definition WithTag :: "string \<Rightarrow> string \<Rightarrow> log_option" where
  "WithTag key value cfg = cfg\<lparr>lc_DefaultTags := fmupd key value (lc_DefaultTags cfg)\<rparr>"

definition option_WithNodeID :: "NodeID \<Rightarrow> log_option" where
  "option_WithNodeID nodeID cfg =
     cfg\<lparr>lc_NodeID := nodeID, lc_DefaultTags := fmupd ''node_id'' nodeID (lc_DefaultTags cfg)\<rparr>"

section \<open>Loggers of the library\<close>

datatype zap_level = ZapDebug | ZapInfo | ZapWarn | ZapError | ZapFatal

definition zapLevel :: "LogLevel \<Rightarrow> zap_level" where
  "zapLevel level =
     (if level = LevelDebug then ZapDebug
      else if level = LevelInfo then ZapInfo
      else if level = LevelWarn then ZapWarn
      else if level = LevelError then ZapError
      else if level = LevelFatal then ZapFatal
      else ZapInfo)"

datatype encoder_config = OwnEncoder string | ProductionEncoder | DevelopmentEncoder

text \<open>The rotating file: path, size, backups, age, compression, local time.\<close>

datatype zap_output = ToWriter nat | ToFile string int int int bool bool | ToStdout

record zap_core =
  zc_json :: bool
  zc_encoder :: encoder_config
  zc_output :: zap_output
  zc_level :: nat
  zc_caller :: "int option"

text \<open>\<^verbatim>\<open>zap.New\<close> with the field \<^verbatim>\<open>logger\<close> of its options, \<^verbatim>\<open>With\<close> and \<^verbatim>\<open>Named\<close>.\<close>

datatype zap_logger =
    ZapNew zap_core "string option"
  | ZapWith fieldmap zap_logger
  | ZapNamed string zap_logger

record ZapLogger =
  zl_logger :: zap_logger
  zl_level :: nat
  zl_config :: nat
  zl_context :: fieldmap

text \<open>The sugared logger is always the one of \<open>zl_logger\<close>.\<close>

record log_heap =
  lh_levels :: "nat \<rightharpoonup> zap_level"
  lh_configs :: "nat \<rightharpoonup> LogConfig"
  lh_loggers :: "nat \<rightharpoonup> ZapLogger"
  lh_next :: nat

definition new_logger :: "ZapLogger \<Rightarrow> log_heap \<Rightarrow> log_heap \<times> nat" where
  "new_logger zl h =
     (h\<lparr>lh_loggers := (lh_loggers h)(lh_next h \<mapsto> zl), lh_next := Suc (lh_next h)\<rparr>, lh_next h)"

definition caller_options :: "LogConfig \<Rightarrow> int option" where
  "caller_options config =
     (if lc_AddCaller config then Some (if lc_CallerSkip config > 0 then lc_CallerSkip config else 0) else None)"

definition output_of :: "LogConfig \<Rightarrow> zap_output" where
  "output_of config =
     (case lc_Output config of
        Some w \<Rightarrow> ToWriter w
      | None \<Rightarrow>
          if lc_FilePath config \<noteq> []
          then ToFile (lc_FilePath config) (lc_MaxSize config) (lc_MaxBackups config) (lc_MaxAge config)
                 (lc_Compress config) (lc_LocalTime config)
          else ToStdout)"

text \<open>
  Each call gets a configuration of its own. A failure to make the directory of the file is only
  printed.
\<close>

definition NewZapLogger :: "LogConfig option \<Rightarrow> log_heap \<Rightarrow> log_heap \<times> nat" where
  "NewZapLogger config0 h =
     (let config = (case config0 of None \<Rightarrow> NewLogConfig | Some c \<Rightarrow> c);
          n = lh_next h;
          core = \<lparr>zc_json = lc_UseJSON config, zc_encoder = OwnEncoder (lc_TimeFormat config),
                  zc_output = output_of config, zc_level = n, zc_caller = caller_options config\<rparr>;
          logger = ZapWith (lc_DefaultTags config)
                     (ZapNew core (if lc_Name config \<noteq> [] then Some (lc_Name config) else None))
      in new_logger \<lparr>zl_logger = logger, zl_level = n, zl_config = n, zl_context = fmempty\<rparr>
           (h\<lparr>lh_levels := (lh_levels h)(n \<mapsto> zapLevel (lc_Level config)), lh_configs := (lh_configs h)(n \<mapsto> config)\<rparr>))"

text \<open>An entry handed to the library: logger, level, message, fields.\<close>

type_synonym zap_call = "zap_logger \<times> zap_level \<times> string \<times> fieldmap"

definition ZapLogger_LogWithFields :: "LogLevel \<Rightarrow> string \<Rightarrow> fieldmap \<Rightarrow> ZapLogger \<Rightarrow> zap_call" where
  "ZapLogger_LogWithFields level msg fs l = (zl_logger l, zapLevel level, msg, fs)"

definition ZapLogger_Log :: "LogLevel \<Rightarrow> string \<Rightarrow> ZapLogger \<Rightarrow> zap_call" where
  "ZapLogger_Log level msg l = (zl_logger l, zapLevel level, msg, fmempty)"

definition ZapLogger_LogWithNodeID :: "NodeID \<Rightarrow> LogLevel \<Rightarrow> string \<Rightarrow> ZapLogger \<Rightarrow> zap_call" where
  "ZapLogger_LogWithNodeID nodeID level msg l =
     (ZapWith (fmupd ''node_id'' nodeID fmempty) (zl_logger l), zapLevel level, msg, fmempty)"

definition WithContext :: "fieldmap \<Rightarrow> nat \<Rightarrow> log_heap \<Rightarrow> log_heap \<times> nat" where
  "WithContext ctx a h =
     (case lh_loggers h a of
        None \<Rightarrow> (h, a)
      | Some l \<Rightarrow>
          if ctx = fmempty then (h, a)
          else new_logger \<lparr>zl_logger = ZapWith ctx (zl_logger l), zl_level = zl_level l, zl_config = zl_config l,
                           zl_context = fmadd (zl_context l) ctx\<rparr> h)"

definition WithNodeID :: "NodeID \<Rightarrow> nat \<Rightarrow> log_heap \<Rightarrow> log_heap \<times> nat" where
  "WithNodeID nodeID a h = WithContext (fmupd ''node_id'' nodeID fmempty) a h"

definition WithName :: "string \<Rightarrow> nat \<Rightarrow> log_heap \<Rightarrow> log_heap \<times> nat" where
  "WithName name a h =
     (case lh_loggers h a of
        None \<Rightarrow> (h, a)
      | Some l \<Rightarrow>
          if name = [] then (h, a)
          else new_logger \<lparr>zl_logger = ZapNamed name (zl_logger l), zl_level = zl_level l, zl_config = zl_config l,
                           zl_context = zl_context l\<rparr> h)"

definition SetLevel :: "LogLevel \<Rightarrow> nat \<Rightarrow> log_heap \<Rightarrow> log_heap" where
  "SetLevel level a h =
     (case lh_loggers h a of
        None \<Rightarrow> h
      | Some l \<Rightarrow>
          h\<lparr>lh_levels := (lh_levels h)(zl_level l \<mapsto> zapLevel level),
            lh_configs := (case lh_configs h (zl_config l) of
                             None \<Rightarrow> lh_configs h
                           | Some c \<Rightarrow> (lh_configs h)(zl_config l \<mapsto> c\<lparr>lc_Level := level\<rparr>))\<rparr>)"

definition SetOutput :: "nat option \<Rightarrow> nat \<Rightarrow> log_heap \<Rightarrow> log_heap" where
  "SetOutput w a h =
     (case (w, lh_loggers h a) of
        (Some w, Some l) \<Rightarrow>
          (case lh_configs h (zl_config l) of
             None \<Rightarrow> h
           | Some config \<Rightarrow>
               let core = \<lparr>zc_json = lc_UseJSON config,
                           zc_encoder = (if lc_UseJSON config then ProductionEncoder else DevelopmentEncoder),
                           zc_output = ToWriter w, zc_level = zl_level l, zc_caller = caller_options config\<rparr>;
                   logger = ZapNew core None;
                   logger = (if zl_context l \<noteq> fmempty then ZapWith (zl_context l) logger else logger)
               in h\<lparr>lh_loggers := (lh_loggers h)(a \<mapsto> l\<lparr>zl_logger := logger\<rparr>)\<rparr>)
      | _ \<Rightarrow> h)"

section \<open>The package's loggers\<close>

text \<open>
  The global state: the standard logger, the cache of named loggers, and the factory: its default
  options, or None for a factory that a client has set.
\<close>

record log_globals =
  lg_heap :: log_heap
  lg_std :: nat
  lg_loggers :: "string \<rightharpoonup> nat"
  lg_factory :: "log_option list option"

definition default_options :: "log_option list" where
  "default_options = [WithLevel LevelInfo, WithConsoleFormat, WithCaller True, WithCallerSkip 1, WithColors True]"

definition apply_options :: "log_option list \<Rightarrow> LogConfig" where
  "apply_options options = foldl (\<lambda>config option. option config) NewLogConfig options"

text \<open>The factory is asserted to be the default one.\<close>

definition NewLogger :: "log_option list \<Rightarrow> log_globals \<Rightarrow> (log_globals \<times> nat) outcome" where
  "NewLogger options g =
     (case lg_factory g of
        None \<Rightarrow> Panic ''interface conversion''
      | Some defaults \<Rightarrow>
          (case NewZapLogger (Some (apply_options (defaults @ options))) (lg_heap g) of
             (h, l) \<Rightarrow> Return (g\<lparr>lg_heap := h\<rparr>, l)))"

text \<open>The variables of the package and its \<^verbatim>\<open>init\<close>.\<close>

definition log_init :: log_globals where
  "log_init =
     (case NewZapLogger (Some (apply_options default_options))
             \<lparr>lh_levels = Map.empty, lh_configs = Map.empty, lh_loggers = Map.empty, lh_next = 0\<rparr> of
        (h, l) \<Rightarrow> \<lparr>lg_heap = h, lg_std = l, lg_loggers = Map.empty, lg_factory = Some default_options\<rparr>)"

text \<open>\<^verbatim>\<open>CreateLogger\<close> looks into the cache, makes a logger and stores it in three critical sections.\<close>

definition create_finish :: "string \<Rightarrow> log_option list \<Rightarrow> log_globals \<Rightarrow> (log_globals \<times> nat) outcome" where
  "create_finish name options g =
     (case NewLogger (WithTag ''logger'' name # options) g of
        Panic p \<Rightarrow> Panic p
      | Return (g, l) \<Rightarrow> Return (g\<lparr>lg_loggers := (lg_loggers g)(name \<mapsto> l)\<rparr>, l))"

definition CreateLogger :: "string \<Rightarrow> log_option list \<Rightarrow> log_globals \<Rightarrow> (log_globals \<times> nat) outcome" where
  "CreateLogger name options g =
     (case lg_loggers g name of
        Some l \<Rightarrow> Return (g, l)
      | None \<Rightarrow> create_finish name options g)"

text \<open>\<open>custom\<close> is the method of a factory that a client has set.\<close>

definition log_GetLogger ::
  "(string \<Rightarrow> log_globals \<Rightarrow> (log_globals \<times> nat) outcome) \<Rightarrow> string \<Rightarrow> log_globals \<Rightarrow> (log_globals \<times> nat) outcome" where
  "log_GetLogger custom name g =
     (case lg_factory g of None \<Rightarrow> custom name g | Some _ \<Rightarrow> CreateLogger name [] g)"

text \<open>The argument: nil, a factory of a client, or a default factory with its options.\<close>

definition SetLoggerFactory :: "log_option list option option \<Rightarrow> log_globals \<Rightarrow> log_globals" where
  "SetLoggerFactory f g = (case f of None \<Rightarrow> g | Some f \<Rightarrow> g\<lparr>lg_factory := f\<rparr>)"

definition SetDefaultOptions :: "log_option list \<Rightarrow> log_globals \<Rightarrow> log_globals" where
  "SetDefaultOptions options g =
     (case lg_factory g of None \<Rightarrow> g | Some _ \<Rightarrow> g\<lparr>lg_factory := Some options\<rparr>)"

text \<open>A loop over the cache in the order \<open>ks\<close>, after the standard logger.\<close>

definition on_all :: "(nat \<Rightarrow> log_heap \<Rightarrow> log_heap) \<Rightarrow> string list \<Rightarrow> log_globals \<Rightarrow> log_globals" where
  "on_all f ks g =
     g\<lparr>lg_heap := foldl (\<lambda>h name. case lg_loggers g name of None \<Rightarrow> h | Some l \<Rightarrow> f l h) (f (lg_std g) (lg_heap g)) ks\<rparr>"

definition SetGlobalLevel :: "LogLevel \<Rightarrow> string list \<Rightarrow> log_globals \<Rightarrow> log_globals" where
  "SetGlobalLevel level ks g = on_all (SetLevel level) ks g"

definition SetGlobalOutput :: "nat option \<Rightarrow> string list \<Rightarrow> log_globals \<Rightarrow> log_globals" where
  "SetGlobalOutput w ks g = on_all (SetOutput w) ks g"

text \<open>The configuration: level, console, file. \<open>mkdir\<close> is an error of making the directory.\<close>

definition init_options :: "string \<times> bool \<times> string \<Rightarrow> log_option list" where
  "init_options cfg =
     (case cfg of
        (level, console, file) \<Rightarrow>
          [WithLevel (StringToLevel level)] @
          (if console then [WithConsoleFormat, WithColors True] else [WithJSONFormat]) @
          (if file \<noteq> [] then [WithFilePath file, WithMaxSize 100, WithMaxBackups 5, WithMaxAge 30, WithCompression True] else []) @
          [WithCaller True])"

definition InitLogging ::
  "go_error option \<Rightarrow> (string \<times> bool \<times> string) option \<Rightarrow> log_globals \<Rightarrow> (log_globals \<times> (go_error + nat)) outcome" where
  "InitLogging mkdir cfg g =
     (case cfg of
        None \<Rightarrow> Return (g, Inr (lg_std g))
      | Some cfg \<Rightarrow>
          if snd (snd cfg) \<noteq> [] \<and> mkdir \<noteq> None
          then Return (g, Inl (Errorf_w ''cannot make the log directory'' (the mkdir)))
          else case NewLogger (init_options cfg) g of
                 Panic p \<Rightarrow> Panic p
               | Return (g, l) \<Rightarrow> Return (g\<lparr>lg_std := l\<rparr>, Inr l))"

definition ConfigureLogging ::
  "go_error option \<Rightarrow> string \<Rightarrow> bool \<Rightarrow> string \<Rightarrow> log_globals \<Rightarrow> (log_globals \<times> nat) outcome" where
  "ConfigureLogging mkdir level console file g =
     (case InitLogging mkdir (Some (level, console, file)) g of
        Panic p \<Rightarrow> Panic p
      | Return (g, Inl err) \<Rightarrow> Return (g, lg_std g)
      | Return (g, Inr l) \<Rightarrow> Return (g, l))"

section \<open>Contexts\<close>

text \<open>
  A context maps keys to values; a key is the package that declares its type, and a number. The
  packages \<^verbatim>\<open>logging\<close> and \<^verbatim>\<open>http\<close> both declare a type \<^verbatim>\<open>contextKey\<close>.
\<close>

datatype ctx_value = CtxLogger nat | CtxString string

type_synonym go_context = "string \<times> nat \<rightharpoonup> ctx_value"

definition WithLogger :: "nat \<Rightarrow> go_context \<Rightarrow> go_context" where
  "WithLogger logger ctx = ctx((''logging'', 0) \<mapsto> CtxLogger logger)"

definition GetLoggerFromContext :: "go_context \<Rightarrow> log_globals \<Rightarrow> nat" where
  "GetLoggerFromContext ctx g = (case ctx (''logging'', 0) of Some (CtxLogger l) \<Rightarrow> l | _ \<Rightarrow> lg_std g)"

definition WithTraceID :: "string \<Rightarrow> go_context \<Rightarrow> go_context" where
  "WithTraceID traceID ctx = ctx((''logging'', 1) \<mapsto> CtxString traceID)"

definition GetTraceID :: "go_context \<Rightarrow> string" where
  "GetTraceID ctx = (case ctx (''logging'', 1) of Some (CtxString s) \<Rightarrow> s | _ \<Rightarrow> [])"

definition log_WithRequestID :: "string \<Rightarrow> go_context \<Rightarrow> go_context" where
  "log_WithRequestID requestID ctx = ctx((''logging'', 2) \<mapsto> CtxString requestID)"

definition log_GetRequestID :: "go_context \<Rightarrow> string" where
  "log_GetRequestID ctx = (case ctx (''logging'', 2) of Some (CtxString s) \<Rightarrow> s | _ \<Rightarrow> [])"

definition http_WithRequestID :: "string \<Rightarrow> go_context \<Rightarrow> go_context" where
  "http_WithRequestID requestID ctx = ctx((''http'', 0) \<mapsto> CtxString requestID)"

definition http_GetRequestID :: "go_context \<Rightarrow> string" where
  "http_GetRequestID ctx = (case ctx (''http'', 0) of Some (CtxString s) \<Rightarrow> s | _ \<Rightarrow> [])"

definition context_fields :: "go_context \<Rightarrow> fieldmap" where
  "context_fields ctx =
     (let fs = (if GetTraceID ctx \<noteq> [] then fmupd ''trace_id'' (GetTraceID ctx) fmempty else fmempty)
      in if log_GetRequestID ctx \<noteq> [] then fmupd ''request_id'' (log_GetRequestID ctx) fs else fs)"

definition LoggerFromContext :: "go_context \<Rightarrow> log_globals \<Rightarrow> log_globals \<times> nat" where
  "LoggerFromContext ctx g =
     (let logger = GetLoggerFromContext ctx g
      in if context_fields ctx \<noteq> fmempty
         then (case WithContext (context_fields ctx) logger (lg_heap g) of (h, l) \<Rightarrow> (g\<lparr>lg_heap := h\<rparr>, l))
         else (g, logger))"

section \<open>The test logger\<close>

text \<open>A line of the test's log, or a fatal one, which ends the test.\<close>

datatype test_line = Logf string | Fatalf string

record TestLogger =
  tl_level :: LogLevel
  tl_output :: "nat option"
  tl_name :: string

definition NewTestLogger :: TestLogger where
  "NewTestLogger = \<lparr>tl_level = LevelDebug, tl_output = None, tl_name = []\<rparr>"

definition test_line_of :: "LogLevel \<Rightarrow> string \<Rightarrow> TestLogger \<Rightarrow> test_line list" where
  "test_line_of level msg l =
     (if level = LevelFatal then [Fatalf (''[FATAL] '' @ msg)]
      else let level = (if LevelDebug \<le> level \<and> level \<le> LevelError then level else LevelInfo)
           in if tl_level l \<le> level then [Logf (''['' @ LevelToString level @ ''] '' @ msg)] else [])"

definition TestLogger_LogWithNodeID :: "NodeID \<Rightarrow> LogLevel \<Rightarrow> string \<Rightarrow> TestLogger \<Rightarrow> test_line list" where
  "TestLogger_LogWithNodeID nodeID level msg l = test_line_of level (''[node:'' @ nodeID @ ''] '' @ msg) l"

definition TestLogger_WithName :: "string \<Rightarrow> TestLogger \<Rightarrow> TestLogger" where
  "TestLogger_WithName name l = l\<lparr>tl_name := name\<rparr>"

definition TestLogger_SetLevel :: "LogLevel \<Rightarrow> TestLogger \<Rightarrow> TestLogger" where
  "TestLogger_SetLevel level l = l\<lparr>tl_level := level\<rparr>"

definition TestLogger_SetOutput :: "nat option \<Rightarrow> TestLogger \<Rightarrow> TestLogger" where
  "TestLogger_SetOutput w l = l\<lparr>tl_output := w\<rparr>"

section \<open>Formatters\<close>

record LogEntry =
  le_Level :: LogLevel
  le_Message :: string
  le_Fields :: fieldmap
  le_Timestamp :: int
  le_Caller :: string

definition levelColors :: "(LogLevel \<times> string) list" where
  "levelColors = [(LevelDebug, CHR 0x1B # ''[34m''), (LevelInfo, CHR 0x1B # ''[32m''), (LevelWarn, CHR 0x1B # ''[33m''),
     (LevelError, CHR 0x1B # ''[31m''), (LevelFatal, CHR 0x1B # ''[35m'')]"

text \<open>\<open>time_text\<close> is the formatted time, \<open>ks\<close> the order of the loop over the fields.\<close>

definition TextFormatter_Format :: "(int \<Rightarrow> string) \<Rightarrow> bool \<Rightarrow> string list \<Rightarrow> LogEntry \<Rightarrow> string" where
  "TextFormatter_Format time_text colors ks e =
     ''['' @ time_text (le_Timestamp e) @ ''] '' @
     (if colors then (case map_of levelColors (le_Level e) of Some c \<Rightarrow> c | None \<Rightarrow> []) else []) @
     LevelToString (le_Level e) @ (if colors then CHR 0x1B # ''[0m'' else []) @ '' '' @ le_Message e @
     (if le_Fields e \<noteq> fmempty
      then '' '' @ concat (map (\<lambda>k. k @ ''='' @ (case fmlookup (le_Fields e) k of Some v \<Rightarrow> v | None \<Rightarrow> []) @ '' '') ks)
      else []) @
     (if le_Caller e \<noteq> [] then '' ('' @ le_Caller e @ '')'' else [])"

text \<open>The map that is handed to the JSON encoder, and the text when it fails.\<close>

definition json_data :: "(int \<Rightarrow> string) \<Rightarrow> LogEntry \<Rightarrow> fieldmap" where
  "json_data time_text e =
     (let data = fmupd ''message'' (le_Message e) (fmupd ''level'' (LevelToString (le_Level e))
                   (fmupd ''time'' (time_text (le_Timestamp e)) fmempty));
          data = fmadd (le_Fields e) data
      in if le_Caller e \<noteq> [] then fmupd ''caller'' (le_Caller e) data else data)"

definition JSONFormatter_Format :: "(fieldmap \<Rightarrow> go_error + string) \<Rightarrow> (int \<Rightarrow> string) \<Rightarrow> LogEntry \<Rightarrow> string" where
  "JSONFormatter_Format marshal time_text e =
     (case marshal (json_data time_text e) of
        Inr output \<Rightarrow> output
      | Inl err \<Rightarrow>
          CHR ''{'' # CHR 0x22 # ''error'' @ [CHR 0x22, CHR '':'', CHR 0x22] @ ''JSON formatting failed: '' @ Error err @
          [CHR 0x22] @ '', '' @ CHR 0x22 # ''message'' @ [CHR 0x22, CHR '':'', CHR 0x22] @ le_Message e @ [CHR 0x22, CHR ''}''])"

section \<open>Names of levels\<close>

lemma StringToLevel_range: "LevelDebug \<le> StringToLevel s \<and> StringToLevel s \<le> LevelFatal"
proof (cases "map_of levelValues s")
  case None
  then show ?thesis by (auto simp: StringToLevel_def Let_def split: option.split)
next
  case (Some v)
  then have "v \<in> snd ` set levelValues" by (force dest: map_of_SomeD)
  with Some show ?thesis by (auto simp: StringToLevel_def levelValues_def)
qed

text \<open>
  Names and levels: the name of each of the five levels reads back as that level, in capitals, in
  small letters and as a number; whatever the text, the result is one of the five.
\<close>

theorem level_round_trip:
  assumes "LevelDebug \<le> level" "level \<le> LevelFatal"
  shows "StringToLevel (LevelToString level) = level \<and> StringToLevel (map lower (LevelToString level)) = level \<and>
    StringToLevel [char_of (48 + nat level)] = level \<and>
    LevelDebug \<le> StringToLevel s \<and> StringToLevel s \<le> LevelFatal"
proof -
  have "level \<in> {0, 1, 2, 3, 4}" using assms by auto
  moreover have "StringToLevel (LevelToString l) = l \<and> StringToLevel (map lower (LevelToString l)) = l \<and>
      StringToLevel [char_of (48 + nat l)] = l" if "l \<in> set [0, 1, 2, 3, 4]" for l
  proof -
    have "list_all (\<lambda>l. StringToLevel (LevelToString l) = l \<and> StringToLevel (map lower (LevelToString l)) = l \<and>
      StringToLevel [char_of (48 + nat l)] = l) [0, 1, 2, 3, 4]" by code_simp
    with that show ?thesis by (simp only: list_all_iff)
  qed
  ultimately show ?thesis using StringToLevel_range [of s] by simp
qed

theorem level_round_trip_witness:
  "StringToLevel (LevelToString LevelError) = LevelError \<and> StringToLevel ''3'' = LevelError \<and>
   StringToLevel ''nonsense'' \<le> LevelFatal"
proof -
  have "[char_of (48 + nat LevelError)] = ''3''" by code_simp
  with level_round_trip [of LevelError "''nonsense''"] show ?thesis by simp
qed

section \<open>The interface of loggers\<close>

text \<open>
  What the program relies on in a logger: it has a level, kept in a cell that it shares with every
  logger made from it by adding context, so that the level of all of them is set through any one.
\<close>

fun derive :: "('c \<Rightarrow> 'l \<Rightarrow> 's \<Rightarrow> 's \<times> 'l) \<Rightarrow> 'c list \<Rightarrow> 'l \<Rightarrow> 's \<Rightarrow> 's \<times> 'l" where
  "derive add [] l s = (s, l)"
| "derive add (c # cs) l s = (case add c l s of (s', l') \<Rightarrow> derive add cs l' s')"

locale logger_interface =
  fixes inv :: "'s \<Rightarrow> bool" and has :: "'s \<Rightarrow> 'l \<Rightarrow> bool" and cell :: "'s \<Rightarrow> 'l \<Rightarrow> 'k"
    and level :: "'s \<Rightarrow> 'l \<Rightarrow> LogLevel" and set_level :: "LogLevel \<Rightarrow> 'l \<Rightarrow> 's \<Rightarrow> 's"
    and add_context :: "'c \<Rightarrow> 'l \<Rightarrow> 's \<Rightarrow> 's \<times> 'l"
  assumes set_level_inv: "inv s \<Longrightarrow> has s l \<Longrightarrow> inv (set_level v l s)"
    and set_level_has: "inv s \<Longrightarrow> has s l \<Longrightarrow> has (set_level v l s) m = has s m"
    and set_level_level: "inv s \<Longrightarrow> has s l \<Longrightarrow> has s m \<Longrightarrow>
      level (set_level v l s) m = (if cell s m = cell s l then v else level s m)"
    and add_context_new: "inv s \<Longrightarrow> has s l \<Longrightarrow> add_context c l s = (s', l') \<Longrightarrow>
      inv s' \<and> has s' l' \<and> cell s' l' = cell s l \<and> level s' l' = level s l"
    and add_context_old: "inv s \<Longrightarrow> has s l \<Longrightarrow> add_context c l s = (s', l') \<Longrightarrow> has s m \<Longrightarrow>
      has s' m \<and> cell s' m = cell s m \<and> level s' m = level s m"
begin

lemma derive_new:
  assumes "inv s" "has s l" "derive add_context cs l s = (s', l')"
  shows "inv s' \<and> has s' l' \<and> cell s' l' = cell s l \<and> level s' l' = level s l"
  using assms
proof (induction cs arbitrary: l s)
  case (Cons c cs)
  obtain s1 l1 where a: "add_context c l s = (s1, l1)" by (cases "add_context c l s")
  then have "derive add_context cs l1 s1 = (s', l')" using Cons.prems(3) by simp
  with Cons.IH [of s1 l1] add_context_new [OF Cons.prems(1,2) a] show ?case by simp
qed auto

lemma derive_old:
  assumes "inv s" "has s l" "derive add_context cs l s = (s', l')" "has s m"
  shows "has s' m \<and> cell s' m = cell s m \<and> level s' m = level s m"
  using assms
proof (induction cs arbitrary: l s)
  case (Cons c cs)
  obtain s1 l1 where a: "add_context c l s = (s1, l1)" by (cases "add_context c l s")
  then have "derive add_context cs l1 s1 = (s', l')" using Cons.prems(3) by simp
  with Cons.IH [of s1 l1] add_context_new [OF Cons.prems(1,2) a] add_context_old [OF Cons.prems(1,2) a Cons.prems(4)]
  show ?case by simp
qed auto

lemma derived_level_is_shared:
  assumes "inv s" "has s l" "derive add_context cs l s = (s', l')"
  shows "level s' l' = level s l \<and> level (set_level v l' s') l = v \<and> level (set_level v l s') l' = v"
  using derive_new [OF assms] derive_old [OF assms assms(2)] set_level_level by metis

end

section \<open>Levels and configurations\<close>

fun level_ref :: "zap_logger \<Rightarrow> nat" where
  "level_ref (ZapNew core _) = zc_level core"
| "level_ref (ZapWith _ z) = level_ref z"
| "level_ref (ZapNamed _ z) = level_ref z"

definition wf_logger :: "log_heap \<Rightarrow> ZapLogger \<Rightarrow> bool" where
  "wf_logger h l \<longleftrightarrow> zl_level l = zl_config l \<and> level_ref (zl_logger l) = zl_level l \<and> zl_level l < lh_next h \<and>
     (\<exists>c. lh_configs h (zl_config l) = Some c \<and> lh_levels h (zl_level l) = Some (zapLevel (lc_Level c)))"

definition wf_heap :: "log_heap \<Rightarrow> bool" where
  "wf_heap h \<longleftrightarrow> (\<forall>a l. lh_loggers h a = Some l \<longrightarrow> a < lh_next h \<and> wf_logger h l)"

lemma wf_heapD: "wf_heap h \<Longrightarrow> lh_loggers h a = Some l \<Longrightarrow> a < lh_next h \<and> wf_logger h l"
  by (auto simp: wf_heap_def)

lemma wf_logger_later:
  "wf_logger h l \<Longrightarrow> lh_configs h' (zl_config l) = lh_configs h (zl_config l) \<Longrightarrow>
   lh_levels h' (zl_level l) = lh_levels h (zl_level l) \<Longrightarrow> lh_next h \<le> lh_next h' \<Longrightarrow> wf_logger h' l"
  by (auto simp: wf_logger_def)

lemma wf_new_logger:
  assumes "wf_heap h" "wf_logger h l" "new_logger l h = (h', a)"
  shows "wf_heap h'"
  unfolding wf_heap_def
proof (intro allI impI)
  fix b m
  assume b: "lh_loggers h' b = Some m"
  have h': "lh_loggers h' = (lh_loggers h)(lh_next h \<mapsto> l)" "lh_next h' = Suc (lh_next h)"
    "lh_configs h' = lh_configs h" "lh_levels h' = lh_levels h"
    using assms(3) by (auto simp: new_logger_def)
  then have "b \<le> lh_next h \<and> wf_logger h m"
    using b assms(1,2) by (auto split: if_splits dest: wf_heapD)
  then show "b < lh_next h' \<and> wf_logger h' m"
    using wf_logger_later [of h m h'] by (simp add: h')
qed

lemma new_logger_dom: "new_logger l h = (h', a) \<Longrightarrow> dom (lh_loggers h') = Set.insert a (dom (lh_loggers h))"
  by (auto simp: new_logger_def)

lemma wf_NewZapLogger:
  assumes "wf_heap h" "NewZapLogger c h = (h', a)"
  shows "wf_heap h' \<and> dom (lh_loggers h') = Set.insert a (dom (lh_loggers h))"
proof -
  define n where "n = lh_next h"
  obtain l cfg where l: "new_logger l (h\<lparr>lh_levels := (lh_levels h)(n \<mapsto> zapLevel (lc_Level cfg)), lh_configs := (lh_configs h)(n \<mapsto> cfg),
      lh_next := n\<rparr>) = (h', a)" "zl_level l = n" "zl_config l = n" "level_ref (zl_logger l) = n"
    using assms(2) by (auto simp: NewZapLogger_def Let_def n_def)
  show ?thesis
    unfolding wf_heap_def
  proof (intro conjI allI impI)
    fix b m
    assume b: "lh_loggers h' b = Some m"
    have h': "lh_loggers h' = (lh_loggers h)(n \<mapsto> l)" "lh_next h' = Suc n"
      "lh_configs h' = (lh_configs h)(n \<mapsto> cfg)" "lh_levels h' = (lh_levels h)(n \<mapsto> zapLevel (lc_Level cfg))"
      using l(1) by (auto simp: new_logger_def)
    have "b \<le> n \<and> wf_logger h' m"
    proof (cases "b = n")
      case True
      then show ?thesis using b l(2-4) by (auto simp: h' wf_logger_def)
    next
      case False
      then have m: "b < n" "wf_logger h m" using b wf_heapD [OF assms(1), of b m] by (auto simp: h' n_def)
      then have "zl_level m < n" "zl_config m < n" by (auto simp: wf_logger_def n_def)
      then show ?thesis using m wf_logger_later [of h m h'] by (simp add: h' n_def)
    qed
    then show "b < lh_next h'" "wf_logger h' m" by (simp_all add: h')
  qed (use new_logger_dom [OF l(1)] in simp)
qed

lemma wf_WithContext:
  assumes "wf_heap h" "WithContext c a h = (h', b)"
  shows "wf_heap h' \<and> dom (lh_loggers h) \<subseteq> dom (lh_loggers h')"
proof (cases "lh_loggers h a")
  case (Some l)
  then have "wf_logger h l" using assms(1) wf_heapD by blast
  then have "wf_logger h \<lparr>zl_logger = ZapWith c (zl_logger l), zl_level = zl_level l, zl_config = zl_config l,
      zl_context = fmadd (zl_context l) c\<rparr>"
    by (auto simp: wf_logger_def)
  then have "wf_heap h'" using assms Some by (auto simp: WithContext_def split: if_splits dest: wf_new_logger)
  moreover have "dom (lh_loggers h) \<subseteq> dom (lh_loggers h')"
    using assms Some by (auto simp: WithContext_def new_logger_def split: if_splits)
  ultimately show ?thesis ..
qed (use assms in \<open>simp add: WithContext_def\<close>)

lemma wf_WithName:
  assumes "wf_heap h" "WithName n a h = (h', b)"
  shows "wf_heap h' \<and> dom (lh_loggers h) \<subseteq> dom (lh_loggers h')"
proof (cases "lh_loggers h a")
  case (Some l)
  then have "wf_logger h l" using assms(1) wf_heapD by blast
  then have "wf_logger h \<lparr>zl_logger = ZapNamed n (zl_logger l), zl_level = zl_level l, zl_config = zl_config l,
      zl_context = zl_context l\<rparr>"
    by (auto simp: wf_logger_def)
  then have "wf_heap h'" using assms Some by (auto simp: WithName_def split: if_splits dest: wf_new_logger)
  moreover have "dom (lh_loggers h) \<subseteq> dom (lh_loggers h')"
    using assms Some by (auto simp: WithName_def new_logger_def split: if_splits)
  ultimately show ?thesis ..
qed (use assms in \<open>simp add: WithName_def\<close>)

lemma wf_SetLevel:
  assumes "wf_heap h"
  shows "wf_heap (SetLevel v a h)"
proof (cases "lh_loggers h a")
  case (Some l)
  then obtain c where l: "zl_level l = zl_config l" "lh_configs h (zl_config l) = Some c"
    using wf_heapD [OF assms Some] by (auto simp: wf_logger_def)
  have "wf_logger (SetLevel v a h) m" if m: "wf_logger h m" for m
  proof (cases "zl_config m = zl_config l")
    case True
    then show ?thesis using m Some l by (auto simp: SetLevel_def wf_logger_def)
  next
    case False
    then show ?thesis using m Some l by (auto simp: SetLevel_def wf_logger_def)
  qed
  moreover have "lh_loggers (SetLevel v a h) = lh_loggers h" "lh_next (SetLevel v a h) = lh_next h"
    by (simp_all add: SetLevel_def split: option.split)
  ultimately show ?thesis using assms by (simp add: wf_heap_def)
qed (use assms in \<open>simp add: SetLevel_def\<close>)

lemma SetLevel_loggers [simp]: "lh_loggers (SetLevel v a h) = lh_loggers h"
  by (simp add: SetLevel_def split: option.split)

lemma SetOutput_cases:
  obtains "SetOutput w a h = h"
  | l z where "lh_loggers h a = Some l" "SetOutput w a h = h\<lparr>lh_loggers := (lh_loggers h)(a \<mapsto> l\<lparr>zl_logger := z\<rparr>)\<rparr>"
      "level_ref z = zl_level l"
  by (cases "SetOutput w a h = h") (auto simp: SetOutput_def Let_def split: option.splits if_splits)

lemma wf_SetOutput:
  assumes "wf_heap h"
  shows "wf_heap (SetOutput w a h)"
proof (rule SetOutput_cases [of w a h])
  fix l z
  assume l: "lh_loggers h a = Some l" "SetOutput w a h = h\<lparr>lh_loggers := (lh_loggers h)(a \<mapsto> l\<lparr>zl_logger := z\<rparr>)\<rparr>"
    "level_ref z = zl_level l"
  have "wf_logger h (l\<lparr>zl_logger := z\<rparr>)" using wf_heapD [OF assms l(1)] l(3) by (auto simp: wf_logger_def)
  moreover have "wf_logger (SetOutput w a h) m = wf_logger h m" for m by (simp add: wf_logger_def l(2))
  ultimately show ?thesis using assms l(1) by (simp add: wf_heap_def) (simp add: l(2))
qed (use assms in simp)

lemma SetOutput_frame [simp]:
  "dom (lh_loggers (SetOutput w a h)) = dom (lh_loggers h)"
  "lh_levels (SetOutput w a h) = lh_levels h" "lh_configs (SetOutput w a h) = lh_configs h"
  by (auto simp: SetOutput_def Let_def split: option.splits)

text \<open>The level of a logger is the one in its configuration; the cell is the configuration.\<close>

definition has_logger :: "log_heap \<Rightarrow> nat \<Rightarrow> bool" where
  "has_logger h a \<longleftrightarrow> a \<in> dom (lh_loggers h)"

definition config_of :: "log_heap \<Rightarrow> nat \<Rightarrow> nat" where
  "config_of h a = (case lh_loggers h a of Some l \<Rightarrow> zl_config l | None \<Rightarrow> 0)"

definition level_of :: "log_heap \<Rightarrow> nat \<Rightarrow> LogLevel" where
  "level_of h a = (case lh_configs h (config_of h a) of Some c \<Rightarrow> lc_Level c | None \<Rightarrow> LevelInfo)"

lemma SetLevel_configs:
  assumes "wf_heap h" "lh_loggers h a = Some l"
  shows "\<exists>c. lh_configs h (zl_config l) = Some c \<and>
    lh_configs (SetLevel v a h) = (lh_configs h)(zl_config l \<mapsto> c\<lparr>lc_Level := v\<rparr>)"
  using wf_heapD [OF assms] assms(2) by (auto simp: wf_logger_def SetLevel_def)

lemma level_of_SetLevel:
  assumes "wf_heap h" "has_logger h a" "has_logger h b"
  shows "level_of (SetLevel v a h) b = (if config_of h b = config_of h a then v else level_of h b)"
proof -
  obtain l where l: "lh_loggers h a = Some l" using assms(2) by (auto simp: has_logger_def)
  from SetLevel_configs [OF assms(1) l, of v] obtain c where
    "lh_configs (SetLevel v a h) = (lh_configs h)(zl_config l \<mapsto> c\<lparr>lc_Level := v\<rparr>)" by blast
  then show ?thesis by (simp add: level_of_def config_of_def l)
qed

lemma WithContext_new:
  assumes "wf_heap h" "has_logger h a" "WithContext c a h = (h', b)"
  shows "wf_heap h' \<and> has_logger h' b \<and> config_of h' b = config_of h a \<and> level_of h' b = level_of h a"
proof -
  obtain l where l: "lh_loggers h a = Some l" using assms(2) by (auto simp: has_logger_def)
  have "lh_configs h' = lh_configs h \<and> has_logger h' b \<and> config_of h' b = config_of h a"
    using assms(2,3) l by (auto simp: WithContext_def new_logger_def has_logger_def config_of_def split: if_splits)
  with wf_WithContext [OF assms(1,3)] show ?thesis by (simp add: level_of_def)
qed

lemma WithContext_old:
  assumes "wf_heap h" "WithContext c a h = (h', b)" "has_logger h d"
  shows "has_logger h' d \<and> config_of h' d = config_of h d \<and> level_of h' d = level_of h d"
proof -
  have "d < lh_next h" using assms(1,3) wf_heapD by (auto simp: has_logger_def)
  then have "lh_loggers h' d = lh_loggers h d \<and> lh_configs h' = lh_configs h"
    using assms(2) by (auto simp: WithContext_def new_logger_def split: option.splits if_splits)
  then show ?thesis using assms(3) by (auto simp: has_logger_def level_of_def config_of_def)
qed

interpretation zap: logger_interface wf_heap has_logger config_of level_of SetLevel WithContext
proof unfold_locales
  fix h a v b
  assume "wf_heap h" "has_logger h a"
  then show "wf_heap (SetLevel v a h)" "has_logger (SetLevel v a h) b = has_logger h b"
    by (simp_all add: wf_SetLevel has_logger_def)
qed (rule level_of_SetLevel WithContext_new WithContext_old; assumption)+

text \<open>The test logger adds no context and is its own state.\<close>

interpretation testlog: logger_interface "\<lambda>_. True" "\<lambda>_ _. True" "\<lambda>_ _. ()" "\<lambda>l (_ :: unit). tl_level l"
  "\<lambda>v _. TestLogger_SetLevel v" "\<lambda>_ u l. (l, u)"
  by unfold_locales (auto simp: TestLogger_SetLevel_def)

section \<open>Reachable states\<close>

inductive log_step :: "log_globals \<Rightarrow> log_globals \<Rightarrow> bool" where
  newl: "NewLogger opts g = Return (g', a) \<Longrightarrow> log_step g g'"
| create: "CreateLogger n opts g = Return (g', a) \<Longrightarrow> log_step g g'"
| created: "create_finish n opts g = Return (g', a) \<Longrightarrow> log_step g g'"
| ctx: "WithContext c a (lg_heap g) = (h', b) \<Longrightarrow> log_step g (g\<lparr>lg_heap := h'\<rparr>)"
| named: "WithName n a (lg_heap g) = (h', b) \<Longrightarrow> log_step g (g\<lparr>lg_heap := h'\<rparr>)"
| lev: "log_step g (g\<lparr>lg_heap := SetLevel v a (lg_heap g)\<rparr>)"
| outp: "log_step g (g\<lparr>lg_heap := SetOutput w a (lg_heap g)\<rparr>)"
| glev: "log_step g (SetGlobalLevel v ks g)"
| gout: "log_step g (SetGlobalOutput w ks g)"
| linit: "InitLogging mkdir cfg g = Return (g', r) \<Longrightarrow> log_step g g'"
| fac: "log_step g (SetLoggerFactory f g)"
| defs: "log_step g (SetDefaultOptions opts g)"

inductive log_reachable :: "log_globals \<Rightarrow> bool" where
  reach_init: "log_reachable log_init"
| reach_step: "log_reachable g \<Longrightarrow> log_step g g' \<Longrightarrow> log_reachable g'"

definition wf_logs :: "log_globals \<Rightarrow> bool" where
  "wf_logs g \<longleftrightarrow> wf_heap (lg_heap g) \<and> has_logger (lg_heap g) (lg_std g) \<and>
     (\<forall>n a. lg_loggers g n = Some a \<longrightarrow> has_logger (lg_heap g) a)"

lemma wf_logs_later:
  "wf_logs g \<Longrightarrow> wf_heap h \<Longrightarrow> dom (lh_loggers (lg_heap g)) \<subseteq> dom (lh_loggers h) \<Longrightarrow> wf_logs (g\<lparr>lg_heap := h\<rparr>)"
  unfolding wf_logs_def has_logger_def by simp blast

lemma wf_logs_std: "wf_logs g \<Longrightarrow> has_logger (lg_heap g) a \<Longrightarrow> wf_logs (g\<lparr>lg_std := a\<rparr>)"
  by (simp add: wf_logs_def)

lemma wf_logs_cache: "wf_logs g \<Longrightarrow> has_logger (lg_heap g) a \<Longrightarrow> wf_logs (g\<lparr>lg_loggers := (lg_loggers g)(n \<mapsto> a)\<rparr>)"
  by (simp add: wf_logs_def)

lemma wf_NewLogger:
  assumes "wf_logs g" "NewLogger opts g = Return (g', a)"
  shows "wf_logs g' \<and> has_logger (lg_heap g') a \<and> lg_loggers g' = lg_loggers g"
proof -
  obtain c h' where h': "NewZapLogger c (lg_heap g) = (h', a)" "g' = g\<lparr>lg_heap := h'\<rparr>"
    using assms(2) by (auto simp: NewLogger_def split: option.splits prod.splits)
  have "wf_heap (lg_heap g)" using assms(1) by (simp add: wf_logs_def)
  from wf_NewZapLogger [OF this h'(1)] wf_logs_later [OF assms(1), of h'] show ?thesis
    by (auto simp: h'(2) has_logger_def)
qed

lemma wf_on_all:
  assumes "wf_logs g" and f: "\<And>a h. wf_heap h \<Longrightarrow> wf_heap (f a h)" "\<And>a h. dom (lh_loggers (f a h)) = dom (lh_loggers h)"
  shows "wf_logs (on_all f ks g)"
proof -
  have "wf_heap (foldl (\<lambda>h name. case lg_loggers g name of None \<Rightarrow> h | Some l \<Rightarrow> f l h) h ks) \<and>
      dom (lh_loggers (foldl (\<lambda>h name. case lg_loggers g name of None \<Rightarrow> h | Some l \<Rightarrow> f l h) h ks)) = dom (lh_loggers h)"
    if "wf_heap h" for h
    using that by (induction ks arbitrary: h) (auto simp: f split: option.split)
  from this [of "f (lg_std g) (lg_heap g)"] show ?thesis
    unfolding on_all_def using assms(1) by (intro wf_logs_later) (simp_all add: f wf_logs_def)
qed

lemma wf_create_finish:
  assumes "wf_logs g" "create_finish n opts g = Return (g', a)"
  shows "wf_logs g'"
proof -
  obtain g1 where g1: "NewLogger (WithTag ''logger'' n # opts) g = Return (g1, a)" "g' = g1\<lparr>lg_loggers := (lg_loggers g1)(n \<mapsto> a)\<rparr>"
    using assms(2) by (auto simp: create_finish_def split: outcome.splits)
  from wf_NewLogger [OF assms(1) g1(1)] show ?thesis unfolding g1(2) by (intro wf_logs_cache) auto
qed

lemma wf_InitLogging:
  assumes "wf_logs g" "InitLogging mkdir cfg g = Return (g', r)"
  shows "wf_logs g'"
proof (cases "g' = g")
  case False
  then obtain c g1 a where g1: "NewLogger (init_options c) g = Return (g1, a)" "g' = g1\<lparr>lg_std := a\<rparr>"
    using assms(2) by (auto simp: InitLogging_def split: option.splits if_splits outcome.splits)
  from wf_NewLogger [OF assms(1) g1(1)] show ?thesis unfolding g1(2) by (intro wf_logs_std) auto
qed (use assms(1) in simp)

lemma wf_log_step: "log_step g g' \<Longrightarrow> wf_logs g \<Longrightarrow> wf_logs g'"
proof (induction rule: log_step.induct)
  case (newl opts g g' a)
  then show ?case using wf_NewLogger by blast
next
  case (create n opts g g' a)
  then show ?case by (auto simp: CreateLogger_def split: option.splits dest: wf_create_finish)
next
  case (created n opts g g' a)
  then show ?case using wf_create_finish by blast
next
  case (ctx c a g h' b)
  then show ?case using wf_WithContext [of "lg_heap g"] by (intro wf_logs_later) (auto simp: wf_logs_def)
next
  case (named n a g h' b)
  then show ?case using wf_WithName [of "lg_heap g"] by (intro wf_logs_later) (auto simp: wf_logs_def)
next
  case (lev g v a)
  then show ?case by (intro wf_logs_later wf_SetLevel) (auto simp: wf_logs_def)
next
  case (outp g w a)
  then show ?case by (intro wf_logs_later wf_SetOutput) (auto simp: wf_logs_def)
next
  case (glev g v ks)
  then show ?case unfolding SetGlobalLevel_def by (rule wf_on_all) (simp_all add: wf_SetLevel)
next
  case (gout g w ks)
  then show ?case unfolding SetGlobalOutput_def by (rule wf_on_all) (simp_all add: wf_SetOutput)
next
  case (linit mkdir cfg g g' r)
  then show ?case using wf_InitLogging by blast
next
  case (fac g f)
  then show ?case by (simp add: SetLoggerFactory_def wf_logs_def split: option.split)
next
  case (defs g opts)
  then show ?case by (simp add: SetDefaultOptions_def wf_logs_def split: option.split)
qed

lemma wf_log_init: "wf_logs log_init"
proof -
  let ?h = "\<lparr>lh_levels = Map.empty, lh_configs = Map.empty, lh_loggers = Map.empty, lh_next = 0\<rparr>"
  obtain h a where h: "NewZapLogger (Some (apply_options default_options)) ?h = (h, a)" by (metis prod.exhaust)
  have "wf_heap ?h" by (simp add: wf_heap_def)
  from wf_NewZapLogger [OF this h] h show ?thesis
    by (simp add: log_init_def wf_logs_def has_logger_def)
qed

lemma log_reachable_wf: "log_reachable g \<Longrightarrow> wf_logs g"
  by (induction rule: log_reachable.induct) (auto intro: wf_log_init wf_log_step)

lemma library_reads_level:
  assumes "wf_heap h" "lh_loggers h a = Some l"
  shows "lh_levels h (level_ref (zl_logger l)) = Some (zapLevel (level_of h a))"
  using wf_heapD [OF assms] by (auto simp: wf_logger_def level_of_def config_of_def assms(2))

section \<open>Properties\<close>

text \<open>
  In every reachable state the level that the library reads for a logger is the one of the logger's
  configuration, and a logger made from another by adding context, any number of times, shares its
  level with it: setting the level of either sets that of both.
\<close>

theorem log_levels_agree:
  assumes "log_reachable g" "lh_loggers (lg_heap g) a = Some l"
    and "derive WithContext cs a (lg_heap g) = (h', b)"
  shows "lh_levels (lg_heap g) (level_ref (zl_logger l)) = Some (zapLevel (level_of (lg_heap g) a)) \<and>
    level_of h' b = level_of (lg_heap g) a \<and>
    level_of (SetLevel v b h') a = v \<and> level_of (SetLevel v a h') b = v"
proof -
  have wf: "wf_heap (lg_heap g)" using log_reachable_wf [OF assms(1)] by (simp add: wf_logs_def)
  have "has_logger (lg_heap g) a" using assms(2) by (auto simp: has_logger_def)
  note shared = zap.derived_level_is_shared [OF wf this assms(3)]
  with library_reads_level [OF wf assms(2)] show ?thesis by simp
qed

theorem log_levels_agree_witness:
  "\<exists>h' b. derive WithContext [fmupd ''user'' ''ann'' fmempty] 0 (lg_heap log_init) = (h', b) \<and>
     level_of (SetLevel LevelDebug b h') 0 = LevelDebug"
proof -
  obtain h' b where d: "derive WithContext [fmupd ''user'' ''ann'' fmempty] 0 (lg_heap log_init) = (h', b)"
    by (metis prod.exhaust)
  obtain l where "lh_loggers (lg_heap log_init) 0 = Some l"
    by (auto simp: log_init_def NewZapLogger_def new_logger_def Let_def)
  from log_levels_agree [OF reach_init this d] d show ?thesis by blast
qed

lemma SetGlobalLevel_fold:
  assumes "wf_heap h" "\<forall>n \<in> set ks. \<forall>a. m n = Some a \<longrightarrow> has_logger h a" "has_logger h b"
  shows "level_of (foldl (\<lambda>h name. case m name of None \<Rightarrow> h | Some l \<Rightarrow> SetLevel v l h) h ks) b =
    (if \<exists>n \<in> set ks. \<exists>a. m n = Some a \<and> config_of h a = config_of h b then v else level_of h b)"
  using assms
proof (induction ks arbitrary: h)
  case (Cons n ks)
  show ?case
  proof (cases "m n")
    case None
    with Cons show ?thesis by simp
  next
    case (Some a)
    have a: "has_logger h a" using Cons.prems(2) Some by simp
    have same: "has_logger (SetLevel v a h) = has_logger h" "config_of (SetLevel v a h) = config_of h"
      by (auto simp: has_logger_def config_of_def)
    have "level_of (SetLevel v a h) b = (if config_of h b = config_of h a then v else level_of h b)"
      using level_of_SetLevel [OF Cons.prems(1) a Cons.prems(3)] .
    with Cons.IH [of "SetLevel v a h"] Cons.prems Some show ?thesis
      by (auto simp: same wf_SetLevel)
  qed
qed simp

text \<open>
  Setting the global level sets it for the standard logger, for every named logger and for every
  logger made from one of them, and changes the level of no other.
\<close>

theorem SetGlobalLevel_effect:
  assumes "log_reachable g" "enumerates ks (lg_loggers g)" "has_logger (lg_heap g) b"
  shows "level_of (lg_heap (SetGlobalLevel v ks g)) b =
    (if config_of (lg_heap g) b = config_of (lg_heap g) (lg_std g) \<or>
        (\<exists>n a. lg_loggers g n = Some a \<and> config_of (lg_heap g) a = config_of (lg_heap g) b)
     then v else level_of (lg_heap g) b)"
proof -
  have wf: "wf_heap (lg_heap g)" "has_logger (lg_heap g) (lg_std g)"
    "\<And>n a. lg_loggers g n = Some a \<Longrightarrow> has_logger (lg_heap g) a"
    using log_reachable_wf [OF assms(1)] by (auto simp: wf_logs_def)
  let ?h = "SetLevel v (lg_std g) (lg_heap g)"
  have same: "has_logger ?h = has_logger (lg_heap g)" "config_of ?h = config_of (lg_heap g)"
    by (auto simp: has_logger_def config_of_def)
  have "n \<in> set ks" if "lg_loggers g n = Some a" for n a using that assms(2) by auto
  with SetGlobalLevel_fold [of ?h ks "lg_loggers g" b v] wf level_of_SetLevel [OF wf(1,2) assms(3), of v] assms(3)
  show ?thesis by (auto simp: SetGlobalLevel_def on_all_def same wf_SetLevel)
qed

theorem SetGlobalLevel_effect_witness:
  "level_of (lg_heap (SetGlobalLevel LevelError [] log_init)) 0 = LevelError"
proof -
  have "enumerates [] (lg_loggers log_init)" "has_logger (lg_heap log_init) 0" "lg_std log_init = 0"
    by (simp_all add: log_init_def NewZapLogger_def new_logger_def Let_def enumerates_def has_logger_def)
  with SetGlobalLevel_effect [OF reach_init, of "[]" 0 LevelError] show ?thesis by simp
qed

text \<open>
  Changing the output of a logger loses the name and the default tags it was made with, among them
  the tag \<^verbatim>\<open>logger\<close> of a named logger; only the context added later is kept, and the encoder with its
  time format is replaced.
\<close>

fun given_fields :: "zap_logger \<Rightarrow> (string \<times> string) set" where
  "given_fields (ZapNew _ name) = (case name of None \<Rightarrow> {} | Some n \<Rightarrow> {(''logger'', n)})"
| "given_fields (ZapWith fs z) = given_fields z \<union> {(k, v). fmlookup fs k = Some v}"
| "given_fields (ZapNamed _ z) = given_fields z"

lemma SetOutput_forgets:
  assumes "wf_heap h" "lh_loggers h a = Some l"
  shows "\<exists>l'. lh_loggers (SetOutput (Some w) a h) a = Some l' \<and>
    given_fields (zl_logger l') = {(k, v). fmlookup (zl_context l) k = Some v} \<and> zl_context l' = zl_context l"
  using wf_heapD [OF assms] assms(2)
  by (auto simp: SetOutput_def wf_logger_def Let_def)

lemma created_logger_fields:
  assumes "create_finish n opts g = Return (g', a)" "lg_factory g = Some defaults"
  shows "\<exists>l. lh_loggers (lg_heap g') a = Some l \<and> zl_context l = fmempty \<and>
    {(k, v). fmlookup (lc_DefaultTags (apply_options (defaults @ WithTag ''logger'' n # opts))) k = Some v}
      \<subseteq> given_fields (zl_logger l)"
  using assms by (auto simp: create_finish_def NewLogger_def NewZapLogger_def new_logger_def Let_def)

text \<open>
  A named logger is made once: the second call returns the first logger and ignores its options. Two
  calls that both miss the cache make two loggers, and the cache keeps the later one.
\<close>

lemma CreateLogger_cached:
  assumes "CreateLogger n opts g = Return (g', a)"
  shows "CreateLogger n opts' g' = Return (g', a)"
  using assms by (auto simp: CreateLogger_def create_finish_def split: option.splits outcome.splits)

lemma CreateLogger_race:
  assumes "create_finish n opts g = Return (g1, a)" "create_finish n opts' g1 = Return (g2, b)"
  shows "a \<noteq> b \<and> lg_loggers g2 n = Some b"
  using assms
  by (auto simp: create_finish_def NewLogger_def NewZapLogger_def new_logger_def Let_def
      split: outcome.splits option.splits prod.splits)

text \<open>
  A request identifier that the HTTP package puts into a context is never seen by the logging
  package: the two packages declare key types of their own.
\<close>

lemma request_id_not_logged:
  "log_GetRequestID (http_WithRequestID rid ctx) = log_GetRequestID ctx \<and>
   http_GetRequestID (http_WithRequestID rid ctx) = rid \<and>
   context_fields (http_WithRequestID rid ctx) = context_fields ctx"
  by (simp add: log_GetRequestID_def http_WithRequestID_def http_GetRequestID_def context_fields_def GetTraceID_def)

text \<open>In the JSON format fields never replace time, level and message; the caller replaces a field of that name.\<close>

lemma json_data_lookup:
  "fmlookup (json_data tt e) k =
     (if k = ''caller'' \<and> le_Caller e \<noteq> [] then Some (le_Caller e)
      else if k = ''time'' then Some (tt (le_Timestamp e))
      else if k = ''level'' then Some (LevelToString (le_Level e))
      else if k = ''message'' then Some (le_Message e)
      else fmlookup (le_Fields e) k)"
  by (simp add: json_data_def Let_def)

text \<open>A client's factory makes \<^verbatim>\<open>NewLogger\<close> panic, and with it the initialisation.\<close>

lemma custom_factory_panics:
  assumes "lg_factory g = None"
  shows "NewLogger opts g = Panic ''interface conversion'' \<and>
    InitLogging None (Some cfg) g = Panic ''interface conversion''"
  using assms by (simp add: NewLogger_def InitLogging_def)

end
