(* ===== verification/MetaServer.thy ===== *)
theory MetaServer
  imports HttpNet ClusterMgr Namespace
begin

text \<open>
  The metadata server, \<^verbatim>\<open>server/server.go\<close>, over its store and its cluster manager, and the life cycle
  of the cluster manager: its \<^verbatim>\<open>Start\<close> and the end of its event loop.

  The cluster manager is an interface, which a client may provide; what the server relies on is the
  locale \<open>cluster_service\<close>, and the cluster manager of the repository is an instance of it. Goroutines
  are steps of their own: \<^verbatim>\<open>Start\<close> starts an event loop, which ends after \<^verbatim>\<open>Stop\<close>.

  The lemmas show what a start needs and leaves behind, that a failed start is final, and that a
  server that was stopped accepts a second start and then crashes.
\<close>

section \<open>The life of a cluster manager\<close>

record 'c cluster_life =
  lf_manager :: "'c cluster_manager"
  lf_loops :: nat
  lf_eventDone_closed :: bool

definition new_life :: "'c cluster_manager \<Rightarrow> 'c cluster_life" where
  "new_life m = \<lparr>lf_manager = m, lf_loops = 0, lf_eventDone_closed = False\<rparr>"

text \<open>The managers of heartbeats, election and rebalancing only start goroutines and return nil.\<close>

definition Cluster_Start :: "'c cluster_life \<Rightarrow> 'c cluster_life \<times> go_error option" where
  "Cluster_Start c = (c\<lparr>lf_loops := Suc (lf_loops c)\<rparr>, None)"

text \<open>The end of an event loop, possible once the context is cancelled: its deferred close.\<close>

definition event_loop_exit :: "'c cluster_life \<Rightarrow> 'c cluster_life outcome option" where
  "event_loop_exit c =
     (if lf_loops c = 0 \<or> \<not> cm_cancelled (lf_manager c) then None
      else if lf_eventDone_closed c then Some (Panic ''close of closed channel'')
      else Some (Return (c\<lparr>lf_loops := lf_loops c - 1, lf_eventDone_closed := True\<rparr>)))"

definition life_Stop :: "'c cluster_life \<Rightarrow> ('c cluster_life \<times> go_error option) outcome" where
  "life_Stop c =
     (case Cluster_Stop (lf_manager c) of
        Panic p \<Rightarrow> Panic p
      | Return m \<Rightarrow> Return (c\<lparr>lf_manager := m\<rparr>, None))"

section \<open>The server\<close>

record 'c MetadataServer =
  se_running :: bool
  se_store :: MemoryStore
  se_cluster :: 'c
  se_http :: http_server

text \<open>
  \<open>cfg\<close>: node, host and port, peers and the two timeouts. \<open>given_store\<close> and \<open>given_cluster\<close> are what the
  options set, and \<open>core\<close> and \<open>newCluster\<close> the results of making the core and the default cluster
  manager.
\<close>

definition cluster_config :: "NodeID \<Rightarrow> string list \<Rightarrow> duration \<Rightarrow> duration \<Rightarrow> ClusterConfig" where
  "cluster_config nodeID peers election heartbeat =
     \<lparr>cc_NodeID = nodeID, cc_Peers = peers, cc_ElectionTimeout = election, cc_HeartbeatTimeout = heartbeat,
      cc_HeartbeatInterval = 0, cc_SuspectTimeout = 0, cc_DeadTimeout = 0, cc_CleanupInterval = 0,
      cc_RebalanceEvaluationInterval = 0, cc_ImbalanceThreshold = 0, cc_MaxConcurrentMigrations = 0,
      cc_MinMigrationInterval = 0, cc_MigrationTimeout = 0\<rparr>"

definition server_NewServer ::
  "(ClusterConfig \<Rightarrow> go_error option outcome) \<Rightarrow> (ClusterConfig \<Rightarrow> (go_error + 'c) outcome) \<Rightarrow> MemoryStore option \<Rightarrow> 'c option \<Rightarrow>
   (NodeID \<times> string \<times> int \<times> string list \<times> duration \<times> duration) option \<Rightarrow> (go_error + 'c MetadataServer) outcome" where
  "server_NewServer core newCluster given_store given_cluster cfg =
     (case cfg of
        None \<Rightarrow> Return (Inl (New InvalidArgument ''config must not be nil''))
      | Some (nodeID, host, port, peers, election, heartbeat) \<Rightarrow>
          if nodeID = [] then Return (Inl (New InvalidArgument ''node id must not be empty''))
          else
            let clusterCfg = cluster_config nodeID peers election heartbeat
            in case core clusterCfg of
                 Panic why \<Rightarrow> Panic why
               | Return (Some err) \<Rightarrow> Return (Inl (Wrap (Some err) Internal ''failed to initialize meta core''))
               | Return None \<Rightarrow>
                   let store = (case given_store of Some s \<Rightarrow> s | None \<Rightarrow> NewMemoryStore)
                   in case (case given_cluster of Some c \<Rightarrow> Return (Inr c) | None \<Rightarrow> newCluster clusterCfg) of
                        Panic why \<Rightarrow> Panic why
                      | Return (Inl err) \<Rightarrow> Return (Inl (Wrap (Some err) Internal ''initialisation of the cluster manager failed''))
                      | Return (Inr c) \<Rightarrow>
                          Return (Inr \<lparr>se_running = False, se_store = store, se_cluster = c, se_http = metaserver_http host port\<rparr>))"

text \<open>
  The core and the cluster manager of the repository. \<open>text_of\<close> is the error with its message, \<open>st\<close> the
  start of a node by the raft library.
\<close>

definition own_cluster ::
  "(cluster_error \<Rightarrow> go_error) \<Rightarrow> (etcd_Config \<Rightarrow> 64 word list \<Rightarrow> string option) \<Rightarrow> 'c \<Rightarrow> gotime \<Rightarrow> int \<Rightarrow> ClusterConfig \<Rightarrow>
   (go_error + 'c cluster_life) outcome" where
  "own_cluster text_of st empty_conf now rnd cfg =
     (case Cluster_NewManager st empty_conf now rnd cfg of
        Panic why \<Rightarrow> Panic why
      | Return (Inl e) \<Rightarrow> Return (Inl (text_of e))
      | Return (Inr m) \<Rightarrow> Return (Inr (new_life m)))"

definition own_core ::
  "(cluster_error \<Rightarrow> go_error) \<Rightarrow> (etcd_Config \<Rightarrow> 64 word list \<Rightarrow> string option) \<Rightarrow> 'c \<Rightarrow> gotime \<Rightarrow> int \<Rightarrow> ClusterConfig \<Rightarrow>
   go_error option outcome" where
  "own_core text_of st empty_conf now rnd cfg =
     (if cc_NodeID cfg = [] then Return (NewMetaCore [] None)
      else case own_cluster text_of st empty_conf now rnd cfg of
             Panic why \<Rightarrow> Panic why
           | Return (Inl err) \<Rightarrow> Return (NewMetaCore (cc_NodeID cfg) (Some err))
           | Return (Inr _) \<Rightarrow> Return (NewMetaCore (cc_NodeID cfg) None))"

text \<open>\<open>start\<close> and \<open>stop\<close> are the methods of the cluster manager. The HTTP server is started in a goroutine.\<close>

definition MetadataServer_Start ::
  "('c \<Rightarrow> 'c \<times> go_error option) \<Rightarrow> gotime \<Rightarrow> gotime \<Rightarrow> 'c MetadataServer \<Rightarrow> 'c MetadataServer \<times> go_error option" where
  "MetadataServer_Start start now1 now2 s =
     (if se_running s then (s, Some (New AlreadyExists ''server is already running''))
      else case Initialize now1 now2 (se_store s) of
             (store, Some err) \<Rightarrow> (s\<lparr>se_store := store\<rparr>, Some (Wrap (Some err) Internal ''initialisation of the store failed''))
           | (store, None) \<Rightarrow>
               (case start (se_cluster s) of
                  (c, Some err) \<Rightarrow> (s\<lparr>se_store := store, se_cluster := c\<rparr>, Some (Wrap (Some err) Internal ''start of the cluster failed''))
                | (c, None) \<Rightarrow> (s\<lparr>se_store := store, se_cluster := c, se_running := True\<rparr>, None)))"

text \<open>Failures to stop the HTTP server, the cluster manager and the store are only logged.\<close>

definition MetadataServer_Stop ::
  "('c \<Rightarrow> ('c \<times> go_error option) outcome) \<Rightarrow> 'c MetadataServer \<Rightarrow> ('c MetadataServer \<times> go_error option) outcome" where
  "MetadataServer_Stop stop s =
     (if \<not> se_running s then Return (s, None)
      else case stop (se_cluster s) of
             Panic p \<Rightarrow> Panic p
           | Return (c, _) \<Rightarrow>
               Return (s\<lparr>se_cluster := c, se_store := fst (Close (se_store s)), se_running := False\<rparr>, None))"

definition IsRunning :: "'c MetadataServer \<Rightarrow> bool" where
  "IsRunning s = se_running s"

section \<open>What the server relies on\<close>

locale cluster_service =
  fixes fresh :: "'c \<Rightarrow> bool" and start :: "'c \<Rightarrow> 'c \<times> go_error option"
    and stop :: "'c \<Rightarrow> ('c \<times> go_error option) outcome" and started :: "'c \<Rightarrow> bool"
  assumes fresh_starts: "fresh c \<Longrightarrow> \<exists>c'. start c = (c', None) \<and> started c'"
    and started_stops: "started c \<Longrightarrow> \<exists>c' e. stop c = Return (c', e)"
begin

text \<open>One life of a server: it starts with a root directory and stops with an empty store.\<close>

lemma one_life:
  assumes "\<not> se_running s" "\<not> ms_initialized (se_store s)" "fresh (se_cluster s)"
  shows "\<exists>s1 s2. MetadataServer_Start start now1 now2 s = (s1, None) \<and> IsRunning s1 \<and> started (se_cluster s1) \<and>
    ms_directories (se_store s1) ''/'' \<noteq> None \<and>
    MetadataServer_Start start t1 t2 s1 = (s1, Some (New AlreadyExists ''server is already running'')) \<and>
    MetadataServer_Stop stop s1 = Return (s2, None) \<and> \<not> IsRunning s2 \<and> \<not> ms_initialized (se_store s2) \<and>
    ms_files (se_store s2) = Map.empty \<and> ms_directories (se_store s2) = Map.empty \<and>
    MetadataServer_Stop stop s2 = Return (s2, None)"
proof -
  obtain c' where c': "start (se_cluster s) = (c', None)" "started c'" using fresh_starts [OF assms(3)] by blast
  obtain c'' e where "stop c' = Return (c'', e)" using started_stops [OF c'(2)] by blast
  with assms c' show ?thesis
    by (auto simp: MetadataServer_Start_def MetadataServer_Stop_def IsRunning_def Initialize_def Close_def)
qed

end

lemma NewManager_open:
  assumes "Cluster_NewManager st ec now rnd cfg = Return (Inr m)"
  shows "\<not> cm_cancelled m \<and> \<not> cm_leaderChangeCh_closed m \<and> \<not> em_receiveC_closed (cm_electionMgr m)"
proof -
  obtain em where em: "Election_NewManager st ec now rnd (election_cfg cfg) = Return (Inr em)" "cm_electionMgr m = em"
      "\<not> cm_cancelled m" "\<not> cm_leaderChangeCh_closed m"
    using assms by (auto simp: Cluster_NewManager_def Let_def split: if_splits outcome.splits sum.splits)
  moreover have "\<not> em_receiveC_closed em"
    using em(1) by (auto simp: Election_NewManager_def resetElectionTimer_def Let_def split: if_splits outcome.splits sum.splits option.splits)
  ultimately show ?thesis by simp
qed

text \<open>A manager that was neither started nor stopped, and one that runs.\<close>

definition fresh_life :: "'c cluster_life \<Rightarrow> bool" where
  "fresh_life c \<longleftrightarrow> lf_loops c = 0 \<and> \<not> lf_eventDone_closed c \<and> \<not> cm_leaderChangeCh_closed (lf_manager c) \<and>
     \<not> em_receiveC_closed (cm_electionMgr (lf_manager c))"

definition started_life :: "'c cluster_life \<Rightarrow> bool" where
  "started_life c \<longleftrightarrow> lf_loops c = 1 \<and> \<not> lf_eventDone_closed c \<and> \<not> cm_leaderChangeCh_closed (lf_manager c) \<and>
     \<not> em_receiveC_closed (cm_electionMgr (lf_manager c))"

lemma life_Stop_started:
  assumes "started_life c"
  shows "\<exists>c'. life_Stop c = Return (c', None) \<and> cm_cancelled (lf_manager c') \<and> cm_leaderChangeCh_closed (lf_manager c') \<and>
    lf_loops c' = 1 \<and> \<not> lf_eventDone_closed c'"
  using assms by (auto simp: started_life_def life_Stop_def Cluster_Stop_def Election_Stop_def Let_def)

interpretation own: cluster_service fresh_life Cluster_Start life_Stop started_life
proof unfold_locales
  fix c :: "'c cluster_life"
  show "fresh_life c \<Longrightarrow> \<exists>c'. Cluster_Start c = (c', None) \<and> started_life c'"
    by (simp add: fresh_life_def started_life_def Cluster_Start_def)
  show "started_life c \<Longrightarrow> \<exists>c' e. life_Stop c = Return (c', e)"
    using life_Stop_started by blast
qed

lemma new_life_fresh: "Cluster_NewManager st ec now rnd cfg = Return (Inr m) \<Longrightarrow> fresh_life (new_life m)"
  using NewManager_open by (fastforce simp: fresh_life_def new_life_def)

section \<open>Properties\<close>

text \<open>
  A server whose cluster manager fails to start can never be started again, and stopping it does
  not help: its store stays initialised, and every later start fails on that, whatever the cluster
  manager would answer.
\<close>

theorem failed_start_is_final:
  assumes "\<not> se_running s" "\<not> ms_initialized (se_store s)" "start (se_cluster s) = (c, Some e)"
    "MetadataServer_Start start now1 now2 s = (s1, err)"
  shows "err \<noteq> None \<and> MetadataServer_Stop stop s1 = Return (s1, None) \<and>
    (\<forall>start' n1 n2. MetadataServer_Start start' n1 n2 s1 =
       (s1, Some (Wrap (Some (New AlreadyExists ''store already initialized'')) Internal ''initialisation of the store failed'')))"
  using assms
  by (auto simp: MetadataServer_Start_def MetadataServer_Stop_def Initialize_def)

theorem failed_start_is_final_witness:
  "let s = \<lparr>se_running = False, se_store = NewMemoryStore, se_cluster = (), se_http = metaserver_http ''h'' 80\<rparr>;
       (s1, err) = MetadataServer_Start (\<lambda>c. (c, Some (PlainErr ''no peers''))) 1 2 s
   in err \<noteq> None \<and> snd (MetadataServer_Start (\<lambda>c. (c, None)) 3 4 s1) \<noteq> None"
proof -
  let ?s = "\<lparr>se_running = False, se_store = NewMemoryStore, se_cluster = (), se_http = metaserver_http ''h'' 80\<rparr>"
  let ?start = "\<lambda>c. (c, Some (PlainErr ''no peers''))"
  obtain s1 err where r: "MetadataServer_Start ?start 1 2 ?s = (s1, err)" by (metis prod.exhaust)
  have "\<not> se_running ?s" "\<not> ms_initialized (se_store ?s)" "?start (se_cluster ?s) = ((), Some (PlainErr ''no peers''))"
    by (simp_all add: NewMemoryStore_def)
  from failed_start_is_final [OF this r] r show ?thesis by (simp add: Let_def)
qed

text \<open>
  (C38) The life of a server with the repository's own cluster manager. It starts with a root directory,
  refuses a second start while it runs, and stops with an empty store. But it cannot be used again:
  a second start after the event loop has ended is accepted, the server says that it runs, and the
  new event loop, which finds its context cancelled, ends by closing a closed channel; stopping it
  panics as well.
\<close>

theorem restarted_server_crashes:
  assumes "Cluster_NewManager st ec now rnd cfg = Return (Inr m)"
    and "\<not> se_running s" "\<not> ms_initialized (se_store s)" "se_cluster s = new_life m"
  shows "\<exists>s1 s2 c s3. MetadataServer_Start Cluster_Start now1 now2 s = (s1, None) \<and> IsRunning s1 \<and>
    ms_directories (se_store s1) ''/'' \<noteq> None \<and>
    MetadataServer_Start Cluster_Start t1 t2 s1 = (s1, Some (New AlreadyExists ''server is already running'')) \<and>
    MetadataServer_Stop life_Stop s1 = Return (s2, None) \<and> \<not> IsRunning s2 \<and>
    ms_files (se_store s2) = Map.empty \<and> ms_directories (se_store s2) = Map.empty \<and>
    event_loop_exit (se_cluster s2) = Some (Return c) \<and>
    MetadataServer_Start Cluster_Start now3 now4 (s2\<lparr>se_cluster := c\<rparr>) = (s3, None) \<and> IsRunning s3 \<and>
    event_loop_exit (se_cluster s3) = Some (Panic ''close of closed channel'') \<and>
    MetadataServer_Stop life_Stop s3 = Panic ''close of closed channel''"
proof -
  have fresh: "fresh_life (se_cluster s)" using new_life_fresh [OF assms(1)] assms(4) by simp
  from own.one_life [OF assms(2,3) fresh, of now1 now2 t1 t2] obtain s1 s2 where
    s1: "MetadataServer_Start Cluster_Start now1 now2 s = (s1, None)" "IsRunning s1" "started_life (se_cluster s1)"
      "ms_directories (se_store s1) ''/'' \<noteq> None"
      "MetadataServer_Start Cluster_Start t1 t2 s1 = (s1, Some (New AlreadyExists ''server is already running''))" and
    s2: "MetadataServer_Stop life_Stop s1 = Return (s2, None)" "\<not> IsRunning s2" "\<not> ms_initialized (se_store s2)"
      "ms_files (se_store s2) = Map.empty" "ms_directories (se_store s2) = Map.empty"
    by blast
  from life_Stop_started [OF s1(3)] obtain c' where
    c': "life_Stop (se_cluster s1) = Return (c', None)" "cm_cancelled (lf_manager c')" "cm_leaderChangeCh_closed (lf_manager c')"
      "lf_loops c' = 1" "\<not> lf_eventDone_closed c'" by blast
  have sc: "se_cluster s2 = c'" using s1(2) s2(1) c'(1) by (auto simp: MetadataServer_Stop_def IsRunning_def)
  define c where "c = c'\<lparr>lf_loops := 0, lf_eventDone_closed := True\<rparr>"
  have "event_loop_exit (se_cluster s2) = Some (Return c)" using c' by (simp add: event_loop_exit_def sc c_def)
  moreover obtain s3 where "MetadataServer_Start Cluster_Start now3 now4 (s2\<lparr>se_cluster := c\<rparr>) = (s3, None)" "se_running s3"
      "se_cluster s3 = c\<lparr>lf_loops := 1\<rparr>"
    using s2(2,3) by (auto simp: MetadataServer_Start_def Initialize_def Cluster_Start_def IsRunning_def c_def)
  moreover have "event_loop_exit (c\<lparr>lf_loops := 1\<rparr>) = Some (Panic ''close of closed channel'')"
    "life_Stop (c\<lparr>lf_loops := 1\<rparr>) = Panic ''close of closed channel''"
    using c' by (simp_all add: event_loop_exit_def life_Stop_def Cluster_Stop_def c_def)
  ultimately show ?thesis
    using s1 s2 by (intro exI [of _ s1] exI [of _ s2] exI [of _ c] exI [of _ s3])
      (simp add: IsRunning_def MetadataServer_Stop_def)
qed

theorem restarted_server_crashes_witness:
  "\<exists>s1. MetadataServer_Start Cluster_Start 1 2
     \<lparr>se_running = False, se_store = NewMemoryStore, se_cluster = new_life cm_demo0, se_http = metaserver_http ''h'' 80\<rparr> = (s1, None)"
proof -
  let ?s = "\<lparr>se_running = False, se_store = NewMemoryStore, se_cluster = new_life cm_demo0, se_http = metaserver_http ''h'' 80\<rparr>"
  have "\<not> se_running ?s" "\<not> ms_initialized (se_store ?s)" "se_cluster ?s = new_life cm_demo0"
    by (simp_all add: NewMemoryStore_def)
  from restarted_server_crashes [OF cm_demo_new this, of 1 2] show ?thesis by blast
qed

lemma Cluster_NewManager_outcome:
  assumes "cc_NodeID cfg \<noteq> []" "0 \<le> cc_ElectionTimeout cfg"
  shows "case ParseUint (cc_NodeID cfg) of
      Inl e \<Rightarrow> Cluster_NewManager st ec now rnd cfg = Return (Inl (ElectionSetup (ParseFailed e)))
    | Inr n \<Rightarrow>
        let rc = raft_config_of (with_defaults (election_cfg cfg)) n
        in case st (ToEtcdConfig rc) (rc_Peers rc) of
             Some why \<Rightarrow> Cluster_NewManager st ec now rnd cfg = Panic why
           | None \<Rightarrow> \<exists>m. Cluster_NewManager st ec now rnd cfg = Return (Inr m)"
proof -
  have t: "0 < ec_ElectionTimeout (with_defaults (election_cfg cfg))"
    "ec_NodeID (with_defaults (election_cfg cfg)) = cc_NodeID cfg" "ec_NodeID (election_cfg cfg) = cc_NodeID cfg"
    using assms(2) by (auto simp: with_defaults_def election_cfg_def Let_def durations)
  obtain rb where rb: "Rebalance_NewManager (Some (rebalance_cfg cfg)) = Return rb"
    by (auto simp: Rebalance_NewManager_def Let_def)
  show ?thesis
    using assms(1) t rb
    by (auto simp: Cluster_NewManager_def Election_NewManager_def resetElectionTimer_def Let_def
        split: sum.split option.split)
qed

end
