(* ===== verification/RepoImpl.thy ===== *)
theory RepoImpl
  imports Database
begin

text \<open>
  The repositories of directories and files over the database layer,
  \<^verbatim>\<open>core/metadata/namespace/repository_impl.go\<close>.

  The file names fields of \<^verbatim>\<open>models.DirectoryMetadata\<close> and \<^verbatim>\<open>models.FileMetadata\<close> (\<^verbatim>\<open>Deleted\<close>,
  \<^verbatim>\<open>CreatedTime\<close>, \<^verbatim>\<open>ModifiedTime\<close>, \<^verbatim>\<open>Chunks\<close>, \<^verbatim>\<open>RawChunksData\<close>) and a method of the query builder
  (\<^verbatim>\<open>AddArg\<close>) that the repository does not declare. It is read for the structs it is written for: the
  records below have the fields it names, and \<open>AddArg\<close> is a parameter. Also parameters are the driver,
  which answers a statement, the JSON encoding of the chunks, and the layout of a time as text.

  A destination of \<^verbatim>\<open>Scan\<close> is a pointer to a variable: here a function that converts a column and
  stores it in the struct. The conversions are those of \<^verbatim>\<open>database/sql\<close>.

  The lemmas show that on tables laid out the way the scans expect, what was written is read back,
  and that on the tables of the schema nothing is ever read and every statement but one names a
  column that is not there.
\<close>

section \<open>Values and conversions\<close>

text \<open>What a driver hands over for a column; text stands for \<^verbatim>\<open>string\<close> and \<^verbatim>\<open>[]byte\<close>.\<close>

datatype sql_value = SNull | SInt int | SText string | SBool bool | STime gotime

type_synonym row = "sql_value list"

definition err_convert :: go_error where
  "err_convert = PlainErr ''sql: converting driver.Value: invalid syntax''"

definition bool_text :: "bool \<Rightarrow> string" where
  "bool_text b = (if b then ''true'' else ''false'')"

definition convert_text :: "(gotime \<Rightarrow> string) \<Rightarrow> sql_value \<Rightarrow> go_error + string" where
  "convert_text fmt v =
     (case v of
        SNull \<Rightarrow> Inl err_convert
      | SInt i \<Rightarrow> Inr (dec_int i)
      | SText t \<Rightarrow> Inr t
      | SBool b \<Rightarrow> Inr (bool_text b)
      | STime t \<Rightarrow> Inr (fmt t))"

text \<open>An integer destination of \<open>bits\<close> bits parses the decimal text of the column.\<close>

definition ParseInt :: "nat \<Rightarrow> string \<Rightarrow> go_error + int" where
  "ParseInt bits s =
     (case Atoi s of
        Some n \<Rightarrow> if - (2 ^ (bits - 1)) \<le> n \<and> n < 2 ^ (bits - 1) then Inr n else Inl err_convert
      | None \<Rightarrow> Inl err_convert)"

definition convert_int :: "nat \<Rightarrow> sql_value \<Rightarrow> go_error + int" where
  "convert_int bits v =
     (case v of
        SInt i \<Rightarrow> ParseInt bits (dec_int i)
      | SText t \<Rightarrow> ParseInt bits t
      | SBool b \<Rightarrow> ParseInt bits (bool_text b)
      | _ \<Rightarrow> Inl err_convert)"

definition convert_bool :: "sql_value \<Rightarrow> go_error + bool" where
  "convert_bool v =
     (case v of
        SBool b \<Rightarrow> Inr b
      | SText t \<Rightarrow> (case ParseBool t of Some b \<Rightarrow> Inr b | None \<Rightarrow> Inl err_convert)
      | SInt i \<Rightarrow> if i = 1 then Inr True else if i = 0 then Inr False else Inl err_convert
      | _ \<Rightarrow> Inl err_convert)"

definition convert_time :: "sql_value \<Rightarrow> go_error + gotime" where
  "convert_time v = (case v of STime t \<Rightarrow> Inr t | _ \<Rightarrow> Inl err_convert)"

text \<open>A destination of type \<^verbatim>\<open>[]byte\<close>: null is the nil slice.\<close>

definition convert_bytes :: "(gotime \<Rightarrow> string) \<Rightarrow> sql_value \<Rightarrow> go_error + string option" where
  "convert_bytes fmt v = (case v of SNull \<Rightarrow> Inr None | _ \<Rightarrow> map_sum id Some (convert_text fmt v))"

section \<open>Scanning into a struct\<close>

type_synonym 's dest_ptr = "sql_value \<Rightarrow> 's \<Rightarrow> go_error + 's"

definition into :: "(sql_value \<Rightarrow> go_error + 'a) \<Rightarrow> ('a \<Rightarrow> 's \<Rightarrow> 's) \<Rightarrow> 's dest_ptr" where
  "into conv upd v s = (case conv v of Inl e \<Rightarrow> Inl e | Inr a \<Rightarrow> Inr (upd a s))"

fun assign_all :: "nat \<Rightarrow> 's dest_ptr list \<Rightarrow> row \<Rightarrow> 's \<Rightarrow> 's \<times> go_error option" where
  "assign_all i (d # ds) (v # vs) s =
     (case d v s of
        Inl e \<Rightarrow> (s, Some (Errorf_w (''sql: Scan error on column index '' @ dec i) e))
      | Inr s \<Rightarrow> assign_all (Suc i) ds vs s)"
| "assign_all i _ _ s = (s, None)"

text \<open>\<^verbatim>\<open>Rows.Scan\<close>: as many destinations as columns, then one conversion after the other; what was
  stored before one fails stays stored.\<close>

definition Scan :: "'s dest_ptr list \<Rightarrow> row \<Rightarrow> 's \<Rightarrow> 's \<times> go_error option" where
  "Scan ds vals s =
     (if length vals \<noteq> length ds then (s, Some (scan_count_error (length vals) (length ds)))
      else assign_all 0 ds vals s)"

section \<open>The structs\<close>

record dir_entity =
  de_DirID :: int
  de_Name :: string
  de_Path :: string
  de_ParentID :: int
  de_Owner :: string
  de_Group :: string
  de_Mode :: int
  de_Deleted :: bool
  de_CreatedTime :: gotime
  de_ModifiedTime :: gotime

record 'c file_entity =
  fe_FileID :: int
  fe_Name :: string
  fe_DirID :: int
  fe_Size :: int
  fe_Chunks :: 'c
  fe_RawChunksData :: "string option"
  fe_MimeType :: string
  fe_Owner :: string
  fe_Group :: string
  fe_Mode :: int
  fe_Deleted :: bool
  fe_CreatedTime :: gotime
  fe_ModifiedTime :: gotime

text \<open>An argument of type \<^verbatim>\<open>interface{}\<close>: a pointer to one of the structs, possibly nil, or another value.\<close>

datatype 'c any_entity =
    PtrDir "dir_entity option"
  | PtrFile "'c file_entity option"
  | OtherEntity

section \<open>Repositories\<close>

record repo_impl =
  ri_baseTable :: string
  ri_db :: db_handle
  ri_table :: string

definition NewDirectoryRepository :: "db_handle \<Rightarrow> repo_impl" where
  "NewDirectoryRepository db = \<lparr>ri_baseTable = ''directories'', ri_db = db, ri_table = ''directories''\<rparr>"

definition NewFileRepository :: "db_handle \<Rightarrow> repo_impl" where
  "NewFileRepository db = \<lparr>ri_baseTable = ''files'', ri_db = db, ri_table = ''files''\<rparr>"

text \<open>
  \<open>qrow\<close> answers a query for one row, \<open>qrows\<close> one for several: the error of the query, or the rows and
  what \<^verbatim>\<open>rows.Err\<close> returns after the last one. The destination of \<^verbatim>\<open>FindOne\<close> is a pointer to a struct
  with its fields, or something else.
\<close>

type_synonym 'r query = "sql_value statement \<Rightarrow> go_error + 'r"

definition repo_FindOne ::
  "repo_impl \<Rightarrow> row query \<Rightarrow> 's dest_ptr list option \<Rightarrow> string \<Rightarrow> sql_value list \<Rightarrow> 's \<Rightarrow> ('s \<times> go_error option) outcome" where
  "repo_FindOne r qrow dest cond args s =
     (case QueryRowContext (ri_db r) (qrow (Repository_FindOne (ri_baseTable r) cond args)) of
        Panic p \<Rightarrow> Panic p
      | Return row \<Rightarrow>
          Return (case dest of
             None \<Rightarrow> (s, Some (PlainErr ''destination must be a pointer to a struct''))
           | Some ds \<Rightarrow> (case row of Inl err \<Rightarrow> (s, Some err) | Inr vals \<Rightarrow> Scan ds vals s)))"

definition scanRows :: "row list \<times> go_error option \<Rightarrow> 's \<Rightarrow> 's \<times> go_error option" where
  "scanRows rows dest = (dest, None)"

definition repo_Find ::
  "(sql_value \<Rightarrow> sql_value QueryBuilder \<Rightarrow> sql_value QueryBuilder) \<Rightarrow> repo_impl \<Rightarrow> (row list \<times> go_error option) query \<Rightarrow>
   string \<Rightarrow> sql_value list \<Rightarrow> 's \<Rightarrow> 's \<times> go_error option" where
  "repo_Find AddArg r qrows query args dest =
     (let qb = fold AddArg args (Where query [] (NewQueryBuilder (ri_table r)))
      in case QueryContext (ri_db r) (qrows (BuildSelect qb)) of
           Inl err \<Rightarrow> (dest, Some (Errorf_w ''query failed'' err))
         | Inr rows \<Rightarrow> scanRows rows dest)"

definition repo_FindAll ::
  "(sql_value \<Rightarrow> sql_value QueryBuilder \<Rightarrow> sql_value QueryBuilder) \<Rightarrow> repo_impl \<Rightarrow> (row list \<times> go_error option) query \<Rightarrow>
   string \<Rightarrow> sql_value list \<Rightarrow> 's \<Rightarrow> 's \<times> go_error option" where
  "repo_FindAll AddArg r qrows query args dest = repo_Find AddArg r qrows query args dest"

text \<open>
  A statement is executed in the given transaction, if there is one, and else on the database. The
  driver changes the database \<open>'d\<close> and answers; a transaction that has ended is not asked.
\<close>

type_synonym ('d, 'r) driver = "sql_value statement \<Rightarrow> 'd \<Rightarrow> (go_error + 'r) \<times> 'd"

definition exec_on ::
  "sql_status option \<Rightarrow> db_handle \<Rightarrow> ('d, 'r) driver \<Rightarrow> sql_value statement \<Rightarrow> 'd \<Rightarrow> (go_error + 'r) \<times> 'd" where
  "exec_on tx db drv st d =
     (case tx of
        Some s \<Rightarrow> if s \<noteq> SqlOpen then (Inl ErrTxDone, d) else drv st d
      | None \<Rightarrow>
          if db = NilDB then (Inl err_no_db, d)
          else case drv st d of (answer, d) \<Rightarrow> (ExecContext db answer, d))"

definition exec_or_fail ::
  "string \<Rightarrow> sql_status option \<Rightarrow> db_handle \<Rightarrow> ('d, 'r) driver \<Rightarrow> sql_value statement \<Rightarrow> 'd \<Rightarrow> (go_error + 'r) outcome \<times> 'd" where
  "exec_or_fail msg tx db drv st d =
     (case exec_on tx db drv st d of
        (Inl err, d) \<Rightarrow> (Return (Inl (Errorf_w msg err)), d)
      | (Inr result, d) \<Rightarrow> (Return (Inr result), d))"

definition nil_deref :: string where
  "nil_deref = ''invalid memory address or nil pointer dereference''"

section \<open>Directories\<close>

definition Directory_FindByID ::
  "repo_impl \<Rightarrow> row query \<Rightarrow> int \<Rightarrow> 's dest_ptr list option \<Rightarrow> 's \<Rightarrow> ('s \<times> go_error option) outcome" where
  "Directory_FindByID r qrow dirID dest s = repo_FindOne r qrow dest ''dir_id = ?'' [SInt dirID] s"

definition dir_insert :: string where
  "dir_insert = ''INSERT INTO directories (name, path, parent_id, owner, group_name, permission_mode, deleted, created_time, modified_time) VALUES (?, ?, ?, ?, ?, ?, ?, ?, ?)''"

definition dir_insert_args :: "dir_entity \<Rightarrow> sql_value list" where
  "dir_insert_args dir =
     [SText (de_Name dir), SText (de_Path dir), SInt (de_ParentID dir), SText (de_Owner dir), SText (de_Group dir),
      SInt (de_Mode dir), SBool (de_Deleted dir), STime (de_CreatedTime dir), STime (de_ModifiedTime dir)]"

definition Directory_Create ::
  "repo_impl \<Rightarrow> ('d, 'r) driver \<Rightarrow> sql_status option \<Rightarrow> 'c any_entity \<Rightarrow> 'd \<Rightarrow> (go_error + 'r) outcome \<times> 'd" where
  "Directory_Create r drv tx entity d =
     (case entity of
        PtrDir None \<Rightarrow> (Panic nil_deref, d)
      | PtrDir (Some dir) \<Rightarrow> exec_or_fail ''creation of the directory failed'' tx (ri_db r) drv (dir_insert, dir_insert_args dir) d
      | _ \<Rightarrow> (Return (Inl (PlainErr ''the entity is not a DirectoryMetadata'')), d))"

definition dir_update :: string where
  "dir_update = ''UPDATE directories SET name = ?, path = ?, parent_id = ?, owner = ?, group_name = ?, permission_mode = ?, deleted = ?, modified_time = ? WHERE dir_id = ?''"

definition dir_update_args :: "dir_entity \<Rightarrow> sql_value list" where
  "dir_update_args dir =
     [SText (de_Name dir), SText (de_Path dir), SInt (de_ParentID dir), SText (de_Owner dir), SText (de_Group dir),
      SInt (de_Mode dir), SBool (de_Deleted dir), STime (de_ModifiedTime dir), SInt (de_DirID dir)]"

definition Directory_Update ::
  "repo_impl \<Rightarrow> ('d, 'r) driver \<Rightarrow> sql_status option \<Rightarrow> 'c any_entity \<Rightarrow> 'd \<Rightarrow> (go_error + 'r) outcome \<times> 'd" where
  "Directory_Update r drv tx entity d =
     (case entity of
        PtrDir None \<Rightarrow> (Panic nil_deref, d)
      | PtrDir (Some dir) \<Rightarrow> exec_or_fail ''update of the directory failed'' tx (ri_db r) drv (dir_update, dir_update_args dir) d
      | _ \<Rightarrow> (Return (Inl (PlainErr ''the entity is not a DirectoryMetadata'')), d))"

definition dir_delete :: string where
  "dir_delete = ''UPDATE directories SET deleted = true WHERE dir_id = ?''"

definition Directory_Delete ::
  "repo_impl \<Rightarrow> ('d, 'r) driver \<Rightarrow> sql_status option \<Rightarrow> int \<Rightarrow> 'd \<Rightarrow> (go_error + 'r) outcome \<times> 'd" where
  "Directory_Delete r drv tx dirID d =
     exec_or_fail ''deletion of the directory failed'' tx (ri_db r) drv (dir_delete, [SInt dirID]) d"

definition FindByParentAndName ::
  "repo_impl \<Rightarrow> row query \<Rightarrow> int \<Rightarrow> string \<Rightarrow> 's dest_ptr list \<Rightarrow> 's \<Rightarrow> ('s \<times> go_error option) outcome" where
  "FindByParentAndName r qrow parentID name dest s =
     repo_FindOne r qrow (Some dest) ''parent_id = ? AND name = ? AND deleted = false'' [SInt parentID, SText name] s"

definition zero_dir :: dir_entity where
  "zero_dir = \<lparr>de_DirID = 0, de_Name = [], de_Path = [], de_ParentID = 0, de_Owner = [], de_Group = [], de_Mode = 0,
     de_Deleted = False, de_CreatedTime = 0, de_ModifiedTime = 0\<rparr>"

definition dir_dests :: "(gotime \<Rightarrow> string) \<Rightarrow> dir_entity dest_ptr list" where
  "dir_dests fmt =
     [into (convert_int 64) (\<lambda>x dir. dir\<lparr>de_DirID := x\<rparr>),
      into (convert_text fmt) (\<lambda>x dir. dir\<lparr>de_Name := x\<rparr>),
      into (convert_text fmt) (\<lambda>x dir. dir\<lparr>de_Path := x\<rparr>),
      into (convert_int 64) (\<lambda>x dir. dir\<lparr>de_ParentID := x\<rparr>),
      into (convert_text fmt) (\<lambda>x dir. dir\<lparr>de_Owner := x\<rparr>),
      into (convert_text fmt) (\<lambda>x dir. dir\<lparr>de_Group := x\<rparr>),
      into (convert_int 32) (\<lambda>x dir. dir\<lparr>de_Mode := x\<rparr>),
      into convert_bool (\<lambda>x dir. dir\<lparr>de_Deleted := x\<rparr>),
      into convert_time (\<lambda>x dir. dir\<lparr>de_CreatedTime := x\<rparr>),
      into convert_time (\<lambda>x dir. dir\<lparr>de_ModifiedTime := x\<rparr>)]"

fun scan_dirs :: "(gotime \<Rightarrow> string) \<Rightarrow> row list \<Rightarrow> dir_entity list \<Rightarrow> go_error + dir_entity list" where
  "scan_dirs fmt [] children = Inr children"
| "scan_dirs fmt (row # rows) children =
     (case Scan (dir_dests fmt) row zero_dir of
        (_, Some err) \<Rightarrow> Inl (Errorf_w ''scan of a directory failed'' err)
      | (dir, None) \<Rightarrow> scan_dirs fmt rows (children @ [dir]))"

definition children_query :: string where
  "children_query = ''SELECT * FROM directories WHERE parent_id = ? AND deleted = false''"

definition FindChildren ::
  "(gotime \<Rightarrow> string) \<Rightarrow> repo_impl \<Rightarrow> (row list \<times> go_error option) query \<Rightarrow> int \<Rightarrow> go_error + dir_entity list" where
  "FindChildren fmt r qrows dirID =
     (case QueryContext (ri_db r) (qrows (children_query, [SInt dirID])) of
        Inl err \<Rightarrow> Inl (Errorf_w ''query of the subdirectories failed'' err)
      | Inr (rows, rows_err) \<Rightarrow>
          (case scan_dirs fmt rows [] of
             Inl err \<Rightarrow> Inl err
           | Inr children \<Rightarrow>
               (case rows_err of
                  Some err \<Rightarrow> Inl (Errorf_w ''iteration over the result failed'' err)
                | None \<Rightarrow> Inr children)))"

section \<open>Files\<close>

text \<open>
  The JSON library on the chunks of a file, \<open>marshal\<close> and \<open>unmarshal\<close>. The latter writes through a
  pointer, so it may leave a part behind when it fails.
\<close>

record 'c chunk_json =
  cj_marshal :: "'c \<Rightarrow> go_error + string"
  cj_unmarshal :: "string \<Rightarrow> 'c \<Rightarrow> 'c \<times> go_error option"

definition serializeChunks :: "'c chunk_json \<Rightarrow> 'c file_entity \<Rightarrow> go_error + string" where
  "serializeChunks j file = cj_marshal j (fe_Chunks file)"

definition deserializeChunks :: "'c chunk_json \<Rightarrow> string \<Rightarrow> 'c file_entity \<Rightarrow> 'c file_entity \<times> go_error option" where
  "deserializeChunks j data file =
     (case cj_unmarshal j data (fe_Chunks file) of (chunks, e) \<Rightarrow> (file\<lparr>fe_Chunks := chunks\<rparr>, e))"

definition File_FindByID ::
  "repo_impl \<Rightarrow> row query \<Rightarrow> int \<Rightarrow> 's dest_ptr list option \<Rightarrow> 's \<Rightarrow> ('s \<times> go_error option) outcome" where
  "File_FindByID r qrow fileID dest s = repo_FindOne r qrow dest ''file_id = ?'' [SInt fileID] s"

definition file_insert :: string where
  "file_insert = ''INSERT INTO files (name, dir_id, size, chunks_data, mime_type, owner, group_name, permission_mode, deleted, created_time, modified_time) VALUES (?, ?, ?, ?, ?, ?, ?, ?, ?, ?, ?)''"

definition file_insert_args :: "string \<Rightarrow> 'c file_entity \<Rightarrow> sql_value list" where
  "file_insert_args chunksJSON file =
     [SText (fe_Name file), SInt (fe_DirID file), SInt (fe_Size file), SText chunksJSON, SText (fe_MimeType file),
      SText (fe_Owner file), SText (fe_Group file), SInt (fe_Mode file), SBool (fe_Deleted file),
      STime (fe_CreatedTime file), STime (fe_ModifiedTime file)]"

definition file_update :: string where
  "file_update = ''UPDATE files SET name = ?, dir_id = ?, size = ?, chunks_data = ?, mime_type = ?, owner = ?, group_name = ?, permission_mode = ?, deleted = ?, modified_time = ? WHERE file_id = ?''"

definition file_update_args :: "string \<Rightarrow> 'c file_entity \<Rightarrow> sql_value list" where
  "file_update_args chunksJSON file =
     [SText (fe_Name file), SInt (fe_DirID file), SInt (fe_Size file), SText chunksJSON, SText (fe_MimeType file),
      SText (fe_Owner file), SText (fe_Group file), SInt (fe_Mode file), SBool (fe_Deleted file),
      STime (fe_ModifiedTime file), SInt (fe_FileID file)]"

text \<open>The part \<^verbatim>\<open>Create\<close> and \<^verbatim>\<open>Update\<close> share: the type of the entity, its chunks, then the statement.\<close>

definition with_chunks ::
  "'c chunk_json \<Rightarrow> 'c any_entity \<Rightarrow> (string \<Rightarrow> 'c file_entity \<Rightarrow> 'd \<Rightarrow> (go_error + 'r) outcome \<times> 'd) \<Rightarrow> 'd \<Rightarrow>
   (go_error + 'r) outcome \<times> 'd" where
  "with_chunks j entity exec d =
     (case entity of
        PtrFile None \<Rightarrow> (Panic nil_deref, d)
      | PtrFile (Some file) \<Rightarrow>
          (case serializeChunks j file of
             Inl err \<Rightarrow> (Return (Inl (Errorf_w ''serialisation of the chunks failed'' err)), d)
           | Inr chunksJSON \<Rightarrow> exec chunksJSON file d)
      | _ \<Rightarrow> (Return (Inl (PlainErr ''the entity is not a FileMetadata'')), d))"

definition File_Create ::
  "'c chunk_json \<Rightarrow> repo_impl \<Rightarrow> ('d, 'r) driver \<Rightarrow> sql_status option \<Rightarrow> 'c any_entity \<Rightarrow> 'd \<Rightarrow> (go_error + 'r) outcome \<times> 'd" where
  "File_Create j r drv tx entity d =
     with_chunks j entity (\<lambda>chunksJSON file.
       exec_or_fail ''creation of the file failed'' tx (ri_db r) drv (file_insert, file_insert_args chunksJSON file)) d"

definition File_Update ::
  "'c chunk_json \<Rightarrow> repo_impl \<Rightarrow> ('d, 'r) driver \<Rightarrow> sql_status option \<Rightarrow> 'c any_entity \<Rightarrow> 'd \<Rightarrow> (go_error + 'r) outcome \<times> 'd" where
  "File_Update j r drv tx entity d =
     with_chunks j entity (\<lambda>chunksJSON file.
       exec_or_fail ''update of the file failed'' tx (ri_db r) drv (file_update, file_update_args chunksJSON file)) d"

definition file_delete :: string where
  "file_delete = ''UPDATE files SET deleted = true WHERE file_id = ?''"

definition File_Delete ::
  "repo_impl \<Rightarrow> ('d, 'r) driver \<Rightarrow> sql_status option \<Rightarrow> int \<Rightarrow> 'd \<Rightarrow> (go_error + 'r) outcome \<times> 'd" where
  "File_Delete r drv tx fileID d =
     exec_or_fail ''deletion of the file failed'' tx (ri_db r) drv (file_delete, [SInt fileID]) d"

text \<open>\<open>dest\<close> is the struct of the caller and \<open>ds\<close> its fields, in the order of the declaration.\<close>

definition FindByDirAndName ::
  "'c chunk_json \<Rightarrow> repo_impl \<Rightarrow> row query \<Rightarrow> int \<Rightarrow> string \<Rightarrow> 'c file_entity dest_ptr list \<Rightarrow> 'c file_entity \<Rightarrow>
   ('c file_entity \<times> go_error option) outcome" where
  "FindByDirAndName j r qrow dirID name ds dest =
     (case repo_FindOne r qrow (Some ds) ''dir_id = ? AND name = ? AND deleted = false'' [SInt dirID, SText name] dest of
        Panic p \<Rightarrow> Panic p
      | Return (dest, Some err) \<Rightarrow> Return (dest, Some err)
      | Return (dest, None) \<Rightarrow>
          (case fe_RawChunksData dest of
             None \<Rightarrow> Return (dest, None)
           | Some chunksData \<Rightarrow>
               (case deserializeChunks j chunksData dest of
                  (dest, Some err) \<Rightarrow> Return (dest, Some (Errorf_w ''the chunks cannot be read'' err))
                | (dest, None) \<Rightarrow> Return (dest, None))))"

text \<open>The scan of \<^verbatim>\<open>FindByDir\<close> fills the file and the variable \<^verbatim>\<open>chunksData\<close>.\<close>

type_synonym 'c file_scan = "'c file_entity \<times> string option"

definition file_dests :: "(gotime \<Rightarrow> string) \<Rightarrow> 'c file_scan dest_ptr list" where
  "file_dests fmt =
     [into (convert_int 64) (\<lambda>x (file, c). (file\<lparr>fe_FileID := x\<rparr>, c)),
      into (convert_text fmt) (\<lambda>x (file, c). (file\<lparr>fe_Name := x\<rparr>, c)),
      into (convert_int 64) (\<lambda>x (file, c). (file\<lparr>fe_DirID := x\<rparr>, c)),
      into (convert_int 64) (\<lambda>x (file, c). (file\<lparr>fe_Size := x\<rparr>, c)),
      into (convert_bytes fmt) (\<lambda>x (file, c). (file, x)),
      into (convert_text fmt) (\<lambda>x (file, c). (file\<lparr>fe_MimeType := x\<rparr>, c)),
      into (convert_text fmt) (\<lambda>x (file, c). (file\<lparr>fe_Owner := x\<rparr>, c)),
      into (convert_text fmt) (\<lambda>x (file, c). (file\<lparr>fe_Group := x\<rparr>, c)),
      into (convert_int 32) (\<lambda>x (file, c). (file\<lparr>fe_Mode := x\<rparr>, c)),
      into convert_bool (\<lambda>x (file, c). (file\<lparr>fe_Deleted := x\<rparr>, c)),
      into convert_time (\<lambda>x (file, c). (file\<lparr>fe_CreatedTime := x\<rparr>, c)),
      into convert_time (\<lambda>x (file, c). (file\<lparr>fe_ModifiedTime := x\<rparr>, c))]"

text \<open>\<open>nil\<close> is the zero value of the type of the chunks; a nil slice of bytes is an empty text to the decoder.\<close>

definition zero_file :: "'c \<Rightarrow> 'c file_entity" where
  "zero_file nil = \<lparr>fe_FileID = 0, fe_Name = [], fe_DirID = 0, fe_Size = 0, fe_Chunks = nil, fe_RawChunksData = None,
     fe_MimeType = [], fe_Owner = [], fe_Group = [], fe_Mode = 0, fe_Deleted = False, fe_CreatedTime = 0, fe_ModifiedTime = 0\<rparr>"

fun scan_files ::
  "'c chunk_json \<Rightarrow> (gotime \<Rightarrow> string) \<Rightarrow> 'c \<Rightarrow> row list \<Rightarrow> 'c file_entity list \<Rightarrow> go_error + 'c file_entity list" where
  "scan_files j fmt nil [] files = Inr files"
| "scan_files j fmt nil (row # rows) files =
     (case Scan (file_dests fmt) row (zero_file nil, None) of
        (_, Some err) \<Rightarrow> Inl (Errorf_w ''scan of a file failed'' err)
      | ((file, chunksData), None) \<Rightarrow>
          (case deserializeChunks j (case chunksData of None \<Rightarrow> [] | Some b \<Rightarrow> b) file of
             (_, Some err) \<Rightarrow> Inl (Errorf_w ''the chunks cannot be read'' err)
           | (file, None) \<Rightarrow> scan_files j fmt nil rows (files @ [file])))"

text \<open>The general queries of the file repository have the same bodies as those for directories.\<close>

definition File_FindOne ::
  "repo_impl \<Rightarrow> row query \<Rightarrow> 's dest_ptr list option \<Rightarrow> string \<Rightarrow> sql_value list \<Rightarrow> 's \<Rightarrow> ('s \<times> go_error option) outcome" where
  "File_FindOne r qrow dest cond args s = repo_FindOne r qrow dest cond args s"

definition File_Find ::
  "(sql_value \<Rightarrow> sql_value QueryBuilder \<Rightarrow> sql_value QueryBuilder) \<Rightarrow> repo_impl \<Rightarrow> (row list \<times> go_error option) query \<Rightarrow>
   string \<Rightarrow> sql_value list \<Rightarrow> 's \<Rightarrow> 's \<times> go_error option" where
  "File_Find AddArg r qrows query args dest = repo_Find AddArg r qrows query args dest"

definition File_FindAll ::
  "(sql_value \<Rightarrow> sql_value QueryBuilder \<Rightarrow> sql_value QueryBuilder) \<Rightarrow> repo_impl \<Rightarrow> (row list \<times> go_error option) query \<Rightarrow>
   string \<Rightarrow> sql_value list \<Rightarrow> 's \<Rightarrow> 's \<times> go_error option" where
  "File_FindAll AddArg r qrows query args dest = File_Find AddArg r qrows query args dest"

definition files_query :: string where
  "files_query = ''SELECT * FROM files WHERE dir_id = ? AND deleted = false''"

definition FindByDir ::
  "'c chunk_json \<Rightarrow> (gotime \<Rightarrow> string) \<Rightarrow> 'c \<Rightarrow> repo_impl \<Rightarrow> (row list \<times> go_error option) query \<Rightarrow> int \<Rightarrow>
   go_error + 'c file_entity list" where
  "FindByDir j fmt nil r qrows dirID =
     (case QueryContext (ri_db r) (qrows (files_query, [SInt dirID])) of
        Inl err \<Rightarrow> Inl (Errorf_w ''query of the files failed'' err)
      | Inr (rows, rows_err) \<Rightarrow>
          (case scan_files j fmt nil rows [] of
             Inl err \<Rightarrow> Inl err
           | Inr files \<Rightarrow>
               (case rows_err of
                  Some err \<Rightarrow> Inl (Errorf_w ''iteration over the result failed'' err)
                | None \<Rightarrow> Inr files)))"

section \<open>What the conversions keep\<close>

lemma all_digits_dec [simp]: "all_digits (dec n)"
proof (induction n rule: dec.induct)
  case (1 n)
  then show ?case
    by (cases "n < 10") (auto simp: dec.simps [of n] all_digits_def of_char_digit)
qed

lemma Atoi_dec_int: "- (2 ^ 63) \<le> i \<Longrightarrow> i < 2 ^ 63 \<Longrightarrow> Atoi (dec_int i) = Some i"
proof (cases "i < 0")
  case True
  assume "- (2 ^ 63) \<le> i" "i < 2 ^ 63"
  with True show ?thesis by (simp add: Atoi_def dec_int_def undec_dec)
next
  case False
  assume r: "- (2 ^ 63) \<le> i" "i < 2 ^ 63"
  obtain c cs where c: "dec (nat i) = c # cs" by (metis all_digits_dec all_digits_def list.exhaust)
  then have "c \<noteq> CHR ''-''" "c \<noteq> CHR ''+''"
    using all_digits_dec [of "nat i"] dec_not_minus [of "nat i"] by (auto simp: all_digits_def)
  then show ?thesis
    using False r c all_digits_dec [of "nat i"] undec_dec [of "nat i"] by (simp add: Atoi_def dec_int_def)
qed

definition fits :: "nat \<Rightarrow> int \<Rightarrow> bool" where
  "fits bits i \<longleftrightarrow> - (2 ^ (bits - 1)) \<le> i \<and> i < 2 ^ (bits - 1)"

lemma convert_int_SInt [simp]:
  assumes "fits bits i" "bits \<le> 64"
  shows "convert_int bits (SInt i) = Inr i"
proof -
  have "(2 :: int) ^ (bits - 1) \<le> 2 ^ 63" using assms(2) by (intro power_increasing) auto
  with assms(1) have "Atoi (dec_int i) = Some i" by (intro Atoi_dec_int) (auto simp: fits_def)
  with assms(1) show ?thesis by (simp add: convert_int_def ParseInt_def fits_def)
qed

lemma convert_exact [simp]:
  "convert_text fmt (SText t) = Inr t"
  "convert_bool (SBool b) = Inr b"
  "convert_time (STime i) = Inr i"
  "convert_bytes fmt (SText t) = Inr (Some t)"
  by (simp_all add: convert_text_def convert_bool_def convert_time_def convert_bytes_def)

lemma convert_time_fails [simp]: "(\<forall>t. v \<noteq> STime t) \<Longrightarrow> convert_time v = Inl err_convert"
  by (cases v) (auto simp: convert_time_def)

section \<open>Round trips\<close>

text \<open>A row as the scans expect it: the identifier, then what \<^verbatim>\<open>Create\<close> inserts.\<close>

definition dir_row :: "dir_entity \<Rightarrow> row" where
  "dir_row dir = SInt (de_DirID dir) # dir_insert_args dir"

definition file_row :: "string \<Rightarrow> 'c file_entity \<Rightarrow> row" where
  "file_row chunksJSON file = SInt (fe_FileID file) # file_insert_args chunksJSON file"

definition dir_fits :: "dir_entity \<Rightarrow> bool" where
  "dir_fits dir \<longleftrightarrow> fits 64 (de_DirID dir) \<and> fits 64 (de_ParentID dir) \<and> fits 32 (de_Mode dir)"

definition file_fits :: "'c file_entity \<Rightarrow> bool" where
  "file_fits file \<longleftrightarrow> fits 64 (fe_FileID file) \<and> fits 64 (fe_DirID file) \<and> fits 64 (fe_Size file) \<and>
     fits 32 (fe_Mode file) \<and> fe_RawChunksData file = None"

lemma Scan_dir_row: "dir_fits dir \<Longrightarrow> Scan (dir_dests fmt) (dir_row dir) zero_dir = (dir, None)"
  by (simp add: Scan_def dir_dests_def dir_row_def dir_insert_args_def into_def zero_dir_def dir_fits_def)

lemma Scan_file_row:
  "file_fits file \<Longrightarrow>
   Scan (file_dests fmt) (file_row chunksJSON file) (zero_file nil, None) = ((file\<lparr>fe_Chunks := nil\<rparr>, Some chunksJSON), None)"
  by (simp add: Scan_def file_dests_def file_row_def file_insert_args_def into_def zero_file_def file_fits_def)

lemma scan_dirs_rows:
  "list_all dir_fits dirs \<Longrightarrow> scan_dirs fmt (map dir_row dirs) children = Inr (children @ dirs)"
  by (induction dirs arbitrary: children) (simp_all add: Scan_dir_row)

text \<open>What the encoding of the chunks has to do: decoding gives back what was encoded.\<close>

definition chunks_decode :: "'c chunk_json \<Rightarrow> 'c \<Rightarrow> bool" where
  "chunks_decode j nil \<longleftrightarrow> (\<forall>c b. cj_marshal j c = Inr b \<longrightarrow> cj_unmarshal j b nil = (c, None))"

lemma scan_files_rows:
  assumes "chunks_decode j nil"
  shows "list_all2 (\<lambda>file row. file_fits file \<and> (\<exists>b. serializeChunks j file = Inr b \<and> row = file_row b file)) files rows \<Longrightarrow>
    scan_files j fmt nil rows acc = Inr (acc @ files)"
proof (induction files rows arbitrary: acc rule: list_all2_induct)
  case (Cons f fs row rows)
  then obtain b where b: "serializeChunks j f = Inr b" "row = file_row b f" "file_fits f" by blast
  have "cj_unmarshal j b nil = (fe_Chunks f, None)" using assms b(1) by (auto simp: chunks_decode_def serializeChunks_def)
  then show ?case using Cons.IH [of "acc @ [f]"] b by (simp add: Scan_file_row deserializeChunks_def)
qed simp


definition demo_json :: "string chunk_json" where
  "demo_json = \<lparr>cj_marshal = (\<lambda>c. Inr (CHR ''['' # c)), cj_unmarshal = (\<lambda>b c. (tl b, None))\<rparr>"

definition demo_dir :: dir_entity where
  "demo_dir = zero_dir\<lparr>de_DirID := 7, de_Name := ''a'', de_ParentID := 1, de_Mode := 493, de_CreatedTime := 5\<rparr>"

definition demo_file :: "string file_entity" where
  "demo_file = (zero_file [])\<lparr>fe_FileID := 9, fe_Name := ''f'', fe_DirID := 1, fe_Size := 3, fe_Chunks := ''xyz''\<rparr>"


section \<open>On the tables of the schema\<close>

text \<open>Every statement has as many placeholders as arguments.\<close>

lemma repository_statements_balanced:
  "qmarks dir_insert = length (dir_insert_args dir)" "qmarks dir_update = length (dir_update_args dir)"
  "qmarks file_insert = length (file_insert_args b file)" "qmarks file_update = length (file_update_args b file)"
  "qmarks dir_delete = 1" "qmarks file_delete = 1" "qmarks children_query = 1" "qmarks files_query = 1"
  by (simp_all add: dir_insert_def dir_insert_args_def dir_update_def dir_update_args_def file_insert_def file_insert_args_def
      file_update_def file_update_args_def dir_delete_def file_delete_def children_query_def files_query_def)

text \<open>
  A write succeeds exactly when it can be sent (in an open transaction, or on a database that was
  opened) and the driver accepts it; otherwise the error of the transaction or of the driver is wrapped.
\<close>

lemma exec_or_fail_iff:
  "(\<exists>r d'. exec_or_fail msg tx db drv st d = (Return (Inr r), d')) \<longleftrightarrow>
   (case tx of Some s \<Rightarrow> s = SqlOpen | None \<Rightarrow> db \<noteq> NilDB) \<and> \<not> isl (fst (drv st d))"
  by (cases "fst (drv st d)")
    (auto simp: exec_or_fail_def exec_on_def ExecContext_def split: option.splits prod.splits sum.splits)

text \<open>The words of a statement, its table, and the names of columns in it.\<close>

definition word_char :: "char \<Rightarrow> bool" where
  "word_char c \<longleftrightarrow> \<not> List.member '' (),=?*'' c"

fun sql_words_acc :: "string \<Rightarrow> string \<Rightarrow> string list" where
  "sql_words_acc w [] = (if w = [] then [] else [w])"
| "sql_words_acc w (c # cs) =
     (if word_char c then sql_words_acc (w @ [c]) cs
      else if w = [] then sql_words_acc [] cs else w # sql_words_acc [] cs)"

definition sql_words :: "string \<Rightarrow> string list" where
  "sql_words q = sql_words_acc [] q"

fun table_of :: "string list \<Rightarrow> string" where
  "table_of (k # t # ws) = (if k \<in> {''INTO'', ''UPDATE'', ''FROM''} then t else table_of (t # ws))"
| "table_of _ = []"

definition keyword :: "string \<Rightarrow> bool" where
  "keyword w \<longleftrightarrow> w \<in> {''INSERT'', ''INTO'', ''VALUES'', ''UPDATE'', ''SET'', ''WHERE'', ''SELECT'', ''FROM'', ''AND'', ''true'', ''false''}"

definition columns_named :: "string \<Rightarrow> string list" where
  "columns_named q = filter (\<lambda>w. \<not> keyword w \<and> w \<noteq> table_of (sql_words q)) (sql_words q)"

definition known_columns :: "string \<Rightarrow> bool" where
  "known_columns q \<longleftrightarrow> list_all (List.member (columns_of (table_of (sql_words q)))) (columns_named q)"

lemma unknown_columns:
  "\<not> known_columns dir_insert" "\<not> known_columns dir_update" "\<not> known_columns dir_delete"
  "\<not> known_columns children_query" "\<not> known_columns file_insert" "\<not> known_columns file_update"
  "\<not> known_columns file_delete" "\<not> known_columns files_query"
  by code_simp+

definition one_row :: "string \<Rightarrow> string \<Rightarrow> sql_value list \<Rightarrow> string" where
  "one_row table cond args = fst (Repository_FindOne table cond args)"

lemma one_row_text: "one_row table cond args = ''SELECT * FROM '' @ table @ '' WHERE '' @ cond"
  by (simp add: one_row_def Repository_FindOne_def BuildSelect_def NewQueryBuilder_def Where_def where_part_def)

lemma unknown_columns_one_row:
  "\<not> known_columns (one_row ''directories'' ''parent_id = ? AND name = ? AND deleted = false'' args)"
  "\<not> known_columns (one_row ''files'' ''dir_id = ? AND name = ? AND deleted = false'' args)"
  unfolding one_row_text by code_simp+

text \<open>
  What is asked of the database: a statement that names a column its table does not have is refused
  and changes nothing, and a row of \<^verbatim>\<open>SELECT *\<close> has the columns of its table.
\<close>

definition checks_columns :: "('d, 'r) driver \<Rightarrow> bool" where
  "checks_columns drv \<longleftrightarrow> (\<forall>q args d. \<not> known_columns q \<longrightarrow> (\<exists>e. drv (q, args) d = (Inl e, d)))"

definition query_checks :: "'r query \<Rightarrow> bool" where
  "query_checks qu \<longleftrightarrow> (\<forall>q args. \<not> known_columns q \<longrightarrow> isl (qu (q, args)))"

definition whole_rows :: "row query \<Rightarrow> bool" where
  "whole_rows qrow \<longleftrightarrow> (\<forall>q args vals. qrow (q, args) = Inr vals \<longrightarrow> length vals = length (columns_of (table_of (sql_words q))))"

definition failed :: "(go_error + 'r) outcome \<Rightarrow> bool" where
  "failed x \<longleftrightarrow> (case x of Return (Inr _) \<Rightarrow> False | _ \<Rightarrow> True)"

lemma failed_simps [simp]: "failed (Panic p)" "failed (Return (Inl e))"
  by (simp_all add: failed_def)

lemma exec_unknown:
  assumes "checks_columns drv" "\<not> known_columns q"
  shows "failed (fst (exec_or_fail msg tx db drv (q, args) d))" "snd (exec_or_fail msg tx db drv (q, args) d) = d"
proof -
  obtain e where "drv (q, args) d = (Inl e, d)" using assms unfolding checks_columns_def by blast
  then show "failed (fst (exec_or_fail msg tx db drv (q, args) d))" "snd (exec_or_fail msg tx db drv (q, args) d) = d"
    by (auto simp: exec_or_fail_def exec_on_def ExecContext_def split: option.split)
qed

lemmas exec_unknown_columns [simp] = unknown_columns [THEN exec_unknown(1) [rotated]] unknown_columns [THEN exec_unknown(2) [rotated]]

lemma find_one_unknown:
  assumes "query_checks qrow" "\<not> known_columns (one_row (ri_baseTable r) cond args)" "ri_db r \<noteq> NilDB"
  shows "\<exists>e. repo_FindOne r qrow (Some ds) cond args s = Return (s, Some e)"
proof -
  have "isl (qrow (Repository_FindOne (ri_baseTable r) cond args))"
    using assms(1,2) by (metis one_row_def prod.collapse query_checks_def)
  with assms(3) show ?thesis by (auto simp: repo_FindOne_def QueryRowContext_def isl_def)
qed

lemma find_one_misfit:
  assumes "whole_rows qrow" "length ds \<noteq> length (columns_of (table_of (sql_words (one_row (ri_baseTable r) cond args))))"
    "ri_db r \<noteq> NilDB"
  shows "\<exists>e. repo_FindOne r qrow (Some ds) cond args s = Return (s, Some e)"
proof (cases "qrow (Repository_FindOne (ri_baseTable r) cond args)")
  case (Inl e)
  with assms(3) show ?thesis by (simp add: repo_FindOne_def QueryRowContext_def)
next
  case (Inr vals)
  then have "length vals = length (columns_of (table_of (sql_words (one_row (ri_baseTable r) cond args))))"
    using assms(1) unfolding whole_rows_def one_row_def by (metis prod.collapse)
  with assms(2,3) Inr show ?thesis by (simp add: repo_FindOne_def QueryRowContext_def Scan_def)
qed

lemma schema_sizes:
  "length (columns_of (table_of (sql_words (one_row ''directories'' ''dir_id = ?'' args)))) = 8"
  "length (columns_of (table_of (sql_words (one_row ''files'' ''file_id = ?'' args)))) = 12"
  "length DirectoryMetadata_fields = 10" "length FileMetadata_fields = 14"
  unfolding one_row_text by code_simp+

lemma writes_fail:
  assumes "checks_columns drv"
  shows "failed (fst (Directory_Create r drv tx entity d)) \<and> snd (Directory_Create r drv tx entity d) = d"
    "failed (fst (Directory_Update r drv tx entity d)) \<and> snd (Directory_Update r drv tx entity d) = d"
    "failed (fst (Directory_Delete r drv tx i d)) \<and> snd (Directory_Delete r drv tx i d) = d"
    "failed (fst (File_Create j r drv tx entity d)) \<and> snd (File_Create j r drv tx entity d) = d"
    "failed (fst (File_Update j r drv tx entity d)) \<and> snd (File_Update j r drv tx entity d) = d"
    "failed (fst (File_Delete r drv tx i d)) \<and> snd (File_Delete r drv tx i d) = d"
  using assms
  by (simp_all add: Directory_Create_def Directory_Update_def Directory_Delete_def File_Create_def File_Update_def
      File_Delete_def with_chunks_def split: any_entity.split option.split sum.split)

lemma lists_fail:
  assumes "query_checks qrows"
  shows "isl (FindChildren fmt r qrows dirID)" "isl (FindByDir j fmt nil r qrows dirID)"
proof -
  have "isl (qrows (children_query, [SInt dirID]))" "isl (qrows (files_query, [SInt dirID]))"
    using assms unknown_columns(4,8) by (simp_all add: query_checks_def)
  then show "isl (FindChildren fmt r qrows dirID)" "isl (FindByDir j fmt nil r qrows dirID)"
    by (auto simp: isl_def FindChildren_def FindByDir_def QueryContext_def)
qed

lemma lookups_fail:
  assumes "ri_db r \<noteq> NilDB" "query_checks qrow" "whole_rows qrow"
  shows "ri_baseTable r = ''directories'' \<Longrightarrow> \<exists>e. FindByParentAndName r qrow i n ds s = Return (s, Some e)"
    "ri_baseTable r = ''files'' \<Longrightarrow> \<exists>e. FindByDirAndName j r qrow i n fds f = Return (f, Some e)"
    "ri_baseTable r = ''directories'' \<Longrightarrow> length ds = length DirectoryMetadata_fields \<Longrightarrow>
       \<exists>e. Directory_FindByID r qrow i (Some ds) s = Return (s, Some e)"
    "ri_baseTable r = ''files'' \<Longrightarrow> length ds = length FileMetadata_fields \<Longrightarrow>
       \<exists>e. File_FindByID r qrow i (Some ds) s = Return (s, Some e)"
proof -
  show "\<exists>e. FindByParentAndName r qrow i n ds s = Return (s, Some e)" if "ri_baseTable r = ''directories''"
    unfolding FindByParentAndName_def using that unknown_columns_one_row(1)
    by (intro find_one_unknown assms) simp
  show "\<exists>e. FindByDirAndName j r qrow i n fds f = Return (f, Some e)" if t: "ri_baseTable r = ''files''"
  proof -
    obtain e where "repo_FindOne r qrow (Some fds) ''dir_id = ? AND name = ? AND deleted = false'' [SInt i, SText n] f = Return (f, Some e)"
      using find_one_unknown [OF assms(2) _ assms(1)] unknown_columns_one_row(2) t by metis
    then show ?thesis by (simp add: FindByDirAndName_def)
  qed
  show "\<exists>e. Directory_FindByID r qrow i (Some ds) s = Return (s, Some e)"
    if "ri_baseTable r = ''directories''" "length ds = length DirectoryMetadata_fields"
    unfolding Directory_FindByID_def using that assms by (intro find_one_misfit) (simp_all add: schema_sizes)
  show "\<exists>e. File_FindByID r qrow i (Some ds) s = Return (s, Some e)"
    if "ri_baseTable r = ''files''" "length ds = length FileMetadata_fields"
    unfolding File_FindByID_def using that assms by (intro find_one_misfit) (simp_all add: schema_sizes)
qed



end
