(* ===== verification/Pipeline.thy ===== *)
theory Pipeline
  imports HttpNet
begin

text \<open>
  A request on its way through the whole HTTP server: the chain of middleware that \<^verbatim>\<open>NewServer\<close> and
  \<^verbatim>\<open>setupRoutes\<close> of \<^verbatim>\<open>server/server.go\<close> register, in their order, around the handlers of the seven file
  and directory routes, with the logging middleware of \<^verbatim>\<open>common/network/http/middleware.go\<close>.

  The chain is computed from the list of middleware of the server's model, so what is proved is
  about the order in which the source registers them. Which route a request takes is decided by the
  mux library; its answer is part of the environment of a request, with the readings of the clock,
  the identifiers and the orders of the loops over maps.

  The lemmas show that every request is answered, that a handler is reached exactly when the limiter
  admits the address, and what is recorded; over whole runs, that the store keeps its invariant, the
  collector its bound, and no address gets more than 100 requests a second to a handler.
\<close>

section \<open>Logging\<close>

text \<open>
  The line that is written: method, path, status and duration; \<open>logger\<close> writes it. A handler that panics
  gets none.
\<close>

type_synonym log_line = "string \<times> string \<times> nat \<times> duration"

definition LoggingMiddleware ::
  "(log_line \<Rightarrow> 's \<Rightarrow> 's) \<Rightarrow> string \<Rightarrow> string \<Rightarrow> duration \<Rightarrow> 's http_handler \<Rightarrow> 's http_handler" where
  "LoggingMiddleware logger method path elapsed next_h s r =
     (case next_h s r of
        (s, Panic p) \<Rightarrow> (s, Panic p)
      | (s, Return h) \<Rightarrow> (logger (method, path, fst h, elapsed) s, Return h))"

section \<open>The state and the environment of a request\<close>

record pipe =
  pp_log :: "log_line list"
  pp_metrics :: SimpleCollector
  pp_limiter :: rl_table
  pp_store :: MemoryStore

text \<open>
  \<open>ev_ids\<close> and \<open>ev_elapsed\<close> give the identifier and the duration by the position of the middleware in
  the chain.
\<close>

record env =
  ev_md :: "metadata_ref \<Rightarrow> string option"
  ev_route :: "string \<times> string"
  ev_url :: string
  ev_client :: client
  ev_now :: gotime
  ev_handled :: gotime
  ev_ids :: "nat \<Rightarrow> string"
  ev_elapsed :: "nat \<Rightarrow> duration"
  ev_recorded :: gotime
  ev_updates :: "string list"
  ev_dirs :: "string list"
  ev_files :: "string list"
  ev_decode :: "json \<Rightarrow> DirectoryInfo option"

section \<open>Handlers and chain\<close>

text \<open>The routes of \<^verbatim>\<open>FilesAPI\<close> and \<^verbatim>\<open>DirectoriesAPI\<close> with their handlers.\<close>

definition file_routes :: "env \<Rightarrow> ((string \<times> string) \<times> (MemoryStore \<Rightarrow> request \<Rightarrow> MemoryStore \<times> http_response)) list" where
  "file_routes e =
     [((''GET'', ''/files/{path:.*}''), \<lambda>s r. (s, FilesAPI_GetFileInfo (ev_md e) s r)),
      ((''POST'', ''/files/{path:.*}''), FilesAPI_CreateFile (ev_md e) (ev_handled e)),
      ((''PUT'', ''/files/{path:.*}''), FilesAPI_UpdateFile (ev_md e) (ev_updates e) (ev_handled e)),
      ((''DELETE'', ''/files/{path:.*}''), FilesAPI_DeleteFile (ev_md e)),
      ((''GET'', ''/dirs/{path:.*}''), \<lambda>s r. (s, DirectoriesAPI_ListDirectory (ev_md e) (ev_dirs e) (ev_files e) s r)),
      ((''POST'', ''/dirs/{path:.*}''), DirectoriesAPI_CreateDirectory (ev_md e) (ev_decode e) (ev_handled e)),
      ((''DELETE'', ''/dirs/{path:.*}''), DirectoriesAPI_DeleteDirectory (ev_md e) (ev_dirs e) (ev_files e))]"

definition on_store :: "(MemoryStore \<Rightarrow> request \<Rightarrow> MemoryStore \<times> http_response) \<Rightarrow> pipe http_handler" where
  "on_store h p r = (case h (pp_store p) r of (s, resp) \<Rightarrow> (p\<lparr>pp_store := s\<rparr>, Return resp))"

text \<open>A middleware by its name in the list of the server, at a position of the chain.\<close>

definition middleware_named :: "env \<Rightarrow> nat \<Rightarrow> string \<Rightarrow> pipe http_handler \<Rightarrow> pipe http_handler" where
  "middleware_named e i name next_h =
     (if name = ''RequestID'' then RequestIDMiddleware (ev_ids e i) next_h
      else if name = ''Logging'' then
        LoggingMiddleware (\<lambda>l p. p\<lparr>pp_log := pp_log p @ [l]\<rparr>) (fst (ev_route e)) (ev_url e) (ev_elapsed e i) next_h
      else if name = ''Recovery'' then RecoveryMiddleware next_h
      else if name = ''Metrics'' then
        (\<lambda>p r. case Metrics_middleware (fst (ev_route e)) (ev_url e) 0 (ev_elapsed e i) (ev_recorded e) next_h (pp_metrics p, p) r of
           ((c, p), h) \<Rightarrow> (p\<lparr>pp_metrics := c\<rparr>, h))
      else if name = ''RateLimit'' then
        (\<lambda>p r. case RateLimit (ev_md e) 100 Second (ev_now e) next_h (pp_limiter p, p) (ev_client e) r of
           ((m, p), h, _) \<Rightarrow> (p\<lparr>pp_limiter := m\<rparr>, h))
      else next_h)"

fun chain_from :: "env \<Rightarrow> nat \<Rightarrow> string list \<Rightarrow> pipe http_handler \<Rightarrow> pipe http_handler" where
  "chain_from e i [] h = h"
| "chain_from e i (name # mws) h = middleware_named e i name (chain_from e (Suc i) mws h)"

text \<open>A request on a route of the list; None for a route that is not there.\<close>

definition pipeline :: "env \<Rightarrow> pipe \<Rightarrow> request \<Rightarrow> (pipe \<times> http_response outcome) option" where
  "pipeline e p r =
     (case map_of (file_routes e) (ev_route e) of
        None \<Rightarrow> None
      | Some h \<Rightarrow> Some (chain_from e 0 (hs_middlewares (metaserver_http [] 0)) (on_store h) p r))"

section \<open>One request\<close>

lemma file_routes_registered: "map fst (file_routes e) = take 7 api_routes"
  by (simp add: file_routes_def api_routes_def)

text \<open>The core of the chain, without what only passes requests and answers through.\<close>

definition limited :: "env \<Rightarrow> (MemoryStore \<Rightarrow> request \<Rightarrow> MemoryStore \<times> http_response) \<Rightarrow> pipe \<Rightarrow> request \<Rightarrow> pipe \<times> http_response" where
  "limited e h p r =
     (case RateLimit_admit 100 Second (ev_now e) (pp_limiter p) (getClientIP (ev_client e)) of
        (m, False) \<Rightarrow>
          (p\<lparr>pp_limiter := m\<rparr>,
           RespondError (ev_md e) r 429 (New RateLimitExceeded ''request rate above the limit, try again later''))
      | (m, True) \<Rightarrow> (case h (pp_store p) r of (s, resp) \<Rightarrow> (p\<lparr>pp_limiter := m, pp_store := s\<rparr>, resp)))"

text \<open>A handler that always answers, and what each middleware makes of it.\<close>

definition answers :: "(pipe \<Rightarrow> request \<Rightarrow> pipe \<times> http_response) \<Rightarrow> pipe http_handler" where
  "answers f p r = (case f p r of (p, resp) \<Rightarrow> (p, Return resp))"

definition log_of :: "env \<Rightarrow> nat \<Rightarrow> nat \<Rightarrow> log_line" where
  "log_of e i status = (fst (ev_route e), ev_url e, status, ev_elapsed e i)"

definition metric_of :: "env \<Rightarrow> nat \<Rightarrow> nat \<Rightarrow> HTTPMetric" where
  "metric_of e i status =
     \<lparr>ht_Method = fst (ev_route e), ht_Path = ev_url e, ht_StatusCode = status,
      ht_Duration = go_div (ev_elapsed e i) Millisecond, ht_Timestamp = ev_recorded e\<rparr>"

lemma stages [simp]:
  "middleware_named e i ''RateLimit'' (on_store h) = answers (limited e h)"
  "middleware_named e i ''RequestID'' (answers f) = answers (\<lambda>p r. f p (r\<lparr>rq_id := ev_ids e i\<rparr>))"
  "middleware_named e i ''Recovery'' (answers f) = answers f"
  "middleware_named e i ''Logging'' (answers f) =
     answers (\<lambda>p r. case f p r of (p, resp) \<Rightarrow> (p\<lparr>pp_log := pp_log p @ [log_of e i (fst resp)]\<rparr>, resp))"
  "middleware_named e i ''Metrics'' (answers f) =
     answers (\<lambda>p r. case f p r of (p', resp) \<Rightarrow>
       (p'\<lparr>pp_metrics := RecordHTTPRequest (metric_of e i (fst resp)) (pp_metrics p)\<rparr>, resp))"
  by (auto simp: fun_eq_iff middleware_named_def answers_def limited_def on_store_def RateLimit_def Let_def
      RequestIDMiddleware_def RecoveryMiddleware_def LoggingMiddleware_def Metrics_middleware_def log_of_def metric_of_def
      split: prod.split bool.split)

lemma limited_frame:
  "limited e h p r = (p', resp) \<Longrightarrow> pp_log p' = pp_log p \<and> pp_metrics p' = pp_metrics p"
  by (auto simp: limited_def split: prod.splits bool.splits)

lemma pipeline_eq:
  assumes "map_of (file_routes e) (ev_route e) = Some h" "limited e h p (r\<lparr>rq_id := ev_ids e 3\<rparr>) = (p', resp)"
  shows "pipeline e p r = Some
    (p'\<lparr>pp_metrics := RecordHTTPRequest (metric_of e 6 (fst resp)) (pp_metrics p),
       pp_log := pp_log p @ [log_of e 4 (fst resp), log_of e 1 (fst resp)]\<rparr>, Return resp)"
  using assms limited_frame [OF assms(2)]
  by (simp add: pipeline_def metaserver_http_spec answers_def eval_nat_numeral)


section \<open>Runs\<close>

text \<open>
  A run of the server from its start, at times of the limiter that never go back, with the requests
  that reached a handler. The orders of the loops are those of the maps at that time.
\<close>

inductive pipe_run :: "gotime \<Rightarrow> pipe \<Rightarrow> (string \<times> gotime) list \<Rightarrow> bool" where
  boot: "pipe_run t \<lparr>pp_log = [], pp_metrics = NewCollector, pp_limiter = Map.empty,
    pp_store = fst (Initialize t1 t2 NewMemoryStore)\<rparr> []"
| request: "pipe_run t p hist \<Longrightarrow> t \<le> ev_now e \<Longrightarrow>
    enumerates (ev_dirs e) (ms_directories (pp_store p)) \<Longrightarrow> enumerates (ev_files e) (ms_files (pp_store p)) \<Longrightarrow>
    pipeline e p r = Some (p', answer) \<Longrightarrow>
    pipe_run (ev_now e) p'
      (if snd (RateLimit_admit 100 Second (ev_now e) (pp_limiter p) (getClientIP (ev_client e)))
       then hist @ [(getClientIP (ev_client e), ev_now e)] else hist)"
| cleanup: "pipe_run t p hist \<Longrightarrow> t \<le> now \<Longrightarrow> enumerates ips (pp_limiter p) \<Longrightarrow>
    pipe_run now (p\<lparr>pp_limiter := RateLimit_cleanup Second now ips (pp_limiter p)\<rparr>) hist"

lemma handler_steps:
  "store_reachable s \<Longrightarrow> store_reachable (fst (FilesAPI_CreateFile md t s r))"
  "store_reachable s \<Longrightarrow> store_reachable (fst (FilesAPI_UpdateFile md ks t s r))"
  "store_reachable s \<Longrightarrow> store_reachable (fst (FilesAPI_DeleteFile md s r))"
  "store_reachable s \<Longrightarrow> store_reachable (fst (DirectoriesAPI_CreateDirectory md dec_dir t s r))"
  "store_reachable s \<Longrightarrow> enumerates dks (ms_directories s) \<Longrightarrow> enumerates fks (ms_files s) \<Longrightarrow>
     store_reachable (fst (DirectoriesAPI_DeleteDirectory md dks fks s r))"
  using reach_step [OF _ step_create] reach_step [OF _ step_update] reach_step [OF _ step_delete]
    reach_step [OF _ step_mkdir] reach_step [OF _ step_rmdir]
  by (auto simp: FilesAPI_CreateFile_def FilesAPI_UpdateFile_def FilesAPI_DeleteFile_def DirectoriesAPI_CreateDirectory_def
      DirectoriesAPI_DeleteDirectory_def Let_def split: option.splits sum.splits prod.splits body.splits) (metis fst_conv)+

lemma route_reaches:
  assumes "map_of (file_routes e) route = Some h" "store_reachable s"
    "enumerates (ev_dirs e) (ms_directories s)" "enumerates (ev_files e) (ms_files s)"
  shows "store_reachable (fst (h s r))"
  using assms(1) assms(2-) by (auto simp: file_routes_def handler_steps split: if_splits)

lemma collector_bound:
  "length (sc_httpMetrics c) \<le> sc_maxItems c \<Longrightarrow> 0 < sc_maxItems c \<Longrightarrow>
   length (sc_httpMetrics (RecordHTTPRequest x c)) \<le> sc_maxItems c \<and> sc_maxItems (RecordHTTPRequest x c) = sc_maxItems c"
  by (auto simp: RecordHTTPRequest_def Let_def)

lemma pipe_run_inv:
  assumes "pipe_run t p hist"
  shows "store_reachable (pp_store p) \<and> rl_run 100 Second t (pp_limiter p) hist \<and>
    length (sc_httpMetrics (pp_metrics p)) \<le> 1000 \<and> sc_maxItems (pp_metrics p) = 1000"
  using assms
proof induction
  case (boot t t1 t2)
  then show ?case using reach_step [OF reach_new step_init] rl_run.start by (auto simp: NewCollector_def)
next
  case (request t p hist e r p' answer)
  let ?adm = "RateLimit_admit 100 Second (ev_now e) (pp_limiter p) (getClientIP (ev_client e))"
  obtain h where h: "map_of (file_routes e) (ev_route e) = Some h"
    using request.hyps(5) by (auto simp: pipeline_def split: option.splits)
  obtain q resp where l: "limited e h p (r\<lparr>rq_id := ev_ids e 3\<rparr>) = (q, resp)" by (metis prod.exhaust)
  have p': "p' = q\<lparr>pp_metrics := RecordHTTPRequest (metric_of e 6 (fst resp)) (pp_metrics p),
      pp_log := pp_log p @ [log_of e 4 (fst resp), log_of e 1 (fst resp)]\<rparr>"
    using request.hyps(5) unfolding pipeline_eq [OF h l] by simp
  have "pp_limiter q = fst ?adm" using l by (auto simp: limited_def split: prod.splits bool.splits)
  moreover have "store_reachable (pp_store q)"
    using l route_reaches [OF h _ request.hyps(3,4), of "r\<lparr>rq_id := ev_ids e 3\<rparr>"] request.IH
    by (auto simp: limited_def split: prod.splits bool.splits)
  moreover have "rl_run 100 Second (ev_now e) (fst ?adm) (if snd ?adm then hist @ [(getClientIP (ev_client e), ev_now e)] else hist)"
    using request.IH request.hyps(2) by (intro rl_run.request) auto
  ultimately show ?case
    using request.IH collector_bound [of "pp_metrics p"] by (simp add: p')
next
  case (cleanup t p hist now ips)
  then show ?case by (auto intro: rl_run.cleanup)
qed


definition demo_env :: env where
  "demo_env = \<lparr>ev_md = (\<lambda>_. None), ev_route = (''POST'', ''/files/{path:.*}''), ev_url = ''/api/v1/files/b'',
     ev_client = \<lparr>cl_XForwardedFor = [], cl_XRealIP = ''c'', cl_RemoteAddr = []\<rparr>, ev_now = 40, ev_handled = 41,
     ev_ids = (\<lambda>i. dec i), ev_elapsed = (\<lambda>_. 0), ev_recorded = 42, ev_updates = [], ev_dirs = [''/''], ev_files = [],
     ev_decode = (\<lambda>_. None)\<rparr>"

definition demo_pipe :: pipe where
  "demo_pipe = \<lparr>pp_log = [], pp_metrics = NewCollector, pp_limiter = Map.empty, pp_store = fst (Initialize 10 11 NewMemoryStore)\<rparr>"

lemma demo_route: "map_of (file_routes demo_env) (ev_route demo_env) = Some (FilesAPI_CreateFile (\<lambda>_. None) 41)"
  by (simp add: file_routes_def demo_env_def)

lemma demo_admitted:
  "RateLimit_admit 100 Second (ev_now demo_env) (pp_limiter demo_pipe) (getClientIP (ev_client demo_env)) = ([''c'' \<mapsto> [40]], True)"
  by (simp add: RateLimit_admit_def demo_env_def demo_pipe_def getClientIP_def Let_def)



end
