(* ===== verification/HeartbeatNet.thy ===== *)
theory HeartbeatNet
  imports HttpNet Heartbeat
begin

text \<open>
  Heartbeats on the network: the construction of the HTTP client and its JSON calls
  (\<^verbatim>\<open>common/network/http/client.go\<close>), \<^verbatim>\<open>sendHeartbeatToNode\<close> of the heartbeat manager, and a fleet of
  metadata servers that send heartbeats to each other, each with the routes its HTTP server
  registers.

  \<^verbatim>\<open>sendHeartbeatToNode\<close> calls an option \<^verbatim>\<open>WithTimeout\<close> that the package names \<^verbatim>\<open>WithClientTimeout\<close> and hands
  \<^verbatim>\<open>PostJSON\<close> a sixth argument; it is read with that option and without the argument. Which route
  serves a request is decided by the mux library, a parameter with one law: a route serves a path
  only if the path begins with the text of the route before its first variable.

  The lemmas show that no server has a route for heartbeats: each one is answered with 404 after a
  single attempt and recorded nowhere, so every server takes its peers for dead some time after
  their registration, however alive they are.
\<close>

section \<open>The client\<close>

record Client =
  ct_baseURL :: string
  ct_Timeout :: duration
  ct_retryPolicy :: RetryPolicy

definition NewClient :: "string \<Rightarrow> (Client \<Rightarrow> Client) list \<Rightarrow> Client" where
  "NewClient baseURL options =
     foldl (\<lambda>c option. option c)
       \<lparr>ct_baseURL = baseURL, ct_Timeout = 30 * Second, ct_retryPolicy = default_policy\<rparr> options"

definition WithClientTimeout :: "duration \<Rightarrow> Client \<Rightarrow> Client" where
  "WithClientTimeout timeout c = c\<lparr>ct_Timeout := timeout\<rparr>"

text \<open>
  \<open>net\<close> is what the network answers to an attempt, by method, URL and number of the attempt. The
  request body is rewound without an error, since it is a reader of bytes.
\<close>

type_synonym network = "string \<Rightarrow> string \<Rightarrow> nat \<Rightarrow> do_result"

definition call_JSON ::
  "string \<Rightarrow> Client \<Rightarrow> network \<Rightarrow> string \<Rightarrow> go_error option \<Rightarrow> go_error option \<Rightarrow> (string \<Rightarrow> go_error option) option \<Rightarrow>
   go_error option outcome" where
  "call_JSON method c net path marshal newRequest decode =
     DoJSON (ct_retryPolicy c) marshal newRequest (net method (ct_baseURL c @ path)) (\<lambda>_. None) decode"

definition GetJSON ::
  "Client \<Rightarrow> network \<Rightarrow> string \<Rightarrow> go_error option \<Rightarrow> (string \<Rightarrow> go_error option) option \<Rightarrow> go_error option outcome" where
  "GetJSON c net path newRequest result = call_JSON ''GET'' c net path None newRequest result"

definition PostJSON ::
  "Client \<Rightarrow> network \<Rightarrow> string \<Rightarrow> go_error option \<Rightarrow> go_error option \<Rightarrow> (string \<Rightarrow> go_error option) option \<Rightarrow>
   go_error option outcome" where
  "PostJSON c net path marshal newRequest result = call_JSON ''POST'' c net path marshal newRequest result"

definition PutJSON ::
  "Client \<Rightarrow> network \<Rightarrow> string \<Rightarrow> go_error option \<Rightarrow> go_error option \<Rightarrow> (string \<Rightarrow> go_error option) option \<Rightarrow>
   go_error option outcome" where
  "PutJSON c net path marshal newRequest result = call_JSON ''PUT'' c net path marshal newRequest result"

definition DeleteJSON ::
  "Client \<Rightarrow> network \<Rightarrow> string \<Rightarrow> go_error option \<Rightarrow> (string \<Rightarrow> go_error option) option \<Rightarrow> go_error option outcome" where
  "DeleteJSON c net path newRequest result = call_JSON ''DELETE'' c net path None newRequest result"

section \<open>Sending a heartbeat\<close>

definition heartbeat_path :: string where
  "heartbeat_path = ''/api/v1/heartbeat''"

text \<open>
  The result is the error that is logged. The body is a map of strings, whose encoding does not fail;
  \<open>newRequest\<close> is an error of the URL made from the identifier, and \<open>decode\<close> reads the answer.
\<close>

definition sendHeartbeatToNode ::
  "network \<Rightarrow> go_error option \<Rightarrow> (string \<Rightarrow> go_error option) \<Rightarrow> NodeID \<Rightarrow> go_error option outcome" where
  "sendHeartbeatToNode net newRequest decode nodeID =
     (let baseURL = getNodeURL nodeID;
          client = NewClient baseURL [WithClientTimeout (5 * Second)]
      in PostJSON client net heartbeat_path None newRequest (Some decode))"

section \<open>A server's answer\<close>

type_synonym route = "string \<times> string"

text \<open>The router picks a route for a method and path, or none; a request for none gets 404.\<close>

type_synonym router = "route list \<Rightarrow> string \<Rightarrow> string \<Rightarrow> route option"

definition template_text :: "string \<Rightarrow> string" where
  "template_text t = takeWhile (\<lambda>c. c \<noteq> CHR ''{'') t"

definition mux_law :: "router \<Rightarrow> bool" where
  "mux_law mux \<longleftrightarrow> (\<forall>rs method path rt. mux rs method path = Some rt \<longrightarrow>
     rt \<in> set rs \<and> prefix (template_text (snd rt)) path)"

text \<open>\<open>handle\<close> is what the handler of a route does to the heartbeat manager of its server, and its answer.\<close>

definition server_answer ::
  "router \<Rightarrow> (route \<Rightarrow> hb_manager \<Rightarrow> hb_manager \<times> do_result) \<Rightarrow> string \<Rightarrow> string \<Rightarrow> hb_manager \<Rightarrow> hb_manager \<times> do_result" where
  "server_answer mux handle method path m =
     (case mux (hs_routes (metaserver_http [] 0)) method path of
        None \<Rightarrow> (m, DoResponse 404 ''404 page not found'')
      | Some rt \<Rightarrow> handle rt m)"

section \<open>No route for heartbeats\<close>

lemma no_route_text:
  "list_all (\<lambda>(method, path). \<not> prefix (template_text path) heartbeat_path)
     (map (\<lambda>(method, path). (method, ''/api/v1'' @ path)) api_routes @ [(''GET'', ''/health'')])"
  by (simp add: api_routes_def heartbeat_path_def template_text_def)

lemma no_route:
  assumes "mux_law mux"
  shows "mux (hs_routes (metaserver_http host port)) method heartbeat_path = None"
proof (rule ccontr)
  assume "mux (hs_routes (metaserver_http host port)) method heartbeat_path \<noteq> None"
  then obtain rt where "mux (hs_routes (metaserver_http host port)) method heartbeat_path = Some rt" by blast
  then have "rt \<in> set (hs_routes (metaserver_http host port))" "prefix (template_text (snd rt)) heartbeat_path"
    using assms unfolding mux_law_def by blast+
  with no_route_text show False by (auto simp: metaserver_http_spec list_all_iff)
qed

lemma heartbeat_answer:
  "mux_law mux \<Longrightarrow> server_answer mux handle method heartbeat_path m = (m, DoResponse 404 ''404 page not found'')"
  by (simp add: server_answer_def no_route)

lemma heartbeat_call:
  assumes "net ''POST'' (getNodeURL n @ heartbeat_path) 0 = DoResponse 404 body"
  shows "sendHeartbeatToNode net None decode n =
    Return (Some (PlainErr (''HTTP request failed: 404 '' @ body)))"
proof -
  let ?send = "net ''POST'' (getNodeURL n @ heartbeat_path)"
  have "nat (rt_MaxRetries default_policy + 1) = Suc (Suc (Suc (Suc 0)))" by (simp add: default_policy_def)
  then have "snd (snd (doWithRetry default_policy ?send (\<lambda>_. None))) = Inr (Some (404, body))"
    using assms by (simp add: doWithRetry_def ShouldRetry_def Let_def)
  moreover have "dec 404 = ''404''" by code_simp
  ultimately show ?thesis
    by (simp add: sendHeartbeatToNode_def NewClient_def WithClientTimeout_def PostJSON_def call_JSON_def DoJSON_def
        client_request_def Let_def)
qed

section \<open>A fleet of servers\<close>

text \<open>
  Each server has its heartbeat manager; \<open>reg\<close> keeps the time at which one was told of another. Whatever
  is sent, the receiving server handles it as its routes say.
\<close>

inductive fleet_run ::
  "router \<Rightarrow> (route \<Rightarrow> hb_manager \<Rightarrow> hb_manager \<times> do_result) \<Rightarrow> (NodeID \<Rightarrow> HeartbeatConfig) \<Rightarrow>
   (NodeID \<Rightarrow> hb_manager) \<Rightarrow> (NodeID \<Rightarrow> NodeID \<Rightarrow> gotime) \<Rightarrow> bool"
  for mux handle cfgs where
  fleet_start: "fleet_run mux handle cfgs (\<lambda>a. Heartbeat_NewManager (cfgs a)) reg"
| fleet_register: "fleet_run mux handle cfgs f reg \<Longrightarrow>
    fleet_run mux handle cfgs (f(a := RegisterNode now n (f a))) (reg(a := (reg a)(n := now)))"
| fleet_unregister: "fleet_run mux handle cfgs f reg \<Longrightarrow> fleet_run mux handle cfgs (f(a := UnregisterNode n (f a))) reg"
| fleet_send: "fleet_run mux handle cfgs f reg \<Longrightarrow> (n, url) \<in> set (sendHeartbeats ks (f a)) \<Longrightarrow>
    fleet_run mux handle cfgs (f(n := fst (server_answer mux handle ''POST'' heartbeat_path (f n)))) reg"
| fleet_check: "fleet_run mux handle cfgs f reg \<Longrightarrow> enumerates ks (hm_nodeStates (f a)) \<Longrightarrow>
    fleet_run mux handle cfgs (f(a := fst (checkHeartbeats ks now (f a)))) reg"
| fleet_cleanup: "fleet_run mux handle cfgs f reg \<Longrightarrow> enumerates ks (hm_nodeStates (f a)) \<Longrightarrow>
    fleet_run mux handle cfgs (f(a := cleanupDeadNodes ks now (f a))) reg"

text \<open>Nobody's entry is ever refreshed: its last heartbeat is its registration.\<close>

definition unrefreshed :: "(NodeID \<Rightarrow> gotime) \<Rightarrow> hb_manager \<Rightarrow> bool" where
  "unrefreshed reg m \<longleftrightarrow> (\<forall>n st. hm_nodeStates m n = Some st \<longrightarrow> ns_LastHeartbeat st = reg n)"

lemma check_node_last [simp]: "ns_LastHeartbeat (fst (check_node cfg now n st)) = ns_LastHeartbeat st"
  by (simp add: check_node_def Let_def)

lemma fleet_inv:
  assumes "mux_law mux" "fleet_run mux handle cfgs f reg"
  shows "hb_reachable (cfgs a) (f a) \<and> unrefreshed (reg a) (f a)"
  using assms(2)
proof (induction arbitrary: a)
  case (fleet_start reg)
  then show ?case using hb_new by (simp add: unrefreshed_def Heartbeat_NewManager_def Let_def)
next
  case (fleet_register f reg b now n)
  then show ?case
    using hb_next [OF _ hb_register] by (auto simp: unrefreshed_def RegisterNode_def fresh_node_def)
next
  case (fleet_unregister f reg b n)
  then show ?case
    using hb_next [OF _ hb_unregister] by (auto simp: unrefreshed_def UnregisterNode_def)
next
  case (fleet_send f reg n url ks b)
  then show ?case by (simp add: heartbeat_answer [OF assms(1)])
next
  case (fleet_check f reg ks b now)
  then show ?case
    using hb_next [OF _ hb_check] by (auto simp: unrefreshed_def check_node_all)
next
  case (fleet_cleanup f reg ks b now)
  then show ?case
    using hb_next [OF _ hb_cleanup] by (auto simp: unrefreshed_def cleanupDeadNodes_def go_map split: option.splits if_splits)
qed

text \<open>
  (C7) Heartbeats between metadata servers reach nobody. In every run of a fleet, however often its
  servers send to each other: a heartbeat is answered with 404, which is the error of a single
  attempt, and changes nothing at the receiver. So the last heartbeat a server knows of another is
  its registration: a check later than that by more than the suspect limit leaves the other suspect
  or dead, and one later by more than the dead limit leaves it dead unless it was still healthy.
\<close>

theorem heartbeats_reach_nobody:
  assumes "mux_law mux" "fleet_run mux handle cfgs f reg"
    and "hm_nodeStates (f a) n = Some st" "n \<noteq> hb_NodeID (hm_cfg (f a))" "enumerates ks (hm_nodeStates (f a))"
    and after: "after = fst (checkHeartbeats ks now (f a))"
  shows "ns_LastHeartbeat st = reg a n \<and>
    (now - reg a n > hb_SuspectTimeout (hm_cfg (f a)) \<longrightarrow> GetNodeState after n \<in> {NodeStatusSuspect, NodeStatusDead}) \<and>
    (now - reg a n > hb_DeadTimeout (hm_cfg (f a)) \<and> GetNodeState (f a) n \<noteq> NodeStatusHealthy \<longrightarrow>
       GetNodeState after n = NodeStatusDead) \<and>
    fst (server_answer mux handle ''POST'' heartbeat_path (f n)) = f n \<and>
    (\<forall>net decode. (\<forall>k. net ''POST'' (getNodeURL n @ heartbeat_path) k = snd (server_answer mux handle ''POST'' heartbeat_path (f n))) \<longrightarrow>
       sendHeartbeatToNode net None decode n = Return (Some (PlainErr ''HTTP request failed: 404 404 page not found'')))"
proof -
  note inv = fleet_inv [OF assms(1,2), of a]
  have last: "ns_LastHeartbeat st = reg a n" using inv assms(3) by (auto simp: unrefreshed_def)
  have "ns_State st \<noteq> NodeStatusUnknown" using inv hb_reachable_wf assms(3) by (auto simp: wf_hb_def wf_node_def)
  moreover have "GetNodeState after n = ns_State (fst (check_node (hm_cfg (f a)) now n st))"
    by (simp add: after GetNodeState_def check_node_all [OF assms(5)] assms(3))
  moreover have "GetNodeState (f a) n = ns_State st" by (simp add: GetNodeState_def assms(3))
  ultimately show ?thesis
    using last assms(4) heartbeat_answer [OF assms(1)] heartbeat_call
    by (cases "ns_State st") (auto simp: check_node_def Let_def)
qed

text \<open>A router that takes the first route whose text the path begins with.\<close>

definition demo_mux :: router where
  "demo_mux rs method path = find (\<lambda>(m, t). m = method \<and> prefix (template_text t) path) rs"

lemma demo_mux_law: "mux_law demo_mux"
  by (auto simp: mux_law_def demo_mux_def find_Some_iff in_set_conv_nth)

theorem heartbeats_reach_nobody_witness:
  "let cfgs = (\<lambda>a. hb_default a); f0 = (\<lambda>a. Heartbeat_NewManager (cfgs a));
       f = f0(''1'' := RegisterNode 0 ''2'' (f0 ''1''))
   in GetNodeState (fst (checkHeartbeats [''2''] (4 * Second) (f ''1''))) ''2'' \<in> {NodeStatusSuspect, NodeStatusDead}"
proof -
  let ?f0 = "\<lambda>a. Heartbeat_NewManager (hb_default a)"
  let ?f = "?f0(''1'' := RegisterNode 0 ''2'' (?f0 ''1''))"
  let ?h = "\<lambda>rt m. (m, DoResponse 200 [])"
  have "fleet_run demo_mux ?h hb_default ?f ((\<lambda>_ _. 0)(''1'' := (\<lambda>_. 0)(''2'' := 0)))"
    by (intro fleet_register fleet_start)
  note run = this
  have "hm_nodeStates (?f ''1'') ''2'' = Some (fresh_node ''2'' 0)" "''2'' \<noteq> hb_NodeID (hm_cfg (?f ''1''))"
    "enumerates [''2''] (hm_nodeStates (?f ''1''))" "hb_SuspectTimeout (hm_cfg (?f ''1'')) = 3 * Second"
    by (simp_all add: RegisterNode_def Heartbeat_NewManager_def hb_default_def enumerates_def Let_def)
  with heartbeats_reach_nobody [OF demo_mux_law run, of "''1''" "''2''" "fresh_node ''2'' 0" "[''2'']" _ "4 * Second", OF _ _ _ refl]
  show ?thesis by (simp add: Let_def durations)
qed

end
