(* ===== verification/AdminApi.thy ===== *)
theory AdminApi
  imports HttpNet ClusterMgr
begin

text \<open>
  The handlers for administration and for the cluster, \<^verbatim>\<open>server/api/v1/admin.go\<close> and \<^verbatim>\<open>cluster.go\<close>, and the
  views of the cluster manager they show: \<^verbatim>\<open>GetRebalanceStatus\<close> and \<^verbatim>\<open>GetClusterSnapshot\<close>.

  Readings of the machine (memory, processor, goroutines), the clock and the formats of times are
  arguments. \<^verbatim>\<open>ServerStatus\<close> reads a field \<^verbatim>\<open>Version\<close> that the configuration does not have; it is part of
  the record of the handler. The handlers of \<^verbatim>\<open>cluster.go\<close> have empty bodies.

  The lemmas show that the views agree with each other and with what the managers store, and what
  they can never show: a leader.
\<close>

section \<open>Administration\<close>

record 'c AdminAPI =
  ad_NodeID :: NodeID
  ad_Version :: string
  ad_cluster :: "'c cluster_manager"
  ad_startTime :: gotime

definition NewAdminAPI :: "gotime \<Rightarrow> NodeID \<Rightarrow> string \<Rightarrow> 'c cluster_manager \<Rightarrow> 'c AdminAPI" where
  "NewAdminAPI now nodeID version cluster =
     \<lparr>ad_NodeID = nodeID, ad_Version = version, ad_cluster = cluster, ad_startTime = now\<rparr>"

definition getActiveConnections :: "'c AdminAPI \<Rightarrow> int" where
  "getActiveConnections a = 0"

definition HealthCheck :: "(gotime \<Rightarrow> string) \<Rightarrow> gotime \<Rightarrow> request \<Rightarrow> http_response" where
  "HealthCheck rfc3339 now r =
     RespondSuccess r 200 (MapData
       [(''status'', JString ''running''), (''timestamp'', JString (rfc3339 now)), (''version'', JString ''1.0.0'')])"

definition getMemoryUsage :: "nat \<Rightarrow> real" where
  "getMemoryUsage alloc = real alloc / 1024 / 1024"

definition getCPUUsage :: "go_error + real list \<Rightarrow> real" where
  "getCPUUsage percent =
     (case percent of
        Inl _ \<Rightarrow> 0
      | Inr ps \<Rightarrow> if length ps > 0 then hd ps else 0)"

definition getDiskUsage :: "(string \<times> real) list" where
  "getDiskUsage = [(''total_gb'', 100), (''used_gb'', 50), (''percent_used'', 50)]"

text \<open>
  What one request reads: memory, processor, goroutines, the time for the uptime and the one for the
  last election, and the order of the loop over the nodes.
\<close>

record machine =
  mc_alloc :: nat
  mc_cpu :: "go_error + real list"
  mc_goroutines :: int
  mc_now :: gotime
  mc_now2 :: gotime
  mc_order :: "NodeID list"

definition ServerStatus ::
  "(gotime \<Rightarrow> string) \<Rightarrow> (duration \<Rightarrow> string) \<Rightarrow> machine \<Rightarrow> 'c AdminAPI \<Rightarrow> request \<Rightarrow> http_response" where
  "ServerStatus rfc3339 duration_text mc a r =
     (let isLeader = Cluster_IsLeader (ad_cluster a);
          status =
            [(''id'', JString (ad_NodeID a)),
             (''uptime'', JString (duration_text (mc_now mc - ad_startTime a))),
             (''is_leader'', JBool isLeader),
             (''version'', JString (ad_Version a)),
             (''system_info'', JObject
                [(''memory_usage'', JFrac (getMemoryUsage (mc_alloc mc))), (''cpu_usage'', JFrac (getCPUUsage (mc_cpu mc))),
                 (''disk_usage'', JObject (map (\<lambda>(k, v). (k, JFrac v)) getDiskUsage)), (''goroutines'', JInt (mc_goroutines mc))]),
             (''cluster_info'', JObject
                [(''node_count'', JInt (int (GetNodeCount (ad_cluster a)))),
                 (''healthy_nodes'', JInt (int (GetHealthyNodeCount (mc_order mc) (ad_cluster a)))),
                 (''leader_id'', JString (Cluster_GetCurrentLeader (ad_cluster a))),
                 (''last_election'', JString (rfc3339 (LastElectionTime (mc_now2 mc) (ad_cluster a))))])]
      in RespondSuccess r 200 (MapData status))"

section \<open>The views of the cluster manager\<close>

definition GetRebalanceStatus :: "string list \<Rightarrow> 'c cluster_manager \<Rightarrow> bool \<times> gotime \<times> nat \<times> MigrationTask list" where
  "GetRebalanceStatus ks m = GetStatus ks (cm_rebalanceMgr m)"

record snapshot =
  sp_total_nodes :: nat
  sp_healthy_nodes :: nat
  sp_leader_id :: string
  sp_last_election :: gotime
  sp_rebalance_status :: "bool \<times> gotime \<times> nat \<times> MigrationTask list"

text \<open>\<open>ks\<close>, \<open>order\<close> and \<open>tasks\<close> are the orders of the loops over the nodes and the tasks.\<close>

definition GetClusterSnapshot ::
  "(NodeID \<times> readings) list \<Rightarrow> NodeID list \<Rightarrow> string list \<Rightarrow> gotime \<Rightarrow> 'c cluster_manager \<Rightarrow> 'c cluster_manager \<times> snapshot" where
  "GetClusterSnapshot ks order tasks now m =
     (case ListNodes None ks m of (m, nodes) \<Rightarrow>
        (m, \<lparr>sp_total_nodes = (case nodes of Inr ns \<Rightarrow> length ns | Inl _ \<Rightarrow> 0),
             sp_healthy_nodes = GetHealthyNodeCount order m,
             sp_leader_id = Cluster_GetCurrentLeader m,
             sp_last_election = LastElectionTime now m,
             sp_rebalance_status = GetRebalanceStatus tasks m\<rparr>))"

section \<open>Cluster handlers\<close>

text \<open>A handler that writes nothing: the HTTP server answers 200 with no body.\<close>

datatype wire_answer = Answered http_response | EmptyAnswer nat

definition ClusterAPI_handler :: "'c cluster_manager \<Rightarrow> request \<Rightarrow> 'c cluster_manager \<times> wire_answer" where
  "ClusterAPI_handler m r = (m, EmptyAnswer 200)"

section \<open>Properties\<close>

lemma list_loop_length: "list_loop states l ks m = (m', nodes) \<Longrightarrow> length nodes = length ks"
  by (induction states l ks m arbitrary: m' nodes rule: list_loop.induct)
    (auto simp: Let_def split: option.splits prod.splits)

lemma snapshot_frame:
  assumes "ListNodes None ks m = (m', r)"
  shows "\<exists>k nodes. m' = m\<lparr>cm_nodeCache := k\<rparr> \<and> r = Inr nodes \<and> length nodes = length ks"
proof -
  obtain nodes where l: "list_loop (GetAllNodeStates (cm_heartbeatMgr m)) (Cluster_GetCurrentLeader m) ks m = (m', nodes)" "r = Inr nodes"
    using assms by (auto simp: ListNodes_def Let_def split: prod.splits)
  then show ?thesis using list_loop_frame [OF l(1)] list_loop_length [OF l(1)] by blast
qed

lemma healthy_count:
  "enumerates ks (hm_nodeStates (cm_heartbeatMgr m)) \<Longrightarrow>
   GetHealthyNodeCount ks m = card {n. GetNodeState (cm_heartbeatMgr m) n = NodeStatusHealthy}"
proof -
  assume e: "enumerates ks (hm_nodeStates (cm_heartbeatMgr m))"
  have "{n \<in> set ks. GetAllNodeStates (cm_heartbeatMgr m) n = Some NodeStatusHealthy} =
      {n. GetNodeState (cm_heartbeatMgr m) n = NodeStatusHealthy}"
    using enumeratesD(2) [OF e] by (auto simp: GetAllNodeStates_def GetNodeState_def dom_def split: option.splits)
  then show ?thesis
    using length_filter_le_card [OF enumeratesD(1) [OF e]] by (simp add: GetHealthyNodeCount_def)
qed

text \<open>
  What the status page and the snapshot show, in every state a cluster manager can reach. Both
  count the registered nodes and the healthy ones among them, in whatever order they are visited, so
  they agree; taking a snapshot changes nothing but the cache. But neither ever names a leader, also
  not on the node that says it is the leader, and both report the time of the request as the time of
  the last election.
\<close>

theorem status_views_agree:
  assumes "cl_reachable start cfg m" "enumerates (map fst ks) (hm_nodeStates (cm_heartbeatMgr m))"
    and "enumerates order (hm_nodeStates (cm_heartbeatMgr m))" "enumerates (mc_order mc) (hm_nodeStates (cm_heartbeatMgr m))"
    and "GetClusterSnapshot ks order tasks now m = (m', sp)"
  shows "(\<exists>k. m' = m\<lparr>cm_nodeCache := k\<rparr>) \<and> sp_total_nodes sp = card (dom (hm_nodeStates (cm_heartbeatMgr m))) \<and>
    sp_healthy_nodes sp = card {n. GetNodeState (cm_heartbeatMgr m) n = NodeStatusHealthy} \<and>
    sp_healthy_nodes sp \<le> sp_total_nodes sp \<and> sp_leader_id sp = [] \<and> sp_last_election sp = now \<and>
    ServerStatus rfc3339 duration_text mc \<lparr>ad_NodeID = i, ad_Version = v, ad_cluster = m, ad_startTime = t0\<rparr> r =
      RespondSuccess r 200 (MapData
        [(''id'', JString i), (''uptime'', JString (duration_text (mc_now mc - t0))),
         (''is_leader'', JBool (Election_IsLeader (cm_electionMgr m))), (''version'', JString v),
         (''system_info'', JObject
            [(''memory_usage'', JFrac (real (mc_alloc mc) / 1024 / 1024)), (''cpu_usage'', JFrac (getCPUUsage (mc_cpu mc))),
             (''disk_usage'', JObject [(''total_gb'', JFrac 100), (''used_gb'', JFrac 50), (''percent_used'', JFrac 50)]),
             (''goroutines'', JInt (mc_goroutines mc))]),
         (''cluster_info'', JObject
            [(''node_count'', JInt (int (sp_total_nodes sp))), (''healthy_nodes'', JInt (int (sp_healthy_nodes sp))),
             (''leader_id'', JString []), (''last_election'', JString (rfc3339 (mc_now2 mc)))])])"
proof -
  obtain m1 nodes0 where l: "ListNodes None ks m = (m1, nodes0)" by (metis prod.exhaust)
  obtain k nodes where n: "m1 = m\<lparr>cm_nodeCache := k\<rparr>" "nodes0 = Inr nodes" "length nodes = length ks"
    using snapshot_frame [OF l] by blast
  have b: "cm_leader m = []" "em_currentLeader (cm_electionMgr m) = []" "IsZero (cm_lastElection m)"
    using cl_reachable_blind [OF assms(1)] by (auto simp: cl_blind_def el_blind_def)
  have lead: "Cluster_GetCurrentLeader m = []" "LastElectionTime t m = t" for t
    using b by (simp_all add: Cluster_GetCurrentLeader_def Election_GetCurrentLeader_def LastElectionTime_def)
  have cnt: "length ks = card (dom (hm_nodeStates (cm_heartbeatMgr m)))" "GetNodeCount m = card (dom (hm_nodeStates (cm_heartbeatMgr m)))"
    using enumerates_length [OF assms(2)] by (simp_all add: GetNodeCount_def GetAllNodeStates_def)
  have healthy: "GetHealthyNodeCount order m = card {n. GetNodeState (cm_heartbeatMgr m) n = NodeStatusHealthy}"
    "GetHealthyNodeCount (mc_order mc) m = card {n. GetNodeState (cm_heartbeatMgr m) n = NodeStatusHealthy}"
    using healthy_count assms(3,4) by blast+
  have le: "card {n. GetNodeState (cm_heartbeatMgr m) n = NodeStatusHealthy} \<le> card (dom (hm_nodeStates (cm_heartbeatMgr m)))"
    using enumerates_finite [OF assms(3)] by (intro card_mono) (auto simp: GetNodeState_def split: option.splits)
  have m': "m' = m\<lparr>cm_nodeCache := k\<rparr>" and sp: "sp = \<lparr>sp_total_nodes = length ks, sp_healthy_nodes = GetHealthyNodeCount order m,
      sp_leader_id = [], sp_last_election = now, sp_rebalance_status = GetRebalanceStatus tasks m\<rparr>"
    using assms(5) l n b
    by (auto simp: GetClusterSnapshot_def GetHealthyNodeCount_def Cluster_GetCurrentLeader_def Election_GetCurrentLeader_def
        LastElectionTime_def GetRebalanceStatus_def)
  show ?thesis
    unfolding ServerStatus_def
    using m' cnt healthy le lead by (auto simp: sp Cluster_IsLeader_def getMemoryUsage_def getDiskUsage_def)
qed

theorem status_views_agree_witness:
  "let m = Cluster_RegisterNode 0 ''2'' cm_demo0
   in sp_total_nodes (snd (GetClusterSnapshot [(''2'', 5, 5, 5)] [''2''] [] 7 m)) = 1 \<and>
      sp_leader_id (snd (GetClusterSnapshot [(''2'', 5, 5, 5)] [''2''] [] 7 m)) = []"
proof -
  let ?m = "Cluster_RegisterNode 0 ''2'' cm_demo0"
  let ?mc = "\<lparr>mc_alloc = 0, mc_cpu = Inr [], mc_goroutines = 9, mc_now = 5, mc_now2 = 6, mc_order = [''2'']\<rparr>"
  have r: "cl_reachable (\<lambda>_ _. None) demo_ccfg ?m"
    by (rule cl_next [OF cl_new [OF cm_demo_new] cl_register])
  have d: "hm_nodeStates (cm_heartbeatMgr ?m) = [''2'' \<mapsto> fresh_node ''2'' 0]"
    by (simp add: Cluster_RegisterNode_def RegisterNode_def cm_demo0_def Heartbeat_NewManager_def heartbeat_cfg_def Let_def)
  then have e: "enumerates (map fst [(''2'', 5 :: gotime, 5 :: gotime, 5 :: gotime)]) (hm_nodeStates (cm_heartbeatMgr ?m))"
    "enumerates [''2''] (hm_nodeStates (cm_heartbeatMgr ?m))" "enumerates (mc_order ?mc) (hm_nodeStates (cm_heartbeatMgr ?m))"
    by (simp_all add: enumerates_def)
  from status_views_agree [OF r e(1,2,3) surjective_pairing, of "[]" 7 "\<lambda>_. []" "\<lambda>_. []" "''1''" "[]" 0 demo_post]
  show ?thesis by (simp add: d Let_def)
qed

end
