(* ===== verification/Hashing.thy ===== *)
theory Hashing
  imports Errors
begin

text \<open>
  The hash helpers, \<^verbatim>\<open>common/utils/hash.go\<close>: the choice of an algorithm by its name, hashing of bytes,
  strings, readers and files, and the hexadecimal text of a digest; and \<^verbatim>\<open>main.go\<close>, which prints the four
  digests of a fixed text.

  The digest functions of the crypto library are a parameter. A hasher is what was written to it so
  far: \<^verbatim>\<open>Write\<close> adds to the running hash and never fails, \<^verbatim>\<open>Sum\<close> is the digest of everything written. A
  reader is the list of what its reads return, a block of bytes and an error or none; after the last
  one it reports the end. Bytes are characters.

  The lemmas show that hashing a stream is hashing its content, however it is cut into blocks, that
  the text is faithful to the digest, and which names select which algorithm.
\<close>

datatype hash_alg = AlgMD5 | AlgSHA1 | AlgSHA256 | AlgSHA512

type_synonym HashType = string

definition MD5 :: HashType where "MD5 = ''md5''"
definition SHA1 :: HashType where "SHA1 = ''sha1''"
definition SHA256 :: HashType where "SHA256 = ''sha256''"
definition SHA512 :: HashType where "SHA512 = ''sha512''"

lemmas hash_names = MD5_def SHA1_def SHA256_def SHA512_def

record hasher =
  hs_alg :: hash_alg
  hs_written :: string

definition new_hasher :: "hash_alg \<Rightarrow> hasher" where
  "new_hasher a = \<lparr>hs_alg = a, hs_written = []\<rparr>"

definition hasher_Write :: "string \<Rightarrow> hasher \<Rightarrow> hasher \<times> go_error option" where
  "hasher_Write data h = (h\<lparr>hs_written := hs_written h @ data\<rparr>, None)"

definition hasher_Sum :: "(hash_alg \<Rightarrow> string \<Rightarrow> string) \<Rightarrow> hasher \<Rightarrow> string" where
  "hasher_Sum digest h = digest (hs_alg h) (hs_written h)"

definition GetHasher :: "HashType \<Rightarrow> hasher" where
  "GetHasher hashType =
     (if hashType = MD5 then new_hasher AlgMD5
      else if hashType = SHA1 then new_hasher AlgSHA1
      else if hashType = SHA256 then new_hasher AlgSHA256
      else if hashType = SHA512 then new_hasher AlgSHA512
      else new_hasher AlgSHA256)"

section \<open>Hexadecimal text\<close>

definition hextable :: string where
  "hextable = ''0123456789abcdef''"

fun EncodeToString :: "string \<Rightarrow> string" where
  "EncodeToString [] = []"
| "EncodeToString (c # cs) =
     (let v = of_char c :: nat in hextable ! (v div 16) # hextable ! (v mod 16) # EncodeToString cs)"

text \<open>Reading it back.\<close>

definition hex_value :: "char \<Rightarrow> nat" where
  "hex_value c = length (takeWhile (\<lambda>d. d \<noteq> c) hextable)"

fun DecodeString :: "string \<Rightarrow> string" where
  "DecodeString (a # b # s) = char_of (16 * hex_value a + hex_value b) # DecodeString s"
| "DecodeString _ = []"

section \<open>Hashing\<close>

definition HashBytes :: "(hash_alg \<Rightarrow> string \<Rightarrow> string) \<Rightarrow> string \<Rightarrow> HashType \<Rightarrow> go_error + string" where
  "HashBytes digest data hashType =
     (case hasher_Write data (GetHasher hashType) of
        (_, Some err) \<Rightarrow> Inl err
      | (hasher, None) \<Rightarrow> Inr (EncodeToString (hasher_Sum digest hasher)))"

definition HashString :: "(hash_alg \<Rightarrow> string \<Rightarrow> string) \<Rightarrow> string \<Rightarrow> HashType \<Rightarrow> go_error + string" where
  "HashString digest data hashType = HashBytes digest data hashType"

text \<open>\<^verbatim>\<open>io.Copy\<close>: a block that comes with an error is still written; the end of the stream is no error.\<close>

datatype read_error = EOF | ReadFailed go_error

type_synonym reader = "(string \<times> read_error option) list"

fun io_Copy :: "reader \<Rightarrow> hasher \<Rightarrow> hasher \<times> go_error option" where
  "io_Copy [] h = (h, None)"
| "io_Copy ((block, er) # rest) h =
     (case (if block \<noteq> [] then hasher_Write block h else (h, None)) of
        (h, Some err) \<Rightarrow> (h, Some err)
      | (h, None) \<Rightarrow>
          (case er of
             Some EOF \<Rightarrow> (h, None)
           | Some (ReadFailed err) \<Rightarrow> (h, Some err)
           | None \<Rightarrow> io_Copy rest h))"

definition HashReader :: "(hash_alg \<Rightarrow> string \<Rightarrow> string) \<Rightarrow> reader \<Rightarrow> HashType \<Rightarrow> go_error + string" where
  "HashReader digest rd hashType =
     (case io_Copy rd (GetHasher hashType) of
        (_, Some err) \<Rightarrow> Inl err
      | (hasher, None) \<Rightarrow> Inr (EncodeToString (hasher_Sum digest hasher)))"

text \<open>\<open>fs\<close> opens a file for reading.\<close>

definition HashFile ::
  "(hash_alg \<Rightarrow> string \<Rightarrow> string) \<Rightarrow> (string \<Rightarrow> go_error + reader) \<Rightarrow> string \<Rightarrow> HashType \<Rightarrow> go_error + string" where
  "HashFile digest fs filePath hashType =
     (case fs filePath of
        Inl err \<Rightarrow> Inl err
      | Inr file \<Rightarrow>
          (case io_Copy file (GetHasher hashType) of
             (_, Some err) \<Rightarrow> Inl err
           | (hasher, None) \<Rightarrow> Inr (EncodeToString (hasher_Sum digest hasher))))"

text \<open>The shorthands drop the error.\<close>

definition hash_or_empty :: "go_error + string \<Rightarrow> string" where
  "hash_or_empty r = (case r of Inl _ \<Rightarrow> [] | Inr s \<Rightarrow> s)"

definition MD5Hash :: "(hash_alg \<Rightarrow> string \<Rightarrow> string) \<Rightarrow> string \<Rightarrow> string" where
  "MD5Hash digest data = hash_or_empty (HashBytes digest data MD5)"

definition SHA1Hash :: "(hash_alg \<Rightarrow> string \<Rightarrow> string) \<Rightarrow> string \<Rightarrow> string" where
  "SHA1Hash digest data = hash_or_empty (HashBytes digest data SHA1)"

definition SHA256Hash :: "(hash_alg \<Rightarrow> string \<Rightarrow> string) \<Rightarrow> string \<Rightarrow> string" where
  "SHA256Hash digest data = hash_or_empty (HashBytes digest data SHA256)"

definition SHA512Hash :: "(hash_alg \<Rightarrow> string \<Rightarrow> string) \<Rightarrow> string \<Rightarrow> string" where
  "SHA512Hash digest data = hash_or_empty (HashBytes digest data SHA512)"

section \<open>Properties\<close>

lemma hex_value_nth: "i < 16 \<Longrightarrow> hex_value (hextable ! i) = i"
proof -
  assume "i < 16"
  then have "i \<in> set [0..<16]" by simp
  moreover have "list_all (\<lambda>i. hex_value (hextable ! i) = i) [0..<16]" by code_simp
  ultimately show ?thesis by (simp add: list_all_iff)
qed

lemma Decode_Encode [simp]: "DecodeString (EncodeToString s) = s"
proof (induction s)
  case (Cons c s)
  define v where "v = (of_char c :: nat)"
  have "v < 256" unfolding v_def by simp
  then have "v div 16 < 16" "v mod 16 < 16" by auto
  then show ?case using Cons by (simp add: Let_def hex_value_nth flip: v_def) (simp add: v_def)
qed simp

lemma Encode_inject: "EncodeToString s = EncodeToString t \<longleftrightarrow> s = t"
  by (metis Decode_Encode)

lemma length_Encode: "length (EncodeToString s) = 2 * length s"
  by (induction s) (simp_all add: Let_def)

lemma HashBytes_eq: "HashBytes digest data t = Inr (EncodeToString (digest (hs_alg (GetHasher t)) data))"
  by (simp add: HashBytes_def hasher_Write_def hasher_Sum_def GetHasher_def new_hasher_def)

text \<open>What is read from a stream up to its end or its first error, and that error.\<close>

fun stream_content :: "reader \<Rightarrow> string \<times> go_error option" where
  "stream_content [] = ([], None)"
| "stream_content ((block, er) # rest) =
     (case er of
        Some EOF \<Rightarrow> (block, None)
      | Some (ReadFailed err) \<Rightarrow> (block, Some err)
      | None \<Rightarrow> (case stream_content rest of (c, e) \<Rightarrow> (block @ c, e)))"

lemma io_Copy_eq:
  "io_Copy rd h = (case stream_content rd of (c, e) \<Rightarrow> (h\<lparr>hs_written := hs_written h @ c\<rparr>, e))"
  by (induction rd h rule: io_Copy.induct)
    (auto simp: hasher_Write_def split: option.split read_error.split prod.split)

text \<open>
  Hashing a stream or a file is hashing its content: however it is read in blocks, the result is
  that of hashing the bytes at once, and an error of opening or reading is returned. The result is
  the digest in hexadecimal, twice as long as it, and two results of one algorithm are equal exactly
  when the digests are. A name that is not one of the four means SHA-256.
\<close>

theorem hash_stream_is_hash_bytes:
  "HashReader digest rd t = (case stream_content rd of (c, None) \<Rightarrow> HashBytes digest c t | (_, Some err) \<Rightarrow> Inl err) \<and>
   HashFile digest fs path t = (case fs path of Inl err \<Rightarrow> Inl err | Inr f \<Rightarrow> HashReader digest f t) \<and>
   (\<exists>s. HashBytes digest data t = Inr s \<and> length s = 2 * length (digest (hs_alg (GetHasher t)) data) \<and>
      DecodeString s = digest (hs_alg (GetHasher t)) data) \<and>
   (HashBytes digest data t = HashBytes digest data' t \<longleftrightarrow>
      digest (hs_alg (GetHasher t)) data = digest (hs_alg (GetHasher t)) data') \<and>
   (if t \<in> {MD5, SHA1, SHA256, SHA512} then True else HashString digest data t = Inr (SHA256Hash digest data))"
proof -
  have "HashReader digest rd t = (case stream_content rd of (c, None) \<Rightarrow> HashBytes digest c t | (_, Some err) \<Rightarrow> Inl err)"
    by (simp add: HashReader_def io_Copy_eq HashBytes_eq hasher_Sum_def split: prod.split option.split)
      (simp add: GetHasher_def new_hasher_def)
  moreover have "HashFile digest fs path t = (case fs path of Inl err \<Rightarrow> Inl err | Inr f \<Rightarrow> HashReader digest f t)"
    by (simp add: HashFile_def HashReader_def split: sum.split)
  moreover have "t \<notin> {MD5, SHA1, SHA256, SHA512} \<Longrightarrow> HashString digest data t = Inr (SHA256Hash digest data)"
    by (simp add: HashString_def SHA256Hash_def hash_or_empty_def HashBytes_eq GetHasher_def)
      (simp add: hash_names)
  ultimately show ?thesis by (auto simp: HashBytes_eq Encode_inject length_Encode)
qed


section \<open>The program\<close>

text \<open>
  \<^verbatim>\<open>src/main.go\<close>: the four digests of a fixed text, computed with the crypto library directly. The result
  are the lines it prints.
\<close>

definition main_data :: string where
  "main_data = ''test data for hashing''"

definition main_line :: "(hash_alg \<Rightarrow> string \<Rightarrow> string) \<Rightarrow> string \<Rightarrow> hash_alg \<Rightarrow> string" where
  "main_line digest label a =
     label @ '' '' @ EncodeToString (hasher_Sum digest (fst (hasher_Write main_data (new_hasher a)))) @ [CHR 0x0A]"

definition main_output :: "(hash_alg \<Rightarrow> string \<Rightarrow> string) \<Rightarrow> string list" where
  "main_output digest =
     [main_line digest ''MD5:'' AlgMD5, main_line digest ''SHA1:'' AlgSHA1,
      main_line digest ''SHA256:'' AlgSHA256, main_line digest ''SHA512:'' AlgSHA512]"

text \<open>It prints what the helpers of the package return.\<close>

lemma main_output_helpers:
  "main_output digest =
     map (\<lambda>(label, hash). label @ '' '' @ hash digest main_data @ [CHR 0x0A])
       [(''MD5:'', MD5Hash), (''SHA1:'', SHA1Hash), (''SHA256:'', SHA256Hash), (''SHA512:'', SHA512Hash)]"
  by (simp add: main_output_def main_line_def MD5Hash_def SHA1Hash_def SHA256Hash_def SHA512Hash_def hash_or_empty_def HashBytes_def
      GetHasher_def hash_names hasher_Write_def new_hasher_def)

end
