(* ===== verification/Lifecycle.thy ===== *)
theory Lifecycle
  imports LockMgr TxMgr Heartbeat RebalanceMgr
begin

text \<open>
  Starting and stopping the managers: their \<^verbatim>\<open>Start\<close> and \<^verbatim>\<open>Stop\<close> methods and the ends of the goroutines
  these control, for locks (\<^verbatim>\<open>lock/manager.go\<close>), transactions (\<^verbatim>\<open>transaction/manager.go\<close>), heartbeats
  (\<^verbatim>\<open>heartbeat/manager.go\<close>) and rebalancing with its migrator (\<^verbatim>\<open>rebalance/manager.go\<close>, \<^verbatim>\<open>migrator.go\<close>).

  A manager's goroutines are counted; each waits for a signal that \<^verbatim>\<open>Stop\<close> gives, by closing a channel
  or by cancelling a context. What all of them promise is the locale \<open>background_service\<close>; closing a
  channel twice panics, cancelling twice does not, which are its two extensions. The worker pool of the
  migrator is modelled worker by worker.

  The lemmas show that goroutines end after a stop and not before, what a second stop does, and that
  the shutdown of the migrator ends after a bounded number of steps with no worker left, leaving behind
  tasks that stay pending for ever.
\<close>

section \<open>The contract\<close>

text \<open>The ends of \<open>n\<close> goroutines, one after the other.\<close>

fun drain :: "('s \<Rightarrow> 's option) \<Rightarrow> nat \<Rightarrow> 's \<Rightarrow> 's option" where
  "drain quit 0 s = Some s"
| "drain quit (Suc n) s = (case quit s of None \<Rightarrow> None | Some s' \<Rightarrow> drain quit n s')"

locale background_service =
  fixes start :: "'s \<Rightarrow> 's" and stop :: "'s \<Rightarrow> 's outcome" and quit :: "'s \<Rightarrow> 's option"
    and loops :: "'s \<Rightarrow> nat" and signalled :: "'s \<Rightarrow> bool" and per_start :: nat
  assumes start_loops: "loops (start s) = loops s + per_start" "signalled (start s) = signalled s"
    and stop_signals: "stop s = Return s' \<Longrightarrow> signalled s' \<and> loops s' = loops s"
    and stop_once: "\<not> signalled s \<Longrightarrow> \<exists>s'. stop s = Return s'"
    and quit_only: "quit s = Some s' \<Longrightarrow> signalled s \<and> signalled s' \<and> loops s = Suc (loops s')"
    and quit_ready: "signalled s \<Longrightarrow> 0 < loops s \<Longrightarrow> quit s \<noteq> None"
begin

lemma drains: "signalled s \<Longrightarrow> \<exists>s'. drain quit (loops s) s = Some s' \<and> loops s' = 0 \<and> signalled s'"
proof (induction "loops s" arbitrary: s)
  case (Suc n)
  then obtain s1 where q: "quit s = Some s1" using quit_ready [of s] by auto
  then have "n = loops s1" "signalled s1" using quit_only [OF q] Suc.hyps(2) by auto
  from Suc.hyps(1) [OF this] q Suc.hyps(2) show ?case by (metis drain.simps(2) option.simps(5) \<open>n = loops s1\<close>)
qed auto

lemma one_cycle:
  assumes "\<not> signalled s" "loops s = 0"
  shows "\<exists>s1 s2. stop (start s) = Return s1 \<and> quit (start s) = None \<and> loops (start s) = per_start \<and>
    drain quit per_start s1 = Some s2 \<and> loops s2 = 0 \<and> quit s2 = None"
proof -
  have run: "\<not> signalled (start s)" "loops (start s) = per_start" using assms start_loops by simp_all
  then obtain s1 where s1: "stop (start s) = Return s1" using stop_once by blast
  have sig: "signalled s1" "loops s1 = per_start" using stop_signals [OF s1] run by auto
  then obtain s2 where s2: "drain quit per_start s1 = Some s2" "loops s2 = 0" using drains by metis
  have "quit (start s) = None" "quit s2 = None"
    using quit_only run(1) s2(2) by (metis option.exhaust, metis option.exhaust nat.distinct(1))
  with s1 s2 run show ?thesis by blast
qed

end

locale closing_service = background_service +
  assumes stop_twice: "signalled s \<Longrightarrow> stop s = Panic ''close of closed channel''"
begin

lemma second_stop_panics:
  "stop s = Return s1 \<Longrightarrow> stop s1 = Panic ''close of closed channel''"
  using stop_signals stop_twice by blast

end

locale cancelling_service = background_service +
  assumes stop_again: "signalled s \<Longrightarrow> stop s = Return s"
begin

lemma second_stop_harmless: "stop s = Return s1 \<Longrightarrow> stop s1 = Return s1"
  using stop_signals stop_again by blast

end

section \<open>Locks and transactions\<close>

text \<open>A manager with its goroutines: how many run, and whether the signal was given.\<close>

record 'm life =
  li_manager :: 'm
  li_loops :: nat
  li_signal :: bool

definition born :: "'m \<Rightarrow> 'm life" where
  "born m = \<lparr>li_manager = m, li_loops = 0, li_signal = False\<rparr>"

text \<open>A goroutine whose select sees the signal.\<close>

definition loop_quit :: "'m life \<Rightarrow> 'm life option" where
  "loop_quit l = (if li_signal l \<and> 0 < li_loops l then Some (l\<lparr>li_loops := li_loops l - 1\<rparr>) else None)"

definition Lock_Start :: "lock_manager life \<Rightarrow> lock_manager life" where
  "Lock_Start l = l\<lparr>li_loops := li_loops l + 1\<rparr>"

definition Lock_Stop :: "lock_manager life \<Rightarrow> lock_manager life outcome" where
  "Lock_Stop l = (if li_signal l then Panic ''close of closed channel'' else Return (l\<lparr>li_signal := True\<rparr>))"

definition Tx_Start :: "tx_manager life \<Rightarrow> tx_manager life" where
  "Tx_Start l = l\<lparr>li_loops := li_loops l + 1\<rparr>"

text \<open>
  The channel of the transaction manager is part of its state; \<open>drv\<close> and \<open>order\<close> are the answers to the
  rollbacks and the order of the loop over the table.
\<close>

definition Tx_life_Stop :: "(nat \<Rightarrow> go_error option) \<Rightarrow> string list \<Rightarrow> tx_manager life \<Rightarrow> tx_manager life outcome" where
  "Tx_life_Stop drv order l =
     (case Tx_Stop drv order (li_manager l) of
        None \<Rightarrow> Panic ''close of closed channel''
      | Some m \<Rightarrow> Return (l\<lparr>li_manager := m\<rparr>))"

definition tx_quit :: "tx_manager life \<Rightarrow> tx_manager life option" where
  "tx_quit l = (if tm_closed (li_manager l) \<and> 0 < li_loops l then Some (l\<lparr>li_loops := li_loops l - 1\<rparr>) else None)"

lemma stop_loop_closed [simp]: "tm_closed (stop_loop drv ks m) = tm_closed m"
  by (induction drv ks m rule: stop_loop.induct) (simp_all add: Let_def set_sql_def split: option.split)

section \<open>Heartbeats\<close>

definition Heartbeat_Start :: "hb_manager life \<Rightarrow> hb_manager life" where
  "Heartbeat_Start l = l\<lparr>li_loops := li_loops l + 3\<rparr>"

definition Heartbeat_Stop :: "hb_manager life \<Rightarrow> hb_manager life outcome" where
  "Heartbeat_Stop l = Return (l\<lparr>li_signal := True\<rparr>)"

lemmas life_defs = born_def loop_quit_def tx_quit_def Tx_Stop_def Lock_Start_def Lock_Stop_def Tx_Start_def Tx_life_Stop_def Heartbeat_Start_def Heartbeat_Stop_def

interpretation lock_life: closing_service Lock_Start Lock_Stop loop_quit li_loops li_signal 1
  by unfold_locales (auto simp: life_defs split: if_splits)

interpretation tx_life: closing_service Tx_Start "Tx_life_Stop drv order" tx_quit li_loops "\<lambda>l. tm_closed (li_manager l)" 1 for drv order
  by unfold_locales (auto simp: life_defs split: if_splits)

interpretation hb_life: cancelling_service Heartbeat_Start Heartbeat_Stop loop_quit li_loops li_signal 3
  by unfold_locales (auto simp: life_defs split: if_splits)

section \<open>Rebalancing and the worker pool\<close>

text \<open>The workers of the migrator that were started and have not ended, and the evaluation loops.\<close>

record pool =
  pl_mig :: Migrator
  pl_alive :: "nat list"
  pl_loops :: nat
  pl_cancelled :: bool

definition Migrator_Start :: "pool \<Rightarrow> pool" where
  "Migrator_Start p = p\<lparr>pl_alive := pl_alive p @ [0..<mg_maxConcurrent (pl_mig p)]\<rparr>"

text \<open>\<open>ended\<close> is the time after which the last worker ends, if it does. The result: how long the call takes and whether all ended.\<close>

definition Migrator_Stop :: "duration option \<Rightarrow> duration \<times> bool" where
  "Migrator_Stop ended =
     (case ended of
        Some t \<Rightarrow> if t < 30 * Second then (t, True) else (30 * Second, False)
      | None \<Rightarrow> (30 * Second, False))"

definition Rebalance_Start :: "pool \<Rightarrow> pool" where
  "Rebalance_Start p = (Migrator_Start p)\<lparr>pl_loops := pl_loops p + 1\<rparr>"

definition Rebalance_Stop :: "duration option \<Rightarrow> pool \<Rightarrow> pool \<times> duration \<times> bool" where
  "Rebalance_Stop ended p = (p\<lparr>pl_cancelled := True\<rparr>, Migrator_Stop ended)"

text \<open>A worker at its select after the cancellation: it may end, or still take a task.\<close>

definition worker_exit :: "nat \<Rightarrow> pool \<Rightarrow> pool option" where
  "worker_exit w p =
     (if pl_cancelled p \<and> List.member (pl_alive p) w \<and> mg_workers (pl_mig p) w = None
      then Some (p\<lparr>pl_alive := remove1 w (pl_alive p)\<rparr>) else None)"

inductive drain_step :: "pool \<Rightarrow> pool \<Rightarrow> bool" where
  drain_take: "pl_cancelled p \<Longrightarrow> w \<in> set (pl_alive p) \<Longrightarrow> worker_take w now (pl_mig p) = Some m \<Longrightarrow>
    drain_step p (p\<lparr>pl_mig := m\<rparr>)"
| drain_advance: "pl_cancelled p \<Longrightarrow> w \<in> set (pl_alive p) \<Longrightarrow> worker_advance w True during now (pl_mig p) = Some m \<Longrightarrow>
    drain_step p (p\<lparr>pl_mig := m\<rparr>)"
| drain_exit: "worker_exit w p = Some p' \<Longrightarrow> drain_step p p'"

inductive_cases drain_stepE: "drain_step p p'"

text \<open>Busy workers are alive, and every worker is there once.\<close>

definition pool_ok :: "pool \<Rightarrow> bool" where
  "pool_ok p \<longleftrightarrow> wf_mig (pl_mig p) \<and> distinct (pl_alive p) \<and> dom (mg_workers (pl_mig p)) \<subseteq> set (pl_alive p)"

definition work_left :: "pool \<Rightarrow> nat" where
  "work_left p = 2 * length (mg_queue (pl_mig p)) + card (dom (mg_workers (pl_mig p))) + length (pl_alive p)"

lemma worker_take_work:
  assumes "worker_take w now m = Some m'" "finite (dom (mg_workers m))"
  shows "length (mg_queue m) = Suc (length (mg_queue m'))" "card (dom (mg_workers m')) = Suc (card (dom (mg_workers m)))"
    "dom (mg_workers m') = insert w (dom (mg_workers m))"
  using assms by (auto simp: worker_take_def upd_task_def card_insert_if domIff split: if_splits list.splits)

lemma worker_advance_releases:
  assumes "worker_advance w True during now m = Some m'"
  shows "mg_workers m w \<noteq> None" "mg_workers m' = (mg_workers m)(w := None)" "mg_queue m' = mg_queue m"
  using assms by (auto simp: worker_advance_def exec_shard_def upd_task_def Let_def split: option.splits if_splits)

lemma drain_step_work:
  assumes "drain_step p p'" "pool_ok p" "not_completed (pl_mig p)"
  shows "pool_ok p' \<and> not_completed (pl_mig p') \<and> pl_cancelled p' \<and> Suc (work_left p') \<le> work_left p"
  using assms
proof (induction rule: drain_step.induct)
  case (drain_take p w now m)
  have fin: "finite (dom (mg_workers (pl_mig p)))"
    using drain_take.prems(1) finite_subset by (auto simp: pool_ok_def)
  have "wf_mig m" "not_completed m"
    using mig_step_wf [OF mig_take [OF drain_take.hyps(3)]] drain_take.prems by (auto simp: pool_ok_def)
  with drain_take worker_take_work [OF drain_take.hyps(3) fin] show ?case
    by (auto simp: pool_ok_def work_left_def)
next
  case (drain_advance p w during now m)
  note r = worker_advance_releases [OF drain_advance.hyps(3)]
  have fin: "finite (dom (mg_workers (pl_mig p)))"
    using drain_advance.prems(1) finite_subset by (auto simp: pool_ok_def)
  have "wf_mig m" "not_completed m"
    using mig_step_wf [OF mig_advance [OF drain_advance.hyps(3)]] drain_advance.prems by (auto simp: pool_ok_def)
  moreover have "Suc (card (dom (mg_workers m))) = card (dom (mg_workers (pl_mig p)))"
    using card_Suc_Diff1 [OF fin, of w] r(1) by (simp add: r(2) domIff)
  ultimately show ?case using drain_advance r by (auto simp: pool_ok_def work_left_def)
next
  case (drain_exit w p p')
  then have w: "pl_cancelled p" "w \<in> set (pl_alive p)" "mg_workers (pl_mig p) w = None"
      "p' = p\<lparr>pl_alive := remove1 w (pl_alive p)\<rparr>"
    by (auto simp: worker_exit_def split: if_splits)
  have "dom (mg_workers (pl_mig p)) \<subseteq> set (pl_alive p) - {w}"
    using drain_exit.prems(1) w(3) by (auto simp: pool_ok_def)
  moreover have "0 < length (pl_alive p)" using w(2) by (cases "pl_alive p") auto
  ultimately show ?case
    using drain_exit.prems w by (simp add: pool_ok_def work_left_def length_remove1)
qed

lemma mig_reachable_max: "mig_reachable k m \<Longrightarrow> mg_maxConcurrent m = mg_maxConcurrent (NewMigrator k)"
proof (induction rule: mig_reachable.induct)
  case (mig_next m m')
  from mig_next.hyps(2) have "mg_maxConcurrent m' = mg_maxConcurrent m"
    by (induction rule: mig_step.induct)
      (auto simp: submit_one_def CancelTask_def worker_take_def worker_advance_def upd_task_def Let_def
        split: option.splits list.splits if_splits prod.splits bool.splits)
  with mig_next.IH show ?case by simp
qed simp

lemma drain_steps:
  assumes "(drain_step ^^ n) p p'" "pool_ok p" "not_completed (pl_mig p)"
  shows "pool_ok p' \<and> not_completed (pl_mig p') \<and> n + work_left p' \<le> work_left p"
  using assms
proof (induction n arbitrary: p')
  case (Suc n)
  from Suc.prems(1) obtain q where q: "(drain_step ^^ n) p q" "drain_step q p'" by auto
  from Suc.IH [OF q(1) Suc.prems(2,3)] have "pool_ok q" "not_completed (pl_mig q)" "n + work_left q \<le> work_left p" by auto
  with drain_step_work [OF q(2)] show ?case by auto
qed auto

lemma drain_enabled:
  assumes "pool_ok p" "pl_cancelled p" "pl_alive p \<noteq> []"
  shows "\<exists>p'. drain_step p p'"
proof -
  obtain w where w: "w \<in> set (pl_alive p)" using assms(3) by (cases "pl_alive p") auto
  show ?thesis
  proof (cases "mg_workers (pl_mig p) w")
    case None
    with w assms(2) have "worker_exit w p = Some (p\<lparr>pl_alive := remove1 w (pl_alive p)\<rparr>)"
      by (simp add: worker_exit_def)
    then show ?thesis by (blast intro: drain_exit)
  next
    case (Some a)
    then have "\<exists>m. worker_advance w True True 0 (pl_mig p) = Some m"
      by (auto simp: worker_advance_def exec_shard_def Let_def split: prod.split)
    then show ?thesis using w assms(2) by (blast intro: drain_advance)
  qed
qed

lemma drain_cancelled: "(drain_step ^^ n) p p' \<Longrightarrow> pl_cancelled p \<Longrightarrow> pl_cancelled p'"
  by (induction n arbitrary: p') (auto elim!: drain_stepE simp: worker_exit_def split: if_splits)

text \<open>
  (C14) The shutdown of the migrator ends. After the cancellation its workers may still take tasks, but
  whatever they do, from any state the migrator can be in, they make at most as many steps as there
  are workers, busy workers and twice as many as queued tasks; as long as a worker lives some step is
  possible; and when none is left no task runs any more. A task that is then still pending is in the
  queue, from which nobody will take it. \<open>Stop\<close> itself returns after at most thirty seconds.
\<close>

theorem migrator_shutdown_ends:
  assumes "mig_reachable k m" "p = Rebalance_Start \<lparr>pl_mig = NewMigrator k, pl_alive = [], pl_loops = 0, pl_cancelled = False\<rparr>"
    and "Rebalance_Stop ended (p\<lparr>pl_mig := m\<rparr>) = (q, took, finished)" "(drain_step ^^ n) q q'"
  shows "n \<le> 2 * length (mg_queue m) + card (dom (mg_workers m)) + mg_maxConcurrent m \<and>
    (pl_alive q' \<noteq> [] \<longrightarrow> (\<exists>r. drain_step q' r)) \<and>
    (pl_alive q' = [] \<longrightarrow> (\<nexists>r. drain_step q' r) \<and>
      (\<forall>r < mg_next (pl_mig q'). mt_State (mg_heap (pl_mig q') r) \<noteq> TaskStateRunning \<and>
        (mt_State (mg_heap (pl_mig q') r) = TaskStatePending \<longrightarrow> r \<in> set (mg_queue (pl_mig q'))))) \<and>
    took \<le> 30 * Second \<and> (finished \<longrightarrow> ended = Some took)"
proof -
  have wf: "wf_mig m" "not_completed m" using mig_reachable_wf [OF assms(1)] by auto
  have mx: "mg_maxConcurrent m = mg_maxConcurrent (NewMigrator k)" using mig_reachable_max [OF assms(1)] .
  have q: "pl_mig q = m" "pl_alive q = [0..<mg_maxConcurrent m]" "pl_cancelled q"
    using assms(2,3) mx by (auto simp: Rebalance_Start_def Migrator_Start_def Rebalance_Stop_def)
  have ok: "pool_ok q" using wf_migD(6) [OF wf(1)] wf(1) by (auto simp: pool_ok_def q)
  have nc: "not_completed (pl_mig q)" using wf(2) q(1) by simp
  note st = drain_steps [OF assms(4) ok nc] and c = drain_cancelled [OF assms(4) q(3)]
  have "n \<le> 2 * length (mg_queue m) + card (dom (mg_workers m)) + mg_maxConcurrent m"
    using st by (simp add: work_left_def q)
  moreover have "\<nexists>r. drain_step q' r" "running_refs (pl_mig q') = {}" if "pl_alive q' = []"
    using that st by (auto elim!: drain_stepE simp: worker_exit_def pool_ok_def running_refs_def)
  moreover have "took \<le> 30 * Second \<and> (finished \<longrightarrow> ended = Some took)"
    using assms(3) by (auto simp: Rebalance_Stop_def Migrator_Stop_def split: option.splits if_splits)
  ultimately show ?thesis
    using drain_enabled [of q'] st c wf_migD(10,11) [of "pl_mig q'"] by (auto simp: pool_ok_def)
qed

theorem migrator_shutdown_ends_witness:
  "let m = submit_one ''t'' no_plan (NewMigrator 1);
       q = \<lparr>pl_mig = m, pl_alive = [0], pl_loops = 1, pl_cancelled = True\<rparr>;
       q' = q\<lparr>pl_alive := []\<rparr>
   in drain_step q q' \<and> (\<nexists>r. drain_step q' r) \<and> mt_State (mg_heap (pl_mig q') 0) = TaskStatePending"
proof -
  let ?m = "submit_one ''t'' no_plan (NewMigrator 1)"
  let ?p = "Rebalance_Start \<lparr>pl_mig = NewMigrator 1, pl_alive = [], pl_loops = 0, pl_cancelled = False\<rparr>"
  let ?q = "\<lparr>pl_mig = ?m, pl_alive = [0], pl_loops = 1, pl_cancelled = True\<rparr>"
  have r: "mig_reachable 1 ?m" by (rule mig_next [OF mig_new mig_submit]) (simp add: NewMigrator_def)
  have stop: "Rebalance_Stop (Some 5) (?p\<lparr>pl_mig := ?m\<rparr>) = (?q, 5, True)"
    by (simp add: Rebalance_Stop_def Migrator_Stop_def Rebalance_Start_def Migrator_Start_def NewMigrator_def durations)
  have m: "mg_workers ?m = Map.empty" "mt_State (mg_heap ?m 0) = TaskStatePending"
    by (simp_all add: submit_one_def NewMigrator_def try_send_def pending_cap_def new_task_def Let_def)
  have s: "drain_step ?q (?q\<lparr>pl_alive := []\<rparr>)"
    by (rule drain_exit [of 0]) (simp add: worker_exit_def m)
  then have "(drain_step ^^ 1) ?q (?q\<lparr>pl_alive := []\<rparr>)" by (simp only: relpowp_1)
  from migrator_shutdown_ends [OF r refl stop this] s m(2) show ?thesis by (simp add: Let_def)
qed

text \<open>
  One life of the managers of locks, of transactions and of heartbeats: no goroutine ends before the
  stop, all end after it, and the next stop panics for the first two and does nothing for the third.
\<close>

theorem managers_stop_once:
  "(\<exists>l1 l2. Lock_Stop (Lock_Start (born lm)) = Return l1 \<and> loop_quit (Lock_Start (born lm)) = None \<and>
      drain loop_quit 1 l1 = Some l2 \<and> li_loops l2 = 0 \<and> Lock_Stop l1 = Panic ''close of closed channel'') \<and>
   (if tm_closed tm then True else
    \<exists>t1 t2. Tx_life_Stop drv order (Tx_Start (born tm)) = Return t1 \<and> tx_quit (Tx_Start (born tm)) = None \<and>
      drain tx_quit 1 t1 = Some t2 \<and> li_loops t2 = 0 \<and> Tx_life_Stop drv order t1 = Panic ''close of closed channel'') \<and>
   (\<exists>h1 h2. Heartbeat_Stop (Heartbeat_Start (born hm)) = Return h1 \<and> loop_quit (Heartbeat_Start (born hm)) = None \<and>
      drain loop_quit 3 h1 = Some h2 \<and> li_loops h2 = 0 \<and> Heartbeat_Stop h1 = Return h1)"
proof -
  have lb: "\<not> li_signal (born lm)" "li_loops (born lm) = 0" and hb: "\<not> li_signal (born hm)" "li_loops (born hm) = 0"
    and tb: "li_loops (born tm) = 0" "tm_closed (li_manager (born tm)) = tm_closed tm"
    by (simp_all add: born_def)
  have tx: "\<exists>t1 t2. Tx_life_Stop drv order (Tx_Start (born tm)) = Return t1 \<and> tx_quit (Tx_Start (born tm)) = None \<and>
      drain tx_quit 1 t1 = Some t2 \<and> li_loops t2 = 0 \<and> Tx_life_Stop drv order t1 = Panic ''close of closed channel''"
    if "\<not> tm_closed tm"
    using tx_life.one_cycle [of "born tm" drv order] tb that tx_life.second_stop_panics [of drv order] by metis
  have "\<exists>l1 l2. Lock_Stop (Lock_Start (born lm)) = Return l1 \<and> loop_quit (Lock_Start (born lm)) = None \<and>
      drain loop_quit 1 l1 = Some l2 \<and> li_loops l2 = 0 \<and> Lock_Stop l1 = Panic ''close of closed channel''"
    using lock_life.one_cycle [OF lb] lock_life.second_stop_panics by metis
  moreover have "\<exists>h1 h2. Heartbeat_Stop (Heartbeat_Start (born hm)) = Return h1 \<and> loop_quit (Heartbeat_Start (born hm)) = None \<and>
      drain loop_quit 3 h1 = Some h2 \<and> li_loops h2 = 0 \<and> Heartbeat_Stop h1 = Return h1"
    using hb_life.one_cycle [OF hb] hb_life.second_stop_harmless by metis
  ultimately show ?thesis using tx by simp
qed

end
