(* ===== verification/RaftWire.thy ===== *)
theory RaftWire
  imports Election
begin

text \<open>
  What surrounds a raft node: the transport of the election manager and the rest of its methods
  (\<^verbatim>\<open>core/cluster/election/manager.go\<close>), and of \<^verbatim>\<open>common/consensus/raft\<close> the storage wrapper and the example
  transport. The storage of the etcd library behind the wrapper is a parameter.

  The lemmas show that no message a raft node hands to its transport arrives anywhere, in any group
  of nodes: sending drops it, and nothing is ever put into the channel that is meant to receive.
\<close>

section \<open>The transport of the election manager\<close>

record 'msg RaftTransport =
  tp_nodeID :: uint64
  tp_receiveC :: "'msg list"
  tp_closed :: bool

definition receive_cap :: nat where
  "receive_cap = 100"

text \<open>The error of \<^verbatim>\<open>ParseUint\<close> is dropped; its value is then 0, or the largest number when it is out of range.\<close>

definition NewRaftTransport :: "NodeID \<Rightarrow> 'msg RaftTransport" where
  "NewRaftTransport nodeID =
     \<lparr>tp_nodeID = (case ParseUint nodeID of Inr n \<Rightarrow> n | Inl ErrSyntax \<Rightarrow> 0 | Inl ErrRange \<Rightarrow> - 1),
      tp_receiveC = [], tp_closed = False\<rparr>"

definition transport_Send :: "'msg list \<Rightarrow> 'msg RaftTransport \<Rightarrow> 'msg RaftTransport" where
  "transport_Send messages t = t"

definition transport_Start :: "'msg RaftTransport \<Rightarrow> 'msg RaftTransport \<times> go_error option" where
  "transport_Start t = (t, None)"

definition transport_Stop :: "'msg RaftTransport \<Rightarrow> 'msg RaftTransport outcome" where
  "transport_Stop t = (if tp_closed t then Panic ''close of closed channel'' else Return (t\<lparr>tp_closed := True\<rparr>))"

text \<open>A send on a closed channel panics; on a full one it waits (None).\<close>

definition receiveMessage :: "'msg \<Rightarrow> 'msg RaftTransport \<Rightarrow> 'msg RaftTransport outcome option" where
  "receiveMessage msg t =
     (if tp_closed t then Some (Panic ''send on closed channel'')
      else map_option (\<lambda>ch. Return (t\<lparr>tp_receiveC := ch\<rparr>)) (block_send receive_cap msg (tp_receiveC t)))"

section \<open>The rest of the election manager\<close>

text \<open>\<^verbatim>\<open>Start\<close>: the transport, then two goroutines; \<open>loops\<close> counts those that run.\<close>

definition Election_Start :: "'msg RaftTransport \<Rightarrow> nat \<Rightarrow> ('msg RaftTransport \<times> nat) \<times> go_error option" where
  "Election_Start t loops =
     (case transport_Start t of
        (t, Some err) \<Rightarrow> ((t, loops), Some err)
      | (t, None) \<Rightarrow> ((t, loops + 2), None))"

text \<open>A turn of \<^verbatim>\<open>runElection\<close>: None when the context is cancelled, otherwise the timer is set again.\<close>

definition runElection_turn :: "gotime \<Rightarrow> int \<Rightarrow> 'c election_manager \<Rightarrow> 'c election_manager outcome option" where
  "runElection_turn now rnd m = (if em_cancelled m then None else Some (resetElectionTimer now rnd m))"

text \<open>An applied message is only logged.\<close>

definition handleRaftMsg :: "ApplyMsg \<Rightarrow> 'c election_manager \<Rightarrow> 'c election_manager" where
  "handleRaftMsg msg m = m"

definition GetVotedFor :: "'c election_manager \<Rightarrow> string" where
  "GetVotedFor m = em_votedFor m"

definition ResetPeers :: "string list \<Rightarrow> 'c election_manager \<Rightarrow> 'c election_manager \<times> go_error option" where
  "ResetPeers peers m = (m, None)"

definition GetLastElectionTime :: "'c election_manager \<Rightarrow> gotime" where
  "GetLastElectionTime m = em_lastElectionTime m"

section \<open>The storage wrapper and the example transport\<close>

record ('s, 'c) etcd_storage =
  es_Append :: "Entry list \<Rightarrow> 's \<Rightarrow> 's \<times> go_error option"
  es_SetHardState :: "HardState \<Rightarrow> 's \<Rightarrow> 's \<times> go_error option"
  es_ApplySnapshot :: "'c Snapshot \<Rightarrow> 's \<Rightarrow> 's \<times> go_error option"

definition wrapper_Initialize :: "'s \<Rightarrow> 's \<times> go_error option" where
  "wrapper_Initialize s = (s, None)"

definition SaveEntries :: "('s, 'c) etcd_storage \<Rightarrow> Entry list \<Rightarrow> 's \<Rightarrow> 's \<times> go_error option" where
  "SaveEntries lib entries s = (if length entries = 0 then (s, None) else es_Append lib entries s)"

definition SaveState :: "('s, 'c) etcd_storage \<Rightarrow> HardState \<Rightarrow> 's \<Rightarrow> 's \<times> go_error option" where
  "SaveState lib state s = es_SetHardState lib state s"

definition SaveSnapshot :: "('s, 'c) etcd_storage \<Rightarrow> 'c Snapshot \<Rightarrow> 's \<Rightarrow> 's \<times> go_error option" where
  "SaveSnapshot lib snap s = es_ApplySnapshot lib snap s"

definition wrapper_Close :: "'s \<Rightarrow> 's \<times> go_error option" where
  "wrapper_Close s = (s, None)"

record SimpleTransport =
  st_nodeID :: uint64

definition NewSimpleTransport :: "uint64 \<Rightarrow> SimpleTransport" where
  "NewSimpleTransport nodeID = \<lparr>st_nodeID = nodeID\<rparr>"

definition simple_Send :: "'msg list \<Rightarrow> SimpleTransport \<Rightarrow> SimpleTransport" where
  "simple_Send msgs t = t"

definition simple_Start :: "SimpleTransport \<Rightarrow> SimpleTransport \<times> go_error option" where
  "simple_Start t = (t, None)"

definition simple_Stop :: "SimpleTransport \<Rightarrow> SimpleTransport" where
  "simple_Stop t = t"

section \<open>A group of nodes\<close>

text \<open>
  The nodes of a group, each an election manager with its transport. A node handles what its raft
  node is ready with and sends the messages; membership changes, the monitor and the timer are steps
  of the manager; and a node may stop. This is every call of a transport's method in the program.
\<close>

type_synonym ('c, 'msg) raft_group = "NodeID \<Rightarrow> 'c election_manager \<times> 'msg RaftTransport"

inductive group_run ::
  "(HardState \<Rightarrow> bool) \<Rightarrow> ('c Snapshot \<Rightarrow> bool) \<Rightarrow> (Entry \<Rightarrow> 'c option) \<Rightarrow> ('c, 'msg) raft_group \<Rightarrow> nat \<Rightarrow> bool"
  for eh emp ac where
  group_start: "(\<And>i. snd (g i) = NewRaftTransport i) \<Longrightarrow> group_run eh emp ac g 0"
| group_ready: "group_run eh emp ac g sent \<Longrightarrow>
    handleReady eh emp ac rd (em_raftNode (fst (g i))) = Return (rn, applied, msgs) \<Longrightarrow>
    group_run eh emp ac (g(i := ((fst (g i))\<lparr>em_raftNode := rn\<rparr>, transport_Send msgs (snd (g i))))) (sent + length msgs)"
| group_manager: "group_run eh emp ac g sent \<Longrightarrow> el_step (fst (g i)) m \<Longrightarrow> group_run eh emp ac (g(i := (m, snd (g i)))) sent"
| group_stop: "group_run eh emp ac g sent \<Longrightarrow> transport_Stop (snd (g i)) = Return t \<Longrightarrow> group_run eh emp ac (g(i := (fst (g i), t))) sent"

text \<open>
  However many messages the nodes of a group hand to their transports, none is ever received: every
  receiving channel stays empty. So a node learns nothing from another one.
\<close>

theorem raft_messages_never_arrive:
  assumes "group_run eh emp ac g sent"
  shows "tp_receiveC (snd (g i)) = []"
  using assms
proof (induction arbitrary: i)
  case (group_start g)
  then show ?case by (simp add: NewRaftTransport_def)
next
  case (group_ready g sent rd j rn applied msgs)
  then show ?case by (simp add: transport_Send_def)
next
  case (group_stop g sent j t)
  then show ?case by (auto simp: transport_Stop_def split: if_splits)
qed auto

theorem raft_messages_never_arrive_witness:
  "\<exists>g :: (unit, unit) raft_group. group_run hs_zero sn_zero (\<lambda>_. None) g 0 \<and> tp_receiveC (snd (g ''1'')) = []"
proof -
  let ?g = "\<lambda>i. (demo_election i, NewRaftTransport i)"
  have "group_run hs_zero sn_zero (\<lambda>_. None) ?g 0" by (rule group_start) simp
  with raft_messages_never_arrive [OF this, of "''1''"] show ?thesis by blast
qed

text \<open>The channel holds at most 100 messages, and the methods of the wrapper that write nothing leave the storage as it is.\<close>

lemma receiveMessage_bound:
  "receiveMessage msg t = Some (Return t') \<Longrightarrow> length (tp_receiveC t') \<le> 100 \<and> last (tp_receiveC t') = msg"
  by (auto simp: receiveMessage_def receive_cap_def go_chan split: if_splits)

end
