(* ===== verification/HttpContext.thy ===== *)
theory HttpContext
  imports HttpNet
begin

text \<open>
  The handler context and the request options of \<^verbatim>\<open>common/network/http\<close>: \<^verbatim>\<open>handler.go\<close> and \<^verbatim>\<open>types.go\<close>.

  A response writer has the headers, the status once it is written, and the body; what is set after
  the status is not sent. JSON encoding and decoding, the canonical form of a header's name and base64
  are parameters. Basic authentication is followed from the client's option to the server's
  middleware.

  The lemmas show what a context sends in every case, and that credentials arrive unchanged exactly
  when the user name has no colon.
\<close>

section \<open>The response writer\<close>

record response_writer =
  rw_header :: "string \<rightharpoonup> string"
  rw_sent :: "(nat \<times> (string \<rightharpoonup> string)) option"
  rw_body :: string

definition fresh_writer :: response_writer where
  "fresh_writer = \<lparr>rw_header = Map.empty, rw_sent = None, rw_body = []\<rparr>"

definition Header_Set :: "string \<Rightarrow> string \<Rightarrow> response_writer \<Rightarrow> response_writer" where
  "Header_Set key v w = w\<lparr>rw_header := (rw_header w)(key \<mapsto> v)\<rparr>"

definition WriteHeader :: "nat \<Rightarrow> response_writer \<Rightarrow> response_writer" where
  "WriteHeader statusCode w =
     (case rw_sent w of None \<Rightarrow> w\<lparr>rw_sent := Some (statusCode, rw_header w)\<rparr> | Some _ \<Rightarrow> w)"

definition Write_body :: "string \<Rightarrow> response_writer \<Rightarrow> response_writer" where
  "Write_body data w = (WriteHeader 200 w)\<lparr>rw_body := rw_body w @ data\<rparr>"

section \<open>The context\<close>

text \<open>\<open>'r\<close> is the request: its route variables, query values and body are functions of it.\<close>

record 'r Context =
  cx_Request :: 'r
  cx_Response :: response_writer
  cx_Params :: "string \<rightharpoonup> string"

text \<open>\<open>encode\<close> is the text of the value, or the error of the encoder.\<close>

definition Context_JSON :: "('d \<Rightarrow> go_error + string) \<Rightarrow> nat \<Rightarrow> 'd \<Rightarrow> 'r Context \<Rightarrow> 'r Context \<times> go_error option" where
  "Context_JSON encode statusCode data c =
     (let w = WriteHeader statusCode (Header_Set ''Content-Type'' ''application/json'' (cx_Response c))
      in case encode data of
           Inl err \<Rightarrow> (c\<lparr>cx_Response := w\<rparr>, Some err)
         | Inr t \<Rightarrow> (c\<lparr>cx_Response := Write_body t w\<rparr>, None))"

definition Context_Text :: "nat \<Rightarrow> string \<Rightarrow> 'r Context \<Rightarrow> 'r Context" where
  "Context_Text statusCode t c =
     c\<lparr>cx_Response := Write_body t (WriteHeader statusCode (Header_Set ''Content-Type'' ''text/plain'' (cx_Response c)))\<rparr>"

definition Context_Error ::
  "((string \<times> string) list \<Rightarrow> go_error + string) \<Rightarrow> nat \<Rightarrow> string \<Rightarrow> 'r Context \<Rightarrow> 'r Context \<times> go_error option" where
  "Context_Error encode statusCode message c = Context_JSON encode statusCode [(''error'', message)] c"

definition GetParam :: "string \<Rightarrow> 'r Context \<Rightarrow> string" where
  "GetParam key c = (case cx_Params c key of None \<Rightarrow> [] | Some v \<Rightarrow> v)"

definition GetQuery :: "('r \<Rightarrow> string \<Rightarrow> string list) \<Rightarrow> string \<Rightarrow> 'r Context \<Rightarrow> string" where
  "GetQuery query key c = (case query (cx_Request c) key of [] \<Rightarrow> [] | v # _ \<Rightarrow> v)"

definition BindJSON :: "('r \<Rightarrow> go_error + 'o) \<Rightarrow> 'r Context \<Rightarrow> go_error + 'o" where
  "BindJSON decode c = decode (cx_Request c)"

text \<open>\<open>vars\<close> are the variables of the route that the router has put into the request.\<close>

definition Adapt :: "('r \<Rightarrow> string \<rightharpoonup> string) \<Rightarrow> ('r Context \<Rightarrow> 'r Context) \<Rightarrow> response_writer \<Rightarrow> 'r \<Rightarrow> response_writer" where
  "Adapt vars handler w r = cx_Response (handler \<lparr>cx_Request = r, cx_Response = w, cx_Params = vars r\<rparr>)"

section \<open>Request options\<close>

record out_request =
  or_header :: "string \<rightharpoonup> string"
  or_query :: "string \<Rightarrow> string list"

definition WithHeader :: "(string \<Rightarrow> string) \<Rightarrow> string \<Rightarrow> string \<Rightarrow> out_request \<Rightarrow> out_request" where
  "WithHeader canon key v r = r\<lparr>or_header := (or_header r)(canon key \<mapsto> v)\<rparr>"

definition WithQueryParam :: "string \<Rightarrow> string \<Rightarrow> out_request \<Rightarrow> out_request" where
  "WithQueryParam key v r = r\<lparr>or_query := (or_query r)(key := or_query r key @ [v])\<rparr>"

definition WithBasicAuth :: "(string \<Rightarrow> string) \<Rightarrow> string \<Rightarrow> string \<Rightarrow> out_request \<Rightarrow> out_request" where
  "WithBasicAuth base64 username password r =
     r\<lparr>or_header := (or_header r)(''Authorization'' \<mapsto> ''Basic '' @ base64 (username @ '':'' @ password))\<rparr>"

text \<open>\<^verbatim>\<open>Request.BasicAuth\<close>: the credentials are cut at the first colon.\<close>

definition BasicAuth :: "(string \<Rightarrow> string option) \<Rightarrow> out_request \<Rightarrow> (string \<times> string) option" where
  "BasicAuth decode64 r =
     (case or_header r ''Authorization'' of
        None \<Rightarrow> None
      | Some v \<Rightarrow>
          if map lower (take 6 v) \<noteq> ''basic '' then None
          else case decode64 (drop 6 v) of
                 None \<Rightarrow> None
               | Some cs \<Rightarrow>
                   if CHR '':'' \<in> set cs
                   then Some (takeWhile (\<lambda>c. c \<noteq> CHR '':'') cs, tl (dropWhile (\<lambda>c. c \<noteq> CHR '':'') cs))
                   else None)"

section \<open>Properties\<close>

text \<open>
  What a context sends on a fresh writer: the status and the type are sent in every case, also when
  the value cannot be encoded, and then there is no body; a second answer adds to the body of the
  first and cannot change its status.
\<close>

theorem context_answers:
  assumes "cx_Response c = fresh_writer" "Context_JSON encode code d c = (c', e)"
  shows "rw_sent (cx_Response c') = Some (code, [''Content-Type'' \<mapsto> ''application/json'']) \<and>
    (case encode d of Inr t \<Rightarrow> e = None \<and> rw_body (cx_Response c') = t | Inl err \<Rightarrow> e = Some err \<and> rw_body (cx_Response c') = []) \<and>
    rw_sent (cx_Response (Context_Text code' t c')) = rw_sent (cx_Response c') \<and>
    rw_body (cx_Response (Context_Text code' t c')) = rw_body (cx_Response c') @ t"
  using assms
  by (auto simp: Context_JSON_def Context_Text_def Header_Set_def WriteHeader_def Write_body_def fresh_writer_def Let_def
      split: sum.splits)

theorem context_answers_witness:
  "rw_sent (cx_Response (fst (Context_Error (\<lambda>_. Inl (PlainErr ''no'')) 404 ''gone''
     \<lparr>cx_Request = (), cx_Response = fresh_writer, cx_Params = Map.empty\<rparr>))) = Some (404, [''Content-Type'' \<mapsto> ''application/json''])"
proof -
  let ?c = "\<lparr>cx_Request = (), cx_Response = fresh_writer, cx_Params = Map.empty\<rparr>"
  have "cx_Response ?c = fresh_writer" by simp
  from context_answers [OF this surjective_pairing, of "\<lambda>_. Inl (PlainErr ''no'')" 404 "[(''error'', ''gone'')]"]
  show ?thesis by (simp add: Context_Error_def)
qed

text \<open>
  Basic authentication from end to end. Credentials that a client attaches to a request reach the
  server's check unchanged exactly when the user name has no colon; the middleware then lets the
  request through exactly when the check accepts them and answers 401 otherwise. A request without
  them is answered 401.
\<close>

theorem basic_auth_round_trip:
  assumes "\<forall>x. decode64 (base64 x) = Some x"
  shows "(BasicAuth decode64 (WithBasicAuth base64 u p req) = Some (u, p) \<longleftrightarrow> CHR '':'' \<notin> set u) \<and>
    (if CHR '':'' \<in> set u then True else
      basic_AuthMiddleware authFunc (BasicAuth decode64 (WithBasicAuth base64 u p req)) next_h s r =
        (if authFunc u p then next_h s r else (s, Return (nethttp_RespondError 401 ''authentication failed'')))) \<and>
    (if or_header req ''Authorization'' = None then
      basic_AuthMiddleware authFunc (BasicAuth decode64 req) next_h s r = (s, Return (nethttp_RespondError 401 ''authentication failed''))
     else True)"
proof -
  have low: "map lower ''Basic '' = ''basic ''" by code_simp
  have auth: "BasicAuth decode64 (WithBasicAuth base64 u p req) =
      Some (takeWhile (\<lambda>c. c \<noteq> CHR '':'') (u @ '':'' @ p), tl (dropWhile (\<lambda>c. c \<noteq> CHR '':'') (u @ '':'' @ p)))"
    using assms low by (simp add: BasicAuth_def WithBasicAuth_def)
  have free: "takeWhile (\<lambda>c. c \<noteq> CHR '':'') (u @ '':'' @ p) = u" "tl (dropWhile (\<lambda>c. c \<noteq> CHR '':'') (u @ '':'' @ p)) = p"
    if "CHR '':'' \<notin> set u"
    using that by (induction u) auto
  have "takeWhile (\<lambda>c. c \<noteq> CHR '':'') (u @ '':'' @ p) \<noteq> u" if "CHR '':'' \<in> set u"
    using that set_takeWhileD by (metis (mono_tags, lifting))
  with auth free show ?thesis by (auto simp: basic_AuthMiddleware_def BasicAuth_def)
qed

theorem basic_auth_round_trip_witness:
  "BasicAuth Some (WithBasicAuth id ''ann'' ''s:e'' \<lparr>or_header = Map.empty, or_query = (\<lambda>_. [])\<rparr>) = Some (''ann'', ''s:e'') \<and>
   BasicAuth Some (WithBasicAuth id ''a:n'' ''x'' \<lparr>or_header = Map.empty, or_query = (\<lambda>_. [])\<rparr>) \<noteq> Some (''a:n'', ''x'')"
proof -
  let ?req = "\<lparr>or_header = Map.empty, or_query = (\<lambda>_. [])\<rparr>"
  note rt = basic_auth_round_trip [of Some id]
  let ?h = "\<lambda>(s :: unit) r. (s, Panic [])"
  from rt [of "''ann''" "''s:e''" ?req "\<lambda>_ _. True" ?h "()" demo_post] rt [of "''a:n''" "''x''" ?req "\<lambda>_ _. True" ?h "()" demo_post]
  show ?thesis by simp
qed

text \<open>Options accumulate: the last header of a name wins, query values keep their order.\<close>

lemma options_accumulate:
  "or_header (WithHeader canon k v (WithHeader canon k v' r)) (canon k) = Some v"
  "or_query (WithQueryParam k v (WithQueryParam k v' r)) k = or_query r k @ [v', v]"
  by (simp_all add: WithHeader_def WithQueryParam_def)

end
