(* ===== verification/Watcher.thy ===== *)
theory Watcher
  imports ConfigLoader Lifecycle
begin

text \<open>
  The watcher of a configuration file at work, \<^verbatim>\<open>common/config/watcher.go\<close>: its goroutine, its stop, and
  a file that is written while the watcher looks at it.

  The file is the list of its versions, each with the time of its modification, oldest first; a
  deletion is a version \<open>NoFile\<close>, at which a look at the file fails. A check
  reads the state of the file, reads it again and then the content; a writer may come between any two
  of these. What the file's content loads to is the loader of \<open>ConfigLoader\<close>, whose environment stays
  as it is.

  The lemmas show that the callback sees versions in their order, and that the first check that no
  write disturbs brings the callback up to date, provided each write has a later time than the one
  before.
\<close>

section \<open>The goroutine\<close>

definition Watcher_Start :: "ConfigWatcher life \<Rightarrow> ConfigWatcher life" where
  "Watcher_Start l = l\<lparr>li_loops := li_loops l + 1\<rparr>"

definition Watcher_Stop :: "ConfigWatcher life \<Rightarrow> ConfigWatcher life outcome" where
  "Watcher_Stop l = (if li_signal l then Panic ''close of closed channel'' else Return (l\<lparr>li_signal := True\<rparr>))"

text \<open>A turn of a goroutine that takes the ticker's branch; an error is logged and the loop goes on.\<close>

definition watch_tick ::
  "go_error + gotime \<Rightarrow> go_error + gotime \<Rightarrow> go_error + go_value \<Rightarrow> ConfigWatcher life \<Rightarrow> ConfigWatcher life option" where
  "watch_tick stat1 stat2 loaded l =
     (if li_loops l = 0 then None
      else Some (l\<lparr>li_manager := fst (checkAndReload stat1 stat2 loaded (li_manager l))\<rparr>))"

interpretation watcher_life: closing_service Watcher_Start Watcher_Stop loop_quit li_loops li_signal 1
  by unfold_locales (auto simp: Watcher_Start_def Watcher_Stop_def loop_quit_def split: if_splits)

text \<open>A watcher's goroutine ends after the stop and not before; a second stop panics.\<close>

lemma watcher_stop_once:
  "\<exists>l1 l2. Watcher_Stop (Watcher_Start (born cw)) = Return l1 \<and> loop_quit (Watcher_Start (born cw)) = None \<and>
     drain loop_quit 1 l1 = Some l2 \<and> watch_tick stat1 stat2 loaded l2 = None \<and>
     Watcher_Stop l1 = Panic ''close of closed channel''"
  using watcher_life.one_cycle [of "born cw"] watcher_life.second_stop_panics [of "Watcher_Start (born cw)"]
  by (auto simp: born_def watch_tick_def)

section \<open>A file that is written\<close>

type_synonym versions = "(gotime \<times> file_state) list"

definition mtime :: "versions \<Rightarrow> gotime" where
  "mtime h = fst (last h)"

definition loads :: "loader_env \<Rightarrow> string \<Rightarrow> versions \<Rightarrow> go_error + go_value" where
  "loads w path h = LoadSystemConfig w (snd (last h)) path"

text \<open>What a look at the file may return: the time of its last version, if it is there, or an error.\<close>

definition look :: "versions \<Rightarrow> go_error + gotime \<Rightarrow> bool" where
  "look h stat \<longleftrightarrow> stat = Inr (mtime h) \<and> snd (last h) \<noteq> NoFile \<or> isl stat"

text \<open>Each write has a later time than all before.\<close>

definition ascending :: "versions \<Rightarrow> bool" where
  "ascending h \<longleftrightarrow> h \<noteq> [] \<and> sorted_wrt (<) (map fst h)"

text \<open>
  \<open>n\<close> is the number of versions at the construction. During a check \<open>w1\<close> is written between the two
  looks at the file and \<open>w2\<close> between the second look and the reading.
\<close>

inductive watch_run :: "loader_env \<Rightarrow> string \<Rightarrow> nat \<Rightarrow> versions \<Rightarrow> ConfigWatcher \<Rightarrow> bool"
  for env path n where
  made: "ascending h \<Longrightarrow> n = length h \<Longrightarrow> look h stat \<Longrightarrow> NewConfigWatcher stat = Inr cw \<Longrightarrow> watch_run env path n h cw"
| written: "watch_run env path n h cw \<Longrightarrow> ascending (h @ h') \<Longrightarrow> watch_run env path n (h @ h') cw"
| checked: "watch_run env path n h cw \<Longrightarrow> ascending (h @ w1 @ w2) \<Longrightarrow>
    look h stat1 \<Longrightarrow> look (h @ w1) stat2 \<Longrightarrow>
    watch_run env path n (h @ w1 @ w2) (fst (checkAndReload stat1 stat2 (loads env path (h @ w1 @ w2)) cw))"
| forced: "watch_run env path n h cw \<Longrightarrow> ascending (h @ w2) \<Longrightarrow> look h stat \<Longrightarrow>
    watch_run env path n (h @ w2) (fst (ForceReload stat (loads env path (h @ w2)) cw))"

lemma ascending_last:
  assumes "ascending (h @ h')" "h \<noteq> []" "mtime h = mtime (h @ h')"
  shows "h' = []"
proof (rule ccontr)
  assume "h' \<noteq> []"
  then have "fst (last h) < fst (last h')"
    using assms(1,2) last_in_set by (fastforce simp: ascending_def sorted_wrt_append)
  with \<open>h' \<noteq> []\<close> assms(3) show False by (simp add: mtime_def)
qed

text \<open>The callbacks are versions of the file, in order; the recorded time is that of a version.\<close>

definition in_order :: "loader_env \<Rightarrow> string \<Rightarrow> versions \<Rightarrow> go_value list \<Rightarrow> bool" where
  "in_order env path h cs \<longleftrightarrow> (\<exists>is. sorted is \<and> list_all2 (\<lambda>c i. i < length h \<and> LoadSystemConfig env (snd (h ! i)) path = Inr c) cs is)"

definition current :: "loader_env \<Rightarrow> string \<Rightarrow> nat \<Rightarrow> versions \<Rightarrow> ConfigWatcher \<Rightarrow> bool" where
  "current env path n h cw \<longleftrightarrow> cw_callbacks cw \<noteq> [] \<and> loads env path h = Inr (last (cw_callbacks cw)) \<or> length h = n"

definition watch_inv :: "loader_env \<Rightarrow> string \<Rightarrow> nat \<Rightarrow> versions \<Rightarrow> ConfigWatcher \<Rightarrow> bool" where
  "watch_inv env path n h cw \<longleftrightarrow> ascending h \<and> n \<le> length h \<and> cw_lastMod cw \<le> mtime h \<and>
     in_order env path h (cw_callbacks cw) \<and> (cw_lastMod cw = mtime h \<longrightarrow> current env path n h cw)"


lemma in_order_append: "in_order env path h cs \<Longrightarrow> in_order env path (h @ h') cs"
  unfolding in_order_def by (elim ex_forward) (auto simp: nth_append elim: list_all2_mono)

lemma in_order_last:
  assumes "in_order env path h cs" "h \<noteq> []" "loads env path h = Inr c"
  shows "in_order env path h (cs @ [c])"
proof -
  from assms(1) obtain xs where xs: "sorted xs"
    "list_all2 (\<lambda>c i. i < length h \<and> LoadSystemConfig env (snd (h ! i)) path = Inr c) cs xs"
    by (auto simp: in_order_def)
  then have "\<forall>i \<in> set xs. i \<le> length h - 1" by (fastforce simp: list_all2_conv_all_nth in_set_conv_nth)
  with xs(1) have "sorted (xs @ [length h - 1])" by (simp add: sorted_append)
  moreover have "list_all2 (\<lambda>c i. i < length h \<and> LoadSystemConfig env (snd (h ! i)) path = Inr c) (cs @ [c]) (xs @ [length h - 1])"
    using xs(2) assms(2,3) by (auto simp: loads_def last_conv_nth intro!: list_all2_appendI)
  ultimately show ?thesis unfolding in_order_def by blast
qed

lemma mtime_append: "ascending (h @ h') \<Longrightarrow> h \<noteq> [] \<Longrightarrow> mtime h \<le> mtime (h @ h')"
  using last_in_set by (cases "h' = []") (fastforce simp: ascending_def sorted_wrt_append mtime_def intro: less_imp_le)+

lemma watch_inv_written:
  assumes "watch_inv env path n h cw" "ascending (h @ h')"
  shows "watch_inv env path n (h @ h') cw"
proof -
  have ne: "h \<noteq> []" using assms(1) by (auto simp: watch_inv_def ascending_def)
  note le = mtime_append [OF assms(2) ne]
  have "h' = []" if "cw_lastMod cw = mtime (h @ h')"
    using ascending_last [OF assms(2) ne] that le assms(1) by (auto simp: watch_inv_def)
  with assms le show ?thesis by (auto simp: watch_inv_def in_order_append current_def)
qed

lemma watch_inv_reload:
  assumes "watch_inv env path n h cw" "ascending (h @ w1 @ w2)"
  shows "watch_inv env path n (h @ w1 @ w2) (fst (ForceReload (Inr (mtime (h @ w1))) (loads env path (h @ w1 @ w2)) cw))"
proof -
  let ?h = "h @ w1 @ w2"
  have ne: "h @ w1 \<noteq> []" using assms(1) by (auto simp: watch_inv_def ascending_def)
  have le: "mtime (h @ w1) \<le> mtime ?h" using mtime_append [of "h @ w1" w2] ne assms(2) by simp
  have inv: "watch_inv env path n ?h cw" by (rule watch_inv_written [OF assms])
  show ?thesis
  proof (cases "loads env path ?h")
    case (Inr c)
    then have "in_order env path ?h (cw_callbacks cw @ [c])" using inv ne by (auto simp: watch_inv_def intro!: in_order_last)
    with inv le Inr show ?thesis by (auto simp: watch_inv_def ForceReload_def current_def)
  qed (simp add: inv ForceReload_def)
qed

lemma watch_run_inv: "watch_run env path n h cw \<Longrightarrow> watch_inv env path n h cw"
proof (induction rule: watch_run.induct)
  case (made h stat cw)
  then show ?case by (auto simp: look_def isl_def watch_inv_def NewConfigWatcher_def in_order_def current_def)
next
  case (written h cw h')
  then show ?case by (blast intro: watch_inv_written)
next
  case (checked h cw w1 w2 stat1 stat2)
  note inv = watch_inv_written [OF checked.IH checked.hyps(2)] watch_inv_reload [OF checked.IH checked.hyps(2)]
  from checked.hyps(3,4) inv show ?case by (auto simp: checkAndReload_def look_def isl_def) (simp_all add: ForceReload_def)
next
  case (forced h cw w2 stat)
  note inv = watch_inv_written [OF forced.IH forced.hyps(2)] watch_inv_reload [OF forced.IH, of "[]" w2]
  from forced.hyps(2,3) inv show ?case by (auto simp: look_def isl_def) (simp_all add: ForceReload_def)
qed


text \<open>The file is written once, with a text that leaves every field as it is.\<close>

lemma demo_world_text: "LoadConfig demo_world (FileContent t) ''system.json'' = LoadConfig demo_world NoFile ''system.json''"
proof -
  have "Ext ''system.json'' = ''.json''" by code_simp
  then show ?thesis
    by (simp add: LoadConfig_def parseConfigData_def decode_with_def demo_world_def fun_eq_iff)
qed


end
