(* ===== verification/DbAccess.thy ===== *)
theory DbAccess
  imports RepoImpl Namespace LockMgr
begin

text \<open>
  The generic repository with its statements executed (\<^verbatim>\<open>core/database/repository.go\<close>), the wrapper of a
  transaction (\<^verbatim>\<open>operations.go\<close>), and the construction of the metadata manager on top of both
  (\<^verbatim>\<open>core/metadata/manager.go\<close>).

  The statements and the scans are those of \<open>Database\<close>, the driver and what is asked of it those of
  \<open>RepoImpl\<close>: the same laws about unknown columns and whole rows.

  The lemmas show what the four repositories of the metadata manager can do on the tables of the
  schema, and what becomes of a transaction that its callback ends itself.
\<close>

section \<open>The generic repository\<close>

record Repository =
  gr_manager :: db_handle
  gr_table :: string

definition NewRepository :: "db_handle \<Rightarrow> string \<Rightarrow> Repository" where
  "NewRepository manager table = \<lparr>gr_manager = manager, gr_table = table\<rparr>"

definition one_row_into ::
  "Repository \<Rightarrow> row query \<Rightarrow> (sql_value \<Rightarrow> go_error + 'w) \<Rightarrow> sql_value statement \<Rightarrow> dest \<Rightarrow> (go_error + 'w list) outcome" where
  "one_row_into r qrow conv st dest =
     (case QueryRowContext (gr_manager r) (qrow st) of
        Panic p \<Rightarrow> Panic p
      | Return row \<Rightarrow> Return (scanStruct conv row dest))"

definition gr_FindByID ::
  "Repository \<Rightarrow> row query \<Rightarrow> (sql_value \<Rightarrow> go_error + 'w) \<Rightarrow> sql_value \<Rightarrow> dest \<Rightarrow> (go_error + 'w list) outcome" where
  "gr_FindByID r qrow conv i dest = one_row_into r qrow conv (Repository_FindByID (gr_table r) i) dest"

definition gr_FindOne ::
  "Repository \<Rightarrow> row query \<Rightarrow> (sql_value \<Rightarrow> go_error + 'w) \<Rightarrow> dest \<Rightarrow> string \<Rightarrow> sql_value list \<Rightarrow> (go_error + 'w list) outcome" where
  "gr_FindOne r qrow conv dest cond args = one_row_into r qrow conv (Repository_FindOne (gr_table r) cond args) dest"

text \<open>The result of a query: its columns, or the error of asking for them, its rows, and \<^verbatim>\<open>rows.Err\<close>.\<close>

type_synonym result_set = "(go_error + string list) \<times> row list \<times> go_error option"

definition gr_FindAll ::
  "Repository \<Rightarrow> result_set query \<Rightarrow> (sql_value \<Rightarrow> go_error + 'w) \<Rightarrow> dest \<Rightarrow> string \<Rightarrow> sql_value list \<Rightarrow> go_error + (string \<rightharpoonup> 'w) list" where
  "gr_FindAll r qrows conv dest cond args =
     (case QueryContext (gr_manager r) (qrows (Repository_FindAll (gr_table r) cond args)) of
        Inl err \<Rightarrow> Inl err
      | Inr (columns, rows, rows_err) \<Rightarrow> ScanRows conv columns rows rows_err dest)"

definition exec_statement ::
  "Repository \<Rightarrow> ('d, 'r) driver \<Rightarrow> go_error + sql_value statement \<Rightarrow> 'd \<Rightarrow> (go_error + 'r) \<times> 'd" where
  "exec_statement r drv st d = (case st of Inl err \<Rightarrow> (Inl err, d) | Inr st \<Rightarrow> exec_on None (gr_manager r) drv st d)"

definition gr_Insert :: "Repository \<Rightarrow> ('d, 'r) driver \<Rightarrow> sql_value entity \<Rightarrow> 'd \<Rightarrow> (go_error + 'r) \<times> 'd" where
  "gr_Insert r drv e = exec_statement r drv (Repository_Insert (gr_table r) e)"

definition gr_Update ::
  "Repository \<Rightarrow> ('d, 'r) driver \<Rightarrow> sql_value entity \<Rightarrow> string \<Rightarrow> sql_value list \<Rightarrow> 'd \<Rightarrow> (go_error + 'r) \<times> 'd" where
  "gr_Update r drv e cond args = exec_statement r drv (Repository_Update (gr_table r) e cond args)"

definition gr_Delete :: "Repository \<Rightarrow> ('d, 'r) driver \<Rightarrow> string \<Rightarrow> sql_value list \<Rightarrow> 'd \<Rightarrow> (go_error + 'r) \<times> 'd" where
  "gr_Delete r drv cond args = exec_statement r drv (Repository_Delete (gr_table r) cond args)"

text \<open>A count starts at 0 and is returned with the error of the scan.\<close>

definition gr_Count :: "Repository \<Rightarrow> row query \<Rightarrow> string \<Rightarrow> sql_value list \<Rightarrow> (int \<times> go_error option) outcome" where
  "gr_Count r qrow cond args =
     (case QueryRowContext (gr_manager r) (qrow (Repository_Count (gr_table r) cond args)) of
        Panic p \<Rightarrow> Panic p
      | Return (Inl err) \<Rightarrow> Return (0, Some err)
      | Return (Inr vals) \<Rightarrow> Return (Scan [into (convert_int 64) (\<lambda>n _. n)] vals 0))"

definition gr_FindChildren :: "Repository \<Rightarrow> int \<Rightarrow> 'a outcome" where
  "gr_FindChildren r d = Panic ''unimplemented''"

section \<open>The wrapper of a transaction\<close>

text \<open>The transaction of the database library, or nil.\<close>

type_synonym tx_wrapper = "sql_status option"

definition NewTransaction :: "sql_status \<Rightarrow> tx_wrapper" where
  "NewTransaction tx = Some tx"

definition err_no_tx :: go_error where
  "err_no_tx = PlainErr ''transaction not initialised''"

definition wrapper_Commit :: "go_error option \<Rightarrow> tx_wrapper \<Rightarrow> tx_wrapper \<times> go_error option" where
  "wrapper_Commit drv t = (case t of None \<Rightarrow> (None, Some err_no_tx) | Some st \<Rightarrow> map_prod Some id (sql_Commit drv st))"

definition wrapper_Rollback :: "go_error option \<Rightarrow> tx_wrapper \<Rightarrow> tx_wrapper \<times> go_error option" where
  "wrapper_Rollback drv t = (case t of None \<Rightarrow> (None, Some err_no_tx) | Some st \<Rightarrow> map_prod Some id (sql_Rollback drv st))"

definition wrapper_Exec :: "('d, 'r) driver \<Rightarrow> sql_value statement \<Rightarrow> tx_wrapper \<Rightarrow> 'd \<Rightarrow> (go_error + 'r) \<times> 'd" where
  "wrapper_Exec drv q t d =
     (case t of
        None \<Rightarrow> (Inl err_no_tx, d)
      | Some st \<Rightarrow> if st \<noteq> SqlOpen then (Inl ErrTxDone, d) else drv q d)"

definition wrapper_Query :: "'r query \<Rightarrow> sql_value statement \<Rightarrow> tx_wrapper \<Rightarrow> go_error + 'r" where
  "wrapper_Query qu q t =
     (case t of None \<Rightarrow> Inl err_no_tx | Some st \<Rightarrow> if st \<noteq> SqlOpen then Inl ErrTxDone else qu q)"

text \<open>A row, or nil.\<close>

definition wrapper_QueryRow :: "row query \<Rightarrow> sql_value statement \<Rightarrow> tx_wrapper \<Rightarrow> (go_error + row) option" where
  "wrapper_QueryRow qu q t =
     (case t of None \<Rightarrow> None | Some st \<Rightarrow> Some (if st \<noteq> SqlOpen then Inl ErrTxDone else qu q))"

section \<open>The metadata manager\<close>

record md_manager =
  md_db :: db_handle
  md_lockMgr :: lock_manager
  md_nsMgr :: ns_manager
  md_txMgr :: tx_manager
  md_fileRepo :: Repository
  md_dirRepo :: Repository
  md_chunkRepo :: Repository
  md_replicaRepo :: Repository

text \<open>\<open>db\<close> is None for a nil manager; the lock and transaction managers are made without an error.\<close>

definition Metadata_NewManager :: "db_handle option \<Rightarrow> go_error + md_manager" where
  "Metadata_NewManager db =
     (case db of
        None \<Rightarrow> Inl (PlainErr ''database manager must not be nil'')
      | Some db \<Rightarrow>
          let lockMgr = Lock_NewManager; txMgr = Tx_NewManager
          in case Namespace_NewManager False False of
               Inl err \<Rightarrow> Inl (Errorf_w ''initialisation of the namespace manager failed'' err)
             | Inr nsMgr \<Rightarrow>
                 Inr \<lparr>md_db = db, md_lockMgr = lockMgr, md_nsMgr = nsMgr, md_txMgr = txMgr,
                   md_fileRepo = NewRepository db ''files'', md_dirRepo = NewRepository db ''directories'',
                   md_chunkRepo = NewRepository db ''chunks'', md_replicaRepo = NewRepository db ''replicas''\<rparr>)"

lemma Metadata_NewManager_outcome:
  "case Metadata_NewManager db of
     Inl _ \<Rightarrow> db = None
   | Inr m \<Rightarrow> db = Some (md_db m) \<and> nm_rootCache (md_nsMgr m) = None \<and> wf_tx (md_txMgr m) \<and>
       (\<forall>p. lm_pathLocks (md_lockMgr m) p = None)"
  using wf_NewManager
  by (cases db) (simp_all add: Metadata_NewManager_def Namespace_NewManager_def Lock_NewManager_def Let_def)

section \<open>The repositories on the schema\<close>

text \<open>The repositories of the manager with the structs that are stored in them.\<close>

definition md_repositories :: "md_manager \<Rightarrow> (Repository \<times> (string \<times> string) list) list" where
  "md_repositories m =
     [(md_fileRepo m, FileMetadata_fields), (md_dirRepo m, DirectoryMetadata_fields),
      (md_chunkRepo m, ChunkMetadata_fields), (md_replicaRepo m, ReplicaMetadata_fields)]"

lemma md_repositories_new:
  assumes "Metadata_NewManager (Some db) = Inr m"
  shows "md_repositories m =
    [(NewRepository db ''files'', FileMetadata_fields), (NewRepository db ''directories'', DirectoryMetadata_fields),
     (NewRepository db ''chunks'', ChunkMetadata_fields), (NewRepository db ''replicas'', ReplicaMetadata_fields)]"
  using assms by (auto simp: Metadata_NewManager_def Namespace_NewManager_def Let_def md_repositories_def)

lemma FindByID_text: "Repository_FindByID table i = (''SELECT * FROM '' @ table @ '' WHERE id = ?'', [i])"
  by (simp add: Repository_FindByID_def BuildSelect_def NewQueryBuilder_def Where_def where_part_def)

lemma no_id_column:
  "list_all (\<lambda>t. \<not> known_columns (''SELECT * FROM '' @ t @ '' WHERE id = ?'')) [''files'', ''directories'', ''chunks'', ''replicas'']"
  by code_simp

lemma FindByID_fails:
  assumes "query_checks qrow" "db \<noteq> NilDB" "t \<in> {''files'', ''directories'', ''chunks'', ''replicas''}"
  shows "\<exists>e. gr_FindByID (NewRepository db t) qrow conv i dest = Return (Inl e)"
proof -
  have "\<not> known_columns (''SELECT * FROM '' @ t @ '' WHERE id = ?'')" using no_id_column assms(3) by (auto simp: list_all_iff)
  then have "isl (qrow (Repository_FindByID t i))" using assms(1) by (simp add: query_checks_def FindByID_text)
  then obtain e where "qrow (Repository_FindByID t i) = Inl e" by (auto simp: isl_def)
  with assms(2) show ?thesis
    by (auto simp: gr_FindByID_def one_row_into_def NewRepository_def QueryRowContext_def scanStruct_def split: dest.split)
qed

text \<open>No column is the name of a field, so the first row cannot be scanned.\<close>

lemma first_column_unknown:
  "list_all (\<lambda>(t, fs). columns_of t \<noteq> [] \<and> \<not> List.member (map fst fs) (hd (columns_of t)))
     [(''files'', FileMetadata_fields), (''directories'', DirectoryMetadata_fields),
      (''chunks'', ChunkMetadata_fields), (''replicas'', ReplicaMetadata_fields)]"
  by code_simp

lemma ScanRows_misnamed:
  assumes "cols \<noteq> []" "\<not> List.member fs (hd cols)" "list_all (\<lambda>r. length r = length cols) rows"
  shows "ScanRows conv (Inr cols) rows None (PtrSlice fs) = Inr [] \<longleftrightarrow> rows = []"
    "rows \<noteq> [] \<Longrightarrow> isl (ScanRows conv (Inr cols) rows rows_err (PtrSlice fs))"
proof -
  obtain c cs where c: "cols = c # cs" using assms(1) by (cases cols) auto
  have "isl (ScanRows conv (Inr cols) rows e (PtrSlice fs))" if "rows \<noteq> []" for e
    using that assms(2,3) by (cases rows; cases "hd rows") (auto simp: ScanRows_def c)
  then show "rows \<noteq> [] \<Longrightarrow> isl (ScanRows conv (Inr cols) rows rows_err (PtrSlice fs))"
    "ScanRows conv (Inr cols) rows None (PtrSlice fs) = Inr [] \<longleftrightarrow> rows = []"
    by (auto simp: ScanRows_def) (metis isl_def sum.distinct(1) ScanRows_def)
qed


text \<open>What is inserted for a stored struct: its tags are the columns, its values the arguments.\<close>

lemma insert_fields_tags:
  "length vs = length fs \<Longrightarrow> list_all (\<lambda>(n, t). t \<notin> {[], ''-'', ''id''}) fs \<Longrightarrow>
   insert_fields (map (\<lambda>((n, t), v). (n, t, v)) (zip fs vs)) = (map snd fs, vs)"
  by (induction vs fs rule: list_induct2) (auto simp: column_name_def)

definition insert_text :: "string \<Rightarrow> (string \<times> string) list \<Rightarrow> string" where
  "insert_text table fs =
     ''INSERT INTO '' @ table @ '' ('' @ join_with '', '' (map snd fs) @ '') VALUES ('' @
     join_with '', '' (replicate (length fs) ''?'') @ '')''"

lemma Insert_tags:
  assumes "length vs = length fs" "list_all (\<lambda>(n, t). t \<notin> {[], ''-'', ''id''}) fs"
  shows "Repository_Insert table (entity_of fs vs) = Inr (insert_text table fs, vs)"
  by (simp add: Repository_Insert_def extractInsertValues_def entity_of_def insert_fields_tags [OF assms] insert_text_def)

lemma stored_tags:
  "list_all (list_all (\<lambda>(n, t). t \<notin> {[], ''-'', ''id''}))
     [FileMetadata_fields, DirectoryMetadata_fields, ChunkMetadata_fields, ReplicaMetadata_fields]"
  by (simp add: FileMetadata_fields_def DirectoryMetadata_fields_def ChunkMetadata_fields_def ReplicaMetadata_fields_def)

lemma insert_columns:
  "\<not> known_columns (insert_text ''files'' FileMetadata_fields)"
  "\<not> known_columns (insert_text ''directories'' DirectoryMetadata_fields)"
  "known_columns (insert_text ''chunks'' ChunkMetadata_fields)"
  "known_columns (insert_text ''replicas'' ReplicaMetadata_fields)"
  by code_simp+

lemma gr_Insert_unknown:
  assumes "checks_columns drv" "length vs = length fs" "list_all (\<lambda>(n, t). t \<notin> {[], ''-'', ''id''}) fs"
    "\<not> known_columns (insert_text (gr_table r) fs)"
  shows "isl (fst (gr_Insert r drv (entity_of fs vs) d)) \<and> snd (gr_Insert r drv (entity_of fs vs) d) = d"
proof -
  obtain e where "drv (insert_text (gr_table r) fs, vs) d = (Inl e, d)" using assms(1,4) unfolding checks_columns_def by blast
  then show ?thesis by (simp add: gr_Insert_def exec_statement_def Insert_tags [OF assms(2,3)] exec_on_def ExecContext_def)
qed

lemma convert_all_Inr [simp]: "convert_all Inr vs = Inr vs"
  by (induction vs) simp_all

lemma gr_FindOne_reads:
  assumes "gr_manager r \<noteq> NilDB" "qrow (Repository_FindOne (gr_table r) cond args) = Inr vals" "length vals = length fs"
  shows "gr_FindOne r qrow Inr (PtrStruct fs) cond args = Return (Inr vals)"
  using assms by (simp add: gr_FindOne_def one_row_into_def QueryRowContext_def scanStruct_def)

text \<open>
  What the four repositories of a metadata manager can do on the tables of the schema. None finds a
  row by its identifier: the query names a column \<^verbatim>\<open>id\<close> that no table has. None lists rows: with one row
  or more the scan fails, since it looks for fields named like the columns. Files and directories
  cannot be inserted: a column of the statement is not in the table, and the database stays as it is.
  For chunks and replicas the statement names the columns of the table, with the values of the struct
  as arguments, and a row of these values is read back by \<open>FindOne\<close> as they were.
\<close>

theorem metadata_repositories_on_schema:
  assumes "Metadata_NewManager (Some db) = Inr m" "db \<noteq> NilDB" "(r, fs) \<in> set (md_repositories m)"
    and "query_checks qrow" "checks_columns drv" "length vals = length fs"
    and "qrows (Repository_FindAll (gr_table r) cond args) = Inr (Inr (columns_of (gr_table r)), rows, None)"
    and "list_all (\<lambda>row. length row = length (columns_of (gr_table r))) rows"
  shows "(\<exists>e. gr_FindByID r qrow conv i dest = Return (Inl e)) \<and>
    (if rows = [] then gr_FindAll r qrows conv (PtrSlice (map fst fs)) cond args = Inr []
     else isl (gr_FindAll r qrows conv (PtrSlice (map fst fs)) cond args)) \<and>
    (if gr_table r = ''files'' \<or> gr_table r = ''directories''
     then isl (fst (gr_Insert r drv (entity_of fs vals) d)) \<and> snd (gr_Insert r drv (entity_of fs vals) d) = d
     else map snd fs = columns_of (gr_table r) \<and> Repository_Insert (gr_table r) (entity_of fs vals) = Inr (insert_text (gr_table r) fs, vals) \<and>
       known_columns (insert_text (gr_table r) fs) \<and>
       (qrow (Repository_FindOne (gr_table r) cond' args') = Inr vals \<longrightarrow>
          gr_FindOne r qrow Inr (PtrStruct (map fst fs)) cond' args' = Return (Inr vals)))"
proof -
  have mem: "(r, fs) \<in> {(NewRepository db ''files'', FileMetadata_fields), (NewRepository db ''directories'', DirectoryMetadata_fields),
     (NewRepository db ''chunks'', ChunkMetadata_fields), (NewRepository db ''replicas'', ReplicaMetadata_fields)}"
    using assms(3) by (simp add: md_repositories_new [OF assms(1)])
  have r: "r = NewRepository db (gr_table r)" "gr_manager r \<noteq> NilDB" "gr_table r \<in> {''files'', ''directories'', ''chunks'', ''replicas''}"
    using mem assms(2) by (auto simp: NewRepository_def)
  have byid: "\<exists>e. gr_FindByID r qrow conv i dest = Return (Inl e)"
    using FindByID_fails [OF assms(4,2) r(3)] r(1) by simp
  have cols: "columns_of (gr_table r) \<noteq> []" "\<not> List.member (map fst fs) (hd (columns_of (gr_table r)))"
    using mem first_column_unknown by (elim insertE emptyE; simp add: NewRepository_def)+
  have all: "gr_FindAll r qrows conv (PtrSlice (map fst fs)) cond args = ScanRows conv (Inr (columns_of (gr_table r))) rows None (PtrSlice (map fst fs))"
    using assms(7) r(2) by (simp add: gr_FindAll_def QueryContext_def)
  have tags: "list_all (\<lambda>(n, t). t \<notin> {[], ''-'', ''id''}) fs" using mem stored_tags by auto
  have fit: "map snd ChunkMetadata_fields = columns_of ''chunks''" "map snd ReplicaMetadata_fields = columns_of ''replicas''" by code_simp+
  have ins: "if gr_table r = ''files'' \<or> gr_table r = ''directories'' then \<not> known_columns (insert_text (gr_table r) fs)
      else known_columns (insert_text (gr_table r) fs) \<and> map snd fs = columns_of (gr_table r)"
    using mem insert_columns fit by (auto simp: NewRepository_def)
  show ?thesis
    using byid ScanRows_misnamed [OF cols assms(8), of conv] all ins gr_Insert_unknown [OF assms(5,6) tags, of r d]
      Insert_tags [OF assms(6) tags, of "gr_table r"] gr_FindOne_reads [OF r(2), of qrow cond' args' vals "map fst fs"] assms(6)
    by (auto split: if_splits)
qed

theorem metadata_repositories_on_schema_witness:
  "let m = projr (Metadata_NewManager (Some OpenDB)); r = md_chunkRepo m; vals = [SInt 1, SInt 2, SInt 3, SInt 4, SInt 5];
       rows = [replicate 5 SNull]
   in isl (gr_FindAll r (\<lambda>_. Inr (Inr (columns_of ''chunks''), rows, None)) Inr (PtrSlice (map fst ChunkMetadata_fields)) [] []) \<and>
      gr_FindOne r (\<lambda>(q, args). if known_columns q then Inr vals else Inl err_convert) Inr
        (PtrStruct (map fst ChunkMetadata_fields)) ''chunk_id = ?'' [SInt 1] = Return (Inr vals)"
proof -
  obtain m where m: "Metadata_NewManager (Some OpenDB) = Inr m"
    by (simp add: Metadata_NewManager_def Namespace_NewManager_def Let_def)
  have c: "md_chunkRepo m = NewRepository OpenDB ''chunks''" and mem: "(md_chunkRepo m, ChunkMetadata_fields) \<in> set (md_repositories m)"
    using md_repositories_new [OF m] by (simp_all add: md_repositories_def)
  let ?vals = "[SInt 1, SInt 2, SInt 3, SInt 4, SInt 5]" and ?rows = "[replicate 5 SNull]"
  let ?qrow = "\<lambda>(q, args :: sql_value list). if known_columns q then Inr ?vals else Inl err_convert :: go_error + row"
  let ?drv = "\<lambda>(q, args :: sql_value list) d. (Inl err_convert, d) :: (go_error + unit) \<times> unit"
  have l: "length (columns_of ''chunks'') = 5" "length ChunkMetadata_fields = 5" by code_simp+
  have k: "known_columns (''SELECT * FROM chunks WHERE chunk_id = ?'')" by code_simp
  have q: "query_checks ?qrow" "checks_columns ?drv" by (simp_all add: query_checks_def checks_columns_def)
  have fo: "Repository_FindOne ''chunks'' ''chunk_id = ?'' [SInt 1] = (''SELECT * FROM chunks WHERE chunk_id = ?'', [SInt 1])"
    by (simp add: Repository_FindOne_def BuildSelect_def NewQueryBuilder_def Where_def where_part_def)
  show ?thesis
    using metadata_repositories_on_schema [OF m _ mem q, of ?vals "\<lambda>_. Inr (Inr (columns_of ''chunks''), ?rows, None)" "[]" "[]" ?rows
        Inr "SInt 1" OtherDest "()" "''chunk_id = ?''" "[SInt 1]"] l k
    by (simp add: m c NewRepository_def fo Let_def)
qed

section \<open>Ending a transaction inside its callback\<close>

text \<open>
  A callback that commits or rolls back through the wrapper and reports no error: the transaction is
  ended as the callback wanted, and \<open>DoInTransaction\<close> returns the error of ending it again.
\<close>

lemma ended_in_callback:
  assumes "callback = (\<lambda>st. case end_it (NewTransaction st) of (Some st', e) \<Rightarrow> (st', Return e) | (None, e) \<Rightarrow> (st, Return e))"
  shows "end_it = wrapper_Commit None \<Longrightarrow> DoInTransaction rb cm (Inr SqlOpen) callback = (Some SqlCommitted, Return (Some ErrTxDone))"
    "end_it = wrapper_Rollback None \<Longrightarrow> DoInTransaction rb cm (Inr SqlOpen) callback = (Some SqlRolledBack, Return (Some ErrTxDone))"
  using assms
  by (simp_all add: DoInTransaction_def wrapper_Commit_def wrapper_Rollback_def NewTransaction_def sql_Commit_def sql_Rollback_def)

text \<open>After its end a transaction answers every call with an error, and no statement reaches the database.\<close>

lemma ended_wrapper:
  assumes "st \<noteq> SqlOpen"
  shows "wrapper_Commit drv (Some st) = (Some st, Some ErrTxDone)" "wrapper_Rollback drv (Some st) = (Some st, Some ErrTxDone)"
    "wrapper_Exec d q (Some st) db = (Inl ErrTxDone, db)" "wrapper_Query qu q (Some st) = Inl ErrTxDone"
    "wrapper_QueryRow qr q (Some st) = Some (Inl ErrTxDone)"
  using assms
  by (simp_all add: wrapper_Commit_def wrapper_Rollback_def wrapper_Exec_def wrapper_Query_def wrapper_QueryRow_def
      sql_Commit_final sql_Rollback_final)


section \<open>The version of the schema\<close>

text \<open>One query, on the table of the applied migrations.\<close>

definition GetSchemaVersion :: "row query \<Rightarrow> int \<times> go_error option" where
  "GetSchemaVersion qrow =
     (case qrow (''SELECT COALESCE(MAX(version), 0) FROM schema_migrations'', []) of
        Inl err \<Rightarrow> (0, Some err)
      | Inr vals \<Rightarrow> Scan [into (convert_int 64) (\<lambda>n _. n)] vals 0)"

text \<open>
  With a database that answers the query from its table of versions, the version is the last of a run of
  migrations in ascending order, and 0 before the first.
\<close>

lemma schema_version:
  assumes "qrow (''SELECT COALESCE(MAX(version), 0) FROM schema_migrations'', []) =
      Inr [SInt (if versions = {} then 0 else Max versions)]"
    and "versions = mi_Version ` set mis" "sorted (map mi_Version mis)" "\<forall>mi \<in> set mis. fits 64 (mi_Version mi)"
  shows "GetSchemaVersion qrow = (if mis = [] then 0 else mi_Version (last mis), None)"
proof (cases "mis = []")
  case True
  with assms show ?thesis by (simp add: GetSchemaVersion_def Scan_def into_def fits_def)
next
  case False
  have "sorted (map mi_Version (butlast mis @ [last mis]))" using assms(3) False by simp
  then have "\<forall>m \<in> set (butlast mis @ [last mis]). mi_Version m \<le> mi_Version (last mis)" by (auto simp: sorted_append)
  then have "mi_Version m \<le> mi_Version (last mis)" if "m \<in> set mis" for m using that False by simp
  then have "Max versions = mi_Version (last mis)"
    using assms(2) False by (intro Max_eqI) auto
  with assms False show ?thesis by (simp add: GetSchemaVersion_def Scan_def into_def)
qed

end
