(* ===== verification/RaftLoop.thy ===== *)
theory RaftLoop
  imports RaftWire
begin

text \<open>
  A raft node at work, \<^verbatim>\<open>common/consensus/raft/node.go\<close>: the loop \<^verbatim>\<open>run\<close> that handles what the library
  produces, the loop \<^verbatim>\<open>serveProposals\<close>, the clients that propose and stop, and the receiver of the apply
  channel, as goroutines whose steps interleave; and the example in \<^verbatim>\<open>transport.go\<close>.

  \<open>handleReady\<close> of \<open>RaftStorage\<close> handles a \<^verbatim>\<open>Ready\<close> at once. Here it is a list of actions, in the order of
  the source, that the loop works off one by one: a critical section, a send to the transport, or a
  send to the apply channel, which waits while the channel is full. Which \<^verbatim>\<open>Ready\<close> comes next, and what
  becomes of a proposal, is up to the library.

  The lemmas show that this refines the handling at once, that what is received is what the handled
  \<^verbatim>\<open>Ready\<close> values deliver, each message once and in order, that proposals arrive at the library in order, when
  the loop gets through, and when it never ends: a node whose apply channel is full and has no
  receiver cannot be stopped.
\<close>

section \<open>A Ready as a list of actions\<close>

datatype ('c, 'msg) act =
    SaveHardState HardState
  | SaveLog "Entry list"
  | SaveSnap "'c Snapshot"
  | SaveConf 'c
  | Deliver ApplyMsg
  | SendOut "'msg list"
  | SetLeader bool
  | Advance

definition snapshot_msg :: "'c Snapshot \<Rightarrow> ApplyMsg" where
  "snapshot_msg snap =
     \<lparr>am_CommandValid = False, am_Command = [], am_CommandIndex = 0, am_CommandTerm = 0,
      am_SnapshotValid = True, am_Snapshot = sn_Data snap, am_SnapshotTerm = sn_Term snap,
      am_SnapshotIndex = sn_Index snap\<rparr>"

definition committed_acts :: "(Entry \<Rightarrow> 'c option) \<Rightarrow> Entry \<Rightarrow> ('c, 'msg) act list" where
  "committed_acts ac e =
     (if en_Type e = EntryNormal \<and> en_Data e \<noteq> [] then [Deliver (command_msg e)]
      else if en_Type e = EntryConfChange then
        (case ac e of None \<Rightarrow> [] | Some conf \<Rightarrow> [SaveConf conf, Deliver (command_msg e)])
      else [])"

definition ready_acts ::
  "(HardState \<Rightarrow> bool) \<Rightarrow> ('c Snapshot \<Rightarrow> bool) \<Rightarrow> (Entry \<Rightarrow> 'c option) \<Rightarrow> ('c, 'msg) Ready \<Rightarrow> ('c, 'msg) act list" where
  "ready_acts eh emp ac rd =
     (if \<not> eh (rd_HardState rd) then [SaveHardState (rd_HardState rd)] else []) @
     (if rd_Entries rd \<noteq> [] then [SaveLog (rd_Entries rd)] else []) @
     (if \<not> emp (rd_Snapshot rd) then [SaveSnap (rd_Snapshot rd), Deliver (snapshot_msg (rd_Snapshot rd))] else []) @
     (if rd_Messages rd \<noteq> [] then [SendOut (rd_Messages rd)] else []) @
     concat (map (committed_acts ac) (rd_CommittedEntries rd)) @
     (case rd_SoftState rd of None \<Rightarrow> [] | Some l \<Rightarrow> [SetLeader l]) @
     [Advance]"

text \<open>What an action does to the node; None is the panic on a gap.\<close>

definition storage_act :: "('c MemoryStorage \<Rightarrow> 'c MemoryStorage) \<Rightarrow> 'c RaftNode \<Rightarrow> 'c RaftNode option" where
  "storage_act f rn = Some (rn\<lparr>rn_raftStorage := f (rn_raftStorage rn)\<rparr>)"

fun node_act :: "('c, 'msg) act \<Rightarrow> 'c RaftNode \<Rightarrow> 'c RaftNode option" where
  "node_act (SaveHardState hs) rn = storage_act (\<lambda>st. st\<lparr>st_hardState := hs\<rparr>) rn"
| "node_act (SaveLog new) rn =
     (case append_entries new (st_entries (rn_raftStorage rn)) of
        None \<Rightarrow> None
      | Some es \<Rightarrow> storage_act (\<lambda>st. st\<lparr>st_entries := es\<rparr>) rn)"
| "node_act (SaveSnap snap) rn =
     storage_act (\<lambda>st. st\<lparr>st_snapshot := snap, st_entries := filter (\<lambda>e. en_Index e > sn_Index snap) (st_entries st)\<rparr>) rn"
| "node_act (SaveConf conf) rn = storage_act (\<lambda>st. st\<lparr>st_confState := conf\<rparr>) rn"
| "node_act (SetLeader l) rn = Some (rn\<lparr>rn_isLeader := l\<rparr>)"
| "node_act _ rn = Some rn"

fun node_acts :: "('c, 'msg) act list \<Rightarrow> 'c RaftNode \<Rightarrow> 'c RaftNode option" where
  "node_acts [] rn = Some rn"
| "node_acts (a # as) rn = (case node_act a rn of None \<Rightarrow> None | Some rn \<Rightarrow> node_acts as rn)"

fun deliveries :: "('c, 'msg) act list \<Rightarrow> ApplyMsg list" where
  "deliveries [] = []"
| "deliveries (Deliver m # as) = m # deliveries as"
| "deliveries (_ # as) = deliveries as"

fun sends :: "('c, 'msg) act list \<Rightarrow> 'msg list" where
  "sends [] = []"
| "sends (SendOut ms # as) = ms @ sends as"
| "sends (_ # as) = sends as"

lemma node_acts_append:
  "node_acts (as @ bs) rn = (case node_acts as rn of None \<Rightarrow> None | Some rn \<Rightarrow> node_acts bs rn)"
  by (induction as arbitrary: rn) (auto split: option.split)

lemma deliveries_append [simp]: "deliveries (as @ bs) = deliveries as @ deliveries bs"
  by (induction as rule: deliveries.induct) simp_all

lemma sends_append [simp]: "sends (as @ bs) = sends as @ sends bs"
  by (induction as rule: sends.induct) simp_all

lemma committed_acts_spec:
  "node_acts (concat (map (committed_acts ac) es)) rn =
     Some (rn\<lparr>rn_raftStorage := fst (apply_committed ac es (rn_raftStorage rn))\<rparr>)"
  "deliveries (concat (map (committed_acts ac) es)) = map command_msg (filter (delivered ac) es)"
  "sends (concat (map (committed_acts ac) es)) = []"
  by (induction es arbitrary: rn)
    (auto simp: committed_acts_def storage_act_def delivered_def case_prod_unfold Let_def node_acts_append split: option.splits)

text \<open>What a \<^verbatim>\<open>Ready\<close> delivers.\<close>

definition ready_msgs :: "('c Snapshot \<Rightarrow> bool) \<Rightarrow> (Entry \<Rightarrow> 'c option) \<Rightarrow> ('c, 'msg) Ready \<Rightarrow> ApplyMsg list" where
  "ready_msgs emp ac rd =
     (if emp (rd_Snapshot rd) then [] else [snapshot_msg (rd_Snapshot rd)]) @
     map command_msg (filter (delivered ac) (rd_CommittedEntries rd))"

text \<open>The actions of a \<^verbatim>\<open>Ready\<close>, one after the other, are its handling at once.\<close>

lemma ready_acts_handleReady:
  "handleReady eh emp ac rd rn =
     (case node_acts (ready_acts eh emp ac rd) rn of
        None \<Rightarrow> Panic ''raft log has gap''
      | Some rn' \<Rightarrow> Return (rn', ready_msgs emp ac rd, rd_Messages rd))"
  by (auto simp: handleReady_def ready_acts_def node_acts_append committed_acts_spec storage_act_def apply_snapshot_def
      ready_msgs_def snapshot_msg_def apply_committed_delivers append_entries_def case_prod_unfold Let_def split: option.split)

lemma ready_acts_outputs:
  "deliveries (ready_acts eh emp ac rd) = ready_msgs emp ac rd"
  "sends (ready_acts eh emp ac rd) = rd_Messages rd"
  "ready_acts eh emp ac rd \<noteq> []"
  by (auto simp: ready_acts_def committed_acts_spec ready_msgs_def split: option.split)


section \<open>The goroutines\<close>

text \<open>
  \<open>lp_todo\<close> are the actions that are left of the \<^verbatim>\<open>Ready\<close> being handled; it is empty when \<open>run\<close> waits in its
  select. The fields from \<open>lp_taken\<close> on are a record of the past: the \<^verbatim>\<open>Ready\<close> values that were taken, what
  was received from the apply channel and given to the transport, which proposals were accepted and
  which were handed to the library, and how often the library was told to advance.
\<close>

record ('c, 'msg) raft_loop =
  lp_node :: "'c RaftNode"
  lp_todo :: "('c, 'msg) act list"
  lp_applyCh :: "ApplyMsg list"
  lp_proposeC :: "bytes list"
  lp_run :: bool
  lp_serve :: bool
  lp_library_stopped :: bool
  lp_taken :: "('c, 'msg) Ready list"
  lp_received :: "ApplyMsg list"
  lp_sent :: "'msg list"
  lp_accepted :: "bytes list"
  lp_proposed :: "bytes list"
  lp_advanced :: nat

definition start_loop :: "'c \<Rightarrow> ('c, 'msg) raft_loop" where
  "start_loop empty_conf =
     \<lparr>lp_node = NewRaftNode empty_conf, lp_todo = [], lp_applyCh = [], lp_proposeC = [], lp_run = True, lp_serve = True,
      lp_library_stopped = False, lp_taken = [], lp_received = [], lp_sent = [], lp_accepted = [], lp_proposed = [],
      lp_advanced = 0\<rparr>"

text \<open>\<open>run\<close> in its select: a \<^verbatim>\<open>Ready\<close>, or the stop signal.\<close>

definition run_ready ::
  "(HardState \<Rightarrow> bool) \<Rightarrow> ('c Snapshot \<Rightarrow> bool) \<Rightarrow> (Entry \<Rightarrow> 'c option) \<Rightarrow> ('c, 'msg) Ready \<Rightarrow> ('c, 'msg) raft_loop \<Rightarrow>
   ('c, 'msg) raft_loop option" where
  "run_ready eh emp ac rd s =
     (if lp_run s \<and> lp_todo s = [] then Some (s\<lparr>lp_todo := ready_acts eh emp ac rd, lp_taken := lp_taken s @ [rd]\<rparr>) else None)"

definition run_exit :: "('c, 'msg) raft_loop \<Rightarrow> ('c, 'msg) raft_loop option" where
  "run_exit s =
     (if lp_run s \<and> lp_todo s = [] \<and> rn_stopped (lp_node s)
      then Some (s\<lparr>lp_run := False, lp_library_stopped := True\<rparr>) else None)"

text \<open>The next action of a \<^verbatim>\<open>Ready\<close>. A send to the apply channel does not look at the stop signal.\<close>

definition run_act :: "nat \<Rightarrow> ('c, 'msg) raft_loop \<Rightarrow> ('c, 'msg) raft_loop outcome option" where
  "run_act cap s =
     (case lp_todo s of
        [] \<Rightarrow> None
      | Deliver m # as \<Rightarrow>
          (case block_send cap m (lp_applyCh s) of
             None \<Rightarrow> None
           | Some ch \<Rightarrow> Some (Return (s\<lparr>lp_todo := as, lp_applyCh := ch\<rparr>)))
      | SendOut ms # as \<Rightarrow> Some (Return (s\<lparr>lp_todo := as, lp_sent := lp_sent s @ ms\<rparr>))
      | Advance # as \<Rightarrow> Some (Return (s\<lparr>lp_todo := as, lp_advanced := lp_advanced s + 1\<rparr>))
      | a # as \<Rightarrow>
          (case node_act a (lp_node s) of
             None \<Rightarrow> Some (Panic ''raft log has gap'')
           | Some rn \<Rightarrow> Some (Return (s\<lparr>lp_todo := as, lp_node := rn\<rparr>))))"

text \<open>
  \<open>serveProposals\<close>: a proposal, or the stop signal. Nothing is ever sent to the channel of its third case,
  for configuration changes, and a tick changes only the library.
\<close>

definition serve_proposal :: "('c, 'msg) raft_loop \<Rightarrow> ('c, 'msg) raft_loop option" where
  "serve_proposal s =
     (case lp_proposeC s of
        [] \<Rightarrow> None
      | prop # ch \<Rightarrow> if lp_serve s then Some (s\<lparr>lp_proposeC := ch, lp_proposed := lp_proposed s @ [prop]\<rparr>) else None)"

definition serve_exit :: "('c, 'msg) raft_loop \<Rightarrow> ('c, 'msg) raft_loop option" where
  "serve_exit s = (if lp_serve s \<and> rn_stopped (lp_node s) then Some (s\<lparr>lp_serve := False\<rparr>) else None)"

text \<open>The clients: a proposal, a stop, and a receive from \<open>ApplyCh\<close>.\<close>

definition client_propose :: "nat \<Rightarrow> bool \<Rightarrow> bytes \<Rightarrow> ('c, 'msg) raft_loop \<Rightarrow> ('c, 'msg) raft_loop option" where
  "client_propose cap choice command s =
     (case raft_Propose choice cap command (lp_proposeC s) (lp_node s) of
        None \<Rightarrow> None
      | Some (ch, True) \<Rightarrow> Some (s\<lparr>lp_proposeC := ch, lp_accepted := lp_accepted s @ [command]\<rparr>)
      | Some (ch, False) \<Rightarrow> Some s)"

definition client_stop :: "('c, 'msg) raft_loop \<Rightarrow> ('c, 'msg) raft_loop" where
  "client_stop s = s\<lparr>lp_node := raft_Stop (lp_node s)\<rparr>"

definition client_receive :: "('c, 'msg) raft_loop \<Rightarrow> ('c, 'msg) raft_loop option" where
  "client_receive s =
     (case lp_applyCh s of [] \<Rightarrow> None | m # ch \<Rightarrow> Some (s\<lparr>lp_applyCh := ch, lp_received := lp_received s @ [m]\<rparr>))"

datatype ('c, 'msg) loop_event =
    EReady "('c, 'msg) Ready"
  | EAct
  | EExit
  | EServe
  | EServeExit
  | EPropose bool bytes
  | EStop
  | EReceive

text \<open>What the library and the configuration fix: tests for empty values, configuration changes, buffers.\<close>

record 'c loop_env =
  le_emptyHard :: "HardState \<Rightarrow> bool"
  le_emptySnap :: "'c Snapshot \<Rightarrow> bool"
  le_applyConf :: "Entry \<Rightarrow> 'c option"
  le_applyCap :: nat
  le_proposeCap :: nat

fun loop_exec ::
  "'c loop_env \<Rightarrow> ('c, 'msg) loop_event \<Rightarrow> ('c, 'msg) raft_loop \<Rightarrow> ('c, 'msg) raft_loop outcome option" where
  "loop_exec v (EReady rd) s = map_option Return (run_ready (le_emptyHard v) (le_emptySnap v) (le_applyConf v) rd s)"
| "loop_exec v EAct s = run_act (le_applyCap v) s"
| "loop_exec v EExit s = map_option Return (run_exit s)"
| "loop_exec v EServe s = map_option Return (serve_proposal s)"
| "loop_exec v EServeExit s = map_option Return (serve_exit s)"
| "loop_exec v (EPropose choice command) s = map_option Return (client_propose (le_proposeCap v) choice command s)"
| "loop_exec v EStop s = Some (Return (client_stop s))"
| "loop_exec v EReceive s = map_option Return (client_receive s)"

text \<open>A sequence of events, None when one of them is not possible; a panic ends the program.\<close>

fun loop_events ::
  "'c loop_env \<Rightarrow> ('c, 'msg) loop_event list \<Rightarrow> ('c, 'msg) raft_loop \<Rightarrow> ('c, 'msg) raft_loop option" where
  "loop_events v [] s = Some s"
| "loop_events v (e # es) s = (case loop_exec v e s of Some (Return s') \<Rightarrow> loop_events v es s' | _ \<Rightarrow> None)"

inductive loop_reach :: "'c loop_env \<Rightarrow> 'c \<Rightarrow> ('c, 'msg) raft_loop \<Rightarrow> bool"
  for v c where
  loop_start: "loop_reach v c (start_loop c)"
| loop_next: "loop_reach v c s \<Longrightarrow> loop_exec v e s = Some (Return s') \<Longrightarrow> loop_reach v c s'"

lemma loop_reach_events: "loop_reach v c s \<Longrightarrow> loop_events v es s = Some s' \<Longrightarrow> loop_reach v c s'"
  by (induction es arbitrary: s) (auto split: option.splits outcome.splits intro: loop_next)

lemmas loop_defs = run_ready_def run_exit_def run_act_def serve_proposal_def serve_exit_def client_propose_def
  client_stop_def client_receive_def

section \<open>Refinement\<close>

text \<open>The handling at once of one \<^verbatim>\<open>Ready\<close> after the other; None when one of them panics.\<close>

fun handle_all :: "'c loop_env \<Rightarrow> ('c, 'msg) Ready list \<Rightarrow> 'c RaftNode \<Rightarrow> 'c RaftNode option" where
  "handle_all v [] rn = Some rn"
| "handle_all v (rd # rds) rn =
     (case handleReady (le_emptyHard v) (le_emptySnap v) (le_applyConf v) rd rn of
        Return (rn', _, _) \<Rightarrow> handle_all v rds rn'
      | Panic _ \<Rightarrow> None)"

lemma handle_all_snoc:
  "handle_all v (rds @ [rd]) rn =
     (case handle_all v rds rn of
        None \<Rightarrow> None
      | Some rn' \<Rightarrow> node_acts (ready_acts (le_emptyHard v) (le_emptySnap v) (le_applyConf v) rd) rn')"
  by (induction rds arbitrary: rn)
    (auto simp: ready_acts_handleReady split: option.split outcome.split prod.split)

lemma node_act_stopped:
  "node_act a (rn\<lparr>rn_stopped := b\<rparr>) = map_option (\<lambda>rn. rn\<lparr>rn_stopped := b\<rparr>) (node_act a rn)"
  by (cases a) (auto simp: storage_act_def split: option.split)

lemma node_acts_stopped:
  "node_acts as (rn\<lparr>rn_stopped := b\<rparr>) = map_option (\<lambda>rn. rn\<lparr>rn_stopped := b\<rparr>) (node_acts as rn)"
  by (induction as arbitrary: rn) (auto simp: node_act_stopped split: option.split)


lemma node_acts_stop_flag: "node_acts as rn = Some rn' \<Longrightarrow> rn_stopped rn' = rn_stopped rn"
proof (induction as arbitrary: rn)
  case (Cons a as)
  then obtain r where r: "node_act a rn = Some r" "node_acts as r = Some rn'" by (auto split: option.splits)
  have "rn_stopped r = rn_stopped rn" using r(1) by (cases a) (auto simp: storage_act_def split: option.splits)
  with Cons.IH [OF r(2)] show ?case by simp
qed simp

text \<open>The signal to the library is the last action of a \<^verbatim>\<open>Ready\<close>.\<close>

fun advances :: "('c, 'msg) act list \<Rightarrow> nat" where
  "advances [] = 0"
| "advances (Advance # as) = Suc (advances as)"
| "advances (_ # as) = advances as"

lemma advances_append [simp]: "advances (as @ bs) = advances as + advances bs"
  by (induction as rule: advances.induct) simp_all

lemma advances_committed [simp]: "advances (concat (map (committed_acts ac) es)) = 0"
  by (induction es) (auto simp: committed_acts_def split: option.split)

lemma advances_last: "as \<noteq> [] \<Longrightarrow> last as = Advance \<Longrightarrow> 0 < advances as"
  by (metis advances.simps(2) advances_append append_butlast_last_id zero_less_Suc add_gr_0)

lemma advances_ready: "advances (ready_acts eh emp ac rd) = 1" "last (ready_acts eh emp ac rd) = Advance"
  by (simp_all add: ready_acts_def split: option.split)

text \<open>
  What holds in every state. Finishing what is left gives the node that handled everything taken so
  far at once, up to the stop flag.
\<close>

definition unstopped :: "'c RaftNode \<Rightarrow> 'c RaftNode" where
  "unstopped rn = rn\<lparr>rn_stopped := False\<rparr>"

definition loop_inv :: "'c loop_env \<Rightarrow> 'c \<Rightarrow> ('c, 'msg) raft_loop \<Rightarrow> bool" where
  "loop_inv v c s \<longleftrightarrow>
     lp_received s @ lp_applyCh s @ deliveries (lp_todo s) =
       concat (map (ready_msgs (le_emptySnap v) (le_applyConf v)) (lp_taken s)) \<and>
     lp_sent s @ sends (lp_todo s) = concat (map rd_Messages (lp_taken s)) \<and>
     lp_proposed s @ lp_proposeC s = lp_accepted s \<and>
     length (lp_applyCh s) \<le> le_applyCap v \<and> length (lp_proposeC s) \<le> le_proposeCap v \<and>
     lp_advanced s + advances (lp_todo s) = length (lp_taken s) \<and>
     (lp_library_stopped s \<longleftrightarrow> \<not> lp_run s) \<and> (\<not> lp_run s \<longrightarrow> lp_todo s = []) \<and> (lp_todo s \<noteq> [] \<longrightarrow> last (lp_todo s) = Advance) \<and>
     map_option unstopped (node_acts (lp_todo s) (lp_node s)) = handle_all v (lp_taken s) (NewRaftNode c)"

lemma loop_inv_start: "loop_inv v c (start_loop c)"
  by (simp add: loop_inv_def start_loop_def unstopped_def NewRaftNode_def)

lemma unstopped_acts: "map_option unstopped (node_acts as rn) = node_acts as (unstopped rn)"
  by (simp add: unstopped_def [abs_def] node_acts_stopped)

lemma loop_inv_ready:
  assumes "loop_inv v c s" "run_ready (le_emptyHard v) (le_emptySnap v) (le_applyConf v) rd s = Some s'"
  shows "loop_inv v c s'"
  using assms
  by (auto simp: loop_inv_def run_ready_def ready_acts_outputs advances_ready handle_all_snoc unstopped_acts
      split: if_splits option.splits)

lemma loop_inv_act:
  assumes "loop_inv v c s" "run_act (le_applyCap v) s = Some (Return s')"
  shows "loop_inv v c s'"
proof (cases "lp_todo s")
  case (Cons a as)
  with assms show ?thesis
    by (cases a) (auto simp: loop_inv_def run_act_def block_send_Some split: option.splits)
qed (use assms in \<open>simp add: run_act_def\<close>)

lemma loop_inv_propose:
  assumes "loop_inv v c s" "client_propose (le_proposeCap v) choice command s = Some s'"
  shows "loop_inv v c s'"
  using assms
  by (auto simp: loop_inv_def client_propose_def raft_Propose_def Let_def split: if_splits)

lemma loop_inv_stop: "loop_inv v c s \<Longrightarrow> loop_inv v c (client_stop s)"
  by (simp add: loop_inv_def client_stop_def raft_Stop_def unstopped_acts unstopped_def)

lemma loop_inv_exec: "loop_inv v c s \<Longrightarrow> loop_exec v e s = Some (Return s') \<Longrightarrow> loop_inv v c s'"
proof (cases e)
  case (EReady rd)
  then show "loop_inv v c s \<Longrightarrow> loop_exec v e s = Some (Return s') \<Longrightarrow> ?thesis" using loop_inv_ready by fastforce
next
  case EAct
  then show "loop_inv v c s \<Longrightarrow> loop_exec v e s = Some (Return s') \<Longrightarrow> ?thesis" using loop_inv_act by fastforce
next
  case (EPropose choice command)
  then show "loop_inv v c s \<Longrightarrow> loop_exec v e s = Some (Return s') \<Longrightarrow> ?thesis" using loop_inv_propose by fastforce
next
  case EStop
  then show "loop_inv v c s \<Longrightarrow> loop_exec v e s = Some (Return s') \<Longrightarrow> ?thesis" using loop_inv_stop by fastforce
qed (auto simp: loop_inv_def run_exit_def serve_proposal_def serve_exit_def client_receive_def split: list.splits if_splits)

lemma loop_reach_inv: "loop_reach v c s \<Longrightarrow> loop_inv v c s"
  by (induction rule: loop_reach.induct) (auto intro: loop_inv_start loop_inv_exec)


text \<open>
  What the library guarantees of the \<^verbatim>\<open>Ready\<close> values it produces: each one fits the log of the node that
  has handled those before it.
\<close>

definition library_ok :: "'c loop_env \<Rightarrow> 'c \<Rightarrow> ('c, 'msg) Ready list \<Rightarrow> bool" where
  "library_ok v c rds \<longleftrightarrow> (\<forall>pre rd post rn. rds = pre @ rd # post \<longrightarrow> handle_all v pre (NewRaftNode c) = Some rn \<longrightarrow>
     ready_ok rd (rn_raftStorage rn))"

lemma wf_log_new: "wf_log (rn_raftStorage (NewRaftNode c))"
  by (simp add: wf_log_def NewRaftNode_def NewMemoryStorage_def)

lemma library_ok_butlast: "library_ok v c (rds @ [rd]) \<Longrightarrow> library_ok v c rds"
  unfolding library_ok_def by (metis append.assoc append_Cons)

lemma library_ok_handles:
  "library_ok v c rds \<Longrightarrow> \<exists>rn. handle_all v rds (NewRaftNode c) = Some rn \<and> wf_log (rn_raftStorage rn)"
proof (induction rds rule: rev_induct)
  case Nil
  then show ?case by (simp add: wf_log_new)
next
  case (snoc rd rds)
  obtain rn where rn: "handle_all v rds (NewRaftNode c) = Some rn" "wf_log (rn_raftStorage rn)"
    using snoc.IH [OF library_ok_butlast [OF snoc.prems]] by blast
  then have "ready_ok rd (rn_raftStorage rn)" using snoc.prems unfolding library_ok_def by blast
  from handleReady_log [OF rn(2) this, of "le_emptyHard v" "le_emptySnap v" "le_applyConf v"] rn(1)
  show ?case by (auto simp: handle_all_snoc ready_acts_handleReady split: option.splits)
qed


lemma run_act_no_panic:
  assumes "node_acts (lp_todo s) (lp_node s) \<noteq> None"
  shows "run_act cap s \<noteq> Some (Panic p)"
proof (cases "lp_todo s")
  case (Cons a as)
  with assms show ?thesis by (cases a) (auto simp: run_act_def block_send_def storage_act_def split: option.splits)
qed (simp add: run_act_def)

text \<open>
  (C5) The interleaved node refines the handling at once. In every state that any interleaving of the two
  loops, the clients and the receiver reaches: what was received is a prefix of what the \<^verbatim>\<open>Ready\<close> values taken
  so far deliver, each message once and in order, and the rest is in the channel or still to be sent;
  proposals were handed to the library in the order in which they were accepted, none twice and none
  invented; the channels keep to their sizes. When the loop is between two \<^verbatim>\<open>Ready\<close> values, the node is the
  one that handled them at once, its log is well formed, and the library was told to advance once for
  each. The panic on a gap does not happen.
\<close>

theorem raft_loop_refines:
  assumes "loop_reach v c s" "library_ok v c (lp_taken s)"
  defines "msgs \<equiv> concat (map (ready_msgs (le_emptySnap v) (le_applyConf v)) (lp_taken s))"
  shows "prefix (lp_received s @ lp_applyCh s) msgs \<and> length (lp_applyCh s) \<le> le_applyCap v \<and>
    lp_proposed s @ lp_proposeC s = lp_accepted s \<and> length (lp_proposeC s) \<le> le_proposeCap v \<and>
    (\<forall>p. loop_exec v EAct s \<noteq> Some (Panic p)) \<and>
    (lp_todo s = [] \<longrightarrow>
       lp_received s @ lp_applyCh s = msgs \<and> lp_sent s = concat (map rd_Messages (lp_taken s)) \<and>
       lp_advanced s = length (lp_taken s) \<and> wf_log (rn_raftStorage (lp_node s)) \<and>
       handle_all v (lp_taken s) (NewRaftNode c) = Some (unstopped (lp_node s)))"
proof -
  have inv: "loop_inv v c s" by (rule loop_reach_inv [OF assms(1)])
  obtain rn where rn: "handle_all v (lp_taken s) (NewRaftNode c) = Some rn" "wf_log (rn_raftStorage rn)"
    using library_ok_handles [OF assms(2)] by blast
  then have "node_acts (lp_todo s) (lp_node s) \<noteq> None" using inv by (auto simp: loop_inv_def)
  then have "loop_exec v EAct s \<noteq> Some (Panic p)" for p using run_act_no_panic by simp
  moreover have "prefix (lp_received s @ lp_applyCh s) msgs"
    using inv unfolding loop_inv_def msgs_def by (metis append.assoc prefixI)
  ultimately show ?thesis
    using inv rn by (auto simp: loop_inv_def msgs_def unstopped_def)
qed

section \<open>Progress\<close>

lemma act_possible:
  assumes "lp_todo s \<noteq> []" "run_act cap s = None"
  shows "cap \<le> length (lp_applyCh s) \<and> (\<exists>m as. lp_todo s = Deliver m # as)"
proof -
  from assms(1) obtain a as where "lp_todo s = a # as" by (cases "lp_todo s") auto
  with assms(2) show ?thesis by (cases a) (auto simp: run_act_def block_send_def split: option.splits if_splits)
qed

lemma run_act_todo:
  assumes "run_act cap s = Some (Return s')"
  shows "lp_todo s' = tl (lp_todo s)" "lp_taken s' = lp_taken s" "rn_stopped (lp_node s') = rn_stopped (lp_node s)"
    "lp_run s' = lp_run s"
proof -
  from assms obtain a as where "lp_todo s = a # as" by (cases "lp_todo s") (auto simp: run_act_def)
  with assms have "lp_todo s' = tl (lp_todo s) \<and> lp_taken s' = lp_taken s \<and>
      rn_stopped (lp_node s') = rn_stopped (lp_node s) \<and> lp_run s' = lp_run s"
    by (cases a) (auto simp: run_act_def storage_act_def split: option.splits)
  then show "lp_todo s' = tl (lp_todo s)" "lp_taken s' = lp_taken s" "rn_stopped (lp_node s') = rn_stopped (lp_node s)"
    "lp_run s' = lp_run s" by auto
qed

text \<open>One action, after a receive if the channel is full.\<close>

lemma act_or_receive:
  assumes "loop_reach v c s" "library_ok v c (lp_taken s)" "0 < le_applyCap v" "lp_todo s \<noteq> []"
  shows "\<exists>es s'. set es \<subseteq> {EAct, EReceive} \<and> length es \<le> 2 \<and> loop_events v es s = Some s' \<and>
    lp_todo s' = tl (lp_todo s) \<and> lp_taken s' = lp_taken s \<and> rn_stopped (lp_node s') = rn_stopped (lp_node s) \<and> lp_run s' = lp_run s"
proof -
  have no_panic: "run_act (le_applyCap v) s \<noteq> Some (Panic p)"
    if "loop_reach v c s" "library_ok v c (lp_taken s)" for s p
  proof -
    have "node_acts (lp_todo s) (lp_node s) \<noteq> None"
      using loop_reach_inv [OF that(1)] library_ok_handles [OF that(2)] by (auto simp: loop_inv_def)
    then show ?thesis by (rule run_act_no_panic)
  qed
  show ?thesis
  proof (cases "run_act (le_applyCap v) s")
    case None
    from act_possible [OF assms(4) None] assms(3) obtain m ch d as
      where full: "lp_applyCh s = m # ch" "lp_todo s = Deliver d # as" by (cases "lp_applyCh s") auto
    define s1 where "s1 = s\<lparr>lp_applyCh := ch, lp_received := lp_received s @ [m]\<rparr>"
    have r: "loop_exec v EReceive s = Some (Return s1)" by (simp add: client_receive_def full s1_def)
    have "length (lp_applyCh s) \<le> le_applyCap v" using loop_reach_inv [OF assms(1)] by (simp add: loop_inv_def)
    then obtain s2 where s2: "run_act (le_applyCap v) s1 = Some (Return s2)"
      by (simp add: run_act_def s1_def full block_send_def)
    then have "loop_events v [EReceive, EAct] s = Some s2" using r by simp
    with run_act_todo [OF s2] show ?thesis
      by (intro exI [of _ "[EReceive, EAct]"] exI [of _ s2]) (simp add: s1_def)
  next
    case (Some o1)
    with no_panic [OF assms(1,2)] obtain s1 where "run_act (le_applyCap v) s = Some (Return s1)" by (cases o1) auto
    with run_act_todo [OF this] show ?thesis by (intro exI [of _ "[EAct]"] exI [of _ s1]) simp
  qed
qed

lemma loop_events_append:
  "loop_events v (as @ bs) s = (case loop_events v as s of None \<Rightarrow> None | Some s' \<Rightarrow> loop_events v bs s')"
  by (induction as arbitrary: s) (auto split: option.splits outcome.splits)

lemma finishes:
  assumes "loop_reach v c s" "library_ok v c (lp_taken s)" "0 < le_applyCap v"
  shows "\<exists>es s'. set es \<subseteq> {EAct, EReceive} \<and> length es \<le> 2 * length (lp_todo s) \<and> loop_events v es s = Some s' \<and>
    lp_todo s' = [] \<and> lp_taken s' = lp_taken s \<and> rn_stopped (lp_node s') = rn_stopped (lp_node s) \<and> lp_run s' = lp_run s"
  using assms(1,2)
proof (induction "length (lp_todo s)" arbitrary: s)
  case 0
  then show ?case by (intro exI [of _ "[]"] exI [of _ s]) simp
next
  case (Suc n)
  then obtain es s1 where s1: "set es \<subseteq> {EAct, EReceive}" "length es \<le> 2" "loop_events v es s = Some s1"
    "lp_todo s1 = tl (lp_todo s)" "lp_taken s1 = lp_taken s" "rn_stopped (lp_node s1) = rn_stopped (lp_node s)" "lp_run s1 = lp_run s"
    using act_or_receive [OF Suc.prems assms(3)] by force
  have "loop_reach v c s1" "n = length (lp_todo s1)" "library_ok v c (lp_taken s1)"
    using loop_reach_events [OF Suc.prems(1) s1(3)] s1 Suc.hyps(2) Suc.prems(2) by auto
  with Suc.hyps(1) obtain fs s2 where "set fs \<subseteq> {EAct, EReceive}" "length fs \<le> 2 * n" "loop_events v fs s1 = Some s2"
    "lp_todo s2 = []" "lp_taken s2 = lp_taken s1" "rn_stopped (lp_node s2) = rn_stopped (lp_node s1)" "lp_run s2 = lp_run s1"
    by blast
  with s1 Suc.hyps(2) show ?case
    by (intro exI [of _ "es @ fs"] exI [of _ s2]) (auto simp: loop_events_append)
qed



lemma exec_no_receive:
  assumes "loop_exec v e s = Some (Return s')" "e \<noteq> EReceive"
  shows "lp_received s' = lp_received s \<and> prefix (lp_taken s) (lp_taken s')"
proof (cases e)
  case EAct
  with assms have "run_act (le_applyCap v) s = Some (Return s')" by simp
  moreover from this obtain a as where "lp_todo s = a # as" by (cases "lp_todo s") (auto simp: run_act_def)
  ultimately show ?thesis by (cases a) (auto simp: run_act_def split: option.splits)
qed (use assms in \<open>auto simp: loop_defs split: if_splits list.splits option.splits bool.splits\<close>)

lemma events_no_receive:
  "loop_events v es s = Some s' \<Longrightarrow> EReceive \<notin> set es \<Longrightarrow> lp_received s' = lp_received s \<and> prefix (lp_taken s) (lp_taken s')"
proof (induction es arbitrary: s)
  case (Cons e es)
  then obtain s1 where s1: "loop_exec v e s = Some (Return s1)" "loop_events v es s1 = Some s'"
    by (auto split: option.splits outcome.splits)
  from Cons.IH [OF s1(2)] exec_no_receive [OF s1(1)] Cons.prems(2) show ?case by (auto dest: prefix_order.trans)
qed simp

text \<open>More messages than were received and than the channel holds: the loop waits in a send.\<close>

lemma full_channel_waits:
  assumes "loop_reach v c s"
    and "length (lp_received s) + le_applyCap v < length (concat (map (ready_msgs (le_emptySnap v) (le_applyConf v)) (lp_taken s)))"
  shows "lp_run s \<and> \<not> lp_library_stopped s \<and> lp_todo s \<noteq> [] \<and> lp_advanced s < length (lp_taken s)"
proof -
  have inv: "loop_inv v c s" by (rule loop_reach_inv [OF assms(1)])
  have "length (concat (map (ready_msgs (le_emptySnap v) (le_applyConf v)) (lp_taken s))) =
      length (lp_received s) + length (lp_applyCh s) + length (deliveries (lp_todo s))"
    using inv unfolding loop_inv_def by (metis add.assoc length_append)
  moreover have "length (lp_applyCh s) \<le> le_applyCap v" using inv by (simp add: loop_inv_def)
  ultimately have "deliveries (lp_todo s) \<noteq> []" using assms(2) by auto
  then have "lp_todo s \<noteq> []" by auto
  with inv advances_last [of "lp_todo s"] show ?thesis by (auto simp: loop_inv_def)
qed

text \<open>
  (C6) A node whose receiver is gone cannot be stopped. Once the \<^verbatim>\<open>Ready\<close> values taken deliver more messages than
  were received and than the apply channel holds, then whatever happens from then on without another
  receive, \<open>Stop\<close> included, the loop goes on waiting in its send: it does not end, the library is
  not stopped, and the \<^verbatim>\<open>Ready\<close> is never completed. The receiver of an election manager is gone
  after its context is cancelled, and there is none before it is started.
\<close>

theorem undrained_node_never_stops:
  assumes "loop_reach v c s" "EReceive \<notin> set es" "loop_events v es s = Some s'"
    and "length (lp_received s) + le_applyCap v < length (concat (map (ready_msgs (le_emptySnap v) (le_applyConf v)) (lp_taken s)))"
  shows "lp_run s' \<and> \<not> lp_library_stopped s' \<and> lp_todo s' \<noteq> [] \<and> lp_advanced s' < length (lp_taken s')"
proof (rule full_channel_waits [OF loop_reach_events [OF assms(1,3)]])
  show "length (lp_received s') + le_applyCap v < length (concat (map (ready_msgs (le_emptySnap v) (le_applyConf v)) (lp_taken s')))"
    using events_no_receive [OF assms(3,2)] assms(4) by (auto simp: prefix_def)
qed

section \<open>A run\<close>

text \<open>Two commands in one \<^verbatim>\<open>Ready\<close>, an apply channel for one message, and a stop while the second waits.\<close>

definition loop_demo :: "unit loop_env" where
  "loop_demo = \<lparr>le_emptyHard = hs_zero, le_emptySnap = sn_zero, le_applyConf = (\<lambda>_. None), le_applyCap = 1, le_proposeCap = 1\<rparr>"

definition two_commands :: "(unit, unit) Ready" where
  "two_commands = (demo_ready [demo_entry 1 1 ''a'', demo_entry 1 2 ''b''])
     \<lparr>rd_CommittedEntries := [demo_entry 1 1 ''a'', demo_entry 1 2 ''b'']\<rparr>"

definition waiting :: "(unit, unit) raft_loop" where
  "waiting = (start_loop ())
     \<lparr>lp_node := (NewRaftNode ())\<lparr>rn_raftStorage := (NewMemoryStorage ())\<lparr>st_entries := rd_Entries two_commands\<rparr>, rn_stopped := True\<rparr>,
      lp_todo := [Deliver (command_msg (demo_entry 1 2 ''b'')), Advance], lp_applyCh := [command_msg (demo_entry 1 1 ''a'')],
      lp_taken := [two_commands]\<rparr>"

lemmas waiting_defs = waiting_def two_commands_def demo_ready_def demo_entry_def loop_demo_def start_loop_def NewRaftNode_def
  NewMemoryStorage_def

lemma waiting_run: "loop_events loop_demo [EReady two_commands, EAct, EAct, EStop] (start_loop ()) = Some waiting"
  by (simp add: loop_defs waiting_defs ready_acts_def committed_acts_def hs_zero_def sn_zero_def append_entries_def storage_act_def
      block_send_def raft_Stop_def)

lemma waiting_reach: "loop_reach loop_demo () waiting"
  by (rule loop_reach_events [OF loop_start waiting_run])

lemma waiting_library: "library_ok loop_demo () (lp_taken waiting)"
proof -
  have "ready_ok two_commands (rn_raftStorage (NewRaftNode ()))"
    by (simp add: ready_ok_def waiting_defs contiguous_Cons2 small_def)
  then show ?thesis by (auto simp: library_ok_def waiting_def Cons_eq_append_conv)
qed

lemma waiting_msgs:
  "concat (map (ready_msgs (le_emptySnap loop_demo) (le_applyConf loop_demo)) (lp_taken waiting)) =
     [command_msg (demo_entry 1 1 ''a''), command_msg (demo_entry 1 2 ''b'')]"
  by (simp add: waiting_defs ready_msgs_def delivered_def sn_zero_def)

theorem raft_loop_refines_witness:
  "prefix (lp_received waiting @ lp_applyCh waiting) [command_msg (demo_entry 1 1 ''a''), command_msg (demo_entry 1 2 ''b'')] \<and>
   lp_applyCh waiting \<noteq> []"
  using raft_loop_refines [OF waiting_reach waiting_library] unfolding waiting_msgs by (simp add: waiting_def)


theorem undrained_node_never_stops_witness:
  "\<exists>s'. loop_events loop_demo [EStop, EStop] waiting = Some s' \<and> lp_run s' \<and> rn_stopped (lp_node s') \<and> \<not> lp_library_stopped s'"
proof -
  obtain s' where s': "loop_events loop_demo [EStop, EStop] waiting = Some s'" "rn_stopped (lp_node s')"
    by (simp add: client_stop_def raft_Stop_def)
  have "length (lp_received waiting) + le_applyCap loop_demo <
      length (concat (map (ready_msgs (le_emptySnap loop_demo) (le_applyConf loop_demo)) (lp_taken waiting)))"
    unfolding waiting_msgs by (simp add: waiting_defs)
  with undrained_node_never_stops [OF waiting_reach _ s'(1)] s' show ?thesis by auto
qed

section \<open>The example\<close>

text \<open>
  \<^verbatim>\<open>ExampleUsage\<close> of \<^verbatim>\<open>transport.go\<close>: a node of a group of three, a goroutine that prints what is applied, two
  proposals if the node is leader, and ten seconds later the stop. \<open>before\<close> is what happens until the
  question for the leader, \<open>after\<close> until the stop.
\<close>

definition example_config :: raft_Config where
  "example_config = DefaultConfig\<lparr>rc_NodeID := 1, rc_Peers := [1, 2, 3]\<rparr>"

definition applied_line :: "ApplyMsg \<Rightarrow> string" where
  "applied_line msg =
     (if am_CommandValid msg then ''Applied command: '' @ am_Command msg @ '' at index '' @ dec (unat (am_CommandIndex msg)) @ [CHR 0x0A]
      else if am_SnapshotValid msg then ''Applied snapshot at index '' @ dec (unat (am_SnapshotIndex msg)) @ [CHR 0x0A]
      else [])"

definition example_proposals :: "('c, 'msg) raft_loop \<Rightarrow> ('c, 'msg) loop_event list" where
  "example_proposals s = (if IsLeader (lp_node s) then [EPropose True ''hello world'', EPropose True ''consensus example''] else [])"

definition ExampleUsage ::
  "'c loop_env \<Rightarrow> 'c \<Rightarrow> ('c, 'msg) loop_event list \<Rightarrow> ('c, 'msg) loop_event list \<Rightarrow>
   (go_error option \<times> SimpleTransport \<times> ('c, 'msg) raft_loop) option" where
  "ExampleUsage v c before after =
     (case simple_Start (NewSimpleTransport (rc_NodeID example_config)) of
        (t, Some err) \<Rightarrow> Some (Some err, t, start_loop c)
      | (t, None) \<Rightarrow>
          (case loop_events v before (start_loop c) of
             None \<Rightarrow> None
           | Some s \<Rightarrow>
               (case loop_events v (example_proposals s @ after @ [EStop]) s of
                  None \<Rightarrow> None
                | Some s \<Rightarrow> Some (None, simple_Stop t, s))))"

text \<open>A leader comes with a \<^verbatim>\<open>Ready\<close>: before the first one, the example proposes nothing.\<close>

lemma example_proposes_nothing:
  assumes "loop_events v before (start_loop c) = Some s" "lp_taken s = []"
  shows "example_proposals s = []"
proof -
  have "loop_inv v c s" by (rule loop_reach_inv [OF loop_reach_events [OF loop_start assms(1)]])
  moreover from this have "lp_todo s = []" using assms(2) advances_last [of "lp_todo s"] by (auto simp: loop_inv_def)
  ultimately have "unstopped (lp_node s) = NewRaftNode c" using assms(2) by (simp add: loop_inv_def)
  then have "rn_isLeader (unstopped (lp_node s)) = rn_isLeader (NewRaftNode c)" by (rule arg_cong)
  then show ?thesis by (simp add: example_proposals_def IsLeader_def unstopped_def NewRaftNode_def)
qed


text \<open>The two methods that hand something on: a message to the library, and the channel to its receiver.\<close>

definition raft_Step :: "('msg \<Rightarrow> 'lib \<Rightarrow> 'lib \<times> go_error option) \<Rightarrow> 'msg \<Rightarrow> 'lib \<Rightarrow> 'lib \<times> go_error option" where
  "raft_Step library_step msg library = library_step msg library"

definition ApplyCh :: "('c, 'msg) raft_loop \<Rightarrow> ApplyMsg list" where
  "ApplyCh s = lp_applyCh s"

end
