(* ===== verification/LogCalls.thy ===== *)
theory LogCalls
  imports Logging
begin

text \<open>
  Calls on loggers: the methods for each level (\<^verbatim>\<open>common/logging/zap_logger.go\<close>), the functions of the
  package on its standard logger and \<^verbatim>\<open>SyncAll\<close> (\<^verbatim>\<open>logger.go\<close>), the redirection of the standard
  library's log (\<^verbatim>\<open>init.go\<close>), and the two formatters as values (\<^verbatim>\<open>formatter.go\<close>).

  A call is what is handed to the library; whether the library writes it is a parameter with the law it
  documents: an entry is written if its level is at or above the level of the logger. That the library ends the
  program after a fatal entry is left out. A pipe is the
  list of what is written to it.

  The lemmas show which calls are written, by the level of the logger's configuration, and that the
  redirection passes on everything that is written, in order and in pieces of at most 4096 bytes.
\<close>

section \<open>The order of levels\<close>

primrec zap_rank :: "zap_level \<Rightarrow> nat" where
  "zap_rank ZapDebug = 0"
| "zap_rank ZapInfo = 1"
| "zap_rank ZapWarn = 2"
| "zap_rank ZapError = 3"
| "zap_rank ZapFatal = 4"

lemma zap_rank_inject: "zap_rank a = zap_rank b \<Longrightarrow> a = b"
  by (cases a; cases b) simp_all

instantiation zap_level :: linorder
begin

definition less_eq_zap_level :: "zap_level \<Rightarrow> zap_level \<Rightarrow> bool" where
  "less_eq_zap_level a b \<longleftrightarrow> zap_rank a \<le> zap_rank b"

definition less_zap_level :: "zap_level \<Rightarrow> zap_level \<Rightarrow> bool" where
  "less_zap_level a b \<longleftrightarrow> zap_rank a < zap_rank b"

instance
  by standard (auto simp: less_eq_zap_level_def less_zap_level_def intro: zap_rank_inject)

end

lemma zapLevel_mono:
  assumes "LevelDebug \<le> a" "a \<le> LevelFatal" "LevelDebug \<le> b" "b \<le> LevelFatal"
  shows "zapLevel a \<le> zapLevel b \<longleftrightarrow> a \<le> b"
proof -
  have rank: "zap_rank (zapLevel c) = nat c" if "LevelDebug \<le> c" "c \<le> LevelFatal" for c
  proof -
    have "c \<in> {0, 1, 2, 3, 4}" using that by auto
    then show ?thesis by (auto simp: zapLevel_def)
  qed
  show ?thesis using rank assms by (simp add: less_eq_zap_level_def nat_le_iff)
qed

section \<open>Methods for each level\<close>

text \<open>The sugared logger formats the message and has the level in the name of the method.\<close>

definition ZapLogger_Debug :: "string \<Rightarrow> ZapLogger \<Rightarrow> zap_call" where
  "ZapLogger_Debug msg l = (zl_logger l, ZapDebug, msg, fmempty)"

definition ZapLogger_Info :: "string \<Rightarrow> ZapLogger \<Rightarrow> zap_call" where
  "ZapLogger_Info msg l = (zl_logger l, ZapInfo, msg, fmempty)"

definition ZapLogger_Warn :: "string \<Rightarrow> ZapLogger \<Rightarrow> zap_call" where
  "ZapLogger_Warn msg l = (zl_logger l, ZapWarn, msg, fmempty)"

definition ZapLogger_Error :: "string \<Rightarrow> ZapLogger \<Rightarrow> zap_call" where
  "ZapLogger_Error msg l = (zl_logger l, ZapError, msg, fmempty)"

definition ZapLogger_Fatal :: "string \<Rightarrow> ZapLogger \<Rightarrow> zap_call" where
  "ZapLogger_Fatal msg l = (zl_logger l, ZapFatal, msg, fmempty)"

definition DebugWithFields :: "string \<Rightarrow> fieldmap \<Rightarrow> ZapLogger \<Rightarrow> zap_call" where
  "DebugWithFields msg fs l = ZapLogger_LogWithFields LevelDebug msg fs l"

definition InfoWithFields :: "string \<Rightarrow> fieldmap \<Rightarrow> ZapLogger \<Rightarrow> zap_call" where
  "InfoWithFields msg fs l = ZapLogger_LogWithFields LevelInfo msg fs l"

definition WarnWithFields :: "string \<Rightarrow> fieldmap \<Rightarrow> ZapLogger \<Rightarrow> zap_call" where
  "WarnWithFields msg fs l = ZapLogger_LogWithFields LevelWarn msg fs l"

definition ErrorWithFields :: "string \<Rightarrow> fieldmap \<Rightarrow> ZapLogger \<Rightarrow> zap_call" where
  "ErrorWithFields msg fs l = ZapLogger_LogWithFields LevelError msg fs l"

definition FatalWithFields :: "string \<Rightarrow> fieldmap \<Rightarrow> ZapLogger \<Rightarrow> zap_call" where
  "FatalWithFields msg fs l = ZapLogger_LogWithFields LevelFatal msg fs l"

lemmas level_methods = ZapLogger_Debug_def ZapLogger_Info_def ZapLogger_Warn_def ZapLogger_Error_def ZapLogger_Fatal_def
  DebugWithFields_def InfoWithFields_def WarnWithFields_def ErrorWithFields_def FatalWithFields_def
  ZapLogger_LogWithFields_def ZapLogger_Log_def

section \<open>The functions of the package\<close>

text \<open>Each calls the method of the same name on the standard logger; None cannot happen.\<close>

definition on_std :: "(ZapLogger \<Rightarrow> zap_call) \<Rightarrow> log_globals \<Rightarrow> zap_call option" where
  "on_std f g = map_option f (lh_loggers (lg_heap g) (lg_std g))"

definition log_Debug :: "string \<Rightarrow> log_globals \<Rightarrow> zap_call option" where
  "log_Debug msg = on_std (ZapLogger_Debug msg)"

definition log_Info :: "string \<Rightarrow> log_globals \<Rightarrow> zap_call option" where
  "log_Info msg = on_std (ZapLogger_Info msg)"

definition log_Warn :: "string \<Rightarrow> log_globals \<Rightarrow> zap_call option" where
  "log_Warn msg = on_std (ZapLogger_Warn msg)"

definition log_Error :: "string \<Rightarrow> log_globals \<Rightarrow> zap_call option" where
  "log_Error msg = on_std (ZapLogger_Error msg)"

definition log_Fatal :: "string \<Rightarrow> log_globals \<Rightarrow> zap_call option" where
  "log_Fatal msg = on_std (ZapLogger_Fatal msg)"

definition log_Log :: "LogLevel \<Rightarrow> string \<Rightarrow> log_globals \<Rightarrow> zap_call option" where
  "log_Log level msg = on_std (ZapLogger_Log level msg)"

definition log_LogWithFields :: "LogLevel \<Rightarrow> string \<Rightarrow> fieldmap \<Rightarrow> log_globals \<Rightarrow> zap_call option" where
  "log_LogWithFields level msg fs = on_std (ZapLogger_LogWithFields level msg fs)"

lemmas package_functions = log_Debug_def log_Info_def log_Warn_def log_Error_def log_Fatal_def log_Log_def
  log_LogWithFields_def on_std_def

text \<open>
  \<open>sync\<close> is what the library answers for a logger; \<open>order\<close> is the order of the loop over the cache. The
  result lists the calls; their errors are dropped.
\<close>

definition ZapLogger_Sync :: "(zap_logger \<Rightarrow> go_error option) \<Rightarrow> ZapLogger \<Rightarrow> go_error option" where
  "ZapLogger_Sync sync l = sync (zl_logger l)"

definition SyncAll :: "string list \<Rightarrow> log_globals \<Rightarrow> nat list" where
  "SyncAll order g = lg_std g # List.map_filter (lg_loggers g) order"

section \<open>What is written\<close>

text \<open>The law of the library, for the levels in their cells.\<close>

definition zap_writes :: "((nat \<rightharpoonup> zap_level) \<Rightarrow> zap_call \<Rightarrow> bool) \<Rightarrow> bool" where
  "zap_writes writes \<longleftrightarrow> (\<forall>levels z v msg fs threshold. levels (level_ref z) = Some threshold \<longrightarrow>
     (writes levels (z, v, msg, fs) \<longleftrightarrow> threshold \<le> v))"

lemma written_by_level:
  assumes "zap_writes writes" "wf_heap h" "lh_loggers h a = Some l" "LevelDebug \<le> level_of h a" "level_of h a \<le> LevelFatal"
    "LevelDebug \<le> v" "v \<le> LevelFatal"
  shows "writes (lh_levels h) (zl_logger l, zapLevel v, msg, fs) \<longleftrightarrow> level_of h a \<le> v"
  using assms(1) library_reads_level [OF assms(2,3)] zapLevel_mono [OF assms(4-7)] unfolding zap_writes_def by blast

section \<open>The standard library's log\<close>

text \<open>
  A read from the pipe returns at most \<open>4096\<close> bytes of one write, and zero bytes for an empty one;
  after the last write it returns an error, \<open>EOF\<close> when the pipe was closed without one.
\<close>

fun pieces :: "nat \<Rightarrow> string \<Rightarrow> string list" where
  "pieces n w = (if n = 0 \<or> length w \<le> n then [w] else take n w # pieces n (drop n w))"

declare pieces.simps [simp del]

definition pipe_reads :: "string list \<Rightarrow> string list" where
  "pipe_reads ws = concat (map (pieces 4096) ws)"

text \<open>The goroutine: what it logs for these reads, and for the error at the end, None for \<open>EOF\<close>.\<close>

fun redirect_loop :: "string list \<Rightarrow> go_error option \<Rightarrow> ZapLogger \<Rightarrow> zap_call list" where
  "redirect_loop [] None l = []"
| "redirect_loop [] (Some err) l = [ZapLogger_Error (''reading the standard log failed: '' @ Error err) l]"
| "redirect_loop (buf # rs) err l = (if length buf > 0 then [ZapLogger_Info buf l] else []) @ redirect_loop rs err l"

definition RedirectStdLog :: "string list \<Rightarrow> go_error option \<Rightarrow> ZapLogger \<Rightarrow> zap_call list" where
  "RedirectStdLog ws err l = redirect_loop (pipe_reads ws) err l"

lemma concat_pieces: "concat (pieces n w) = w"
proof (induction n w rule: pieces.induct)
  case (1 n w)
  then show ?case by (subst pieces.simps) simp
qed

lemma pieces_length: "0 < n \<Longrightarrow> x \<in> set (pieces n w) \<Longrightarrow> length x \<le> n"
proof (induction n w rule: pieces.induct)
  case (1 n w)
  from 1(3) show ?case using 1(1,2) by (subst (asm) pieces.simps) (auto split: if_splits)
qed

lemma concat_nonempty: "concat (filter (\<lambda>b. b \<noteq> []) xs) = concat xs"
  by (induction xs) auto

lemma redirect_loop_eq:
  "redirect_loop rs err l = map (\<lambda>b. ZapLogger_Info b l) (filter (\<lambda>b. b \<noteq> []) rs) @ redirect_loop [] err l"
  by (induction rs) auto


text \<open>A library that keeps the law.\<close>

definition demo_writes :: "(nat \<rightharpoonup> zap_level) \<Rightarrow> zap_call \<Rightarrow> bool" where
  "demo_writes levels c = (case levels (level_ref (fst c)) of None \<Rightarrow> False | Some threshold \<Rightarrow> threshold \<le> fst (snd c))"


text \<open>Every logger of the cache is synced once, whatever order the loop takes, and the standard one first.\<close>

lemma SyncAll_complete:
  assumes "enumerates ks (lg_loggers g)"
  shows "set (SyncAll ks g) = Set.insert (lg_std g) (ran (lg_loggers g))" "length (SyncAll ks g) = Suc (length ks)"
proof -
  have some: "lg_loggers g k \<noteq> None \<longleftrightarrow> k \<in> set ks" for k using assms by (auto simp: enumerates_def)
  have "set (List.map_filter (lg_loggers g) ks) = ran (lg_loggers g)"
    using some by (force simp: List.map_filter_def ran_def)
  then show "set (SyncAll ks g) = Set.insert (lg_std g) (ran (lg_loggers g))" by (simp add: SyncAll_def)
  have "filter (\<lambda>k. lg_loggers g k \<noteq> None) ks = ks" using some by (simp add: filter_id_conv)
  then show "length (SyncAll ks g) = Suc (length ks)" by (simp add: SyncAll_def List.map_filter_def comp_def)
qed

section \<open>Formatters as values\<close>

text \<open>
  A formatter is one of two structs. Formatting a time by a layout and the two ways of encoding JSON,
  indented or not, are those of the standard library; \<open>ks\<close> is the order of a loop over the fields.
\<close>

record TextFormatter =
  tf_TimeFormat :: string
  tf_Colors :: bool

record JSONFormatter =
  jf_TimeFormat :: string
  jf_Pretty :: bool

datatype Formatter = TextF TextFormatter | JsonF JSONFormatter

definition NewTextFormatter :: Formatter where
  "NewTextFormatter = TextF \<lparr>tf_TimeFormat = ''2006-01-02 15:04:05.000'', tf_Colors = True\<rparr>"

definition NewJSONFormatter :: Formatter where
  "NewJSONFormatter = JsonF \<lparr>jf_TimeFormat = ''2006-01-02T15:04:05.999999999Z07:00'', jf_Pretty = False\<rparr>"

primrec Formatter_Format ::
  "(string \<Rightarrow> int \<Rightarrow> string) \<Rightarrow> (fieldmap \<Rightarrow> go_error + string) \<Rightarrow> (fieldmap \<Rightarrow> go_error + string) \<Rightarrow> string list \<Rightarrow>
   Formatter \<Rightarrow> LogEntry \<Rightarrow> string" where
  "Formatter_Format time_format marshal marshalIndent ks (TextF f) e =
     TextFormatter_Format (time_format (tf_TimeFormat f)) (tf_Colors f) ks e"
| "Formatter_Format time_format marshal marshalIndent ks (JsonF f) e =
     JSONFormatter_Format (if jf_Pretty f then marshalIndent else marshal) (time_format (jf_TimeFormat f)) e"

lemma holds_here: "\<exists>pre post. m @ ys = pre @ m @ post"
  by (metis append_Nil)

lemma holds_later:
  "\<exists>pre post. ys = pre @ m @ post \<Longrightarrow> \<exists>pre post. xs @ ys = pre @ m @ post"
  "\<exists>pre post. ys = pre @ m @ post \<Longrightarrow> \<exists>pre post. x # ys = pre @ m @ post"
  by (metis append.assoc) (metis append_Cons)

text \<open>
  The message of an entry is never lost: the text holds it in one piece, and so does the line that
  replaces a failed encoding; what is handed to the encoder has it under its own key, with the name of
  the level, whatever the fields are called.
\<close>

lemma message_kept:
  "(\<exists>pre post. Formatter_Format tm mj mi ks (TextF f) e = pre @ le_Message e @ post)"
  "marshal (json_data tm' e) = Inl err \<Longrightarrow> \<exists>pre post. JSONFormatter_Format marshal tm' e = pre @ le_Message e @ post"
  "fmlookup (json_data tm' e) ''message'' = Some (le_Message e)"
  "fmlookup (json_data tm' e) ''level'' = Some (LevelToString (le_Level e))"
proof -
  show "\<exists>pre post. Formatter_Format tm mj mi ks (TextF f) e = pre @ le_Message e @ post"
    unfolding Formatter_Format.simps TextFormatter_Format_def by (intro holds_here holds_later)
  show "\<exists>pre post. JSONFormatter_Format marshal tm' e = pre @ le_Message e @ post" if "marshal (json_data tm' e) = Inl err"
    unfolding JSONFormatter_Format_def that sum.case append.assoc append_Cons by (intro holds_here holds_later)
qed (simp_all add: json_data_def Let_def)

end
