(* ===== verification/ServerNodes.thy ===== *)
theory ServerNodes
  imports RaftLoop MetaServer
begin

text \<open>
  The options of the metadata server (\<^verbatim>\<open>server/server.go\<close>), and the raft nodes of a server: making one
  makes two cluster managers, the first inside the core (\<^verbatim>\<open>core/core.go\<close>), the second for the server itself,
  and each of them starts a raft node when it is made.

  A server runs here with the loops of both nodes, as \<open>RaftLoop\<close> has them. \<^verbatim>\<open>Start\<close> and \<^verbatim>\<open>Stop\<close> of the
  server reach the second manager only; the goroutine that receives from the apply channel of a node is started
  by the \<^verbatim>\<open>Start\<close> of its manager.

  The lemmas show what the options do, that stopping the server stops its own node, and that the node of
  the core is never stopped and never served.
\<close>

section \<open>Options\<close>

text \<open>What the options may set: the store and the cluster manager, nil at first.\<close>

record 'c server_fields =
  sf_metaStore :: "MemoryStore option"
  sf_cluster :: "'c option"

definition WithMetaStore :: "MemoryStore option \<Rightarrow> 'c server_fields \<Rightarrow> 'c server_fields" where
  "WithMetaStore store s = s\<lparr>sf_metaStore := store\<rparr>"

definition WithClusterManager :: "'c option \<Rightarrow> 'c server_fields \<Rightarrow> 'c server_fields" where
  "WithClusterManager manager s = s\<lparr>sf_cluster := manager\<rparr>"

definition apply_server_options :: "('c server_fields \<Rightarrow> 'c server_fields) list \<Rightarrow> 'c server_fields" where
  "apply_server_options options = foldl (\<lambda>s option. option s) \<lparr>sf_metaStore = None, sf_cluster = None\<rparr> options"

definition NewServer_with ::
  "(ClusterConfig \<Rightarrow> go_error option outcome) \<Rightarrow> (ClusterConfig \<Rightarrow> (go_error + 'c) outcome) \<Rightarrow>
   ('c server_fields \<Rightarrow> 'c server_fields) list \<Rightarrow>
   (NodeID \<times> string \<times> int \<times> string list \<times> duration \<times> duration) option \<Rightarrow> (go_error + 'c MetadataServer) outcome" where
  "NewServer_with core newCluster options cfg =
     (let s = apply_server_options options in server_NewServer core newCluster (sf_metaStore s) (sf_cluster s) cfg)"

text \<open>The last option of a kind decides; an option with nil brings the default back.\<close>

lemma last_option_decides:
  "sf_metaStore (apply_server_options (os @ [WithMetaStore st])) = st"
  "sf_metaStore (apply_server_options (os @ [WithMetaStore st, WithClusterManager c])) = st"
  "sf_cluster (apply_server_options (os @ [WithClusterManager c])) = c"
  "sf_cluster (apply_server_options (os @ [WithClusterManager c, WithMetaStore st])) = c"
  by (simp_all add: apply_server_options_def WithMetaStore_def WithClusterManager_def)

text \<open>A server with a given cluster manager still makes the one of the core, and fails when that fails.\<close>

lemma given_cluster_needs_core:
  assumes "NewServer_with core newCluster (os @ [WithClusterManager (Some c)]) (Some (node, host, port, peers, election, heartbeat)) =
    Return (Inr s)"
  shows "core (cluster_config node peers election heartbeat) = Return None \<and> se_cluster s = c"
  using assms
  by (auto simp: NewServer_with_def server_NewServer_def last_option_decides Let_def split: if_splits outcome.splits option.splits)

section \<open>A server and its raft nodes\<close>

text \<open>\<open>sn_monitor\<close>: the goroutine that receives from the apply channel of the server's own node.\<close>

record ('c, 'msg) server_nodes =
  sn_server :: "'c cluster_life MetadataServer"
  sn_core :: "('c, 'msg) raft_loop"
  sn_own :: "('c, 'msg) raft_loop"
  sn_monitor :: bool

definition election_of :: "'c cluster_life MetadataServer \<Rightarrow> 'c election_manager" where
  "election_of s = cm_electionMgr (lf_manager (se_cluster s))"

text \<open>The events of a node that its own two loops cause.\<close>

fun own_event :: "('c, 'msg) loop_event \<Rightarrow> bool" where
  "own_event (EPropose _ _) = False"
| "own_event EStop = False"
| "own_event EReceive = False"
| "own_event _ = True"

inductive nodes_run :: "'c loop_env \<Rightarrow> 'c \<Rightarrow> ('c, 'msg) server_nodes \<Rightarrow> bool"
  for v ec where
  nodes_made: "server_NewServer (own_core text_of st ec now rnd) (own_cluster text_of st ec now' rnd') store None cfg = Return (Inr s) \<Longrightarrow>
    nodes_run v ec \<lparr>sn_server = s, sn_core = start_loop ec, sn_own = start_loop ec, sn_monitor = False\<rparr>"
| nodes_start: "nodes_run v ec n \<Longrightarrow> MetadataServer_Start Cluster_Start t1 t2 (sn_server n) = (s, err) \<Longrightarrow>
    nodes_run v ec (n\<lparr>sn_server := s, sn_monitor := sn_monitor n \<or> err = None\<rparr>)"
| nodes_stop: "nodes_run v ec n \<Longrightarrow> MetadataServer_Stop life_Stop (sn_server n) = Return (s, err) \<Longrightarrow>
    nodes_run v ec (n\<lparr>sn_server := s, sn_own := if IsRunning (sn_server n) then client_stop (sn_own n) else sn_own n\<rparr>)"
| nodes_monitor_exit: "nodes_run v ec n \<Longrightarrow> em_cancelled (election_of (sn_server n)) \<Longrightarrow> nodes_run v ec (n\<lparr>sn_monitor := False\<rparr>)"
| nodes_own: "nodes_run v ec n \<Longrightarrow> loop_exec v e (sn_own n) = Some (Return l) \<Longrightarrow> e \<noteq> EStop \<Longrightarrow> (e = EReceive \<Longrightarrow> sn_monitor n) \<Longrightarrow>
    nodes_run v ec (n\<lparr>sn_own := l\<rparr>)"
| nodes_core: "nodes_run v ec n \<Longrightarrow> loop_exec v e (sn_core n) = Some (Return l) \<Longrightarrow> own_event e \<Longrightarrow>
    nodes_run v ec (n\<lparr>sn_core := l\<rparr>)"

text \<open>Only a stop sets the stop flag.\<close>

lemma exec_stop_flag:
  assumes "loop_exec v e s = Some (Return s')" "e \<noteq> EStop"
  shows "rn_stopped (lp_node s') = rn_stopped (lp_node s)"
  using assms
  by (cases e) (auto simp: run_act_todo(3) run_ready_def run_exit_def serve_proposal_def serve_exit_def client_propose_def
      client_receive_def split: if_splits list.splits option.splits bool.splits)

lemma exec_own_event:
  assumes "loop_exec v e s = Some (Return s')" "own_event e" "\<not> rn_stopped (lp_node s)"
  shows "lp_run s' = lp_run s" "lp_serve s' = lp_serve s" "lp_accepted s' = lp_accepted s"
proof -
  have "lp_run s' = lp_run s \<and> lp_serve s' = lp_serve s \<and> lp_accepted s' = lp_accepted s"
  proof (cases e)
    case EAct
    with assms(1) have "run_act (le_applyCap v) s = Some (Return s')" by simp
    moreover from this obtain a as where "lp_todo s = a # as" by (cases "lp_todo s") (auto simp: run_act_def)
    ultimately show ?thesis by (cases a) (auto simp: run_act_def split: option.splits)
  qed (use assms in \<open>auto simp: run_ready_def run_exit_def serve_proposal_def serve_exit_def split: if_splits list.splits\<close>)
  then show "lp_run s' = lp_run s" "lp_serve s' = lp_serve s" "lp_accepted s' = lp_accepted s" by auto
qed

definition orphan :: "('c, 'msg) raft_loop \<Rightarrow> bool" where
  "orphan l \<longleftrightarrow> lp_run l \<and> lp_serve l \<and> \<not> rn_stopped (lp_node l) \<and> lp_received l = [] \<and> lp_accepted l = []"

lemma orphan_exec: "orphan l \<Longrightarrow> loop_exec v e l = Some (Return l') \<Longrightarrow> own_event e \<Longrightarrow> orphan l'"
  using exec_own_event [of v e l l'] exec_stop_flag [of v e l l'] exec_no_receive [of v e l l']
  by (cases e) (auto simp: orphan_def)

lemma new_server_unstopped:
  assumes "server_NewServer (own_core text_of st ec now rnd) (own_cluster text_of st ec now' rnd') store None cfg = Return (Inr s)"
  shows "\<not> rn_stopped (em_raftNode (election_of s))" "\<not> em_cancelled (election_of s)"
proof -
  obtain m ccfg where m: "Cluster_NewManager st ec now' rnd' ccfg = Return (Inr m)" "se_cluster s = new_life m"
    using assms by (auto simp: server_NewServer_def own_cluster_def Let_def split: option.splits if_splits outcome.splits sum.splits)
  then obtain em where em: "Election_NewManager st ec now' rnd' (election_cfg ccfg) = Return (Inr em)" "cm_electionMgr m = em"
    by (auto simp: Cluster_NewManager_def Let_def split: if_splits outcome.splits sum.splits)
  from em(1) have "\<not> rn_stopped (em_raftNode em) \<and> \<not> em_cancelled em"
    by (auto simp: Election_NewManager_def resetElectionTimer_def NewRaftNode_def Let_def split: if_splits outcome.splits sum.splits option.splits)
  then show "\<not> rn_stopped (em_raftNode (election_of s))" "\<not> em_cancelled (election_of s)"
    using m(2) em(2) by (simp_all add: election_of_def new_life_def)
qed

definition nodes_inv :: "'c loop_env \<Rightarrow> 'c \<Rightarrow> ('c, 'msg) server_nodes \<Rightarrow> bool" where
  "nodes_inv v ec n \<longleftrightarrow> loop_reach v ec (sn_core n) \<and> loop_reach v ec (sn_own n) \<and> orphan (sn_core n) \<and>
     rn_stopped (lp_node (sn_own n)) = em_cancelled (election_of (sn_server n)) \<and>
     rn_stopped (em_raftNode (election_of (sn_server n))) = em_cancelled (election_of (sn_server n))"

lemma start_keeps_election:
  "MetadataServer_Start Cluster_Start t1 t2 s = (s', err) \<Longrightarrow> election_of s' = election_of s"
  by (auto simp: MetadataServer_Start_def Cluster_Start_def election_of_def split: if_splits prod.splits option.splits)

lemma stop_election:
  assumes "MetadataServer_Stop life_Stop s = Return (s', err)"
  shows "if IsRunning s then em_cancelled (election_of s') \<and> rn_stopped (em_raftNode (election_of s')) else s' = s"
  using assms
  by (auto simp: MetadataServer_Stop_def life_Stop_def Cluster_Stop_def Election_Stop_def election_of_def IsRunning_def
      raft_Stop_def Let_def split: if_splits outcome.splits prod.splits)

lemma nodes_run_inv: "nodes_run v ec n \<Longrightarrow> nodes_inv v ec n"
proof (induction rule: nodes_run.induct)
  case (nodes_made text_of st now rnd now' rnd' store cfg s)
  then show ?case
    using new_server_unstopped [OF nodes_made] loop_start [of v ec]
    by (simp add: nodes_inv_def orphan_def) (simp add: start_loop_def NewRaftNode_def)
next
  case (nodes_start n t1 t2 s err)
  then show ?case using start_keeps_election by (fastforce simp: nodes_inv_def)
next
  case (nodes_stop n s err)
  have "loop_reach v ec (client_stop l)" if "loop_reach v ec l" for l
    using that loop_next [of v ec l EStop] by simp
  with nodes_stop stop_election [OF nodes_stop.hyps(2)] show ?case
    by (auto simp: nodes_inv_def client_stop_def raft_Stop_def split: if_splits)
next
  case (nodes_own n e l)
  then show ?case using loop_next exec_stop_flag [OF nodes_own.hyps(2,3)] by (auto simp: nodes_inv_def)
next
  case (nodes_core n e l)
  then show ?case using loop_next orphan_exec [OF _ nodes_core.hyps(2,3)] by (auto simp: nodes_inv_def)
qed (simp add: nodes_inv_def)



definition default_env :: "unit loop_env" where
  "default_env = loop_demo\<lparr>le_applyCap := nat (rc_ApplyBufferSize DefaultConfig), le_proposeCap := nat (rc_SendBufferSize DefaultConfig)\<rparr>"

lemma demo_server_made:
  "\<exists>s. server_NewServer (own_core (\<lambda>_. PlainErr ''cluster'') (\<lambda>_ _. None) () 1 2) (own_cluster (\<lambda>_. PlainErr ''cluster'') (\<lambda>_ _. None) () 3 4)
     None None (Some (''1'', ''localhost'', 0, [''1''], 0, 0)) = Return (Inr s) \<and>
   \<not> se_running s \<and> \<not> ms_initialized (se_store s) \<and> fresh_life (se_cluster s)"
proof -
  let ?st = "\<lambda>_ _. None :: string option" and ?cfg = "cluster_config ''1'' [''1''] 0 0"
  have "ParseUint ''1'' = Inr 1" by (simp add: ParseUint_def is_digit_def)
  moreover have "cc_NodeID ?cfg = ''1''" "0 \<le> cc_ElectionTimeout ?cfg" by (simp_all add: cluster_config_def)
  ultimately obtain m1 m2 where m: "Cluster_NewManager ?st () 1 2 ?cfg = Return (Inr m1)" "Cluster_NewManager ?st () 3 4 ?cfg = Return (Inr m2)"
    using Cluster_NewManager_outcome [of ?cfg ?st "()" 1 2] Cluster_NewManager_outcome [of ?cfg ?st "()" 3 4] by (auto simp: Let_def)
  with \<open>cc_NodeID ?cfg = ''1''\<close> new_life_fresh [OF m(2)] show ?thesis
    by (simp add: server_NewServer_def own_core_def own_cluster_def NewMetaCore_def NewMemoryStore_def Let_def)
qed


end
