(* ===== verification/Spec2Isabelle.thy ===== *)
theory Spec2Isabelle
  imports Prelude GoPath Errors MemStore LockMgr TxMgr NodeTypes Heartbeat Strategy Migrator
    RebalanceMgr RaftStorage Election ClusterMgr FileApi RateLimit TokenMgr AuthSvc ConfigLoader
    Database Namespace HttpNet Logging MetaServer RepoImpl Pipeline HeartbeatNet AdminApi Hashing
    Lifecycle RaftWire HttpContext Watcher DbAccess RaftLoop LogCalls ServerNodes
begin

text \<open>
  \<^bold>\<open>Verification of DFS, the metadata server of a distributed file system.\<close>

  The program is a Go module under \<^verbatim>\<open>src/\<close>. A metadata server answers HTTP requests for files and
  directories from an in-memory store, and runs a cluster manager that detects failed nodes by
  heartbeats, elects a leader with the etcd raft library and rebalances shards between nodes. Beside
  these stand a core over an SQL database (locks, transactions, a namespace), security (tokens, users,
  permissions), and the common packages for errors, configuration, logging, HTTP and metrics.

  \<^bold>\<open>Theories and sources.\<close> Paths are below \<^verbatim>\<open>src/\<close>; \<^verbatim>\<open>M\<close> stands for \<^verbatim>\<open>internal/metaserver\<close>.

    \<^item> \<open>Prelude\<close>: times and durations, maps with the order of a loop over them, bounded channels,
      outcomes that return or panic. \<open>GoPath\<close>: the packages \<^verbatim>\<open>path\<close> and \<^verbatim>\<open>strings\<close> as far as used.
    \<^item> \<open>Errors\<close>: \<^verbatim>\<open>common/errors\<close>. \<open>NodeTypes\<close>: \<^verbatim>\<open>common/types\<close>.
    \<^item> \<open>MemStore\<close>: \<^verbatim>\<open>M/server/store.go\<close>. \<open>FileApi\<close>: the handlers in \<^verbatim>\<open>M/server/api\<close> with the JSON decoding
      they rely on. \<open>RateLimit\<close>: \<^verbatim>\<open>M/server/middleware/rate_limit.go\<close>. \<open>HttpNet\<close>: \<^verbatim>\<open>common/network/http\<close>,
      \<^verbatim>\<open>common/metrics\<close>, and the routes of the server. \<open>HttpContext\<close>: the context, request options and
      basic authentication of the same package. \<open>MetaServer\<close>: \<^verbatim>\<open>M/server/server.go\<close>. \<open>Pipeline\<close>: a request
      through the whole chain of middleware to the handlers. \<open>AdminApi\<close>: \<^verbatim>\<open>admin.go\<close> and \<^verbatim>\<open>cluster.go\<close> of
      \<^verbatim>\<open>M/server/api/v1\<close>, and the views of the cluster manager they show.
    \<^item> \<open>LockMgr\<close>, \<open>TxMgr\<close>, \<open>Namespace\<close>: \<^verbatim>\<open>M/core/metadata\<close> (\<open>TxMgr\<close> also the transaction middleware,
      \<open>Namespace\<close> also \<^verbatim>\<open>M/core/core.go\<close>). \<open>Database\<close>: \<^verbatim>\<open>M/core/database\<close> and the tags of \<^verbatim>\<open>M/core/models\<close>.
      \<open>RepoImpl\<close>: \<^verbatim>\<open>M/core/metadata/namespace/repository_impl.go\<close>. \<open>DbAccess\<close>: the generic repositories on the
      database, the wrapper of a transaction, and the metadata manager made of them.
    \<^item> \<open>Heartbeat\<close>, \<open>Election\<close>, \<open>ClusterMgr\<close>: the managers in \<^verbatim>\<open>M/core/cluster\<close>. \<open>Strategy\<close>, \<open>Migrator\<close>,
      \<open>RebalanceMgr\<close>: \<^verbatim>\<open>M/core/cluster/rebalance\<close>. \<open>RaftStorage\<close>: \<^verbatim>\<open>common/consensus/raft\<close>. \<open>RaftWire\<close>: the
      transports around a raft node and the storage wrapper. \<open>RaftLoop\<close>: the loops of a raft node, its
      clients and the example in \<^verbatim>\<open>transport.go\<close>. \<open>HeartbeatNet\<close>: heartbeats over the HTTP client between
      several servers. \<open>Lifecycle\<close>: starting and stopping the managers and their goroutines. \<open>ServerNodes\<close>:
      the options of a server and its two raft nodes.
    \<^item> \<open>TokenMgr\<close>, \<open>AuthSvc\<close>: \<^verbatim>\<open>common/security\<close> and \<^verbatim>\<open>M/server/middleware/auth.go\<close>.
    \<^item> \<open>ConfigLoader\<close>: \<^verbatim>\<open>common/config\<close> and \<^verbatim>\<open>M/config\<close>. \<open>Watcher\<close>: the file watcher at work. \<open>Logging\<close>: \<^verbatim>\<open>common/logging\<close>.
      \<open>LogCalls\<close>: the calls on loggers and the redirection of the standard log. \<open>Hashing\<close>:
      \<^verbatim>\<open>common/utils/hash.go\<close> and \<^verbatim>\<open>main.go\<close>.

  \<^bold>\<open>How code becomes definitions.\<close> A struct is a record whose field names carry a prefix of two or
  three letters, an enumeration a datatype, a method a function that takes the state last and returns
  it updated. An error is a value of \<open>go_error\<close>, with a wrapped cause where the code wraps one; a panic
  is \<open>Panic\<close> of the type \<open>outcome\<close>. A map is a partial map; where the code loops over a map, the order
  of the loop is an argument, and the theorems hold for every list that enumerates the keys. Readings
  of the clock (in nanoseconds), random numbers and generated identifiers are arguments as well, one
  per call in the source. Integers are unbounded where the code cannot reach a limit, and wrapped
  where it can: the raft indexes are words of 64 bits, the backoff of the HTTP client and the fields of a configuration wrap at
  the width of their kind. A \<^verbatim>\<open>float64\<close> is a real number. Pointers that are shared are
  addresses in an explicit heap: the metadata of errors, migration tasks, loggers with their levels.
  Goroutines are separate steps of an inductive step relation, so that every interleaving is covered,
  and a critical section is one step. Messages in Chinese are given in English.

  \<^bold>\<open>What is a parameter.\<close> Code that is not in the repository is never defined here: the etcd raft
  node (a \<^verbatim>\<open>Ready\<close> is given; its documented properties are hypotheses, \<open>library_ok\<close> for a sequence of them), the JWT library (signing and
  parsing with the law \<open>jwt_library\<close>), the SQL driver (what each statement answers), the decoders and
  the validator of configurations, the network, the choice of a route by the mux library (with the law
  \<open>mux_law\<close>), JSON and base64, the digest functions, the raft storage of the etcd library, and the zap
  logging library, whose loggers are the terms of the calls that built them
  (with the law \<open>zap_writes\<close> for what it writes). Each hypothesis has an instance in the witness of its theorem.

  \<^bold>\<open>Interfaces.\<close> What one component relies on in another is a locale, interpreted on the model:
  \<open>file_store\<close> (the store, for its clients), \<open>tx_service\<close> (the transaction manager, for
  \<^verbatim>\<open>WithTransaction\<close> and the middleware), \<open>balance_strategy\<close> (the strategies, for the rebalance manager),
  \<open>logger_interface\<close> (the zap and the test logger), \<open>cluster_service\<close> (the cluster manager, for the
  server), and \<open>background_service\<close> with its extensions \<open>closing_service\<close> and \<open>cancelling_service\<close> (a
  manager that runs goroutines, for whoever starts and stops it).

  \<^bold>\<open>What is shown.\<close>

    \<^item> Store: the invariant of all reachable stores, the effect of each operation on every branch,
      the round trip of creating, reading and deleting under every spelling of a path, listings as a
      specified selection; that no directory below the root can be created. Over HTTP the life of a
      file with its status codes, and which parts of a request are dropped. Through the whole chain of
      middleware every request is answered, a handler is reached exactly when the limiter admits the
      address, and a run of requests keeps the invariant and every bound.
    \<^item> Locks and transactions: a granted lock keeps others out until it is released or expires; \<^verbatim>\<open>Lock\<close>
      returns; a transaction is decided once in every interleaving; all endings of \<^verbatim>\<open>WithTransaction\<close>.
    \<^item> Database: statements have as many placeholders as arguments, migrations are applied once, the
      schema can be initialised only once, the namespace resolves nothing but the root, and the core
      never starts on its default repositories. The repositories read back what they wrote on tables of
      the layout they expect, and find nothing on those of the schema; of the generic ones, those for
      chunks and replicas can insert and read one row.
    \<^item> Cluster: the state machine of a node, delivery of notifications in order, detection of a silent
      node, the deadlock of mass failures, limits of the migrator, well-formed plans of every strategy,
      the spacing of rebalancings, and that no cluster manager ever learns its leader. Heartbeats reach
      no server over the network, in any fleet. The views of the administration agree with the managers.
      Goroutines end after a stop and only then; the shutdown of the migrator ends.
    \<^item> Consensus: handling a \<^verbatim>\<open>Ready\<close> refines an abstract log, and delivers each committed entry once; a
      node whose loops interleave with its clients refines the handling of each \<^verbatim>\<open>Ready\<close> at once, with
      messages and proposals in order; its loop ends when it is stopped and drained, and never once the
      apply channel is full and nobody receives; the node of a server's core is never stopped. No
      message that is handed to a transport arrives.
    \<^item> Security: revoked tokens are never refreshed, tokens verify to what they were made with, the rate
      limiter agrees with one that keeps the whole history, the default service admits nobody;
      basic credentials arrive unchanged exactly when the user name has no colon. Hashing a stream is
      hashing its content.
    \<^item> Configuration: where each field comes from, the bounds of what loads, kinds are kept; the watcher catches
      up with its file. Logging:
      the level a logger reads is the one of its configuration, and decides which calls are written. HTTP client: bounded retries. Server:
      one life of a server, and the crash of a second one.

  \<^bold>\<open>Bounds and fuel.\<close> No function needs fuel from outside. The retry loop of \<^verbatim>\<open>Lock\<close> is given 302 rounds:
  it waits 100 ms between two attempts and gives up after 30 s, so more rounds never run, which is
  proved. The retry loop of the HTTP client runs at most one turn more than its retries. Channels have
  the capacities of the source: 100 notifications and tasks, 10 leader changes, 1024 proposals and applied messages.

  \<^bold>\<open>Not modelled.\<close> The data server and the chunk types, which are declarations without operations; the
  entry points under \<^verbatim>\<open>cmd\<close>, whose bodies are empty or commented out. Several
  files do not compile as they are (\<^verbatim>\<open>M/server/server.go\<close>, the heartbeat manager, the namespace
  manager and its repositories, the administration handlers); they are modelled as they are meant to be read, without the calls that name what does not
  exist, and the manifest lists these places as findings. Time itself, the scheduling of goroutines
  beyond interleaving, and memory are not modelled.
\<close>

section \<open>From a configuration to a running server\<close>



end
